(* ===== verification/ListenerTable.thy ===== *)
theory ListenerTable
  imports Prelude
begin

text \<open>
  The listener table that \<open>EventBus\<close> (\<open>events/EventBus.ts\<close>) and \<open>AwaitingRegistry\<close>
  (\<open>evaluation/awaiting.ts\<close>) both keep: a \<open>Map\<close> from a key to a mutable \<open>Set\<close> of listeners.
  The unsubscribe closure of a subscription captures the \<open>Set\<close> object itself and the key, so
  the sets live in an explicit store (\<open>lt_heap\<close>) addressed by reference; two sets registered
  one after the other under the same key are different references. Listeners are functions
  compared by identity; they are numbered.

  The locale \<open>subscriptions\<close> is the contract the clients of such a table rely on; it is
  interpreted on the table here and on the two components in their own theories.
\<close>

section \<open>The table\<close>

record ltable =
  lt_map :: "(string \<times> nat) list"
  lt_heap :: "nat \<Rightarrow> nat list"
  lt_next :: nat

text \<open>What the unsubscribe closure captures.\<close>

record handle =
  h_key :: string
  h_ref :: nat
  h_listener :: nat

definition lt_set :: "'a ltable_scheme \<Rightarrow> string \<Rightarrow> nat list" where
  "lt_set t k = (case map_of (lt_map t) k of None \<Rightarrow> [] | Some r \<Rightarrow> lt_heap t r)"

definition lt_on :: "string \<Rightarrow> nat \<Rightarrow> 'a ltable_scheme \<Rightarrow> handle \<times> 'a ltable_scheme" where
  "lt_on k l t =
     (let t1 = (if map_of (lt_map t) k = None
                then t\<lparr>lt_map := AList.update k (lt_next t) (lt_map t),
                       lt_heap := (lt_heap t)(lt_next t := []),
                       lt_next := Suc (lt_next t)\<rparr>
                else t);
          r = the (map_of (lt_map t1) k)
      in (\<lparr>h_key = k, h_ref = r, h_listener = l\<rparr>,
          t1\<lparr>lt_heap := (lt_heap t1)(r := set_add l (lt_heap t1 r))\<rparr>))"

definition lt_off :: "handle \<Rightarrow> 'a ltable_scheme \<Rightarrow> 'a ltable_scheme" where
  "lt_off h t =
     (let s = removeAll (h_listener h) (lt_heap t (h_ref h));
          t1 = t\<lparr>lt_heap := (lt_heap t)(h_ref h := s)\<rparr>
      in if s = [] then t1\<lparr>lt_map := AList.delete (h_key h) (lt_map t1)\<rparr> else t1)"

text \<open>
  The invariant: one entry per key, no set under two keys, references allocated, and no
  empty set left registered.
\<close>

definition lt_ok :: "'a ltable_scheme \<Rightarrow> bool" where
  "lt_ok t \<longleftrightarrow> distinct (map fst (lt_map t)) \<and> distinct (map snd (lt_map t)) \<and>
     (\<forall>r \<in> set (map snd (lt_map t)). r < lt_next t \<and> distinct (lt_heap t r) \<and> lt_heap t r \<noteq> [])"

text \<open>A handle is live while the set it captured is the one registered under its key.\<close>

definition lt_live :: "handle \<Rightarrow> 'a ltable_scheme \<Rightarrow> bool" where
  "lt_live h t \<longleftrightarrow> map_of (lt_map t) (h_key h) = Some (h_ref h)"

lemma map_of_in_snd: "map_of m k = Some r \<Longrightarrow> r \<in> set (map snd m)"
  by (force dest: map_of_SomeD)

lemma map_of_snd_inj:
  assumes "distinct (map snd m)" "map_of m k = Some r" "map_of m k' = Some r"
  shows "k = k'"
  using assms by (induction m) (auto dest: map_of_in_snd split: if_splits)

lemma snd_update_new:
  "map_of m k = None \<Longrightarrow> map snd (AList.update k v m) = map snd m @ [v]"
  by (induction m) (auto split: if_splits)

lemma fst_update_new:
  "map_of m k = None \<Longrightarrow> map fst (AList.update k v m) = map fst m @ [k]"
  by (induction m) (auto split: if_splits)

lemma snd_delete_subset: "set (map snd (AList.delete k m)) \<subseteq> set (map snd m)"
  by (auto simp: AList.delete_eq)

lemma distinct_snd_delete: "distinct (map snd m) \<Longrightarrow> distinct (map snd (AList.delete k m))"
  by (simp add: AList.delete_eq distinct_map_filter)

lemma lt_ok_empty: "lt_ok \<lparr>lt_map = [], lt_heap = hp, lt_next = n, \<dots> = x\<rparr>"
  by (simp add: lt_ok_def)

lemma lt_on_new:
  assumes "map_of (lt_map t) k = None"
  shows "lt_on k l t = (\<lparr>h_key = k, h_ref = lt_next t, h_listener = l\<rparr>,
     t\<lparr>lt_map := AList.update k (lt_next t) (lt_map t),
       lt_heap := (lt_heap t)(lt_next t := [l]), lt_next := Suc (lt_next t)\<rparr>)"
  using assms by (simp add: lt_on_def Let_def set_add_def)

lemma lt_on_old:
  assumes "map_of (lt_map t) k = Some r"
  shows "lt_on k l t = (\<lparr>h_key = k, h_ref = r, h_listener = l\<rparr>,
     t\<lparr>lt_heap := (lt_heap t)(r := set_add l (lt_heap t r))\<rparr>)"
  using assms by (simp add: lt_on_def)

lemma lt_ok_on:
  assumes "lt_ok t" shows "lt_ok (snd (lt_on k l t))"
proof (cases "map_of (lt_map t) k")
  case None
  with assms show ?thesis
    by (auto simp: lt_on_new lt_ok_def snd_update_new fst_update_new map_of_eq_None_iff)
next
  case (Some r)
  with assms show ?thesis by (auto simp: lt_on_old lt_ok_def set_add_def)
qed

lemma lt_set_on:
  assumes "lt_ok t"
  shows "lt_set (snd (lt_on k l t)) k' = (if k' = k then set_add l (lt_set t k) else lt_set t k')"
proof (cases "map_of (lt_map t) k")
  case None
  have "r \<noteq> lt_next t" if "map_of (lt_map t) k' = Some r" for r
    using assms map_of_in_snd [OF that] by (auto simp: lt_ok_def)
  with None show ?thesis
    by (auto simp: lt_on_new lt_set_def set_add_def split: option.splits)
next
  case (Some r)
  have "r' \<noteq> r" if "map_of (lt_map t) k' = Some r'" "k' \<noteq> k" for r'
    using assms map_of_snd_inj [of "lt_map t" k' r k] that Some by (auto simp: lt_ok_def)
  with Some show ?thesis by (auto simp: lt_on_old lt_set_def split: option.splits)
qed

lemma lt_live_on: "lt_live (fst (lt_on k l t)) (snd (lt_on k l t))"
  by (cases "map_of (lt_map t) k") (simp_all add: lt_on_new lt_on_old lt_live_def)

lemma lt_live_on_other:
  "lt_live h t \<Longrightarrow> lt_live h (snd (lt_on k l t))"
  by (cases "map_of (lt_map t) k") (auto simp: lt_on_new lt_on_old lt_live_def)

lemma lt_handle_on:
  "h_key (fst (lt_on k l t)) = k" "h_listener (fst (lt_on k l t)) = l"
  by (cases "map_of (lt_map t) k"; simp add: lt_on_new lt_on_old)+

lemma lt_ok_off:
  assumes "lt_ok t" "lt_live h t" shows "lt_ok (lt_off h t)"
proof -
  have inj: "k = h_key h" if "map_of (lt_map t) k = Some (h_ref h)" for k
    using assms that map_of_snd_inj by (fastforce simp: lt_ok_def lt_live_def)
  have "h_ref h \<notin> set (map snd (AList.delete (h_key h) (lt_map t)))"
  proof
    assume "h_ref h \<in> set (map snd (AList.delete (h_key h) (lt_map t)))"
    then obtain k where "(k, h_ref h) \<in> set (lt_map t)" "k \<noteq> h_key h"
      by (auto simp: AList.delete_eq)
    with assms(1) inj show False by (auto simp: lt_ok_def)
  qed
  with assms show ?thesis
    using snd_delete_subset [of "h_key h" "lt_map t"]
    by (auto simp: lt_ok_def lt_off_def Let_def distinct_snd_delete distinct_delete
             simp del: set_map intro: distinct_removeAll)
qed

lemma lt_set_off:
  assumes "lt_ok t" "lt_live h t"
  shows "lt_set (lt_off h t) k =
    (if k = h_key h then removeAll (h_listener h) (lt_set t k) else lt_set t k)"
proof -
  have "r \<noteq> h_ref h" if "map_of (lt_map t) k = Some r" "k \<noteq> h_key h" for r
    using assms that map_of_snd_inj [of "lt_map t" k r "h_key h"]
    by (auto simp: lt_ok_def lt_live_def)
  with assms show ?thesis
    by (auto simp: lt_off_def Let_def lt_set_def lt_live_def split: option.splits)
qed

section \<open>The contract of a table of subscriptions\<close>

datatype ('k, 'l, 'h) sub_op = SubOp 'k 'l | UnsubOp 'h

locale subscriptions =
  fixes sub :: "'k \<Rightarrow> 'l \<Rightarrow> 's \<Rightarrow> 'h \<times> 's"
    and unsub :: "'h \<Rightarrow> 's \<Rightarrow> 's"
    and subs :: "'s \<Rightarrow> 'k \<Rightarrow> 'l list"
    and hkey :: "'h \<Rightarrow> 'k"
    and hlis :: "'h \<Rightarrow> 'l"
    and live :: "'h \<Rightarrow> 's \<Rightarrow> bool"
    and ok :: "'s \<Rightarrow> bool"
  assumes sub_ok: "ok s \<Longrightarrow> ok (snd (sub k l s))"
    and sub_subs: "ok s \<Longrightarrow>
      subs (snd (sub k l s)) k' = (if k' = k then set_add l (subs s k) else subs s k')"
    and sub_live: "live (fst (sub k l s)) (snd (sub k l s))"
    and sub_handle: "hkey (fst (sub k l s)) = k" "hlis (fst (sub k l s)) = l"
    and unsub_ok: "ok s \<Longrightarrow> live h s \<Longrightarrow> ok (unsub h s)"
    and unsub_subs: "ok s \<Longrightarrow> live h s \<Longrightarrow>
      subs (unsub h s) k = (if k = hkey h then removeAll (hlis h) (subs s k) else subs s k)"
begin

lemma unsub_after_sub:
  assumes "ok s" "l \<notin> set (subs s k)"
  shows "subs (unsub (fst (sub k l s)) (snd (sub k l s))) k' = subs s k'"
  using assms by (simp add: unsub_subs sub_ok sub_live sub_subs sub_handle set_add_def)

text \<open>A client that only ever uses handles while they are live.\<close>

fun run_ops :: "('k, 'l, 'h) sub_op list \<Rightarrow> 's \<Rightarrow> 's" where
  "run_ops [] s = s"
| "run_ops (SubOp k l # ops) s = run_ops ops (snd (sub k l s))"
| "run_ops (UnsubOp h # ops) s = run_ops ops (unsub h s)"

fun disciplined :: "('k, 'l, 'h) sub_op list \<Rightarrow> 's \<Rightarrow> bool" where
  "disciplined [] s = True"
| "disciplined (SubOp k l # ops) s = disciplined ops (snd (sub k l s))"
| "disciplined (UnsubOp h # ops) s = (live h s \<and> disciplined ops (unsub h s))"

lemma run_ops_ok: "ok s \<Longrightarrow> disciplined ops s \<Longrightarrow> ok (run_ops ops s)"
  by (induction ops s rule: run_ops.induct) (auto simp: sub_ok unsub_ok)

lemma subscription_kept:
  assumes "ok s" "disciplined ops s" "l \<in> set (subs s k)"
    and "\<And>h. UnsubOp h \<in> set ops \<Longrightarrow> hkey h \<noteq> k \<or> hlis h \<noteq> l"
  shows "l \<in> set (subs (run_ops ops s) k)"
  using assms
proof (induction ops s rule: run_ops.induct)
  case (2 k' l' ops s)
  have "ok (snd (sub k' l' s))" "l \<in> set (subs (snd (sub k' l' s)) k)"
    using "2.prems" by (auto simp: sub_ok sub_subs)
  with "2.IH" "2.prems" show ?case by auto
next
  case (3 h ops s)
  then have "ok (unsub h s)" "l \<in> set (subs (unsub h s) k)"
    by (auto simp: unsub_ok unsub_subs)
  with "3.IH" "3.prems" show ?case by auto
qed simp

end

interpretation ltab: subscriptions
    "lt_on :: string \<Rightarrow> nat \<Rightarrow> 'a ltable_scheme \<Rightarrow> handle \<times> 'a ltable_scheme"
    lt_off lt_set h_key h_listener lt_live lt_ok
  by unfold_locales
    (auto simp: lt_ok_on lt_set_on lt_live_on lt_handle_on lt_ok_off lt_set_off)

end
