(* ===== verification/Routing.thy ===== *)
theory Routing
  imports Prelude
begin

text \<open>
  Identity-keyed routing of cross-trait events: \<open>events/identity/routing.ts\<close> (the bus key of an
  event, the source-scope matcher of a \<open>listens\<close> entry and its parser) and
  \<open>events/emit-stamp.ts\<close> (the stamp an emit's source carries). Ids and names are strings; an
  absent field is \<open>None\<close>.
\<close>

section \<open>The bus key\<close>

definition eventRouteKey :: "string \<Rightarrow> string option \<Rightarrow> string" where
  "eventRouteKey eventName eventId =
     (case eventId of
        None \<Rightarrow> eventName
      | Some i \<Rightarrow> if i = '''' then eventName else ''@evt:'' @ i)"

section \<open>Matching the source of an event\<close>

datatype listen_source =
    AnySource
  | TraitSource string "string option" \<comment> \<open>\<open>trait\<close>, \<open>traitId?\<close>\<close>
  | OrbitalSource string string "string option" "string option"
      \<comment> \<open>\<open>orbital\<close>, \<open>trait\<close>, \<open>orbitalId?\<close>, \<open>traitId?\<close>\<close>

record route_meta =
  m_orbital :: "string option"
  m_orbitalId :: "string option"
  m_trait :: "string option"
  m_traitId :: "string option"

type_synonym source_matcher = "route_meta option \<Rightarrow> bool"

fun buildSourceMatcher :: "listen_source \<Rightarrow> string \<Rightarrow> source_matcher" where
  "buildSourceMatcher AnySource listenerOrbital source = True"
| "buildSourceMatcher (TraitSource wantedTrait traitId) listenerOrbital source =
     (case source of
        None \<Rightarrow> False
      | Some m \<Rightarrow>
          (case traitId of
             Some wantedTraitId \<Rightarrow> m_traitId m = Some wantedTraitId
           | None \<Rightarrow> m_orbital m = Some listenerOrbital \<and> m_trait m = Some wantedTrait))"
| "buildSourceMatcher (OrbitalSource wantedOrbital wantedTrait orbitalId traitId) listenerOrbital source =
     (case source of
        None \<Rightarrow> False
      | Some m \<Rightarrow>
          (case (orbitalId, traitId) of
             (Some wantedOrbitalId, Some wantedTraitId) \<Rightarrow>
               m_orbitalId m = Some wantedOrbitalId \<and> m_traitId m = Some wantedTraitId
           | _ \<Rightarrow> m_orbital m = Some wantedOrbital \<and> m_trait m = Some wantedTrait))"

section \<open>Parsing a \<open>listens\<close> entry\<close>

record listen_entry =
  l_event :: string
  l_source :: "listen_source option"

definition parseListenSource :: "listen_entry \<Rightarrow> string \<Rightarrow> string \<times> source_matcher" where
  "parseListenSource listener listenerOrbital =
     (case l_source listener of
        Some explicit \<Rightarrow> (l_event listener, buildSourceMatcher explicit listenerOrbital)
      | None \<Rightarrow>
          (let key = l_event listener; parts = split_on (CHR ''.'') key in
           if length parts = 1 then (key, \<lambda>_. True)
           else if length parts = 2 then
             (let sourceOrStar = parts ! 0; eventName = parts ! 1 in
              if sourceOrStar = ''*'' then (eventName, \<lambda>_. True)
              else (eventName, buildSourceMatcher (TraitSource sourceOrStar None) listenerOrbital))
           else
             (let eventName = parts ! (length parts - 1);
                  trait = parts ! (length parts - 2);
                  orbital = join_with ''.'' (take (length parts - 2) parts)
              in (eventName, buildSourceMatcher (OrbitalSource orbital trait None None) listenerOrbital))))"

section \<open>Stamping the source of an emit\<close>

record bus_source =
  s_orbital :: string
  s_trait :: string
  s_orbitalId :: "string option"
  s_traitId :: "string option"
  s_eventId :: "string option"
  s_originClientId :: "string option"

record stamp_identity =
  i_orbitalName :: string
  i_traitName :: string
  i_orbitalId :: "string option"
  i_traitId :: "string option"
  i_emitContractEventId :: "string option"
  i_originClientId :: "string option"

text \<open>\<open>if (stamp.f === undefined && identity.f !== undefined) stamp.f = identity.f\<close>.\<close>

definition fill :: "'a option \<Rightarrow> 'a option \<Rightarrow> 'a option" where
  "fill held given = (case held of None \<Rightarrow> given | Some v \<Rightarrow> Some v)"

definition stampEmitSource :: "bus_source option \<Rightarrow> stamp_identity \<Rightarrow> bus_source" where
  "stampEmitSource source identity =
     (let stamp = (case source of
            Some s \<Rightarrow> s
          | None \<Rightarrow> \<lparr>s_orbital = i_orbitalName identity, s_trait = i_traitName identity,
                     s_orbitalId = None, s_traitId = None, s_eventId = None,
                     s_originClientId = None\<rparr>);
          stamp = stamp\<lparr>s_orbitalId := fill (s_orbitalId stamp) (i_orbitalId identity)\<rparr>;
          stamp = stamp\<lparr>s_traitId := fill (s_traitId stamp) (i_traitId identity)\<rparr>;
          stamp = stamp\<lparr>s_eventId := fill (s_eventId stamp) (i_emitContractEventId identity)\<rparr>;
          stamp = stamp\<lparr>s_originClientId := fill (s_originClientId stamp) (i_originClientId identity)\<rparr>
      in stamp)"

text \<open>The part of a stamp a matcher reads.\<close>

definition route_meta_of :: "bus_source \<Rightarrow> route_meta" where
  "route_meta_of s = \<lparr>m_orbital = Some (s_orbital s), m_orbitalId = s_orbitalId s,
                      m_trait = Some (s_trait s), m_traitId = s_traitId s\<rparr>"

section \<open>Lemmas\<close>

lemma fill_simps [simp]:
  "fill None x = x" "fill (Some v) x = Some v" "fill (fill a b) b = fill a b"
  by (auto simp: fill_def split: option.splits)

lemma fill_eq_None [simp]: "fill a b = None \<longleftrightarrow> a = None \<and> b = None"
  by (auto simp: fill_def split: option.splits)

lemma stamp_fields:
  "s_orbitalId (stampEmitSource src i) = fill (Option.bind src s_orbitalId) (i_orbitalId i)"
  "s_traitId (stampEmitSource src i) = fill (Option.bind src s_traitId) (i_traitId i)"
  "s_eventId (stampEmitSource src i) = fill (Option.bind src s_eventId) (i_emitContractEventId i)"
  "s_originClientId (stampEmitSource src i) = fill (Option.bind src s_originClientId) (i_originClientId i)"
  "s_orbital (stampEmitSource src i) = (case src of None \<Rightarrow> i_orbitalName i | Some s \<Rightarrow> s_orbital s)"
  "s_trait (stampEmitSource src i) = (case src of None \<Rightarrow> i_traitName i | Some s \<Rightarrow> s_trait s)"
  by (cases src; simp add: stampEmitSource_def Let_def)+

lemma stamp_idem: "stampEmitSource (Some (stampEmitSource src i)) i = stampEmitSource src i"
  by (simp add: stampEmitSource_def Let_def split: option.splits)

text \<open>The legacy string form: what splitting a joined key gives back.\<close>

lemma split_join_key:
  assumes "\<And>w. w \<in> set ws \<Longrightarrow> CHR ''.'' \<notin> set w" "ws \<noteq> []"
  shows "split_on (CHR ''.'') (join_with ''.'' ws) = ws"
  using split_on_join [OF assms(2,1)] by simp

lemma parse_bare:
  assumes "CHR ''.'' \<notin> set ev" "l_event e = ev" "l_source e = None"
  shows "parseListenSource e lo = (ev, \<lambda>_. True)"
  using assms by (simp add: parseListenSource_def split_on_no_sep)

lemma parse_two:
  assumes "CHR ''.'' \<notin> set src" "CHR ''.'' \<notin> set ev"
    and "l_event e = join_with ''.'' [src, ev]" "l_source e = None"
  shows "parseListenSource e lo =
    (ev, if src = ''*'' then \<lambda>_. True else buildSourceMatcher (TraitSource src None) lo)"
proof -
  have "split_on (CHR ''.'') (l_event e) = [src, ev]"
    using split_join_key [of "[src, ev]"] assms by auto
  with assms(4) show ?thesis by (simp add: parseListenSource_def Let_def)
qed

lemma parse_qualified:
  assumes "\<And>w. w \<in> set (os @ [t, ev]) \<Longrightarrow> CHR ''.'' \<notin> set w" "os \<noteq> []"
    and "l_event e = join_with ''.'' (os @ [t, ev])" "l_source e = None"
  shows "parseListenSource e lo =
    (ev, buildSourceMatcher (OrbitalSource (join_with ''.'' os) t None None) lo)"
proof -
  have "split_on (CHR ''.'') (l_event e) = os @ [t, ev]"
    using split_join_key [of "os @ [t, ev]"] assms by auto
  moreover have "2 < length (os @ [t, ev])" using assms(2) by (cases os) auto
  ultimately show ?thesis
    using assms(4) by (simp add: parseListenSource_def Let_def nth_append)
qed


section \<open>Properties\<close>

text \<open>
  Id routing is rename-proof. A listener scoped by ids accepts the source stamped on an emit
  exactly when the stamp's ids (already set on the source, else the emitter's own) are the ids it
  names, whatever the orbital and trait names on either side; a listener without ids compares the
  stamped names only.
\<close>
theorem stamped_source_match:
  "(buildSourceMatcher (TraitSource n (Some t)) lo (Some (route_meta_of (stampEmitSource src i)))
      \<longleftrightarrow> fill (Option.bind src s_traitId) (i_traitId i) = Some t) \<and>
   (buildSourceMatcher (OrbitalSource o' n (Some p) (Some t)) lo (Some (route_meta_of (stampEmitSource src i)))
      \<longleftrightarrow> fill (Option.bind src s_orbitalId) (i_orbitalId i) = Some p \<and>
          fill (Option.bind src s_traitId) (i_traitId i) = Some t) \<and>
   (buildSourceMatcher (TraitSource n None) lo (Some (route_meta_of (stampEmitSource src i)))
      \<longleftrightarrow> s_orbital (stampEmitSource src i) = lo \<and> s_trait (stampEmitSource src i) = n)"
  by (auto simp: route_meta_of_def stamp_fields)

text \<open>
  The legacy listen keys parse back to what they were written from: \<open>EVENT\<close> and \<open>*.EVENT\<close>
  accept any source, \<open>Trait.EVENT\<close> the trait of the listener's own orbital, and
  \<open>O1...On.Trait.EVENT\<close> the trait of the orbital \<open>O1...On\<close>, whose name may itself contain dots.
\<close>
theorem parse_legacy_listen:
  assumes "CHR ''.'' \<notin> set ev" and "CHR ''.'' \<notin> set t" and "\<And>w. w \<in> set os \<Longrightarrow> CHR ''.'' \<notin> set w"
    and "os \<noteq> []" and "t \<noteq> ''*''"
  shows "parseListenSource \<lparr>l_event = ev, l_source = None\<rparr> lo = (ev, \<lambda>_. True) \<and>
    parseListenSource \<lparr>l_event = ''*.'' @ ev, l_source = None\<rparr> lo = (ev, \<lambda>_. True) \<and>
    parseListenSource \<lparr>l_event = t @ ''.'' @ ev, l_source = None\<rparr> lo
      = (ev, buildSourceMatcher (TraitSource t None) lo) \<and>
    parseListenSource \<lparr>l_event = join_with ''.'' (os @ [t, ev]), l_source = None\<rparr> lo
      = (ev, buildSourceMatcher (OrbitalSource (join_with ''.'' os) t None None) lo)"
  using assms parse_qualified [of os t ev "\<lparr>l_event = join_with ''.'' (os @ [t, ev]), l_source = None\<rparr>" lo]
    parse_two [of "''*''" ev "\<lparr>l_event = ''*.'' @ ev, l_source = None\<rparr>" lo]
    parse_two [of t ev "\<lparr>l_event = t @ ''.'' @ ev, l_source = None\<rparr>" lo]
  by (auto simp: parse_bare)

theorem parse_legacy_listen_witness:
  "parseListenSource \<lparr>l_event = ''shop.eu.Cart.ADD'', l_source = None\<rparr> ''x''
     = (''ADD'', buildSourceMatcher (OrbitalSource ''shop.eu'' ''Cart'' None None) ''x'')"
proof -
  have h: "\<And>w. w \<in> set [''shop'', ''eu''] \<Longrightarrow> CHR ''.'' \<notin> set w" by auto
  show ?thesis
    using parse_legacy_listen [of "''ADD''" "''Cart''" "[''shop'', ''eu'']" "''x''", OF _ _ h] by simp
qed

text \<open>
  Stamping never overwrites and is idempotent: every field already on the source is kept, an
  absent id is taken from the emitter's identity, and stamping a stamped source again changes
  nothing.
\<close>
lemma stamp_fills_only_gaps:
  "stampEmitSource (Some (stampEmitSource src i)) i = stampEmitSource src i \<and>
   stampEmitSource (Some s) i =
     s\<lparr>s_orbitalId := fill (s_orbitalId s) (i_orbitalId i),
       s_traitId := fill (s_traitId s) (i_traitId i),
       s_eventId := fill (s_eventId s) (i_emitContractEventId i),
       s_originClientId := fill (s_originClientId s) (i_originClientId i)\<rparr>"
  by (simp add: stamp_idem) (simp add: stampEmitSource_def Let_def)

end
