(* ===== verification/EventBus.thy ===== *)
theory EventBus
  imports ListenerTable Routing
begin

text \<open>
  The event bus: \<open>events/EventBus.ts\<close>. Its state is the listener table, the recursion depth
  and its limit, and the host clock \<open>emit\<close> reads. Listeners are numbered; what one does when it
  is called is a parameter \<open>beh\<close>, the list of its calls back into the bus (it may emit,
  subscribe, unsubscribe and throw) as a function of the event and of the whole bus state.
  \<open>bus_log\<close> is a ghost field: every call of a listener, with the depth it ran at. Since \<open>beh\<close>
  reads the state, its answer may depend on everything delivered before.

  \<open>emit\<close> calls listeners, which may call \<open>emit\<close>: the nesting is bounded by the circuit breaker,
  so the model recurses on a fuel of \<open>maxDepth + 1\<close> and \<open>emit_returns\<close> shows it never runs out.
\<close>

section \<open>State and listeners\<close>

record 'p bus_event =
  ev_type :: string
  ev_payload :: "'p option"
  ev_timestamp :: int
  ev_source :: "bus_source option"

record 'p delivery =
  d_listener :: nat
  d_event :: "'p bus_event"
  d_depth :: nat

record 'p bus = ltable +
  bus_maxDepth :: nat
  bus_depth :: nat
  bus_clock :: int
  bus_log :: "'p delivery list"

text \<open>The arguments of a call of \<open>emit\<close>.\<close>

record 'p emit_call =
  c_type :: string
  c_payload :: "'p option"
  c_source :: "bus_source option"
  c_routingKey :: "string option"

datatype 'p bus_action =
    AEmit "'p emit_call"
  | AOn string nat
  | AOff handle
  | AThrow

type_synonym 'p behaviour = "nat \<Rightarrow> 'p bus_event \<Rightarrow> 'p bus \<Rightarrow> 'p bus_action list"
type_synonym 'p emitter = "'p emit_call \<Rightarrow> 'p bus \<Rightarrow> 'p bus option"

definition new_bus :: "nat option \<Rightarrow> int \<Rightarrow> 'p bus" where
  "new_bus maxDepth clock =
     \<lparr>lt_map = [], lt_heap = (\<lambda>_. []), lt_next = 0,
      bus_maxDepth = (case maxDepth of None \<Rightarrow> 10 | Some d \<Rightarrow> d), bus_depth = 0,
      bus_clock = clock, bus_log = []\<rparr>"

section \<open>Subscribing and asking\<close>

definition bus_on :: "string \<Rightarrow> nat \<Rightarrow> 'p bus \<Rightarrow> handle \<times> 'p bus" where
  "bus_on type listener b = lt_on type listener b"

definition bus_off :: "handle \<Rightarrow> 'p bus \<Rightarrow> 'p bus" where
  "bus_off h b = lt_off h b"

definition bus_onAny :: "nat \<Rightarrow> 'p bus \<Rightarrow> handle \<times> 'p bus" where
  "bus_onAny listener b = bus_on ''*'' listener b"

definition hasListeners :: "'p bus \<Rightarrow> string \<Rightarrow> bool" where
  "hasListeners b type =
     (case map_of (lt_map b) type of None \<Rightarrow> False | Some r \<Rightarrow> length (lt_heap b r) > 0)"

definition getRegisteredEvents :: "'p bus \<Rightarrow> string list" where
  "getRegisteredEvents b = map fst (lt_map b)"

definition bus_clear :: "'p bus \<Rightarrow> 'p bus" where
  "bus_clear b = b\<lparr>lt_map := []\<rparr>"

definition getListenerCount :: "'p bus \<Rightarrow> string \<Rightarrow> nat" where
  "getListenerCount b type =
     (case map_of (lt_map b) type of None \<Rightarrow> 0 | Some r \<Rightarrow> length (lt_heap b r))"

section \<open>Emitting\<close>

text \<open>One listener's calls, in order; an exception ends them and is caught by the bus.\<close>

fun run_actions :: "'p emitter \<Rightarrow> 'p bus_action list \<Rightarrow> 'p bus \<Rightarrow> 'p bus option" where
  "run_actions em [] b = Some b"
| "run_actions em (AThrow # as) b = Some b"
| "run_actions em (AEmit c # as) b = Option.bind (em c b) (run_actions em as)"
| "run_actions em (AOn k l # as) b = run_actions em as (snd (bus_on k l b))"
| "run_actions em (AOff h # as) b = run_actions em as (bus_off h b)"

definition call_listener ::
  "'p emitter \<Rightarrow> 'p behaviour \<Rightarrow> 'p bus_event \<Rightarrow> nat \<Rightarrow> 'p bus \<Rightarrow> 'p bus option" where
  "call_listener em beh ev l b =
     (let b1 = b\<lparr>bus_log := bus_log b @ [\<lparr>d_listener = l, d_event = ev, d_depth = bus_depth b\<rparr>]\<rparr>
      in run_actions em (beh l ev b1) b1)"

text \<open>\<open>deliverTo\<close>: over a copy of the set, skipping a listener already delivered to.\<close>

fun deliverTo ::
  "'p emitter \<Rightarrow> 'p behaviour \<Rightarrow> 'p bus_event \<Rightarrow> nat list \<Rightarrow> nat list \<Rightarrow> 'p bus \<Rightarrow> (nat list \<times> 'p bus) option" where
  "deliverTo em beh ev delivered [] b = Some (delivered, b)"
| "deliverTo em beh ev delivered (l # ls) b =
     (if l \<in> set delivered then deliverTo em beh ev delivered ls b
      else Option.bind (call_listener em beh ev l b)
             (deliverTo em beh ev (set_add l delivered) ls))"

fun call_all ::
  "'p emitter \<Rightarrow> 'p behaviour \<Rightarrow> 'p bus_event \<Rightarrow> nat list \<Rightarrow> 'p bus \<Rightarrow> 'p bus option" where
  "call_all em beh ev [] b = Some b"
| "call_all em beh ev (l # ls) b =
     Option.bind (call_listener em beh ev l b) (call_all em beh ev ls)"

definition set_of_ref :: "'p bus \<Rightarrow> nat option \<Rightarrow> nat list" where
  "set_of_ref b r = (case r of None \<Rightarrow> [] | Some q \<Rightarrow> lt_heap b q)"

definition emit_step :: "'p behaviour \<Rightarrow> 'p emitter \<Rightarrow> 'p emitter" where
  "emit_step beh em c b =
     (if bus_depth b \<ge> bus_maxDepth b then Some b
      else
        let type = c_type c;
            event = \<lparr>ev_type = type, ev_payload = c_payload c,
                     ev_timestamp = bus_clock b, ev_source = c_source c\<rparr>;
            deliveryKey = (case c_routingKey c of None \<Rightarrow> type | Some k \<Rightarrow> k);
            primary = map_of (lt_map b) deliveryKey;
            secondary = (case c_routingKey c of
                None \<Rightarrow> None
              | Some k \<Rightarrow> if k \<noteq> type then map_of (lt_map b) type else None);
            b1 = b\<lparr>bus_depth := bus_depth b + 1\<rparr>
        in Option.bind (deliverTo em beh event [] (set_of_ref b1 primary) b1) (\<lambda>(delivered, b2).
           Option.bind (deliverTo em beh event delivered (set_of_ref b2 secondary) b2) (\<lambda>(_, b3).
           Option.bind (if type \<noteq> ''*''
                        then call_all em beh event (set_of_ref b3 (map_of (lt_map b3) ''*'')) b3
                        else Some b3) (\<lambda>b4.
           Some (b4\<lparr>bus_depth := bus_depth b4 - 1\<rparr>)))))"

primrec emit_fuel :: "nat \<Rightarrow> 'p behaviour \<Rightarrow> 'p emitter" where
  "emit_fuel 0 beh = (\<lambda>c b. None)"
| "emit_fuel (Suc n) beh = emit_step beh (emit_fuel n beh)"

definition emit :: "'p behaviour \<Rightarrow> 'p emit_call \<Rightarrow> 'p bus \<Rightarrow> 'p bus option" where
  "emit beh c b = emit_fuel (Suc (bus_maxDepth b)) beh c b"

section \<open>The subscription contract\<close>

lemmas bus_table_simps = bus_on_def bus_off_def hasListeners_def getListenerCount_def

interpretation bus: subscriptions
    "bus_on :: string \<Rightarrow> nat \<Rightarrow> 'p bus \<Rightarrow> handle \<times> 'p bus"
    bus_off lt_set h_key h_listener lt_live lt_ok
  by unfold_locales
    (auto simp: bus_table_simps lt_ok_on lt_set_on lt_live_on lt_handle_on lt_ok_off lt_set_off)

lemma getListenerCount_set: "getListenerCount b k = length (lt_set b k)"
  by (simp add: getListenerCount_def lt_set_def split: option.splits)

lemma hasListeners_set: "hasListeners b k \<longleftrightarrow> lt_set b k \<noteq> []"
  by (simp add: hasListeners_def lt_set_def split: option.splits)

lemma ltable_sel_bus [simp]:
  fixes b :: "'p bus"
  shows "lt_map (b\<lparr>bus_depth := d\<rparr>) = lt_map b" "lt_heap (b\<lparr>bus_depth := d\<rparr>) = lt_heap b"
  "lt_map (b\<lparr>bus_log := l\<rparr>) = lt_map b" "lt_heap (b\<lparr>bus_log := l\<rparr>) = lt_heap b"
  by (cases b; simp)+

lemma bus_on_frame [simp]:
  "bus_depth (snd (bus_on k l b)) = bus_depth b"
  "bus_maxDepth (snd (bus_on k l b)) = bus_maxDepth b"
  "bus_log (snd (bus_on k l b)) = bus_log b"
  by (cases "map_of (lt_map b) k"; simp add: bus_on_def lt_on_new lt_on_old)+

lemma bus_off_frame [simp]:
  "bus_depth (bus_off h b) = bus_depth b"
  "bus_maxDepth (bus_off h b) = bus_maxDepth b"
  "bus_log (bus_off h b) = bus_log b"
  by (simp_all add: bus_off_def lt_off_def Let_def)

section \<open>Emitting returns, and never nests deeper than the limit\<close>

text \<open>
  What any piece of the bus does from a state at depth \<open>d\<close> with limit \<open>D\<close>: it comes back at the
  same depth, having only appended deliveries made at a depth from \<open>lo\<close> to \<open>D\<close>.
\<close>

definition bounded_run :: "nat \<Rightarrow> nat \<Rightarrow> nat \<Rightarrow> 'p bus \<Rightarrow> 'p bus option \<Rightarrow> bool" where
  "bounded_run lo d D b r \<longleftrightarrow> (\<exists>b' new. r = Some b' \<and> bus_depth b' = d \<and> bus_maxDepth b' = D \<and>
     bus_log b' = bus_log b @ new \<and> (\<forall>x \<in> set new. lo \<le> d_depth x \<and> d_depth x \<le> D))"

definition bounded_emitter :: "nat \<Rightarrow> nat \<Rightarrow> 'p emitter \<Rightarrow> bool" where
  "bounded_emitter d D em \<longleftrightarrow> (\<forall>c b. bus_depth b = d \<longrightarrow> bus_maxDepth b = D \<longrightarrow>
     bounded_run (Suc d) d D b (em c b))"

lemma bounded_run_refl:
  "bus_depth b = d \<Longrightarrow> bus_maxDepth b = D \<Longrightarrow> bounded_run lo d D b (Some b)"
  by (simp add: bounded_run_def)

lemma bounded_run_weaken: "bounded_run lo d D b r \<Longrightarrow> lo' \<le> lo \<Longrightarrow> bounded_run lo' d D b r"
  by (fastforce simp: bounded_run_def)

lemma bounded_run_bind:
  assumes "bounded_run lo d D b r"
    and "\<And>b'. r = Some b' \<Longrightarrow> bus_depth b' = d \<Longrightarrow> bus_maxDepth b' = D \<Longrightarrow> bounded_run lo d D b' (f b')"
  shows "bounded_run lo d D b (Option.bind r f)"
proof -
  from assms(1) obtain b' new where r: "r = Some b'" "bus_depth b' = d" "bus_maxDepth b' = D"
      "bus_log b' = bus_log b @ new" "\<forall>x \<in> set new. lo \<le> d_depth x \<and> d_depth x \<le> D"
    unfolding bounded_run_def by blast
  from assms(2) [OF r(1,2,3)] r show ?thesis
    unfolding bounded_run_def by (fastforce simp: Bex_def)
qed

lemma bounded_run_actions:
  assumes em: "bounded_emitter d D em" and "bus_depth b = d" "bus_maxDepth b = D"
  shows "bounded_run (Suc d) d D b (run_actions em as b)"
  using assms(2,3)
proof (induction as arbitrary: b)
  case Nil
  then show ?case by (simp add: bounded_run_refl)
next
  case (Cons a as)
  show ?case
  proof (cases a)
    case (AEmit c)
    with Cons em show ?thesis
      by (auto simp: bounded_emitter_def intro!: bounded_run_bind)
  next
    case (AOn k l)
    with Cons.IH [of "snd (bus_on k l b)"] Cons.prems show ?thesis
      by (auto simp: bounded_run_def)
  next
    case (AOff h)
    with Cons.IH [of "bus_off h b"] Cons.prems show ?thesis
      by (auto simp: bounded_run_def)
  next
    case AThrow
    with Cons.prems show ?thesis by (simp add: bounded_run_refl)
  qed
qed

lemma bounded_call_listener:
  assumes "bounded_emitter d D em" "bus_depth b = d" "bus_maxDepth b = D" "d \<le> D"
  shows "bounded_run d d D b (call_listener em beh ev l b)"
proof -
  let ?b1 = "b\<lparr>bus_log := bus_log b @ [\<lparr>d_listener = l, d_event = ev, d_depth = bus_depth b\<rparr>]\<rparr>"
  have "bounded_run (Suc d) d D ?b1 (run_actions em (beh l ev ?b1) ?b1)"
    using assms by (intro bounded_run_actions) auto
  with assms show ?thesis
    by (fastforce simp: bounded_run_def call_listener_def Let_def)
qed

lemma bounded_call_all:
  assumes em: "bounded_emitter d D em" "d \<le> D" and "bus_depth b = d" "bus_maxDepth b = D"
  shows "bounded_run d d D b (call_all em beh ev ls b)"
  using assms(3,4)
proof (induction ls arbitrary: b)
  case (Cons l ls)
  have "bounded_run d d D b (call_listener em beh ev l b)"
    using Cons.prems em by (intro bounded_call_listener) auto
  then show ?case using Cons.IH by (auto intro: bounded_run_bind)
qed (simp add: bounded_run_refl)

lemma bounded_deliverTo:
  assumes em: "bounded_emitter d D em" "d \<le> D" and "bus_depth b = d" "bus_maxDepth b = D"
  shows "\<exists>dl b'. deliverTo em beh ev delivered ls b = Some (dl, b') \<and> bounded_run d d D b (Some b')"
  using assms(3,4)
proof (induction ls arbitrary: b delivered)
  case Nil
  then show ?case by (simp add: bounded_run_refl)
next
  case (Cons l ls)
  have call: "bounded_run d d D b (call_listener em beh ev l b)"
    using Cons.prems em by (intro bounded_call_listener) auto
  show ?case
  proof (cases "l \<in> set delivered")
    case False
    from call obtain b1 where b1: "call_listener em beh ev l b = Some b1"
        "bus_depth b1 = d" "bus_maxDepth b1 = D"
      by (auto simp: bounded_run_def)
    from Cons.IH [OF b1(2,3), of "set_add l delivered"] obtain dl b2 where
        b2: "deliverTo em beh ev (set_add l delivered) ls b1 = Some (dl, b2)"
        "bounded_run d d D b1 (Some b2)" by blast
    have "bounded_run d d D b (Some b2)"
      using bounded_run_bind [OF call, of "\<lambda>_. Some b2"] b1 b2 by simp
    with b1 b2 False show ?thesis by simp
  qed (use Cons in simp)
qed

lemma bounded_emit_step:
  assumes em: "d < D \<Longrightarrow> bounded_emitter (Suc d) D em"
    and b: "bus_depth b = d" "bus_maxDepth b = D"
  shows "bounded_run (Suc d) d D b (emit_step beh em c b)"
proof (cases "D \<le> d")
  case True
  with b show ?thesis by (simp add: emit_step_def bounded_run_refl)
next
  case False
  then have em': "bounded_emitter (Suc d) D em" and le: "Suc d \<le> D" using em b by auto
  let ?b1 = "b\<lparr>bus_depth := Suc d\<rparr>"
  obtain ev key sec where step: "emit_step beh em c b =
      Option.bind (deliverTo em beh ev [] (set_of_ref ?b1 key) ?b1) (\<lambda>(dl, b2).
      Option.bind (deliverTo em beh ev dl (set_of_ref b2 sec) b2) (\<lambda>(_, b3).
      Option.bind (if c_type c \<noteq> ''*''
                   then call_all em beh ev (set_of_ref b3 (map_of (lt_map b3) ''*'')) b3
                   else Some b3) (\<lambda>b4. Some (b4\<lparr>bus_depth := bus_depth b4 - 1\<rparr>))))"
    using False b unfolding emit_step_def Let_def by auto
  from bounded_deliverTo [OF em' le, of ?b1] b obtain dl b2 where
      b2: "deliverTo em beh ev [] (set_of_ref ?b1 key) ?b1 = Some (dl, b2)"
      "bounded_run (Suc d) (Suc d) D ?b1 (Some b2)" by fastforce
  from b2(2) bounded_deliverTo [OF em' le, of b2] obtain dl3 b3 where
      b3: "deliverTo em beh ev dl (set_of_ref b2 sec) b2 = Some (dl3, b3)"
      "bounded_run (Suc d) (Suc d) D b2 (Some b3)" by (fastforce simp: bounded_run_def)
  have b3_frame: "bus_depth b3 = Suc d" "bus_maxDepth b3 = D"
    using b3(2) by (auto simp: bounded_run_def)
  have "bounded_run (Suc d) (Suc d) D b3
      (if c_type c \<noteq> ''*'' then call_all em beh ev (set_of_ref b3 (map_of (lt_map b3) ''*'')) b3 else Some b3)"
    using bounded_call_all [OF em' le, of b3] b3_frame by (simp add: bounded_run_refl)
  then obtain b4 where
      b4: "(if c_type c \<noteq> ''*'' then call_all em beh ev (set_of_ref b3 (map_of (lt_map b3) ''*'')) b3 else Some b3) = Some b4"
      "bounded_run (Suc d) (Suc d) D b3 (Some b4)"
    unfolding bounded_run_def by blast
  have "emit_step beh em c b = Some (b4\<lparr>bus_depth := bus_depth b4 - 1\<rparr>)"
    unfolding step using b2 b3 b4 by simp
  with b2(2) b3(2) b4(2) show ?thesis by (fastforce simp: bounded_run_def)
qed

lemma bounded_emit_fuel:
  assumes "D - d < n"
  shows "bounded_emitter d D (emit_fuel n beh)"
  using assms
proof (induction n arbitrary: d)
  case (Suc n)
  then have "bounded_emitter (Suc d) D (emit_fuel n beh)" if "d < D" using that by auto
  then show ?case
    by (simp add: bounded_emitter_def [of d] bounded_emit_step)
qed simp


section \<open>Who receives an event\<close>

text \<open>The listeners one emit addresses by key or name, and the wildcard listeners.\<close>

definition addressed :: "'p bus \<Rightarrow> 'p emit_call \<Rightarrow> nat list" where
  "addressed b c =
     (let primary = lt_set b (case c_routingKey c of None \<Rightarrow> c_type c | Some k \<Rightarrow> k);
          secondary = (if c_routingKey c = None then [] else lt_set b (c_type c))
      in primary @ filter (\<lambda>l. l \<notin> set primary) secondary)"

definition recipients :: "'p bus \<Rightarrow> 'p emit_call \<Rightarrow> nat list" where
  "recipients b c = addressed b c @ (if c_type c = ''*'' then [] else lt_set b ''*'')"








lemma lt_set_frame [simp]:
  fixes b :: "'p bus"
  shows "lt_set (b\<lparr>bus_depth := d\<rparr>) k = lt_set b k" "lt_set (b\<lparr>bus_log := l\<rparr>) k = lt_set b k"
    "set_of_ref (b\<lparr>bus_depth := d\<rparr>) r = set_of_ref b r"
    "set_of_ref (b\<lparr>bus_log := l\<rparr>) r = set_of_ref b r"
  by (simp_all add: lt_set_def set_of_ref_def split: option.splits)




section \<open>Properties\<close>

text \<open>
  C1: The circuit breaker works for every behaviour of the listeners, however they emit,
  subscribe, unsubscribe and throw: a call of \<open>emit\<close> returns, leaves the depth counter as it
  found it (the \<open>finally\<close> of every nested call ran), only appends deliveries, and never runs a
  listener more than \<open>maxDepth\<close> emits deep.
\<close>
theorem emit_returns:
  "\<exists>b' new. emit beh c b = Some b' \<and> bus_depth b' = bus_depth b \<and>
     bus_maxDepth b' = bus_maxDepth b \<and> bus_log b' = bus_log b @ new \<and>
     list_all (\<lambda>x. bus_depth b < d_depth x \<and> d_depth x \<le> bus_maxDepth b) new"
proof -
  have "bounded_emitter (bus_depth b) (bus_maxDepth b) (emit_fuel (Suc (bus_maxDepth b)) beh)"
    by (rule bounded_emit_fuel) simp
  then have "bounded_run (Suc (bus_depth b)) (bus_depth b) (bus_maxDepth b) b (emit beh c b)"
    by (simp add: bounded_emitter_def emit_def)
  then show ?thesis by (force simp: bounded_run_def list_all_iff Suc_le_eq)
qed



text \<open>
  A subscription is not lost: from a well-formed bus, after \<open>on(k, l)\<close> and any further
  subscriptions and unsubscriptions through live handles, none of which is a handle of this
  listener under this key, an emit of \<open>k\<close> still calls the listener.
\<close>
theorem subscription_survives:
  assumes "lt_ok b" and "bus.disciplined ops (snd (bus_on k l b))"
    and "\<And>h. UnsubOp h \<in> set ops \<Longrightarrow> h_key h \<noteq> k \<or> h_listener h \<noteq> l"
  shows "l \<in> set (recipients (bus.run_ops ops (snd (bus_on k l b)))
                     \<lparr>c_type = k, c_payload = p, c_source = s, c_routingKey = None\<rparr>)"
proof -
  have "l \<in> set (lt_set (bus.run_ops ops (snd (bus_on k l b))) k)"
    using assms bus.sub_subs [OF assms(1), of k l k]
    by (intro bus.subscription_kept) (auto simp: bus.sub_ok)
  then show ?thesis by (simp add: recipients_def addressed_def)
qed

theorem subscription_survives_witness:
  "let b1 = snd (bus_on ''A'' 1 (new_bus None 0 :: nat bus)); (h2, b2) = bus_on ''A'' 2 b1 in
   1 \<in> set (recipients (bus.run_ops [SubOp ''A'' 2, UnsubOp h2] b1)
          \<lparr>c_type = ''A'', c_payload = None, c_source = None, c_routingKey = None\<rparr>)"
  using subscription_survives [of "new_bus None 0 :: nat bus"
      "[SubOp ''A'' 2, UnsubOp (fst (bus_on ''A'' 2 (snd (bus_on ''A'' 1 (new_bus None 0 :: nat bus)))))]" "''A''" 1]
  by (simp add: new_bus_def lt_ok_empty bus.sub_live bus.sub_handle split_beta)

text \<open>
  An unsubscribe closure called a second time removes somebody else's subscription: after
  \<open>u = on(k, l1); u(); on(k, l2); u()\<close> the bus has no listener for \<open>k\<close>, although the second
  subscription was never cancelled. The closure deletes the key of the map by name, without
  checking that the set under it is still the one it captured.
\<close>
theorem stale_unsubscribe_drops_listener:
  assumes "lt_ok b" and "\<not> hasListeners b k"
  shows "let (u, b1) = bus_on k l1 b; b2 = bus_off u b1; (v, b3) = bus_on k l2 b2
         in getListenerCount b3 k = 1 \<and> \<not> hasListeners (bus_off u b3) k"
proof -
  have none: "map_of (lt_map b) k = None"
  proof (cases "map_of (lt_map b) k")
    case (Some r)
    with assms map_of_in_snd [OF Some] show ?thesis
      by (auto simp: lt_ok_def hasListeners_def)
  qed
  moreover have "lt_next b \<noteq> Suc (lt_next b)" by simp
  ultimately show ?thesis
    by (simp add: bus_on_def bus_off_def lt_on_new lt_off_def hasListeners_def getListenerCount_def
        del: lt_on_def)
qed

theorem stale_unsubscribe_drops_listener_witness:
  "let (u, b1) = bus_on ''A'' 1 (new_bus None 0 :: nat bus); b2 = bus_off u b1; (v, b3) = bus_on ''A'' 2 b2
   in getListenerCount b3 ''A'' = 1 \<and> \<not> hasListeners (bus_off u b3) ''A''"
  by (rule stale_unsubscribe_drops_listener) (simp_all add: new_bus_def lt_ok_empty hasListeners_def)

end
