(* ===== verification/Json.thy ===== *)
theory Json
  imports Complex_Main Prelude
begin

text \<open>
  JavaScript values that cross the program's boundaries: JSON documents, S-expressions, effect
  trees and payloads are all values of \<open>jval\<close>. Numbers are IEEE doubles in the source; the model
  has the finite ones as rationals beside the two infinities and NaN, and rounding is not
  modelled (the source only compares numbers, tests \<open>Number.isInteger\<close> and adds milliseconds).
  An object is its own enumerable keys with their values in order; \<open>obj_get\<close> is \<open>o[k]\<close>, with
  \<open>None\<close> for \<open>undefined\<close>.
\<close>

datatype js_number = Fin rat | PInf | NInf | NaN

datatype jval =
    JNull
  | JBool bool
  | JNum js_number
  | JStr string
  | JArr "jval list"
  | JObj "(string \<times> jval) list"

type_synonym jobj = "(string \<times> jval) list"

definition JInt :: "int \<Rightarrow> jval" where
  "JInt n = JNum (Fin (of_int n))"

definition obj_get :: "jobj \<Rightarrow> string \<Rightarrow> jval option" where
  "obj_get kvs k = map_of kvs k"

section \<open>Numbers\<close>

fun isInteger :: "js_number \<Rightarrow> bool" where
  "isInteger (Fin r) = (of_int \<lfloor>r\<rfloor> = r)"
| "isInteger _ = False"

fun int_of_num :: "js_number \<Rightarrow> int" where
  "int_of_num (Fin r) = \<lfloor>r\<rfloor>"
| "int_of_num _ = 0"

fun num_less :: "js_number \<Rightarrow> js_number \<Rightarrow> bool" where
  "num_less NaN y = False"
| "num_less x NaN = False"
| "num_less (Fin a) (Fin b) = (a < b)"
| "num_less NInf y = (y \<noteq> NInf)"
| "num_less x PInf = (x \<noteq> PInf)"
| "num_less _ _ = False"

fun num_le :: "js_number \<Rightarrow> js_number \<Rightarrow> bool" where
  "num_le NaN y = False"
| "num_le x NaN = False"
| "num_le (Fin a) (Fin b) = (a \<le> b)"
| "num_le NInf y = True"
| "num_le x PInf = True"
| "num_le _ _ = False"

fun num_add :: "js_number \<Rightarrow> js_number \<Rightarrow> js_number" where
  "num_add NaN y = NaN"
| "num_add x NaN = NaN"
| "num_add (Fin a) (Fin b) = Fin (a + b)"
| "num_add (Fin a) y = y"
| "num_add x (Fin b) = x"
| "num_add x y = (if x = y then x else NaN)"

lemma isInteger_of_int [simp]: "isInteger (Fin (of_int n))" "int_of_num (Fin (of_int n)) = n"
  by simp_all

lemma isInteger_Fin: "isInteger x \<Longrightarrow> x = Fin (of_int (int_of_num x))"
  by (cases x) auto

section \<open>Kinds of values\<close>

fun isArr :: "jval \<Rightarrow> bool" where
  "isArr (JArr _) = True"
| "isArr _ = False"

text \<open>\<open>typeof v === 'object' && v !== null\<close>.\<close>

fun isObject :: "jval \<Rightarrow> bool" where
  "isObject (JArr _) = True"
| "isObject (JObj _) = True"
| "isObject _ = False"

text \<open>\<open>Object.values(v)\<close> of an object or an array.\<close>

fun values_of :: "jval \<Rightarrow> jval list" where
  "values_of (JArr xs) = xs"
| "values_of (JObj kvs) = map snd kvs"
| "values_of _ = []"

lemma size_values_of: "v \<in> set (values_of w) \<Longrightarrow> size v < size w"
proof (cases w)
  case (JArr xs)
  moreover assume "v \<in> set (values_of w)"
  ultimately show ?thesis using size_list_estimation' [of v xs "size v" size] by fastforce
next
  case (JObj kvs)
  assume v: "v \<in> set (values_of w)"
  then obtain k where kv: "(k, v) \<in> set kvs" using JObj by auto
  then have "size v < size_prod (\<lambda>_. 0) size (k, v)" by simp
  also have "\<dots> \<le> size_list (size_prod (\<lambda>_. 0) size) kvs"
    using kv by (rule size_list_estimation') simp
  finally show ?thesis using JObj by simp
qed auto

end
