(* ===== verification/StateBook.thy ===== *)
theory StateBook
  imports Json
begin

text \<open>
  A trait's state machine as the client knows it: the \<open>TraitDefinition\<close> and \<open>TraitState\<close> of
  \<open>types.ts\<close> and \<open>traits/state-book.ts\<close>, whose \<open>StateBook\<close> records the states the kernel reports.
  The names of the lifecycle events come from \<open>@almadar/core\<close> and are a parameter. Calls of the
  observer's \<open>onRollback\<close> are recorded in the ghost field \<open>sb_trace\<close>. A trait's \<open>context\<close> is the
  empty object in every state this code makes and is left out.
\<close>

section \<open>Trait definitions\<close>

datatype from_states = FromOne string | FromAny "string list"

record transition =
  t_from :: from_states
  t_to :: string
  t_event :: string
  t_eventId :: "string option"
  t_guard :: "jval option"
  t_effects :: "jval list option"

record state_def =
  sd_name :: string
  sd_isInitial :: bool

record trait_def =
  td_name :: string
  td_states :: "state_def list"
  td_transitions :: "transition list"

record trait_state =
  ts_traitName :: string
  ts_currentState :: string
  ts_previousState :: "string option"
  ts_lastEvent :: "string option"

definition findInitialState :: "trait_def \<Rightarrow> string" where
  "findInitialState trait =
     (case find sd_isInitial (td_states trait) of
        Some s \<Rightarrow> sd_name s
      | None \<Rightarrow> (case td_states trait of s # _ \<Rightarrow> sd_name s | [] \<Rightarrow> ''unknown''))"

definition createInitialTraitState :: "trait_def \<Rightarrow> trait_state" where
  "createInitialTraitState trait =
     \<lparr>ts_traitName = td_name trait, ts_currentState = findInitialState trait,
      ts_previousState = None, ts_lastEvent = None\<rparr>"

text \<open>A non-empty string is truthy.\<close>

definition truthy :: "string option \<Rightarrow> bool" where
  "truthy s \<longleftrightarrow> s \<noteq> None \<and> s \<noteq> Some ''''"

definition from_matches :: "from_states \<Rightarrow> string \<Rightarrow> bool" where
  "from_matches f current = (case f of FromAny ss \<Rightarrow> current \<in> set ss | FromOne s \<Rightarrow> s = current)"

definition event_matches :: "transition \<Rightarrow> string \<Rightarrow> string option \<Rightarrow> bool" where
  "event_matches t eventKey eventId =
     (if truthy eventId \<and> truthy (t_eventId t) then t_eventId t = eventId else t_event t = eventKey)"

definition findMatchingTransitions ::
  "trait_def \<Rightarrow> string \<Rightarrow> string \<Rightarrow> string option \<Rightarrow> transition list" where
  "findMatchingTransitions trait currentState eventKey eventId =
     filter (\<lambda>t. from_matches (t_from t) currentState \<and> event_matches t eventKey eventId)
       (td_transitions trait)"

definition findTransition ::
  "trait_def \<Rightarrow> string \<Rightarrow> string \<Rightarrow> string option \<Rightarrow> transition option" where
  "findTransition trait currentState eventKey eventId =
     (case findMatchingTransitions trait currentState eventKey eventId of
        [] \<Rightarrow> None | t # _ \<Rightarrow> Some t)"

definition normalizeEventKey :: "string \<Rightarrow> string" where
  "normalizeEventKey eventKey =
     (if eventKey = '''' then ''''
      else if starts_with ''UI:'' eventKey then drop 3 eventKey else eventKey)"

definition tickEventKey :: "string \<Rightarrow> string" where
  "tickEventKey tickName = ''$TICK_'' @ tickName"

section \<open>The book\<close>

record rollback_trace =
  rb_traitName :: string
  rb_from :: string
  rb_to :: string
  rb_cause :: string

record state_book =
  sb_traits :: "(string \<times> trait_def) list"
  sb_states :: "(string \<times> trait_state) list"
  sb_trace :: "rollback_trace list"

definition book_key :: "string \<Rightarrow> string option \<Rightarrow> string" where
  "book_key traitName entityId =
     traitName @ ''::'' @ (case entityId of None \<Rightarrow> ''__singleton__'' | Some e \<Rightarrow> e)"

definition new_book :: "trait_def list \<Rightarrow> state_book" where
  "new_book traits =
     \<lparr>sb_traits = fold (\<lambda>t. AList.update (td_name t) t) traits [], sb_states = [], sb_trace = []\<rparr>"

definition getState :: "state_book \<Rightarrow> string \<Rightarrow> string option \<Rightarrow> trait_state option" where
  "getState sb traitName entityId =
     (case map_of (sb_states sb) (book_key traitName entityId) of
        Some recorded \<Rightarrow> Some recorded
      | None \<Rightarrow> map_option createInitialTraitState (map_of (sb_traits sb) traitName))"

definition getAllStates :: "state_book \<Rightarrow> (string \<times> trait_state) list" where
  "getAllStates sb =
     fold (\<lambda>name out. case getState sb name None of
             Some state \<Rightarrow> AList.update name state out | None \<Rightarrow> out)
       (map fst (sb_traits sb)) []"

definition canHandleEvent ::
  "state_book \<Rightarrow> string \<Rightarrow> string \<Rightarrow> string option \<Rightarrow> string option \<Rightarrow> bool" where
  "canHandleEvent sb traitName eventKey entityId eventId =
     (case (map_of (sb_traits sb) traitName, getState sb traitName entityId) of
        (Some trait, Some state) \<Rightarrow>
          findTransition trait (ts_currentState state) (normalizeEventKey eventKey) eventId \<noteq> None
      | _ \<Rightarrow> False)"

definition is_render_ui :: "jval \<Rightarrow> bool" where
  "is_render_ui effect = (case effect of JArr (JStr op # _) \<Rightarrow> op = ''render-ui'' | _ \<Rightarrow> False)"

fun repaint_scan :: "trait_def \<Rightarrow> string \<Rightarrow> string list \<Rightarrow> string option" where
  "repaint_scan trait current [] = None"
| "repaint_scan trait current (event # events) =
     (let arms = findMatchingTransitions trait current event None in
      if arms = [] then repaint_scan trait current events
      else if list_all (\<lambda>t. t_to t = current \<and>
                 list_all is_render_ui (case t_effects t of None \<Rightarrow> [] | Some es \<Rightarrow> es)) arms
      then Some event else None)"

definition repaintLifecycleEvent ::
  "string list \<Rightarrow> state_book \<Rightarrow> string \<Rightarrow> string option \<Rightarrow> string option" where
  "repaintLifecycleEvent lifecycleEvents sb traitName entityId =
     (case (map_of (sb_traits sb) traitName, getState sb traitName entityId) of
        (Some trait, Some state) \<Rightarrow> repaint_scan trait (ts_currentState state) lifecycleEvents
      | _ \<Rightarrow> None)"

definition seedState :: "string \<Rightarrow> string \<Rightarrow> string option \<Rightarrow> state_book \<Rightarrow> state_book" where
  "seedState traitName currentState entityId sb =
     (case map_of (sb_traits sb) traitName of
        None \<Rightarrow> sb
      | Some trait \<Rightarrow>
          let k = book_key traitName entityId;
              existing = (case map_of (sb_states sb) k of
                            Some s \<Rightarrow> s | None \<Rightarrow> createInitialTraitState trait)
          in sb\<lparr>sb_states := AList.update k
                 (existing\<lparr>ts_currentState := currentState,
                           ts_previousState := Some (ts_currentState existing)\<rparr>) (sb_states sb)\<rparr>)"

definition rollbackState ::
  "string \<Rightarrow> string \<Rightarrow> string option \<Rightarrow> string \<Rightarrow> state_book \<Rightarrow> state_book" where
  "rollbackState traitName toState entityId cause sb =
     (let from = map_option ts_currentState (getState sb traitName entityId);
          sb1 = seedState traitName toState entityId sb
      in case from of
           None \<Rightarrow> sb1
         | Some f \<Rightarrow>
             if f \<noteq> toState
             then sb1\<lparr>sb_trace := sb_trace sb1 @
                    [\<lparr>rb_traitName = traitName, rb_from = f, rb_to = toState, rb_cause = cause\<rparr>]\<rparr>
             else sb1)"

section \<open>Lemmas\<close>

lemma append_sep_inj:
  assumes "CHR '':'' \<notin> set t" "CHR '':'' \<notin> set t'" "t @ ''::'' @ e = t' @ ''::'' @ e'"
  shows "t = t' \<and> e = e'"
  using assms by (induction t arbitrary: t') (case_tac t'; auto)+

text \<open>Trait names hold no colon, and no row is called as the singleton scope.\<close>

lemma book_key_inj:
  assumes "CHR '':'' \<notin> set t" "CHR '':'' \<notin> set t'"
    and "e \<noteq> Some ''__singleton__''" "e' \<noteq> Some ''__singleton__''"
  shows "book_key t e = book_key t' e' \<longleftrightarrow> t = t' \<and> e = e'"
proof
  assume "book_key t e = book_key t' e'"
  then have "t @ ''::'' @ (case e of None \<Rightarrow> ''__singleton__'' | Some x \<Rightarrow> x) =
      t' @ ''::'' @ (case e' of None \<Rightarrow> ''__singleton__'' | Some x \<Rightarrow> x)"
    by (simp only: book_key_def)
  from append_sep_inj [OF assms(1,2) this] assms(3,4) show "t = t' \<and> e = e'"
    by (auto split: option.splits)
qed simp

lemma sb_traits_seed [simp]:
  "sb_traits (seedState t s e sb) = sb_traits sb" "sb_trace (seedState t s e sb) = sb_trace sb"
  by (simp_all add: seedState_def Let_def split: option.splits)

lemma sb_traits_rollback [simp]: "sb_traits (rollbackState t s e c sb) = sb_traits sb"
  by (simp add: rollbackState_def Let_def split: option.splits)

lemma getState_trace [simp]: "getState (sb\<lparr>sb_trace := x\<rparr>) t e = getState sb t e"
  by (simp add: getState_def split: option.splits)

lemma getState_seed:
  assumes "map_of (sb_traits sb) t = Some trait"
  shows "getState (seedState t s e sb) t' e' =
    (if book_key t' e' = book_key t e
     then map_option (\<lambda>old. old\<lparr>ts_currentState := s, ts_previousState := Some (ts_currentState old)\<rparr>)
            (getState sb t e)
     else getState sb t' e')"
  using assms by (auto simp: getState_def seedState_def Let_def split: option.splits)

lemma getState_rollback: "getState (rollbackState t s e c sb) t' e' = getState (seedState t s e sb) t' e'"
  by (simp add: rollbackState_def Let_def split: option.splits)

lemma getState_on_page:
  "map_of (sb_traits sb) t = Some trait \<Longrightarrow> \<exists>s. getState sb t e = Some s"
  by (simp add: getState_def split: option.splits)

lemma filter_map_inv:
  "(\<And>x. x \<in> set xs \<Longrightarrow> P (f x) \<longleftrightarrow> P x) \<Longrightarrow> filter P (map f xs) = map f (filter P xs)"
  by (induction xs) auto

section \<open>Properties\<close>

text \<open>
  The record of a trait's state: after the kernel reports a state for a mounted trait, that
  trait instance is in it and remembers the state it left; every other instance of the book, and
  the same trait for another row, is as before. Trait names hold no colon and no row is called
  \<open>__singleton__\<close>, the two cases in which the string key of the book could collide.
\<close>
theorem seed_reads_back:
  assumes "map_of (sb_traits sb) t = Some trait" and "CHR '':'' \<notin> set t" and "CHR '':'' \<notin> set t'"
    and "e \<noteq> Some ''__singleton__''" and "e' \<noteq> Some ''__singleton__''"
  shows "getState (seedState t s e sb) t' e' =
    (if t' = t \<and> e' = e
     then map_option (\<lambda>old. old\<lparr>ts_currentState := s, ts_previousState := Some (ts_currentState old)\<rparr>)
            (getState sb t e)
     else getState sb t' e')"
  using getState_seed [OF assms(1)] book_key_inj [OF assms(3,2,5,4)] by simp

definition cart :: trait_def where
  "cart = \<lparr>td_name = ''Cart'',
     td_states = [\<lparr>sd_name = ''open'', sd_isInitial = False\<rparr>, \<lparr>sd_name = ''idle'', sd_isInitial = True\<rparr>],
     td_transitions = [\<lparr>t_from = FromAny [''idle'', ''open''], t_to = ''open'', t_event = ''ADD'',
       t_eventId = Some ''ev_1'', t_guard = None, t_effects = None\<rparr>]\<rparr>"

theorem seed_reads_back_witness:
  "getState (seedState ''Cart'' ''open'' (Some ''7'') (new_book [cart])) ''Cart'' (Some ''7'') =
     Some \<lparr>ts_traitName = ''Cart'', ts_currentState = ''open'', ts_previousState = Some ''idle'',
           ts_lastEvent = None\<rparr> \<and>
   getState (seedState ''Cart'' ''open'' (Some ''7'') (new_book [cart])) ''Cart'' None =
     Some (createInitialTraitState cart)"
  using seed_reads_back [of "new_book [cart]" "''Cart''" cart "''Cart''" "Some ''7''" "Some ''7''" "''open''"]
    seed_reads_back [of "new_book [cart]" "''Cart''" cart "''Cart''" "Some ''7''" None "''open''"]
  by (simp add: new_book_def cart_def getState_def createInitialTraitState_def findInitialState_def)

text \<open>
  Id-matched transitions survive a rename: renaming the events of transitions that carry an id
  changes neither which arms an event with an id matches nor their order.
\<close>
lemma rename_keeps_matches:
  assumes "\<And>t. t \<in> set (td_transitions trait) \<Longrightarrow> truthy (t_eventId t)" and "truthy eventId"
  shows "findMatchingTransitions
      (trait\<lparr>td_transitions := map (\<lambda>t. t\<lparr>t_event := rename (t_event t)\<rparr>) (td_transitions trait)\<rparr>)
      cur newKey eventId =
    map (\<lambda>t. t\<lparr>t_event := rename (t_event t)\<rparr>) (findMatchingTransitions trait cur oldKey eventId)"
proof -
  have "findMatchingTransitions
      (trait\<lparr>td_transitions := map (\<lambda>t. t\<lparr>t_event := rename (t_event t)\<rparr>) (td_transitions trait)\<rparr>)
      cur newKey eventId =
    map (\<lambda>t. t\<lparr>t_event := rename (t_event t)\<rparr>)
      (filter (\<lambda>t. from_matches (t_from t) cur \<and> event_matches t newKey eventId) (td_transitions trait))"
    unfolding findMatchingTransitions_def
    using assms by (simp, intro filter_map_inv) (auto simp: event_matches_def)
  also have "filter (\<lambda>t. from_matches (t_from t) cur \<and> event_matches t newKey eventId) (td_transitions trait)
      = findMatchingTransitions trait cur oldKey eventId"
    unfolding findMatchingTransitions_def
    using assms by (intro filter_cong) (auto simp: event_matches_def)
  finally show ?thesis .
qed

theorem rename_keeps_matches_witness:
  "map t_event (findMatchingTransitions
     (cart\<lparr>td_transitions := map (\<lambda>t. t\<lparr>t_event := ''PUT''\<rparr>) (td_transitions cart)\<rparr>) ''idle'' ''ADD'' (Some ''ev_1''))
   = [''PUT'']"
proof -
  have h: "\<And>t. t \<in> set (td_transitions cart) \<Longrightarrow> truthy (t_eventId t)" "truthy (Some ''ev_1'')"
    by (simp_all add: cart_def truthy_def)
  show ?thesis
    using rename_keeps_matches [OF h, where rename = "\<lambda>_. ''PUT''" and cur = "''idle''" and newKey = "''ADD''" and oldKey = "''ADD''"]
    by (simp add: cart_def findMatchingTransitions_def from_matches_def event_matches_def truthy_def)
qed

end
