(* ===== verification/CircuitStore.thy ===== *)
theory CircuitStore
  imports StateBook ListenerTable
begin

text \<open>
  The client's circuit state: \<open>evaluation/awaiting.ts\<close> (which traits await a server round trip)
  and \<open>evaluation/circuit-store.ts\<close> (states, entity frames, rollback points, subscriptions).
  Calls of listeners are recorded in the ghost fields \<open>aw_log\<close> and \<open>cs_log\<close>; a listener here is a
  re-render request and makes no call back into the store.
\<close>

section \<open>AwaitingRegistry\<close>

record awaiting_trait =
  a_trait :: string
  a_event :: string

record awaiting = ltable +
  aw_entries :: "(string \<times> awaiting_trait) list"
  aw_any :: "nat list"
  aw_version :: nat
  aw_log :: "nat list"

definition new_awaiting :: awaiting where
  "new_awaiting = \<lparr>lt_map = [], lt_heap = (\<lambda>_. []), lt_next = 0,
     aw_entries = [], aw_any = [], aw_version = 0, aw_log = []\<rparr>"

definition aw_emit :: "string \<Rightarrow> awaiting \<Rightarrow> awaiting" where
  "aw_emit trait a =
     (let a1 = a\<lparr>aw_version := aw_version a + 1\<rparr>;
          a2 = a1\<lparr>aw_log := aw_log a1 @ lt_set a1 trait\<rparr>
      in a2\<lparr>aw_log := aw_log a2 @ aw_any a2\<rparr>)"

fun aw_begin :: "awaiting_trait list \<Rightarrow> awaiting \<Rightarrow> awaiting" where
  "aw_begin [] a = a"
| "aw_begin (entry # rest) a =
     aw_begin rest (aw_emit (a_trait entry)
       (a\<lparr>aw_entries := AList.update (a_trait entry) entry (aw_entries a)\<rparr>))"

fun aw_end :: "string list \<Rightarrow> awaiting \<Rightarrow> awaiting" where
  "aw_end [] a = a"
| "aw_end (trait # rest) a =
     (if map_of (aw_entries a) trait = None then aw_end rest a
      else aw_end rest (aw_emit trait (a\<lparr>aw_entries := AList.delete trait (aw_entries a)\<rparr>)))"

definition aw_get :: "awaiting \<Rightarrow> string \<Rightarrow> awaiting_trait option" where
  "aw_get a trait = map_of (aw_entries a) trait"

definition aw_list :: "awaiting \<Rightarrow> awaiting_trait list" where
  "aw_list a = map snd (aw_entries a)"

definition aw_subscribe :: "string \<Rightarrow> nat \<Rightarrow> awaiting \<Rightarrow> handle \<times> awaiting" where
  "aw_subscribe trait listener a = lt_on trait listener a"

definition aw_unsubscribe :: "handle \<Rightarrow> awaiting \<Rightarrow> awaiting" where
  "aw_unsubscribe h a = lt_off h a"

definition aw_subscribeAll :: "nat \<Rightarrow> awaiting \<Rightarrow> awaiting" where
  "aw_subscribeAll listener a = a\<lparr>aw_any := set_add listener (aw_any a)\<rparr>"

definition aw_unsubscribeAll :: "nat \<Rightarrow> awaiting \<Rightarrow> awaiting" where
  "aw_unsubscribeAll listener a = a\<lparr>aw_any := removeAll listener (aw_any a)\<rparr>"

interpretation aw: subscriptions aw_subscribe aw_unsubscribe lt_set h_key h_listener lt_live lt_ok
  by unfold_locales
    (auto simp: aw_subscribe_def aw_unsubscribe_def lt_ok_on lt_set_on lt_live_on lt_handle_on
      lt_ok_off lt_set_off)

lemma aw_frame [simp]:
  "aw_entries (aw_emit t a) = aw_entries a" "aw_version (aw_emit t a) = Suc (aw_version a)"
  "aw_any (aw_emit t a) = aw_any a" "lt_map (aw_emit t a) = lt_map a" "lt_heap (aw_emit t a) = lt_heap a"
  by (cases a; simp add: aw_emit_def Let_def)+

lemma lt_set_aw [simp]:
  "lt_set (aw_emit t a) k = lt_set a k" "lt_set (a\<lparr>aw_entries := x\<rparr>) k = lt_set (a :: awaiting) k"
  "lt_set (a\<lparr>aw_version := v\<rparr>) k = lt_set a k" "lt_set (a\<lparr>aw_log := w\<rparr>) k = lt_set a k"
  by (cases a; simp add: lt_set_def split: option.splits)+

lemma aw_emit_log [simp]: "aw_log (aw_emit t a) = aw_log a @ lt_set a t @ aw_any a"
  by (simp add: aw_emit_def Let_def)

lemma aw_begin_get: "aw_get (aw_begin es a) t =
   (case find (\<lambda>e. a_trait e = t) (rev es) of None \<Rightarrow> aw_get a t | Some e \<Rightarrow> Some e)"
proof (induction es arbitrary: a)
  case (Cons e es)
  have "find P (xs @ [x]) = (case find P xs of None \<Rightarrow> (if P x then Some x else None) | Some y \<Rightarrow> Some y)"
    for P :: "awaiting_trait \<Rightarrow> bool" and xs x by (induction xs) auto
  with Cons show ?case by (auto simp: aw_get_def split: option.splits)
qed simp

lemma aw_begin_effect:
  "aw_version (aw_begin es a) = aw_version a + length es"
  "aw_log (aw_begin es a) = aw_log a @ concat (map (\<lambda>e. lt_set a (a_trait e) @ aw_any a) es)"
  "aw_any (aw_begin es a) = aw_any a" "lt_set (aw_begin es a) k = lt_set a k"
  by (induction es arbitrary: a) auto

lemma aw_end_get: "aw_get (aw_end ts a) t = (if t \<in> set ts then None else aw_get a t)"
  by (induction ts arbitrary: a) (auto simp: aw_get_def)

text \<open>The traits of \<open>ts\<close> that are awaiting, each once.\<close>

fun present :: "string list \<Rightarrow> (string \<times> 'a) list \<Rightarrow> string list" where
  "present [] m = []"
| "present (t # ts) m =
     (if map_of m t = None then present ts m else t # present ts (AList.delete t m))"

lemma aw_end_effect:
  "aw_version (aw_end ts a) = aw_version a + length (present ts (aw_entries a))"
  "aw_log (aw_end ts a) = aw_log a @ concat (map (\<lambda>t. lt_set a t @ aw_any a) (present ts (aw_entries a)))"
  by (induction ts arbitrary: a) auto

section \<open>CircuitStore\<close>

type_synonym frame = "(string \<times> jval) list"

record trait_snapshot =
  sn_state :: string
  sn_frame :: "frame option"

record circuit_store =
  cs_book :: state_book
  cs_frames :: "(string \<times> frame) list"
  cs_callsitePayloads :: "(string \<times> frame) list"
  cs_awaiting :: awaiting
  cs_listeners :: "nat list"
  cs_version :: nat
  cs_log :: "nat list"

definition createMemoryCircuitStore :: "trait_def list \<Rightarrow> circuit_store" where
  "createMemoryCircuitStore traits =
     \<lparr>cs_book = new_book traits, cs_frames = [], cs_callsitePayloads = [], cs_awaiting = new_awaiting,
      cs_listeners = [], cs_version = 0, cs_log = []\<rparr>"

text \<open>\<open>frameKey ?? trait\<close>.\<close>

definition frame_key :: "string \<Rightarrow> string option \<Rightarrow> string" where
  "frame_key trait frameKey = (case frameKey of None \<Rightarrow> trait | Some f \<Rightarrow> f)"

definition cs_snapshot ::
  "string \<Rightarrow> string option \<Rightarrow> string option \<Rightarrow> circuit_store \<Rightarrow> trait_snapshot" where
  "cs_snapshot trait entityId frameKey cs =
     (let k = frame_key trait frameKey in
      \<lparr>sn_state = (case getState (cs_book cs) trait entityId of
                     None \<Rightarrow> '''' | Some s \<Rightarrow> ts_currentState s),
       sn_frame = map_of (cs_frames cs) k\<rparr>)"

definition cs_restore ::
  "string \<Rightarrow> string option \<Rightarrow> trait_snapshot \<Rightarrow> string option \<Rightarrow> string \<Rightarrow> circuit_store \<Rightarrow> circuit_store" where
  "cs_restore trait entityId snap frameKey cause cs =
     (let k = frame_key trait frameKey;
          cs1 = (if sn_state snap \<noteq> ''''
                 then cs\<lparr>cs_book := rollbackState trait (sn_state snap) entityId cause (cs_book cs)\<rparr>
                 else cs)
      in case sn_frame snap of
           None \<Rightarrow> cs1\<lparr>cs_frames := AList.delete k (cs_frames cs1)\<rparr>
         | Some f \<Rightarrow> cs1\<lparr>cs_frames := AList.update k f (cs_frames cs1)\<rparr>)"

definition cs_notify :: "circuit_store \<Rightarrow> circuit_store" where
  "cs_notify cs = cs\<lparr>cs_version := cs_version cs + 1, cs_log := cs_log cs @ cs_listeners cs\<rparr>"

definition cs_subscribe :: "nat \<Rightarrow> circuit_store \<Rightarrow> circuit_store" where
  "cs_subscribe listener cs = cs\<lparr>cs_listeners := set_add listener (cs_listeners cs)\<rparr>"

definition cs_unsubscribe :: "nat \<Rightarrow> circuit_store \<Rightarrow> circuit_store" where
  "cs_unsubscribe listener cs = cs\<lparr>cs_listeners := removeAll listener (cs_listeners cs)\<rparr>"

section \<open>Properties\<close>

text \<open>
  A rollback point is exact: whatever a dispatch did to the store after the snapshot was taken
  (\<open>cs'\<close> is any later store over the same traits), restoring puts the trait's state back and
  replaces its frame by the captured one, absent if it was absent; every other frame and every
  other trait instance keeps what it has, and the observer hears of the hop exactly when the
  state changed.
\<close>
theorem restore_undoes:
  assumes "getState (cs_book cs) t e = Some st" and "ts_currentState st \<noteq> ''''"
    and "map_of (sb_traits (cs_book cs')) t = Some trait"
  shows "let k = frame_key t fk; r = cs_restore t e (cs_snapshot t e fk cs) fk cause cs' in
    map_option ts_currentState (getState (cs_book r) t e) = Some (ts_currentState st) \<and>
    map_of (cs_frames r) = (map_of (cs_frames cs'))(k := map_of (cs_frames cs) k) \<and>
    (book_key t' e' \<noteq> book_key t e \<longrightarrow> getState (cs_book r) t' e' = getState (cs_book cs') t' e') \<and>
    length (sb_trace (cs_book r)) = length (sb_trace (cs_book cs')) +
      (if map_option ts_currentState (getState (cs_book cs') t e) = Some (ts_currentState st) then 0 else 1)"
proof -
  let ?r = "cs_restore t e (cs_snapshot t e fk cs) fk cause cs'"
  obtain old where old: "getState (cs_book cs') t e = Some old"
    using getState_on_page [OF assms(3)] by blast
  have book: "cs_book ?r = rollbackState t (ts_currentState st) e cause (cs_book cs')"
    using assms(1,2) by (simp add: cs_restore_def cs_snapshot_def Let_def split: option.splits)
  have frames: "map_of (cs_frames ?r) = (map_of (cs_frames cs'))
      (frame_key t fk := map_of (cs_frames cs) (frame_key t fk))"
    by (auto simp: cs_restore_def cs_snapshot_def Let_def update_conv' delete_conv'
        split: option.splits)
  show ?thesis
    using book frames old getState_seed [OF assms(3)]
    by (simp add: Let_def getState_rollback) (simp add: rollbackState_def old Let_def)
qed

theorem restore_undoes_witness:
  "let cs = createMemoryCircuitStore [cart];
       cs' = cs\<lparr>cs_book := seedState ''Cart'' ''open'' None (cs_book cs),
                cs_frames := [(''Cart'', [(''n'', JInt 1)])]\<rparr>;
       r = cs_restore ''Cart'' None (cs_snapshot ''Cart'' None None cs) None ''server-rejected'' cs'
   in map_option ts_currentState (getState (cs_book r) ''Cart'' None) = Some ''idle'' \<and>
      map_of (cs_frames r) ''Cart'' = None \<and> length (sb_trace (cs_book r)) = 1"
proof -
  let ?cs = "createMemoryCircuitStore [cart]"
  let ?cs' = "?cs\<lparr>cs_book := seedState ''Cart'' ''open'' None (cs_book ?cs),
                cs_frames := [(''Cart'', [(''n'', JInt 1)])]\<rparr>"
  have st: "getState (cs_book ?cs) ''Cart'' None = Some (createInitialTraitState cart)"
    by (simp add: createMemoryCircuitStore_def new_book_def getState_def cart_def)
  have tr: "map_of (sb_traits (cs_book ?cs')) ''Cart'' = Some cart"
    by (simp add: createMemoryCircuitStore_def new_book_def cart_def)
  have cur: "ts_currentState (createInitialTraitState cart) = ''idle''"
    by (simp add: createInitialTraitState_def findInitialState_def cart_def)
  have now: "map_option ts_currentState (getState (cs_book ?cs') ''Cart'' None) = Some ''open''"
    using st tr by (simp add: getState_seed)
  have tr0: "sb_trace (cs_book ?cs') = []"
    by (simp add: createMemoryCircuitStore_def new_book_def)
  show ?thesis
    using restore_undoes [OF st _ tr, where fk = None and cause = "''server-rejected''" and t' = "''Cart''" and e' = None] cur now tr0
    by (auto simp: Let_def frame_key_def createMemoryCircuitStore_def)
qed

text \<open>
  The awaiting registry's contract: a batch of \<open>begin\<close> followed by \<open>end\<close> of the same traits
  leaves none of them awaiting and every other trait's entry untouched; each change bumps the
  version by one and calls the listeners of that trait and those of any trait, once each and in
  order, and ending a trait that is not awaiting does neither.
\<close>
theorem awaiting_begin_end:
  "aw_get (aw_end ts (aw_begin es a)) t =
     (if t \<in> set ts then None
      else case find (\<lambda>e. a_trait e = t) (rev es) of None \<Rightarrow> aw_get a t | Some e \<Rightarrow> Some e) \<and>
   aw_version (aw_end ts (aw_begin es a)) =
     aw_version a + length es + length (present ts (aw_entries (aw_begin es a))) \<and>
   aw_log (aw_end ts (aw_begin es a)) = aw_log a
     @ concat (map (\<lambda>e. lt_set a (a_trait e) @ aw_any a) es)
     @ concat (map (\<lambda>t. lt_set a t @ aw_any a) (present ts (aw_entries (aw_begin es a))))"
  by (simp add: aw_end_get aw_begin_get aw_end_effect aw_begin_effect)

end
