(* ===== verification/JsText.thy ===== *)
theory JsText
  imports Json
begin

text \<open>
  The conversions between text and numbers of the JavaScript library that the source uses:
  \<open>parseInt(s, 10)\<close>, \<open>Number(s)\<close>, \<open>String(n)\<close> for whole numbers, \<open>trim\<close> and \<open>split(/\s+/)\<close>. White space is
  the ASCII white space.
\<close>

section \<open>Characters\<close>

definition is_space :: "char \<Rightarrow> bool" where
  "is_space c = (c = CHR '' '' \<or> ((9 :: nat) \<le> of_char c \<and> of_char c \<le> (13 :: nat)))"

definition is_digit :: "char \<Rightarrow> bool" where
  "is_digit c = ((48 :: nat) \<le> of_char c \<and> of_char c \<le> (57 :: nat))"

definition digit_val :: "char \<Rightarrow> nat" where
  "digit_val c = of_char c - 48"

definition digit_char :: "nat \<Rightarrow> char" where
  "digit_char d = char_of (d + 48)"

lemma digit_char [simp]:
  assumes "d < 10"
  shows "is_digit (digit_char d)" "digit_val (digit_char d) = d"
proof -
  have "of_char (char_of (d + 48) :: char) = d + 48"
    using assms by (simp add: of_char_of)
  then show "is_digit (digit_char d)" "digit_val (digit_char d) = d"
    using assms by (simp_all add: is_digit_def digit_val_def digit_char_def)
qed

lemma digit_not [simp]:
  "\<not> is_digit (CHR '','')" "\<not> is_digit (CHR ''-'')" "\<not> is_digit (CHR ''/'')" "\<not> is_digit (CHR ''*'')"
  "\<not> is_digit (CHR '' '')" "\<not> is_digit (CHR ''m'')" "\<not> is_digit (CHR ''s'')" "\<not> is_digit (CHR ''h'')"
  "\<not> is_digit (CHR ''.'')" "\<not> is_digit (CHR ''+'')"
  by (simp_all add: is_digit_def)

lemma digit_not_space [simp]: "is_digit c \<Longrightarrow> \<not> is_space c"
  by (auto simp: is_digit_def is_space_def)

section \<open>Digits\<close>

definition nat_of_digits :: "string \<Rightarrow> nat" where
  "nat_of_digits s = foldl (\<lambda>n c. n * 10 + digit_val c) 0 s"

fun show_nat :: "nat \<Rightarrow> string" where
  "show_nat n = (if n < 10 then [digit_char n] else show_nat (n div 10) @ [digit_char (n mod 10)])"

declare show_nat.simps [simp del]

lemma show_nat_digits: "c \<in> set (show_nat n) \<Longrightarrow> is_digit c"
proof (induction n rule: show_nat.induct)
  case (1 n)
  then show ?case
    by (cases "n < 10") (use 1 in \<open>auto simp: show_nat.simps [of n]\<close>)
qed

lemma show_nat_nonempty [simp]: "show_nat n \<noteq> []"
  by (subst show_nat.simps) simp

lemma nat_of_show [simp]: "nat_of_digits (show_nat n) = n"
proof (induction n rule: show_nat.induct)
  case (1 n)
  show ?case
  proof (cases "n < 10")
    case True
    then show ?thesis by (subst show_nat.simps) (simp add: nat_of_digits_def)
  next
    case False
    with 1 have "nat_of_digits (show_nat (n div 10)) = n div 10" by simp
    with False show ?thesis by (subst show_nat.simps) (simp add: nat_of_digits_def)
  qed
qed

lemma takeWhile_digits:
  assumes "\<And>c. c \<in> set ds \<Longrightarrow> is_digit c" "rest = [] \<or> \<not> is_digit (hd rest)"
  shows "takeWhile is_digit (ds @ rest) = ds" "dropWhile is_digit (ds @ rest) = rest"
  using assms by (induction ds) (cases rest; auto)+

section \<open>\<open>parseInt(s, 10)\<close>\<close>

definition parseInt :: "string \<Rightarrow> js_number" where
  "parseInt s =
     (let t = dropWhile is_space s;
          (sign, u) = (case t of
              [] \<Rightarrow> (1 :: int, [])
            | c # r \<Rightarrow> if c = CHR ''-'' then (- 1, r) else if c = CHR ''+'' then (1, r) else (1, t));
          ds = takeWhile is_digit u
      in if ds = [] then NaN else Fin (of_int (sign * int (nat_of_digits ds))))"

lemma parseInt_show:
  assumes "rest = [] \<or> \<not> is_digit (hd rest)"
  shows "parseInt (show_nat n @ rest) = Fin (of_nat n)"
proof -
  obtain c r where cr: "show_nat n = c # r" by (cases "show_nat n") auto
  then have d: "is_digit c" using show_nat_digits [of c n] by simp
  then have "\<not> is_space c" "c \<noteq> CHR ''-''" "c \<noteq> CHR ''+''" by (auto simp: is_digit_def)
  moreover have "takeWhile is_digit (show_nat n @ rest) = show_nat n"
    using takeWhile_digits [of "show_nat n" rest] show_nat_digits assms by blast
  ultimately show ?thesis
    using cr nat_of_show [of n] by (simp add: parseInt_def Let_def)
qed

section \<open>\<open>Number(s)\<close>\<close>

definition trim :: "string \<Rightarrow> string" where
  "trim s = rev (dropWhile is_space (rev (dropWhile is_space s)))"

definition radix_digit :: "char \<Rightarrow> nat" where
  "radix_digit c =
     (if is_digit c then digit_val c
      else if (97 :: nat) \<le> of_char c \<and> of_char c \<le> (102 :: nat) then of_char c - 87
      else if (65 :: nat) \<le> of_char c \<and> of_char c \<le> (70 :: nat) then of_char c - 55
      else 99)"

text \<open>A literal with a radix prefix, and one with an optional fraction and exponent.\<close>

definition radix_literal :: "nat \<Rightarrow> string \<Rightarrow> js_number" where
  "radix_literal b ds =
     (if ds = [] \<or> \<not> list_all (\<lambda>c. radix_digit c < b) ds then NaN
      else Fin (of_nat (foldl (\<lambda>n c. n * b + radix_digit c) 0 ds)))"

definition exponent :: "string \<Rightarrow> rat option" where
  "exponent s =
     (case s of
        [] \<Rightarrow> Some 1
      | c # r \<Rightarrow>
          if c \<noteq> CHR ''e'' \<and> c \<noteq> CHR ''E'' then None
          else
            (let (neg, ds) = (case r of
                [] \<Rightarrow> (False, [])
              | d # r' \<Rightarrow> if d = CHR ''-'' then (True, r') else if d = CHR ''+'' then (False, r') else (False, r))
             in if ds = [] \<or> \<not> list_all is_digit ds then None
                else Some (if neg then 1 / 10 ^ nat_of_digits ds else 10 ^ nat_of_digits ds)))"

definition decimal_literal :: "string \<Rightarrow> js_number" where
  "decimal_literal s =
     (let whole = takeWhile is_digit s; r = dropWhile is_digit s;
          (frac, r') = (case r of
              c # q \<Rightarrow> if c = CHR ''.'' then (takeWhile is_digit q, dropWhile is_digit q) else ([], r)
            | [] \<Rightarrow> ([], []))
      in if whole = [] \<and> frac = [] then NaN
         else case exponent r' of
             None \<Rightarrow> NaN
           | Some e \<Rightarrow> Fin ((of_nat (nat_of_digits whole) + of_nat (nat_of_digits frac) / 10 ^ length frac) * e))"

fun negate :: "js_number \<Rightarrow> js_number" where
  "negate (Fin r) = Fin (- r)"
| "negate PInf = NInf"
| "negate NInf = PInf"
| "negate NaN = NaN"

definition unsigned_literal :: "string \<Rightarrow> js_number" where
  "unsigned_literal s = (if s = ''Infinity'' then PInf else decimal_literal s)"

definition to_number :: "string \<Rightarrow> js_number" where
  "to_number s =
     (let t = trim s in
      if t = [] then Fin 0
      else if starts_with ''0x'' t \<or> starts_with ''0X'' t then radix_literal 16 (drop 2 t)
      else if starts_with ''0o'' t \<or> starts_with ''0O'' t then radix_literal 8 (drop 2 t)
      else if starts_with ''0b'' t \<or> starts_with ''0B'' t then radix_literal 2 (drop 2 t)
      else if hd t = CHR ''-'' then negate (unsigned_literal (tl t))
      else if hd t = CHR ''+'' then unsigned_literal (tl t)
      else unsigned_literal t)"

lemma trim_digits:
  assumes "\<And>c. c \<in> set ds \<Longrightarrow> is_digit c"
  shows "trim ds = ds"
proof -
  have keep: "dropWhile is_space xs = xs" if "\<And>c. c \<in> set xs \<Longrightarrow> is_digit c" for xs
    using that by (cases xs) auto
  have "dropWhile is_space ds = ds" "dropWhile is_space (rev ds) = rev ds"
    using assms by (auto intro!: keep)
  then show ?thesis by (simp add: trim_def)
qed

lemma to_number_show [simp]: "to_number (show_nat n) = Fin (of_nat n)"
proof -
  have ds: "is_digit c" if "c \<in> set (show_nat n)" for c using that by (rule show_nat_digits)
  obtain c r where cr: "show_nat n = c # r" by (cases "show_nat n") auto
  have r: "r = [] \<or> is_digit (hd r)" using ds cr by (cases r) auto
  have pre: "\<not> starts_with [CHR ''0'', x] (show_nat n)" if "\<not> is_digit x" for x
    using r that by (cases r) (auto simp: starts_with_def cr)
  have c: "is_digit c" using ds cr by simp
  have un: "unsigned_literal (show_nat n) = Fin (of_nat n)"
  proof -
    have "show_nat n \<noteq> ''Infinity''" using c cr by (auto simp: is_digit_def)
    moreover have tw: "takeWhile is_digit (show_nat n) = show_nat n" "dropWhile is_digit (show_nat n) = []"
      using takeWhile_digits [of "show_nat n" "[]"] ds by auto
    have "decimal_literal (show_nat n) = Fin (of_nat n)"
      unfolding decimal_literal_def Let_def tw by (simp add: exponent_def nat_of_digits_def [of "[]"])
    ultimately show ?thesis by (simp add: unsigned_literal_def)
  qed
  have "hd (show_nat n) \<noteq> CHR ''-''" "hd (show_nat n) \<noteq> CHR ''+''" using c cr by (auto simp: is_digit_def)
  moreover have "\<not> is_digit x" if "x \<in> {CHR ''x'', CHR ''X'', CHR ''o'', CHR ''O'', CHR ''b'', CHR ''B''}" for x
    using that by (auto simp: is_digit_def)
  ultimately show ?thesis
    using un pre by (simp add: to_number_def Let_def trim_digits [OF ds])
qed

section \<open>\<open>trim().split(/\s+/)\<close>\<close>

lemma dropWhile_shrinks [termination_simp]: "length (dropWhile P xs) < Suc (length xs)"
  by (simp add: length_dropWhile_le le_imp_less_Suc)

fun tokens :: "string \<Rightarrow> string list" where
  "tokens [] = []"
| "tokens (c # s) =
     (if is_space c then tokens s
      else (c # takeWhile (\<lambda>x. \<not> is_space x) s) # tokens (dropWhile (\<lambda>x. \<not> is_space x) s))"

definition words_of :: "string \<Rightarrow> string list" where
  "words_of s = (let ts = tokens s in if ts = [] then [[]] else ts)"

end
