(* ===== verification/Compose.thy ===== *)
theory Compose
  imports JsText "HOL-Library.List_Lexorder" "HOL-Library.Char_ord" "HOL-Library.Multiset"
begin

text \<open>
  Composing orbitals into one application: \<open>effects/composition/\<close> (event wiring, layout strategy
  detection, page generation, ledger and version merge). An orbital keeps the fields this code
  reads or writes and the rest of its definition as one opaque value; the deep clone through JSON
  is the identity on such values. Whether a trait entry is inline (\<open>isInlineTrait\<close> of
  \<open>@almadar/core\<close>) is its constructor.
\<close>

section \<open>Orbitals\<close>

record emit_contract =
  em_event :: string
  em_scope :: string

record listener_decl =
  li_event :: string
  li_triggers :: string
  li_scope :: "string option"

record inline_trait =
  it_name :: string
  it_emits :: "emit_contract list option"
  it_listens :: "listener_decl list option"
  it_rest :: jval

datatype trait_entry = InlineTrait inline_trait | TraitReference string

datatype entity_decl = EntityString string | EntityObject "string option"

record page =
  pg_name :: string
  pg_path :: string
  pg_viewType :: "string option"
  pg_isInitial :: bool
  pg_primaryEntity :: "string option"

record orbital =
  ob_name :: string
  ob_traits :: "trait_entry list"
  ob_entity :: entity_decl
  ob_pages :: "page list option"
  ob_rest :: jval

section \<open>Event wiring\<close>

record wiring_entry =
  we_from :: string
  we_event :: string
  we_to :: string
  we_triggers :: string

definition hasEmit :: "emit_contract list \<Rightarrow> string \<Rightarrow> bool" where
  "hasEmit emits event = list_ex (\<lambda>e. em_event e = event) emits"

definition hasListen :: "listener_decl list \<Rightarrow> string \<Rightarrow> string \<Rightarrow> bool" where
  "hasListen listens event triggers =
     list_ex (\<lambda>l. li_event l = event \<and> li_triggers l = triggers) listens"

text \<open>
  \<open>findInlineTrait\<close> returns the object itself, which the caller then mutates: the model finds the
  first inline trait of the name, and \<open>update_inline\<close> writes at the same place.
\<close>

fun find_in_traits :: "trait_entry list \<Rightarrow> string \<Rightarrow> inline_trait option" where
  "find_in_traits [] name = None"
| "find_in_traits (InlineTrait t # ts) name = (if it_name t = name then Some t else find_in_traits ts name)"
| "find_in_traits (TraitReference r # ts) name = find_in_traits ts name"

fun findInlineTrait :: "orbital list \<Rightarrow> string \<Rightarrow> inline_trait option" where
  "findInlineTrait [] name = None"
| "findInlineTrait (ob # obs) name =
     (case find_in_traits (ob_traits ob) name of Some t \<Rightarrow> Some t | None \<Rightarrow> findInlineTrait obs name)"

fun update_in_traits :: "(inline_trait \<Rightarrow> inline_trait) \<Rightarrow> string \<Rightarrow> trait_entry list \<Rightarrow> trait_entry list" where
  "update_in_traits f name [] = []"
| "update_in_traits f name (InlineTrait t # ts) =
     (if it_name t = name then InlineTrait (f t) # ts else InlineTrait t # update_in_traits f name ts)"
| "update_in_traits f name (TraitReference r # ts) = TraitReference r # update_in_traits f name ts"

fun update_inline :: "(inline_trait \<Rightarrow> inline_trait) \<Rightarrow> string \<Rightarrow> orbital list \<Rightarrow> orbital list" where
  "update_inline f name [] = []"
| "update_inline f name (ob # obs) =
     (if find_in_traits (ob_traits ob) name \<noteq> None
      then ob\<lparr>ob_traits := update_in_traits f name (ob_traits ob)\<rparr> # obs
      else ob # update_inline f name obs)"

definition wire_source :: "wiring_entry \<Rightarrow> inline_trait \<Rightarrow> inline_trait" where
  "wire_source entry t =
     (let emits = (case it_emits t of None \<Rightarrow> [] | Some es \<Rightarrow> es) in
      t\<lparr>it_emits := Some (if hasEmit emits (we_event entry) then emits
          else emits @ [\<lparr>em_event = we_event entry, em_scope = ''external''\<rparr>])\<rparr>)"

definition wire_target :: "wiring_entry \<Rightarrow> inline_trait \<Rightarrow> inline_trait" where
  "wire_target entry t =
     (let listens = (case it_listens t of None \<Rightarrow> [] | Some ls \<Rightarrow> ls) in
      t\<lparr>it_listens := Some (if hasListen listens (we_event entry) (we_triggers entry) then listens
          else listens @ [\<lparr>li_event = we_event entry, li_triggers = we_triggers entry,
                          li_scope = Some ''external''\<rparr>])\<rparr>)"

definition wire_entry :: "wiring_entry \<Rightarrow> orbital list \<Rightarrow> orbital list" where
  "wire_entry entry obs =
     (let obs1 = (case findInlineTrait obs (we_from entry) of
            None \<Rightarrow> obs | Some _ \<Rightarrow> update_inline (wire_source entry) (we_from entry) obs)
      in case findInlineTrait obs1 (we_to entry) of
           None \<Rightarrow> obs1 | Some _ \<Rightarrow> update_inline (wire_target entry) (we_to entry) obs1)"

definition applyEventWiring :: "orbital list \<Rightarrow> wiring_entry list \<Rightarrow> orbital list" where
  "applyEventWiring orbitals wiring = fold wire_entry wiring orbitals"

subsection \<open>Lemmas on wiring\<close>

lemma update_in_traits_id:
  "(\<And>t. find_in_traits ts n = Some t \<Longrightarrow> f t = t) \<Longrightarrow> update_in_traits f n ts = ts"
  by (induction f n ts rule: update_in_traits.induct) (auto split: if_splits)

lemma update_inline_id:
  "(\<And>t. findInlineTrait obs n = Some t \<Longrightarrow> f t = t) \<Longrightarrow> update_inline f n obs = obs"
proof (induction f n obs rule: update_inline.induct)
  case (2 f n ob obs)
  then show ?case
    using update_in_traits_id [of "ob_traits ob" n f] by (auto split: option.splits)
qed simp

lemma find_update_in_traits:
  assumes "\<And>t. it_name (f t) = it_name t"
  shows "find_in_traits (update_in_traits f n ts) m =
    (if m = n then map_option f (find_in_traits ts n) else find_in_traits ts m)"
  using assms by (induction f n ts rule: update_in_traits.induct) auto

lemma find_update_inline:
  assumes "\<And>t. it_name (f t) = it_name t"
  shows "findInlineTrait (update_inline f n obs) m =
    (if m = n then map_option f (findInlineTrait obs n) else findInlineTrait obs m)"
  using assms
proof (induction f n obs rule: update_inline.induct)
  case (2 f n ob obs)
  then show ?case
    by (auto simp: find_update_in_traits split: option.splits)
qed simp

lemma wire_names [simp]: "it_name (wire_source e t) = it_name t" "it_name (wire_target e t) = it_name t"
  by (simp_all add: wire_source_def wire_target_def Let_def)

lemma wire_entry_eq:
  "wire_entry e obs = update_inline (wire_target e) (we_to e) (update_inline (wire_source e) (we_from e) obs)"
proof -
  have "update_inline f n obs = obs" if "findInlineTrait obs n = None" for f n obs
    using that by (intro update_inline_id) simp
  then show ?thesis
    by (auto simp: wire_entry_def Let_def split: option.splits)
qed

text \<open>An entry is wired when neither of its two writes would change anything.\<close>

definition wired :: "wiring_entry \<Rightarrow> orbital list \<Rightarrow> bool" where
  "wired e obs \<longleftrightarrow>
     (\<forall>t. findInlineTrait obs (we_from e) = Some t \<longrightarrow> wire_source e t = t) \<and>
     (\<forall>t. findInlineTrait obs (we_to e) = Some t \<longrightarrow> wire_target e t = t)"

lemma wire_fixed:
  "wire_source e (wire_source e t) = wire_source e t"
  "wire_target e (wire_target e t) = wire_target e t"
  "wire_source e t = t \<Longrightarrow> wire_source e (wire_source e' t) = wire_source e' t"
  "wire_source e t = t \<Longrightarrow> wire_source e (wire_target e' t) = wire_target e' t"
  "wire_target e t = t \<Longrightarrow> wire_target e (wire_source e' t) = wire_source e' t"
  "wire_target e t = t \<Longrightarrow> wire_target e (wire_target e' t) = wire_target e' t"
  by (cases t; auto simp: wire_source_def wire_target_def Let_def hasEmit_def hasListen_def
      split: if_splits option.splits)+

lemma wire_commute_fixed:
  "wire_source e (wire_target e (wire_source e t)) = wire_target e (wire_source e t)"
  by (rule wire_fixed(4)) (rule wire_fixed(1))

lemma wired_after_entry: "wired e (wire_entry e obs)"
  by (auto simp: wired_def wire_entry_eq find_update_inline wire_fixed wire_commute_fixed)

lemma wired_kept: "wired e obs \<Longrightarrow> wired e (wire_entry e' obs)"
  by (auto simp: wired_def wire_entry_eq find_update_inline wire_fixed)

lemma wire_entry_wired: "wired e obs \<Longrightarrow> wire_entry e obs = obs"
  by (simp add: wired_def wire_entry_eq update_inline_id)

lemma wired_kept_fold: "wired e obs \<Longrightarrow> wired e (fold wire_entry w obs)"
  by (induction w arbitrary: obs) (auto simp: wired_kept)

lemma wired_fold: "e \<in> set w \<Longrightarrow> wired e (fold wire_entry w obs)"
  by (induction w arbitrary: obs) (auto simp: wired_kept_fold wired_after_entry)

lemma fold_wired_id: "(\<And>e. e \<in> set w \<Longrightarrow> wired e obs) \<Longrightarrow> fold wire_entry w obs = obs"
  by (induction w) (auto simp: wire_entry_wired)

lemma wired_declared:
  assumes "wired e obs"
  shows "findInlineTrait obs (we_from e) = Some t \<Longrightarrow> \<exists>es. it_emits t = Some es \<and> hasEmit es (we_event e)"
    and "findInlineTrait obs (we_to e) = Some t \<Longrightarrow>
      \<exists>ls. it_listens t = Some ls \<and> hasListen ls (we_event e) (we_triggers e)"
  using assms
  by (cases t; auto simp: wired_def wire_source_def wire_target_def Let_def split: if_splits option.splits)+


section \<open>Layout strategy\<close>

datatype layout_strategy = Sidebar | Tabs | Dashboard | WizardFlow | Single

text \<open>\<open>adjacency\<close>: a Map from a source to the Set of its targets, both in insertion order.\<close>

type_synonym adjacency = "(string \<times> string list) list"

definition add_edge :: "wiring_entry \<Rightarrow> adjacency \<Rightarrow> adjacency" where
  "add_edge entry adj =
     AList.update (we_from entry)
       (set_add (we_to entry) (case map_of adj (we_from entry) of None \<Rightarrow> [] | Some targets \<Rightarrow> targets)) adj"

definition adjacency_of :: "wiring_entry list \<Rightarrow> adjacency" where
  "adjacency_of wiring = fold add_edge wiring []"

text \<open>The walk from one start: follow the first unvisited successor until there is none.\<close>

function chain_walk :: "adjacency \<Rightarrow> string \<Rightarrow> nat \<Rightarrow> string list \<Rightarrow> nat" where
  "chain_walk adj current len visited =
     (case map_of adj current of
        None \<Rightarrow> len
      | Some nexts \<Rightarrow>
          (case find (\<lambda>n. n \<notin> set visited) nexts of
             None \<Rightarrow> len
           | Some n \<Rightarrow> chain_walk adj n (Suc len) (visited @ [n])))"
  by pat_completeness auto

lemma unvisited_shrinks:
  assumes "map_of adj c = Some nexts" "find (\<lambda>n. n \<notin> set visited) nexts = Some n"
  shows "card (\<Union> (set ` snd ` set adj) - set (visited @ [n])) < card (\<Union> (set ` snd ` set adj) - set visited)"
proof (rule psubset_card_mono)
  have "n \<in> set nexts" "n \<notin> set visited" using assms(2) by (auto simp: find_Some_iff)
  moreover have "nexts \<in> snd ` set adj" using map_of_SomeD [OF assms(1)] by force
  ultimately show "\<Union> (set ` snd ` set adj) - set (visited @ [n]) \<subset> \<Union> (set ` snd ` set adj) - set visited"
    by auto
qed simp

termination chain_walk
  by (relation "measure (\<lambda>(adj, c, l, visited). card (\<Union> (set ` snd ` set adj) - set visited))")
    (use unvisited_shrinks in auto)

declare chain_walk.simps [simp del]

definition hasSequentialChain :: "wiring_entry list \<Rightarrow> bool" where
  "hasSequentialChain wiring =
     (if length wiring < 2 then False
      else
        (let adj = adjacency_of wiring;
             roots = filter (\<lambda>f. f \<notin> set (map we_to wiring)) (map fst adj);
             starts = (if roots \<noteq> [] then roots else map fst adj)
         in list_ex (\<lambda>start. 3 \<le> chain_walk adj start 1 [start]) starts))"

definition detectLayoutStrategy :: "orbital list \<Rightarrow> wiring_entry list option \<Rightarrow> layout_strategy" where
  "detectLayoutStrategy orbitals eventWiring =
     (if (case eventWiring of None \<Rightarrow> False | Some w \<Rightarrow> w \<noteq> [] \<and> hasSequentialChain w) then WizardFlow
      else if length orbitals \<le> 1 then Single
      else if length orbitals \<le> 4 then Tabs
      else Sidebar)"

subsection \<open>Lemmas on the chain walk\<close>

definition edge :: "wiring_entry list \<Rightarrow> string \<Rightarrow> string \<Rightarrow> bool" where
  "edge w a b = list_ex (\<lambda>e. we_from e = a \<and> we_to e = b) w"

definition targets_of :: "adjacency \<Rightarrow> string \<Rightarrow> string list" where
  "targets_of adj a = (case map_of adj a of None \<Rightarrow> [] | Some ts \<Rightarrow> ts)"

lemma targets_add_edge:
  "set (targets_of (add_edge e adj) a) = set (targets_of adj a) \<union> (if we_from e = a then {we_to e} else {})"
  by (auto simp: targets_of_def add_edge_def split: option.splits)

lemma targets_fold:
  "set (targets_of (fold add_edge w adj) a) = set (targets_of adj a) \<union> {b. edge w a b}"
  by (induction w arbitrary: adj) (auto simp: targets_add_edge edge_def)

lemma targets_adjacency: "set (targets_of (adjacency_of w) a) = {b. edge w a b}"
  by (simp add: adjacency_of_def targets_fold) (simp add: targets_of_def)

lemma keys_adjacency: "set (map fst (adjacency_of w)) = we_from ` set w"
proof -
  have "fst ` set (fold add_edge w adj) = fst ` set adj \<union> we_from ` set w" for adj
    by (induction w arbitrary: adj) (auto simp: add_edge_def)
  then show ?thesis by (simp add: adjacency_of_def)
qed

lemma chain_walk_unfold:
  "chain_walk adj c l v = (case find (\<lambda>n. n \<notin> set v) (targets_of adj c) of
     None \<Rightarrow> l | Some n \<Rightarrow> chain_walk adj n (Suc l) (v @ [n]))"
  by (subst chain_walk.simps) (simp add: targets_of_def split: option.splits)

lemma chain_walk_ge: "l \<le> chain_walk adj c l v"
proof (induction adj c l v rule: chain_walk.induct)
  case (1 adj c l v)
  then show ?case
    by (subst chain_walk.simps) (force split: option.splits)
qed

lemma chain_walk_three:
  "3 \<le> chain_walk adj a 1 [a] \<longleftrightarrow>
   (\<exists>b c. find (\<lambda>n. n \<notin> {a}) (targets_of adj a) = Some b \<and>
          find (\<lambda>n. n \<notin> {a, b}) (targets_of adj b) = Some c)"
proof -
  have two: "3 \<le> chain_walk adj b 2 [a, b] \<longleftrightarrow> (\<exists>c. find (\<lambda>n. n \<notin> {a, b}) (targets_of adj b) = Some c)" for b
  proof (cases "find (\<lambda>n. n \<notin> set [a, b]) (targets_of adj b)")
    case None
    then have "chain_walk adj b 2 [a, b] = 2" by (simp add: chain_walk_unfold [of adj b 2])
    with None show ?thesis by simp
  next
    case (Some c)
    then have "chain_walk adj b 2 [a, b] = chain_walk adj c 3 [a, b, c]"
      by (simp add: chain_walk_unfold [of adj b 2])
    with Some chain_walk_ge [of 3 adj c "[a, b, c]"] show ?thesis by simp
  qed
  have one: "chain_walk adj a 1 [a] = (case find (\<lambda>n. n \<notin> {a}) (targets_of adj a) of
      None \<Rightarrow> 1 | Some b \<Rightarrow> chain_walk adj b 2 [a, b])"
    by (subst chain_walk_unfold) (simp add: numeral_2_eq_2 split: option.splits)
  show ?thesis unfolding one by (cases "find (\<lambda>n. n \<notin> {a}) (targets_of adj a)") (simp_all add: two)
qed

lemma find_unique:
  assumes "x \<in> set xs" "P x" "\<And>y. y \<in> set xs \<Longrightarrow> y = x"
  shows "find P xs = Some x"
proof (cases "find P xs")
  case None
  then show ?thesis using assms(1,2) by (auto simp: find_None_iff)
next
  case (Some y)
  then have "y \<in> set xs" by (auto simp: find_Some_iff)
  with Some assms(3) show ?thesis by auto
qed

lemma chain_sound:
  assumes "hasSequentialChain w"
  shows "\<exists>a b c. distinct [a, b, c] \<and> edge w a b \<and> edge w b c"
proof -
  obtain a where "3 \<le> chain_walk (adjacency_of w) a 1 [a]"
    using assms by (auto simp: hasSequentialChain_def Let_def list_ex_iff split: if_splits)
  then obtain b c where "find (\<lambda>n. n \<notin> {a}) (targets_of (adjacency_of w) a) = Some b"
      "find (\<lambda>n. n \<notin> {a, b}) (targets_of (adjacency_of w) b) = Some c"
    by (auto simp only: chain_walk_three)
  from this [THEN find_Some_set] show ?thesis
    by (intro exI [of _ a] exI [of _ b] exI [of _ c]) (auto simp: targets_adjacency)
qed

lemma edge_length:
  assumes "edge w a b" "edge w b c" "a \<noteq> b"
  shows "2 \<le> length w"
proof (rule ccontr)
  assume "\<not> ?thesis"
  then have "length w = 0 \<or> length w = 1" by linarith
  then show False using assms by (auto simp: edge_def length_Suc_conv)
qed

lemma chain_complete:
  assumes "distinct [a, b, c]" "edge w a b" "edge w b c"
    and uniq: "\<And>x. edge w a x \<Longrightarrow> x = b" "\<And>x. edge w b x \<Longrightarrow> x = c"
    and root: "\<And>x. \<not> edge w x a"
  shows "hasSequentialChain w"
proof -
  have "find (\<lambda>n. n \<notin> {a}) (targets_of (adjacency_of w) a) = Some b"
    by (rule find_unique) (use assms(1,2) in \<open>auto simp: targets_adjacency dest: uniq(1)\<close>)
  moreover have "find (\<lambda>n. n \<notin> {a, b}) (targets_of (adjacency_of w) b) = Some c"
    by (rule find_unique) (use assms(1,3) in \<open>auto simp: targets_adjacency dest: uniq(2)\<close>)
  ultimately have "3 \<le> chain_walk (adjacency_of w) a 1 [a]"
    using chain_walk_three by blast
  moreover have "a \<in> set (filter (\<lambda>f. f \<notin> set (map we_to w)) (map fst (adjacency_of w)))"
  proof -
    have "a \<in> set (map fst (adjacency_of w))"
      using assms(2) by (auto simp only: keys_adjacency edge_def list_ex_iff)
    moreover have "a \<notin> set (map we_to w)"
      using root by (force simp: edge_def list_ex_iff)
    ultimately show ?thesis by simp
  qed
  moreover have "\<not> length w < 2"
    using edge_length [OF assms(2,3)] assms(1) by simp
  ultimately show ?thesis
    unfolding hasSequentialChain_def Let_def list_ex_iff
    by (smt (verit) filter.simps(1) empty_iff list.set(1))
qed


section \<open>Composing behaviors\<close>

type_synonym ledger = "(string \<times> jval) list"

record schema_input =
  si_orbitals :: "orbital list"
  si_ledger :: "ledger option"
  si_schemaVersion :: "rat option"

text \<open>An input is a whole schema exactly when it carries an \<open>orbitals\<close> array.\<close>

datatype compose_item = SchemaInput schema_input | DefinitionInput orbital

fun asDefinitions :: "compose_item list \<Rightarrow> orbital list" where
  "asDefinitions [] = []"
| "asDefinitions (SchemaInput s # inputs) = si_orbitals s @ asDefinitions inputs"
| "asDefinitions (DefinitionInput ob # inputs) = ob # asDefinitions inputs"

definition add_absent :: "string \<times> jval \<Rightarrow> ledger \<Rightarrow> ledger" where
  "add_absent kv merged = (if map_of merged (fst kv) = None then merged @ [kv] else merged)"

fun item_ledger :: "compose_item \<Rightarrow> ledger option" where
  "item_ledger (SchemaInput s) = si_ledger s"
| "item_ledger (DefinitionInput ob) = None"

fun item_version :: "compose_item \<Rightarrow> rat option" where
  "item_version (SchemaInput s) = si_schemaVersion s"
| "item_version (DefinitionInput ob) = None"

definition merge_one :: "compose_item \<Rightarrow> ledger \<Rightarrow> ledger" where
  "merge_one item merged = (case item_ledger item of None \<Rightarrow> merged | Some l \<Rightarrow> fold add_absent l merged)"

text \<open>The result is \<open>undefined\<close> when no schema input carries a ledger; its rows are sorted by id.\<close>

definition mergeLedgers :: "compose_item list \<Rightarrow> ledger option" where
  "mergeLedgers inputs =
     (if list_ex (\<lambda>i. item_ledger i \<noteq> None) inputs
      then Some (sort_key fst (fold merge_one inputs [])) else None)"

definition merge_version :: "compose_item \<Rightarrow> rat option \<Rightarrow> rat option" where
  "merge_version item m =
     (case item_version item of
        None \<Rightarrow> m
      | Some v \<Rightarrow> (case m of None \<Rightarrow> Some v | Some m' \<Rightarrow> Some (max m' v)))"

definition mergeSchemaVersions :: "compose_item list \<Rightarrow> rat option" where
  "mergeSchemaVersions inputs = fold merge_version inputs None"

subsection \<open>Pages\<close>

text \<open>\<open>/([a-z])([A-Z])/g\<close>, then \<open>/[\s_]+/g\<close> (ASCII white space), then \<open>toLowerCase\<close> on ASCII.\<close>

definition is_lower :: "char \<Rightarrow> bool" where "is_lower c = ((97 :: nat) \<le> of_char c \<and> of_char c \<le> (122 :: nat))"
definition is_upper :: "char \<Rightarrow> bool" where "is_upper c = ((65 :: nat) \<le> of_char c \<and> of_char c \<le> (90 :: nat))"
definition to_lower :: "char \<Rightarrow> char" where
  "to_lower c = (if is_upper c then char_of (of_char c + 32 :: nat) else c)"

fun hyphenate_humps :: "string \<Rightarrow> string" where
  "hyphenate_humps (a # b # s) =
     (if is_lower a \<and> is_upper b then a # CHR ''-'' # b # hyphenate_humps s
      else a # hyphenate_humps (b # s))"
| "hyphenate_humps s = s"

fun collapse_gaps :: "bool \<Rightarrow> string \<Rightarrow> string" where
  "collapse_gaps inGap [] = []"
| "collapse_gaps inGap (c # s) =
     (if is_space c \<or> c = CHR ''_'' then (if inGap then collapse_gaps True s else CHR ''-'' # collapse_gaps True s)
      else c # collapse_gaps False s)"

definition toKebabCase :: "string \<Rightarrow> string" where
  "toKebabCase name = map to_lower (collapse_gaps False (hyphenate_humps name))"

text \<open>\<open>s.replace('.entity', '')\<close>: the first occurrence only.\<close>

fun replace_first :: "string \<Rightarrow> string \<Rightarrow> string" where
  "replace_first p [] = []"
| "replace_first p (c # s) =
     (if starts_with p (c # s) then drop (length p) (c # s) else c # replace_first p s)"

fun getEntityName :: "orbital option \<Rightarrow> string option" where
  "getEntityName None = None"
| "getEntityName (Some ob) =
     (case ob_entity ob of
        EntityString ref \<Rightarrow> Some (replace_first ''.entity'' ref)
      | EntityObject name \<Rightarrow> name)"

definition orbital_page :: "nat \<times> orbital \<Rightarrow> page" where
  "orbital_page x = (case x of (index, ob) \<Rightarrow>
     \<lparr>pg_name = ob_name ob @ ''Page'',
      pg_path = (if index = 0 then ''/'' else ''/'' @ toKebabCase (ob_name ob)),
      pg_viewType = None, pg_isInitial = (index = 0), pg_primaryEntity = getEntityName (Some ob)\<rparr>)"

fun generatePages :: "orbital list \<Rightarrow> layout_strategy \<Rightarrow> page list" where
  "generatePages orbitals Single =
     (let orb = (case orbitals of [] \<Rightarrow> None | ob # _ \<Rightarrow> Some ob);
          name = (case orb of None \<Rightarrow> ''Main'' | Some ob \<Rightarrow> ob_name ob)
      in [\<lparr>pg_name = name @ ''Page'', pg_path = ''/'', pg_viewType = None, pg_isInitial = True,
           pg_primaryEntity = getEntityName orb\<rparr>])"
| "generatePages orbitals Dashboard =
     [\<lparr>pg_name = ''DashboardPage'', pg_path = ''/'', pg_viewType = Some ''dashboard'',
       pg_isInitial = True, pg_primaryEntity = None\<rparr>]"
| "generatePages orbitals strategy = map orbital_page (enumerate 0 orbitals)"

subsection \<open>The composed schema\<close>

record compose_input =
  ci_appName :: string
  ci_orbitals :: "compose_item list"
  ci_layoutStrategy :: "layout_strategy option" \<comment> \<open>\<open>None\<close>: absent or \<open>'auto'\<close>\<close>
  ci_eventWiring :: "wiring_entry list option"

record schema =
  sc_name :: string
  sc_version :: string
  sc_orbitals :: "orbital list"
  sc_schemaVersion :: "rat option"
  sc_ledger :: "ledger option"

record compose_result =
  cr_schema :: schema
  cr_strategy :: layout_strategy
  cr_pageCount :: nat
  cr_connections :: nat

definition assign_page :: "layout_strategy \<Rightarrow> page list \<Rightarrow> nat \<times> orbital \<Rightarrow> orbital" where
  "assign_page strategy pages x = (case x of (index, ob) \<Rightarrow>
     (if (case ob_pages ob of None \<Rightarrow> False | Some ps \<Rightarrow> ps \<noteq> []) then ob
      else
        (let slot = (if strategy = Dashboard \<or> strategy = Single then 0 else index)
         in ob\<lparr>ob_pages := Some (if slot < length pages then [pages ! slot] else [])\<rparr>)))"

definition composeBehaviors :: "compose_input \<Rightarrow> compose_result" where
  "composeBehaviors input =
     (let rawOrbitals = asDefinitions (ci_orbitals input);
          wiredOrbitals = (case ci_eventWiring input of
              None \<Rightarrow> rawOrbitals
            | Some w \<Rightarrow> if w \<noteq> [] then applyEventWiring rawOrbitals w else rawOrbitals);
          strategy = (case ci_layoutStrategy input of
              None \<Rightarrow> detectLayoutStrategy wiredOrbitals (ci_eventWiring input)
            | Some s \<Rightarrow> s);
          pages = generatePages wiredOrbitals strategy;
          orbitalsWithPages = map (assign_page strategy pages) (enumerate 0 wiredOrbitals)
      in \<lparr>cr_schema = \<lparr>sc_name = ci_appName input, sc_version = ''1.0.0'', sc_orbitals = orbitalsWithPages,
            sc_schemaVersion = mergeSchemaVersions (ci_orbitals input),
            sc_ledger = mergeLedgers (ci_orbitals input)\<rparr>,
          cr_strategy = strategy, cr_pageCount = length pages,
          cr_connections = (case ci_eventWiring input of None \<Rightarrow> 0 | Some w \<Rightarrow> length w)\<rparr>)"

definition pipeBehaviors :: "'t \<Rightarrow> ('t \<Rightarrow> 't) list \<Rightarrow> 't" where
  "pipeBehaviors seed steps = foldl (\<lambda>current step. step current) seed steps"

subsection \<open>Lemmas on composition\<close>

lemma add_absent_keys: "fst ` set (add_absent kv m) = insert (fst kv) (fst ` set m)"
  by (auto simp: add_absent_def map_of_eq_None_iff image_iff)

lemma add_absent_get:
  "map_of (add_absent kv m) k = (case map_of m k of Some v \<Rightarrow> Some v
     | None \<Rightarrow> if k = fst kv then Some (snd kv) else None)"
  by (cases kv) (auto simp: add_absent_def map_add_def split: option.splits)

lemma add_absent_distinct: "distinct (map fst m) \<Longrightarrow> distinct (map fst (add_absent kv m))"
  by (auto simp: add_absent_def map_of_eq_None_iff)

lemma fold_absent:
  "map_of (fold add_absent l m) k = (case map_of m k of Some v \<Rightarrow> Some v | None \<Rightarrow> map_of l k)"
  "distinct (map fst m) \<Longrightarrow> distinct (map fst (fold add_absent l m))"
  by (induction l arbitrary: m)
    (auto simp: add_absent_get add_absent_distinct split: option.splits if_splits)

definition rows_of :: "compose_item list \<Rightarrow> ledger" where
  "rows_of inputs = concat (map (\<lambda>i. case item_ledger i of None \<Rightarrow> [] | Some l \<Rightarrow> l) inputs)"

lemma fold_merge_one: "fold merge_one inputs m = fold add_absent (rows_of inputs) m"
  by (induction inputs arbitrary: m) (auto simp: merge_one_def rows_of_def split: option.splits)

lemma merged_rows:
  "distinct (map fst (fold merge_one inputs []))"
  "map_of (fold merge_one inputs []) = map_of (rows_of inputs)"
  by (auto simp: fold_merge_one fold_absent)

lemma sorted_rows_unique:
  fixes xs ys :: "(string \<times> 'v) list"
  assumes "distinct (map fst xs)" "distinct (map fst ys)" "map_of xs = map_of ys"
  shows "sort_key fst xs = sort_key fst ys"
proof (rule map_sorted_distinct_set_unique)
  have "(k, v) \<in> set xs \<longleftrightarrow> (k, v) \<in> set ys" for k v
    using assms by (metis map_of_eq_Some_iff)
  then have same: "set xs = set ys" by auto
  then show "set (sort_key fst xs) = set (sort_key fst ys)" by simp
  show "inj_on fst (set (sort_key fst xs) \<union> set (sort_key fst ys))"
    using assms(1) same by (simp add: distinct_map)
  show "distinct (map fst (sort_key fst xs))" "distinct (map fst (sort_key fst ys))"
    using assms(1,2) by (simp_all add: distinct_map)
qed simp_all

lemma agreeing_rows:
  assumes "set xs = set ys" "\<And>k v v'. (k, v) \<in> set xs \<Longrightarrow> (k, v') \<in> set xs \<Longrightarrow> v = v'"
  shows "map_of xs = map_of ys"
proof
  fix k
  show "map_of xs k = map_of ys k"
  proof (cases "map_of xs k")
    case None
    then have "map_of ys k = None" using assms(1) by (simp add: map_of_eq_None_iff)
    with None show ?thesis by simp
  next
    case (Some v)
    then have v: "(k, v) \<in> set xs" by (rule map_of_SomeD)
    then obtain v' where v': "map_of ys k = Some v'"
      using assms(1) by (metis weak_map_of_SomeI)
    then have "(k, v') \<in> set xs" using assms(1) map_of_SomeD by force
    with v v' Some assms(2) show ?thesis by metis
  qed
qed

text \<open>Wiring changes traits only.\<close>

lemma wiring_frame:
  "map (\<lambda>ob. (ob_name ob, ob_pages ob)) (applyEventWiring obs w) = map (\<lambda>ob. (ob_name ob, ob_pages ob)) obs"
proof -
  have "map (\<lambda>ob. (ob_name ob, ob_pages ob)) (update_inline f n obs) = map (\<lambda>ob. (ob_name ob, ob_pages ob)) obs"
    for f n obs by (induction f n obs rule: update_inline.induct) auto
  then have "map (\<lambda>ob. (ob_name ob, ob_pages ob)) (wire_entry e obs) = map (\<lambda>ob. (ob_name ob, ob_pages ob)) obs"
    for e obs by (simp add: wire_entry_eq)
  then have "map (\<lambda>ob. (ob_name ob, ob_pages ob)) (fold wire_entry w obs) = map (\<lambda>ob. (ob_name ob, ob_pages ob)) obs"
    by (induction w arbitrary: obs) auto
  then show ?thesis by (simp add: applyEventWiring_def)
qed

definition owns_pages :: "orbital \<Rightarrow> bool" where
  "owns_pages ob = (case ob_pages ob of None \<Rightarrow> False | Some ps \<Rightarrow> ps \<noteq> [])"

lemma assigned_own: "owns_pages ob \<Longrightarrow> ob_pages (assign_page s pages (i, ob)) = ob_pages ob"
  by (auto simp: assign_page_def owns_pages_def split: option.splits)

lemma assigned_page:
  assumes "i < length obs" "ob = obs ! i" "\<not> owns_pages ob"
  shows "\<exists>p. ob_pages (assign_page s (generatePages obs s) (i, ob)) = Some [p] \<and>
    pg_isInitial p = (s \<in> {Single, Dashboard} \<or> i = 0) \<and>
    pg_path p = (if s \<in> {Single, Dashboard} \<or> i = 0 then ''/'' else ''/'' @ toKebabCase (ob_name ob))"
  using assms by (cases s)
    (auto simp: assign_page_def owns_pages_def Let_def orbital_page_def nth_enumerate_eq split: option.splits)

lemma composed_pages_at:
  assumes "i < length (asDefinitions (ci_orbitals input))" "ob = asDefinitions (ci_orbitals input) ! i"
  shows "if owns_pages ob then ob_pages (sc_orbitals (cr_schema (composeBehaviors input)) ! i) = ob_pages ob
    else \<exists>p. ob_pages (sc_orbitals (cr_schema (composeBehaviors input)) ! i) = Some [p] \<and>
      pg_isInitial p = (cr_strategy (composeBehaviors input) \<in> {Single, Dashboard} \<or> i = 0) \<and>
      pg_path p = (if cr_strategy (composeBehaviors input) \<in> {Single, Dashboard} \<or> i = 0
                   then ''/'' else ''/'' @ toKebabCase (ob_name ob))"
proof -
  define raw where "raw = asDefinitions (ci_orbitals input)"
  define obs where "obs = (case ci_eventWiring input of None \<Rightarrow> raw
      | Some w \<Rightarrow> if w \<noteq> [] then applyEventWiring raw w else raw)"
  define s where "s = cr_strategy (composeBehaviors input)"
  have frame: "map (\<lambda>ob. (ob_name ob, ob_pages ob)) obs = map (\<lambda>ob. (ob_name ob, ob_pages ob)) raw"
    by (auto simp: obs_def wiring_frame split: option.splits)
  then have len: "length obs = length raw" by (metis length_map)
  have at_i: "ob_name (obs ! i) = ob_name ob" "ob_pages (obs ! i) = ob_pages ob" "i < length obs"
    using arg_cong [OF frame, of "\<lambda>xs. xs ! i"] assms len by (auto simp: raw_def)
  have "sc_orbitals (cr_schema (composeBehaviors input))
      = map (assign_page s (generatePages obs s)) (enumerate 0 obs)"
    unfolding composeBehaviors_def Let_def obs_def raw_def s_def by simp
  then have out: "sc_orbitals (cr_schema (composeBehaviors input)) ! i
      = assign_page s (generatePages obs s) (i, obs ! i)"
    using at_i(3) by (simp add: nth_enumerate_eq)
  have owns: "owns_pages (obs ! i) = owns_pages ob" by (simp add: owns_pages_def at_i)
  show ?thesis
    unfolding out s_def [symmetric]
    using assigned_own [of "obs ! i"] assigned_page [OF at_i(3) refl, of s] owns at_i by auto
qed

lemma merge_version_simps:
  "item_version i = None \<Longrightarrow> merge_version i m = m"
  "item_version i = Some v \<Longrightarrow> merge_version i None = Some v"
  "item_version i = Some v \<Longrightarrow> merge_version i (Some n) = Some (max n v)"
  by (simp_all add: merge_version_def)

lemma Max_insert_max: "finite A \<Longrightarrow> Max (insert (max a b) A) = Max (insert b (insert a A))"
  by (cases "A = {}") (simp_all add: max.commute max.left_commute max.assoc)

lemma merge_version_fold:
  "fold merge_version inputs (Some m) = Some (Max (insert m (set (List.map_filter item_version inputs))))"
proof (induction inputs arbitrary: m)
  case (Cons i inputs)
  then show ?case
    by (cases "item_version i")
      (simp_all add: merge_version_simps List.map_filter_simps Max_insert_max insert_commute)
qed (simp add: List.map_filter_simps)

lemma fold_versions:
  "fold merge_version inputs None =
     (let vs = List.map_filter item_version inputs in if vs = [] then None else Some (Max (set vs)))"
proof (induction inputs)
  case (Cons i inputs)
  then show ?case
    by (cases "item_version i")
      (simp_all add: merge_version_simps List.map_filter_simps merge_version_fold)
qed (simp add: List.map_filter_simps)


section \<open>Properties\<close>

text \<open>
  Wiring is complete and idempotent. After \<open>applyEventWiring\<close> every entry whose source trait is
  inline finds its event in that trait's emits, every entry whose target trait is inline finds its
  listener there, and applying the same wiring to the result adds nothing.
\<close>
theorem wiring_complete_idempotent:
  "applyEventWiring (applyEventWiring obs w) w = applyEventWiring obs w \<and>
   list_all (\<lambda>e.
     pred_option (\<lambda>t. \<exists>es. it_emits t = Some es \<and> hasEmit es (we_event e))
       (findInlineTrait (applyEventWiring obs w) (we_from e)) \<and>
     pred_option (\<lambda>t. \<exists>ls. it_listens t = Some ls \<and> hasListen ls (we_event e) (we_triggers e))
       (findInlineTrait (applyEventWiring obs w) (we_to e))) w"
proof -
  have w: "e \<in> set w \<Longrightarrow> wired e (applyEventWiring obs w)" for e
    by (simp add: applyEventWiring_def wired_fold)
  have "applyEventWiring (applyEventWiring obs w) w = applyEventWiring obs w"
    unfolding applyEventWiring_def [of "applyEventWiring obs w"] by (rule fold_wired_id) (rule w)
  then show ?thesis
    using wired_declared [OF w] by (auto simp: list_all_iff option.pred_set elem_set)
qed

text \<open>
  The wizard layout is chosen only for a real chain: the wiring then holds edges A to B and B to
  C between three different traits. Conversely a chain whose first trait is nobody's target and
  whose first two traits have one successor each is always found.
\<close>
theorem wizard_flow_chain:
  "(detectLayoutStrategy obs (Some w) = WizardFlow \<longrightarrow>
      (\<exists>a b c. distinct [a, b, c] \<and> edge w a b \<and> edge w b c)) \<and>
   (distinct [a, b, c] \<and> edge w a b \<and> edge w b c \<and> (\<forall>x. edge w a x \<longrightarrow> x = b) \<and>
    (\<forall>x. edge w b x \<longrightarrow> x = c) \<and> (\<forall>x. \<not> edge w x a) \<longrightarrow>
      detectLayoutStrategy obs (Some w) = WizardFlow)"
proof (intro conjI impI)
  show "\<exists>a b c. distinct [a, b, c] \<and> edge w a b \<and> edge w b c"
    if "detectLayoutStrategy obs (Some w) = WizardFlow"
    using that chain_sound by (auto simp: detectLayoutStrategy_def split: if_splits)
next
  assume h: "distinct [a, b, c] \<and> edge w a b \<and> edge w b c \<and> (\<forall>x. edge w a x \<longrightarrow> x = b) \<and>
    (\<forall>x. edge w b x \<longrightarrow> x = c) \<and> (\<forall>x. \<not> edge w x a)"
  then have "hasSequentialChain w" by (intro chain_complete [of a b c]) blast+
  moreover have "w \<noteq> []" using h by (auto simp: edge_def)
  ultimately show "detectLayoutStrategy obs (Some w) = WizardFlow"
    by (simp add: detectLayoutStrategy_def)
qed

definition two_steps :: "wiring_entry list" where
  "two_steps = [\<lparr>we_from = ''Cart'', we_event = ''PAY'', we_to = ''Pay'', we_triggers = ''INIT''\<rparr>,
     \<lparr>we_from = ''Pay'', we_event = ''PAID'', we_to = ''Ship'', we_triggers = ''INIT''\<rparr>]"

theorem wizard_flow_chain_witness:
  "detectLayoutStrategy [] (Some two_steps) = WizardFlow"
proof -
  have h: "distinct [''Cart'', ''Pay'', ''Ship''] \<and> edge two_steps ''Cart'' ''Pay'' \<and> edge two_steps ''Pay'' ''Ship'' \<and>
    (\<forall>x. edge two_steps ''Cart'' x \<longrightarrow> x = ''Pay'') \<and> (\<forall>x. edge two_steps ''Pay'' x \<longrightarrow> x = ''Ship'') \<and>
    (\<forall>x. \<not> edge two_steps x ''Cart'')"
    by (auto simp: edge_def two_steps_def)
  from wizard_flow_chain [of "[]" two_steps "''Cart''" "''Pay''" "''Ship''"] h show ?thesis by simp
qed

text \<open>
  The greedy walk misses chains: it follows only the first unvisited successor, so the chain
  Cart, Pay, Ship is not found when Cart also feeds a dead end first, and the layout is not the
  wizard flow although the wiring holds three traits in sequence.
\<close>
theorem wizard_flow_missed:
  "let w = \<lparr>we_from = ''Cart'', we_event = ''LOG'', we_to = ''Audit'', we_triggers = ''INIT''\<rparr> # two_steps
   in edge w ''Cart'' ''Pay'' \<and> edge w ''Pay'' ''Ship'' \<and> detectLayoutStrategy [] (Some w) = Single"
  by (simp add: edge_def two_steps_def detectLayoutStrategy_def hasSequentialChain_def adjacency_of_def
      add_edge_def set_add_def chain_walk.simps)

text \<open>
  Composition is order independent for identity: when the inputs' ledgers agree on the ids they
  share, any two orders of the same inputs give the same ledger (rows sorted by id) and the same
  schema version.
\<close>
theorem identity_order_independent:
  assumes "mset inputs = mset inputs'"
    and "\<And>k v v'. (k, v) \<in> set (rows_of inputs) \<Longrightarrow> (k, v') \<in> set (rows_of inputs) \<Longrightarrow> v = v'"
  shows "mergeLedgers inputs = mergeLedgers inputs' \<and> mergeSchemaVersions inputs = mergeSchemaVersions inputs'"
proof
  have same: "set inputs = set inputs'" using assms(1) by (rule mset_eq_setD)
  have "set (rows_of inputs) = set (rows_of inputs')"
    unfolding rows_of_def by (simp add: same)
  then have "map_of (rows_of inputs) = map_of (rows_of inputs')"
    using assms(2) by (intro agreeing_rows) blast+
  then have "sort_key fst (fold merge_one inputs []) = sort_key fst (fold merge_one inputs' [])"
    by (intro sorted_rows_unique) (simp_all add: merged_rows)
  then show "mergeLedgers inputs = mergeLedgers inputs'"
    using same by (simp add: mergeLedgers_def list_ex_iff)
  have "set (List.map_filter item_version inputs) = set (List.map_filter item_version inputs')"
    by (auto simp: List.map_filter_def same image_iff)
  then show "mergeSchemaVersions inputs = mergeSchemaVersions inputs'"
    by (auto simp: mergeSchemaVersions_def fold_versions Let_def)
qed

theorem identity_order_independent_witness:
  "let a = SchemaInput \<lparr>si_orbitals = [], si_ledger = Some [(''t2'', JNull)], si_schemaVersion = Some 3\<rparr>;
       b = SchemaInput \<lparr>si_orbitals = [], si_ledger = Some [(''t1'', JNull), (''t2'', JNull)], si_schemaVersion = None\<rparr>
   in mergeLedgers [a, b] = mergeLedgers [b, a] \<and> mergeSchemaVersions [a, b] = mergeSchemaVersions [b, a]"
  unfolding Let_def by (rule identity_order_independent) (auto simp: rows_of_def)

text \<open>
  Composition keeps the inputs' orbitals in order and gives each a page: an orbital's own pages
  are kept, and one without pages gets exactly one, the root page under the single and dashboard
  layouts and otherwise the page of its own position, at \<open>/\<close> for the first orbital and at its
  kebab-case name for the others, the first being the initial page.
\<close>
theorem composed_pages:
  "length (sc_orbitals (cr_schema (composeBehaviors input))) = length (asDefinitions (ci_orbitals input)) \<and>
   list_all (\<lambda>(i, ob).
     if owns_pages ob then ob_pages (sc_orbitals (cr_schema (composeBehaviors input)) ! i) = ob_pages ob
     else \<exists>p. ob_pages (sc_orbitals (cr_schema (composeBehaviors input)) ! i) = Some [p] \<and>
       pg_isInitial p = (cr_strategy (composeBehaviors input) \<in> {Single, Dashboard} \<or> i = 0) \<and>
       pg_path p = (if cr_strategy (composeBehaviors input) \<in> {Single, Dashboard} \<or> i = 0
                    then ''/'' else ''/'' @ toKebabCase (ob_name ob)))
     (enumerate 0 (asDefinitions (ci_orbitals input)))"
proof
  have "length (applyEventWiring raw w) = length raw" for raw w
    using wiring_frame by (metis length_map)
  then show "length (sc_orbitals (cr_schema (composeBehaviors input))) = length (asDefinitions (ci_orbitals input))"
    by (simp add: composeBehaviors_def Let_def split: option.splits)
next
  show "list_all (\<lambda>(i, ob).
     if owns_pages ob then ob_pages (sc_orbitals (cr_schema (composeBehaviors input)) ! i) = ob_pages ob
     else \<exists>p. ob_pages (sc_orbitals (cr_schema (composeBehaviors input)) ! i) = Some [p] \<and>
       pg_isInitial p = (cr_strategy (composeBehaviors input) \<in> {Single, Dashboard} \<or> i = 0) \<and>
       pg_path p = (if cr_strategy (composeBehaviors input) \<in> {Single, Dashboard} \<or> i = 0
                    then ''/'' else ''/'' @ toKebabCase (ob_name ob)))
     (enumerate 0 (asDefinitions (ci_orbitals input)))"
    unfolding list_all_iff in_set_enumerate_eq split_beta
    by (intro ballI composed_pages_at) (simp_all add: in_set_enumerate_eq)
qed

end
