(* ===== verification/Wire.thy ===== *)
theory Wire
  imports Json
begin

text \<open>
  The kernel's wire, first half: the field readers of \<open>kernel/decode.ts\<close> and the decoders of the
  parts a request is made of (call sites, HTTP messages, instance references, envelopes, tab
  fields and commands). Every reader that throws is a value of \<open>wire_error + 'a\<close>; the fields are
  read in the order of the source, so the first error is the source's. Each decoder stands beside
  the encoder of its type, which writes the object the kernel sends for that value.
\<close>

datatype wire_error =
    Missing string                \<comment> \<open>\<open>"name" is missing\<close>\<close>
  | WrongType string string       \<comment> \<open>\<open>"name" is not a what\<close>\<close>
  | NotAnObject string            \<comment> \<open>\<open>what is not an object\<close>\<close>
  | BadHeader string
  | UnknownValue string string    \<comment> \<open>\<open>unknown what "raw"\<close>\<close>
  | Refused string                \<comment> \<open>thrown by code outside: \<open>JSON.parse\<close>, the schema parsers\<close>

type_synonym 'a wire_result = "wire_error + 'a"

section \<open>Reading fields\<close>

text \<open>\<open>isRecord\<close>: an object that is not an array; the guard hands on its fields.\<close>

fun as_record :: "string \<Rightarrow> jval \<Rightarrow> jobj wire_result" where
  "as_record what (JObj kvs) = Inr kvs"
| "as_record what _ = Inl (NotAnObject what)"

definition field :: "jobj \<Rightarrow> string \<Rightarrow> jval wire_result" where
  "field r name = (case obj_get r name of None \<Rightarrow> Inl (Missing name) | Some v \<Rightarrow> Inr v)"

fun as_text :: "string \<Rightarrow> jval \<Rightarrow> string wire_result" where
  "as_text name (JStr s) = Inr s"
| "as_text name _ = Inl (WrongType name ''string'')"

fun as_whole :: "string \<Rightarrow> jval \<Rightarrow> int wire_result" where
  "as_whole name (JNum x) = (if isInteger x then Inr (int_of_num x) else Inl (WrongType name ''integer''))"
| "as_whole name _ = Inl (WrongType name ''integer'')"

fun as_list :: "string \<Rightarrow> jval \<Rightarrow> jval list wire_result" where
  "as_list name (JArr xs) = Inr xs"
| "as_list name _ = Inl (WrongType name ''list'')"

fun as_flag :: "string \<Rightarrow> jval \<Rightarrow> bool wire_result" where
  "as_flag name (JBool b) = Inr b"
| "as_flag name _ = Inl (WrongType name ''boolean'')"

definition text_field :: "jobj \<Rightarrow> string \<Rightarrow> string wire_result" where
  "text_field r name = rbind (field r name) (as_text name)"

definition whole :: "jobj \<Rightarrow> string \<Rightarrow> int wire_result" where
  "whole r name = rbind (field r name) (as_whole name)"

definition list_field :: "jobj \<Rightarrow> string \<Rightarrow> jval list wire_result" where
  "list_field r name = rbind (field r name) (as_list name)"

definition optional :: "(jobj \<Rightarrow> string \<Rightarrow> 'a wire_result) \<Rightarrow> jobj \<Rightarrow> string \<Rightarrow> 'a option wire_result" where
  "optional read r name =
     (case obj_get r name of None \<Rightarrow> Inr None | Some _ \<Rightarrow> rbind (read r name) (\<lambda>v. Inr (Some v)))"

definition flag_field :: "jobj \<Rightarrow> string \<Rightarrow> bool wire_result" where
  "flag_field r name = rbind (field r name) (as_flag name)"

definition optionalText :: "jobj \<Rightarrow> string \<Rightarrow> string option wire_result" where
  "optionalText = optional text_field"

definition optionalFlag :: "jobj \<Rightarrow> string \<Rightarrow> bool option wire_result" where
  "optionalFlag = optional flag_field"

definition optionalWhole :: "jobj \<Rightarrow> string \<Rightarrow> int option wire_result" where
  "optionalWhole = optional whole"

text \<open>An optional field that must be a non-negative integer (\<open>timeoutMs\<close>, \<open>delayMs\<close>).\<close>

definition optional_non_negative :: "jobj \<Rightarrow> string \<Rightarrow> int option wire_result" where
  "optional_non_negative r name =
     (case obj_get r name of
        None \<Rightarrow> Inr None
      | Some v \<Rightarrow> rbind (case as_whole name v of Inl _ \<Rightarrow> Inl (WrongType name ''non-negative integer'') | Inr n \<Rightarrow> Inr n)
          (\<lambda>n. if n < 0 then Inl (WrongType name ''non-negative integer'') else Inr (Some n)))"

text \<open>A list whose every entry is decoded: \<open>list(record, name).map(decode)\<close>.\<close>

definition list_of :: "(jval \<Rightarrow> 'a wire_result) \<Rightarrow> jobj \<Rightarrow> string \<Rightarrow> 'a list wire_result" where
  "list_of decode r name = rbind (list_field r name) (mapM decode)"

subsection \<open>Writing fields\<close>

text \<open>\<open>...(x !== undefined ? { name: x } : {})\<close> in an object literal.\<close>

definition opt_field :: "string \<Rightarrow> ('a \<Rightarrow> jval) \<Rightarrow> 'a option \<Rightarrow> jobj" where
  "opt_field name enc x = (case x of None \<Rightarrow> [] | Some v \<Rightarrow> [(name, enc v)])"

named_theorems wire_simps \<open>reading back an encoded object\<close>

lemma obj_get_simps [simp, wire_simps]:
  "obj_get [] n = None"
  "obj_get ((m, v) # kvs) n = (if n = m then Some v else obj_get kvs n)"
  "n \<noteq> m \<Longrightarrow> obj_get (opt_field m enc x @ kvs) n = obj_get kvs n"
  "obj_get kvs m = None \<Longrightarrow> obj_get (opt_field m enc x @ kvs) m = map_option enc x"
  "obj_get (opt_field m enc x) n = (if n = m then map_option enc x else None)"
  by (auto simp: obj_get_def opt_field_def split: option.splits)

lemma readers [simp, wire_simps]:
  "obj_get r n = Some v \<Longrightarrow> field r n = Inr v"
  "obj_get r n = Some (JStr s) \<Longrightarrow> text_field r n = Inr s"
  "obj_get r n = Some (JInt k) \<Longrightarrow> whole r n = Inr k"
  "obj_get r n = Some (JArr xs) \<Longrightarrow> list_field r n = Inr xs"
  "obj_get r n = Some (JArr xs) \<Longrightarrow> list_of d r n = mapM d xs"
  "obj_get r n = Some (JBool b) \<Longrightarrow> flag_field r n = Inr b"
  by (simp_all add: field_def text_field_def whole_def list_field_def flag_field_def list_of_def JInt_def)

lemma optional_readers [simp, wire_simps]:
  "obj_get r n = map_option JStr x \<Longrightarrow> optionalText r n = Inr x"
  "obj_get r n = map_option JBool b \<Longrightarrow> optionalFlag r n = Inr b"
  "obj_get r n = map_option JInt i \<Longrightarrow> optionalWhole r n = Inr i"
  "obj_get r n = map_option JInt i \<Longrightarrow> pred_option (\<lambda>n. 0 \<le> n) i \<Longrightarrow> optional_non_negative r n = Inr i"
  by (cases x; cases b; cases i;
      auto simp: optionalText_def optionalFlag_def optionalWhole_def optional_def optional_non_negative_def JInt_def)+

lemma option_case_map [simp, wire_simps]:
  "(case x of None \<Rightarrow> None | Some v \<Rightarrow> Some (f v)) = map_option f x"
  by (simp add: map_option_case)

lemma mapM_encoded:
  assumes "\<And>x. x \<in> set xs \<Longrightarrow> d (e x) = Inr x"
  shows "mapM d (map e xs) = Inr xs"
  using assms by (rule mapM_map_id)

section \<open>Call sites\<close>

record emit_routes =
  er_success :: "string option"
  er_failure :: "string option"
  er_cancelled :: "string option"
  er_onMessage :: "string option"

record call_site =
  cs_orbital :: "string option"
  cs_trait :: string
  cs_followOn :: bool
  cs_emit :: emit_routes

definition decodeSite :: "jval \<Rightarrow> call_site wire_result" where
  "decodeSite value =
     rbind (as_record ''site'' value) (\<lambda>r.
     rbind (optionalText r ''orbital'') (\<lambda>orbital.
     rbind (field r ''emit'') (\<lambda>rawEmit.
     rbind (as_record ''emit'' rawEmit) (\<lambda>emit.
     rbind (optionalText emit ''success'') (\<lambda>success.
     rbind (optionalText emit ''failure'') (\<lambda>failure.
     rbind (optionalText emit ''cancelled'') (\<lambda>cancelled.
     rbind (optionalText emit ''onMessage'') (\<lambda>onMessage.
     rbind (flag_field r ''followOn'') (\<lambda>followOn.
     rbind (text_field r ''trait'') (\<lambda>trait.
     Inr \<lparr>cs_orbital = orbital, cs_trait = trait, cs_followOn = followOn,
          cs_emit = \<lparr>er_success = success, er_failure = failure, er_cancelled = cancelled,
                     er_onMessage = onMessage\<rparr>\<rparr>))))))))))"

definition encodeSite :: "call_site \<Rightarrow> jval" where
  "encodeSite s = JObj (opt_field ''orbital'' JStr (cs_orbital s) @
     [(''trait'', JStr (cs_trait s)), (''followOn'', JBool (cs_followOn s)),
      (''emit'', JObj (opt_field ''success'' JStr (er_success (cs_emit s)) @
                       opt_field ''failure'' JStr (er_failure (cs_emit s)) @
                       opt_field ''cancelled'' JStr (er_cancelled (cs_emit s)) @
                       opt_field ''onMessage'' JStr (er_onMessage (cs_emit s))))])"

lemma decode_encodeSite [simp]: "decodeSite (encodeSite s) = Inr s"
  by (simp add: decodeSite_def encodeSite_def)

section \<open>HTTP messages\<close>

datatype http_body = EmptyBody | TextBody string | Base64Body string

record http_request =
  rq_method :: string
  rq_url :: string
  rq_headers :: "(string \<times> string) list"
  rq_body :: http_body
  rq_timeoutMs :: "int option"

record http_response =
  rs_status :: int
  rs_headers :: "(string \<times> string) list"
  rs_body :: http_body

fun header_pair :: "string \<Rightarrow> jval \<Rightarrow> (string \<times> string) wire_result" where
  "header_pair name (JArr [JStr n, JStr v]) = Inr (n, v)"
| "header_pair name _ = Inl (BadHeader name)"

definition headerPairs :: "jobj \<Rightarrow> string \<Rightarrow> (string \<times> string) list wire_result" where
  "headerPairs r name = list_of (header_pair name) r name"

definition decodeHttpBody :: "jval \<Rightarrow> http_body wire_result" where
  "decodeHttpBody value =
     rbind (as_record ''an http body'' value) (\<lambda>r.
     rbind (text_field r ''kind'') (\<lambda>kind.
       if kind = ''empty'' then Inr EmptyBody
       else if kind = ''text'' then rbind (text_field r ''text'') (\<lambda>t. Inr (TextBody t))
       else if kind = ''base64'' then rbind (text_field r ''data'') (\<lambda>d. Inr (Base64Body d))
       else Inl (UnknownValue ''http body kind'' kind)))"

definition decodeHttpRequest :: "jval \<Rightarrow> http_request wire_result" where
  "decodeHttpRequest value =
     rbind (as_record ''an http request'' value) (\<lambda>r.
     rbind (optional_non_negative r ''timeoutMs'') (\<lambda>timeoutMs.
     rbind (text_field r ''method'') (\<lambda>method.
     rbind (text_field r ''url'') (\<lambda>url.
     rbind (headerPairs r ''headers'') (\<lambda>headers.
     rbind (field r ''body'') (\<lambda>rawBody.
     rbind (decodeHttpBody rawBody) (\<lambda>body.
     Inr \<lparr>rq_method = method, rq_url = url, rq_headers = headers, rq_body = body,
          rq_timeoutMs = timeoutMs\<rparr>)))))))"

definition decodeHttpResponse :: "jval \<Rightarrow> http_response wire_result" where
  "decodeHttpResponse value =
     rbind (as_record ''an http response'' value) (\<lambda>r.
     rbind (whole r ''status'') (\<lambda>status.
     rbind (headerPairs r ''headers'') (\<lambda>headers.
     rbind (field r ''body'') (\<lambda>rawBody.
     rbind (decodeHttpBody rawBody) (\<lambda>body.
     Inr \<lparr>rs_status = status, rs_headers = headers, rs_body = body\<rparr>)))))"

fun encodeHttpBody :: "http_body \<Rightarrow> jval" where
  "encodeHttpBody EmptyBody = JObj [(''kind'', JStr ''empty'')]"
| "encodeHttpBody (TextBody t) = JObj [(''kind'', JStr ''text''), (''text'', JStr t)]"
| "encodeHttpBody (Base64Body d) = JObj [(''kind'', JStr ''base64''), (''data'', JStr d)]"

definition encodeHeaders :: "(string \<times> string) list \<Rightarrow> jval" where
  "encodeHeaders hs = JArr (map (\<lambda>h. JArr [JStr (fst h), JStr (snd h)]) hs)"

definition encodeHttpRequest :: "http_request \<Rightarrow> jval" where
  "encodeHttpRequest q = JObj ([(''method'', JStr (rq_method q)), (''url'', JStr (rq_url q)),
     (''headers'', encodeHeaders (rq_headers q)), (''body'', encodeHttpBody (rq_body q))] @
     opt_field ''timeoutMs'' JInt (rq_timeoutMs q))"

definition encodeHttpResponse :: "http_response \<Rightarrow> jval" where
  "encodeHttpResponse s = JObj [(''status'', JInt (rs_status s)),
     (''headers'', encodeHeaders (rs_headers s)), (''body'', encodeHttpBody (rs_body s))]"

lemma headers_back [simp, wire_simps]:
  "obj_get r n = Some (encodeHeaders hs) \<Longrightarrow> headerPairs r n = Inr hs"
  by (simp add: headerPairs_def encodeHeaders_def mapM_map_id)

lemma decode_encodeHttpBody [simp]: "decodeHttpBody (encodeHttpBody b) = Inr b"
  by (cases b) (simp_all add: decodeHttpBody_def)

definition http_request_ok :: "http_request \<Rightarrow> bool" where
  "http_request_ok q = pred_option (\<lambda>n. 0 \<le> n) (rq_timeoutMs q)"

lemma decode_encodeHttpRequest [simp]:
  "http_request_ok q \<Longrightarrow> decodeHttpRequest (encodeHttpRequest q) = Inr q"
  by (simp add: decodeHttpRequest_def encodeHttpRequest_def http_request_ok_def)

lemma decode_encodeHttpResponse [simp]: "decodeHttpResponse (encodeHttpResponse s) = Inr s"
  by (simp add: decodeHttpResponse_def encodeHttpResponse_def)

lemma optional_non_negative_ok:
  "optional_non_negative r n = Inr i \<Longrightarrow> pred_option (\<lambda>n. 0 \<le> n) i"
  by (auto simp: optional_non_negative_def rbind_eq_Inr split: option.splits sum.splits if_splits)

lemma decodeHttpRequest_ok: "decodeHttpRequest v = Inr q \<Longrightarrow> http_request_ok q"
  by (auto simp: decodeHttpRequest_def http_request_ok_def rbind_eq_Inr dest: optional_non_negative_ok)

end
