(* ===== verification/TabWire.thy ===== *)
theory TabWire
  imports Wire
begin

text \<open>
  The kernel's wire, second part: instance references and envelopes, the tab fields, treatments,
  commands and asks of \<open>kernel/decode.ts\<close>, each decoder with the encoder of its type.
\<close>

section \<open>Instance references and envelopes\<close>

record instance_ref =
  ir_instance :: string
  ir_orbital :: string
  ir_trait :: "string option"

record envelope =
  en_id :: string
  en_from :: instance_ref
  en_to :: instance_ref
  en_event :: string
  en_payload :: jval
  en_causalId :: string
  en_hop :: int

definition decodeInstanceRef :: "jval \<Rightarrow> instance_ref wire_result" where
  "decodeInstanceRef value =
     rbind (as_record ''an instance reference'' value) (\<lambda>r.
     rbind (optionalText r ''trait'') (\<lambda>trait.
     rbind (text_field r ''instance'') (\<lambda>inst.
     rbind (text_field r ''orbital'') (\<lambda>orbital.
     Inr \<lparr>ir_instance = inst, ir_orbital = orbital, ir_trait = trait\<rparr>))))"

definition decodeEnvelope :: "jval \<Rightarrow> envelope wire_result" where
  "decodeEnvelope value =
     rbind (as_record ''an envelope'' value) (\<lambda>r.
     rbind (text_field r ''id'') (\<lambda>i.
     rbind (field r ''from'') (\<lambda>rawFrom.
     rbind (decodeInstanceRef rawFrom) (\<lambda>from.
     rbind (field r ''to'') (\<lambda>rawTo.
     rbind (decodeInstanceRef rawTo) (\<lambda>to.
     rbind (text_field r ''event'') (\<lambda>event.
     rbind (field r ''payload'') (\<lambda>payload.
     rbind (text_field r ''causalId'') (\<lambda>causalId.
     rbind (whole r ''hop'') (\<lambda>hop.
     Inr \<lparr>en_id = i, en_from = from, en_to = to, en_event = event, en_payload = payload,
          en_causalId = causalId, en_hop = hop\<rparr>))))))))))"

definition encodeInstanceRef :: "instance_ref \<Rightarrow> jval" where
  "encodeInstanceRef x = JObj (opt_field ''trait'' JStr (ir_trait x) @
     [(''instance'', JStr (ir_instance x)), (''orbital'', JStr (ir_orbital x))])"

definition encodeEnvelope :: "envelope \<Rightarrow> jval" where
  "encodeEnvelope x = JObj [(''id'', JStr (en_id x)), (''from'', encodeInstanceRef (en_from x)),
     (''to'', encodeInstanceRef (en_to x)), (''event'', JStr (en_event x)), (''payload'', en_payload x),
     (''causalId'', JStr (en_causalId x)), (''hop'', JInt (en_hop x))]"

lemma decode_encodeInstanceRef [simp]: "decodeInstanceRef (encodeInstanceRef x) = Inr x"
  by (simp add: decodeInstanceRef_def encodeInstanceRef_def)

lemma decode_encodeEnvelope [simp]: "decodeEnvelope (encodeEnvelope x) = Inr x"
  by (simp add: decodeEnvelope_def encodeEnvelope_def)

section \<open>Tab fields, treatments and commands\<close>

record tab_field =
  tf_name :: string
  tf_selector :: "string option"
  tf_attr :: "string option"
  tf_resolve :: "bool option"
  tf_template :: "string option"
  tf_required :: "bool option"

record tab_apply =
  ta_elementId :: string
  ta_styles :: "(string \<times> string) list"
  ta_label :: "string option"

datatype tab_action = Click | Focus | TypeText

datatype tab_command =
    QueryCommand string "tab_field list" "int option" "int option" \<comment> \<open>selector, fields, limit?, waitMs?\<close>
  | WatchCommand string string "tab_field list"
  | UnwatchCommand string
  | ApplyCommand tab_apply
  | ApplyManyCommand "tab_apply list"
  | ActCommand string tab_action "string option"

definition tabRecord :: "jval \<Rightarrow> string \<Rightarrow> jobj wire_result" where
  "tabRecord value what = as_record what value"

definition decodeTabField :: "jval \<Rightarrow> tab_field wire_result" where
  "decodeTabField value =
     rbind (tabRecord value ''a tab field'') (\<lambda>e.
     rbind (optionalText e ''selector'') (\<lambda>selector.
     rbind (optionalText e ''attr'') (\<lambda>attr.
     rbind (optionalText e ''template'') (\<lambda>template.
     rbind (optionalFlag e ''resolve'') (\<lambda>resolve.
     rbind (optionalFlag e ''required'') (\<lambda>required.
     rbind (text_field e ''name'') (\<lambda>name.
     Inr \<lparr>tf_name = name, tf_selector = selector, tf_attr = attr, tf_resolve = resolve,
          tf_template = template, tf_required = required\<rparr>)))))))"

definition decodeStyle :: "jval \<Rightarrow> (string \<times> string) wire_result" where
  "decodeStyle style =
     rbind (tabRecord style ''a tab style'') (\<lambda>r.
     rbind (text_field r ''property'') (\<lambda>p.
     rbind (text_field r ''value'') (\<lambda>v. Inr (p, v))))"

definition decodeTabApply :: "jobj \<Rightarrow> tab_apply wire_result" where
  "decodeTabApply e =
     rbind (optionalText e ''label'') (\<lambda>label.
     rbind (text_field e ''elementId'') (\<lambda>elementId.
     rbind (list_of decodeStyle e ''styles'') (\<lambda>styles.
     Inr \<lparr>ta_elementId = elementId, ta_styles = styles, ta_label = label\<rparr>)))"

definition tabAction :: "jobj \<Rightarrow> tab_action wire_result" where
  "tabAction e =
     rbind (text_field e ''action'') (\<lambda>raw.
       if raw = ''click'' then Inr Click
       else if raw = ''focus'' then Inr Focus
       else if raw = ''type'' then Inr TypeText
       else Inl (UnknownValue ''tab action'' raw))"

definition decodeTabCommand :: "jval \<Rightarrow> tab_command wire_result" where
  "decodeTabCommand value =
     rbind (tabRecord value ''a tab command'') (\<lambda>e.
     rbind (text_field e ''kind'') (\<lambda>kind.
       if kind = ''query'' then
         rbind (optionalWhole e ''limit'') (\<lambda>limit.
         rbind (optionalWhole e ''waitMs'') (\<lambda>waitMs.
         rbind (text_field e ''selector'') (\<lambda>selector.
         rbind (list_of decodeTabField e ''fields'') (\<lambda>flds.
         Inr (QueryCommand selector flds limit waitMs)))))
       else if kind = ''watch'' then
         rbind (text_field e ''watchId'') (\<lambda>watchId.
         rbind (text_field e ''selector'') (\<lambda>selector.
         rbind (list_of decodeTabField e ''fields'') (\<lambda>flds.
         Inr (WatchCommand watchId selector flds))))
       else if kind = ''unwatch'' then
         rbind (text_field e ''watchId'') (\<lambda>watchId. Inr (UnwatchCommand watchId))
       else if kind = ''apply'' then
         rbind (decodeTabApply e) (\<lambda>a. Inr (ApplyCommand a))
       else if kind = ''applyMany'' then
         rbind (list_of (\<lambda>item. rbind (tabRecord item ''a tab treatment'') decodeTabApply) e ''items'') (\<lambda>items.
         Inr (ApplyManyCommand items))
       else if kind = ''act'' then
         rbind (optionalText e ''text'') (\<lambda>typed.
         rbind (text_field e ''elementId'') (\<lambda>elementId.
         rbind (tabAction e) (\<lambda>action.
         Inr (ActCommand elementId action typed))))
       else Inl (UnknownValue ''tab command'' kind)))"

subsection \<open>Encoders\<close>

definition encodeTabField :: "tab_field \<Rightarrow> jval" where
  "encodeTabField f = JObj (opt_field ''selector'' JStr (tf_selector f) @ opt_field ''attr'' JStr (tf_attr f) @
     opt_field ''resolve'' JBool (tf_resolve f) @ opt_field ''template'' JStr (tf_template f) @
     opt_field ''required'' JBool (tf_required f) @ [(''name'', JStr (tf_name f))])"

definition encodeStyle :: "string \<times> string \<Rightarrow> jval" where
  "encodeStyle s = JObj [(''property'', JStr (fst s)), (''value'', JStr (snd s))]"

definition apply_fields :: "tab_apply \<Rightarrow> jobj" where
  "apply_fields a = opt_field ''label'' JStr (ta_label a) @
     [(''elementId'', JStr (ta_elementId a)), (''styles'', JArr (map encodeStyle (ta_styles a)))]"

fun action_text :: "tab_action \<Rightarrow> string" where
  "action_text Click = ''click''"
| "action_text Focus = ''focus''"
| "action_text TypeText = ''type''"

fun encodeTabCommand :: "tab_command \<Rightarrow> jval" where
  "encodeTabCommand (QueryCommand selector flds limit waitMs) =
     JObj (opt_field ''limit'' JInt limit @ opt_field ''waitMs'' JInt waitMs @
       [(''kind'', JStr ''query''), (''selector'', JStr selector), (''fields'', JArr (map encodeTabField flds))])"
| "encodeTabCommand (WatchCommand watchId selector flds) =
     JObj [(''kind'', JStr ''watch''), (''watchId'', JStr watchId), (''selector'', JStr selector),
       (''fields'', JArr (map encodeTabField flds))]"
| "encodeTabCommand (UnwatchCommand watchId) = JObj [(''kind'', JStr ''unwatch''), (''watchId'', JStr watchId)]"
| "encodeTabCommand (ApplyCommand a) = JObj ((''kind'', JStr ''apply'') # apply_fields a)"
| "encodeTabCommand (ApplyManyCommand items) =
     JObj [(''kind'', JStr ''applyMany''), (''items'', JArr (map (\<lambda>a. JObj (apply_fields a)) items))]"
| "encodeTabCommand (ActCommand elementId action typed) =
     JObj (opt_field ''text'' JStr typed @
       [(''kind'', JStr ''act''), (''elementId'', JStr elementId), (''action'', JStr (action_text action))])"

lemma decode_encodeTabField [simp]: "decodeTabField (encodeTabField f) = Inr f"
  by (simp add: decodeTabField_def encodeTabField_def tabRecord_def)

lemma decode_encodeStyle [simp]: "decodeStyle (encodeStyle s) = Inr s"
  by (simp add: decodeStyle_def encodeStyle_def tabRecord_def)

lemma decode_apply_fields [simp]:
  "decodeTabApply (apply_fields a) = Inr a"
  "decodeTabApply ((''kind'', JStr k) # apply_fields a) = Inr a"
  by (simp_all add: decodeTabApply_def apply_fields_def mapM_map_id)

lemma tabAction_back [simp]: "obj_get r ''action'' = Some (JStr (action_text a)) \<Longrightarrow> tabAction r = Inr a"
  by (cases a) (simp_all add: tabAction_def)

lemma decode_encodeTabCommand [simp]: "decodeTabCommand (encodeTabCommand c) = Inr c"
  by (cases c) (simp_all add: decodeTabCommand_def tabRecord_def mapM_map_id)

section \<open>Tab asks\<close>

datatype capture_format = Png | Jpeg

datatype tab_ask =
    ListTabs
  | OpenTab string bool
  | CloseTab int
  | NavigateTab int string
  | CommandTab int tab_command
  | AwaitReady int int
  | WatchTabs string string string "tab_field list" string string string
      \<comment> \<open>watchId, match, selector, fields, and the delivery's orbital, trait, event\<close>
  | UnwatchTabs string
  | CaptureTab int capture_format "int option"

definition capture_format_of :: "string \<Rightarrow> capture_format wire_result" where
  "capture_format_of f = (if f = ''png'' then Inr Png else if f = ''jpeg'' then Inr Jpeg
     else Inl (UnknownValue ''capture format'' f))"

definition decodeTabAsk :: "jval \<Rightarrow> tab_ask wire_result" where
  "decodeTabAsk value =
     rbind (tabRecord value ''a tab ask'') (\<lambda>e.
     rbind (text_field e ''kind'') (\<lambda>kind.
       if kind = ''list'' then Inr ListTabs
       else if kind = ''open'' then
         rbind (optionalFlag e ''active'') (\<lambda>active.
         case active of
           None \<Rightarrow> Inl (Missing ''active'')
         | Some a \<Rightarrow> rbind (text_field e ''url'') (\<lambda>url. Inr (OpenTab url a)))
       else if kind = ''close'' then rbind (whole e ''tab'') (\<lambda>t. Inr (CloseTab t))
       else if kind = ''navigate'' then
         rbind (whole e ''tab'') (\<lambda>t. rbind (text_field e ''url'') (\<lambda>url. Inr (NavigateTab t url)))
       else if kind = ''command'' then
         rbind (whole e ''tab'') (\<lambda>t. rbind (field e ''command'') (\<lambda>raw.
         rbind (decodeTabCommand raw) (\<lambda>c. Inr (CommandTab t c))))
       else if kind = ''awaitReady'' then
         rbind (whole e ''tab'') (\<lambda>t. rbind (whole e ''timeoutMs'') (\<lambda>ms. Inr (AwaitReady t ms)))
       else if kind = ''watch'' then
         rbind (field e ''deliver'') (\<lambda>raw.
         rbind (tabRecord raw ''a tab delivery'') (\<lambda>d.
         rbind (text_field e ''watchId'') (\<lambda>watchId.
         rbind (text_field e ''match'') (\<lambda>pattern.
         rbind (text_field e ''selector'') (\<lambda>selector.
         rbind (list_of decodeTabField e ''fields'') (\<lambda>flds.
         rbind (text_field d ''orbital'') (\<lambda>orbital.
         rbind (text_field d ''trait'') (\<lambda>trait.
         rbind (text_field d ''event'') (\<lambda>event.
         Inr (WatchTabs watchId pattern selector flds orbital trait event))))))))))
       else if kind = ''unwatch'' then rbind (text_field e ''watchId'') (\<lambda>w. Inr (UnwatchTabs w))
       else if kind = ''capture'' then
         rbind (text_field e ''format'') (\<lambda>raw.
         rbind (capture_format_of raw) (\<lambda>format.
         rbind (optionalWhole e ''quality'') (\<lambda>quality.
         rbind (whole e ''tab'') (\<lambda>t. Inr (CaptureTab t format quality)))))
       else Inl (UnknownValue ''tab ask'' kind)))"

fun format_text :: "capture_format \<Rightarrow> string" where
  "format_text Png = ''png''"
| "format_text Jpeg = ''jpeg''"

fun encodeTabAsk :: "tab_ask \<Rightarrow> jval" where
  "encodeTabAsk ListTabs = JObj [(''kind'', JStr ''list'')]"
| "encodeTabAsk (OpenTab url a) = JObj [(''kind'', JStr ''open''), (''url'', JStr url), (''active'', JBool a)]"
| "encodeTabAsk (CloseTab t) = JObj [(''kind'', JStr ''close''), (''tab'', JInt t)]"
| "encodeTabAsk (NavigateTab t url) = JObj [(''kind'', JStr ''navigate''), (''tab'', JInt t), (''url'', JStr url)]"
| "encodeTabAsk (CommandTab t c) =
     JObj [(''kind'', JStr ''command''), (''tab'', JInt t), (''command'', encodeTabCommand c)]"
| "encodeTabAsk (AwaitReady t ms) = JObj [(''kind'', JStr ''awaitReady''), (''tab'', JInt t), (''timeoutMs'', JInt ms)]"
| "encodeTabAsk (WatchTabs watchId pattern selector flds orbital trait event) =
     JObj [(''kind'', JStr ''watch''), (''watchId'', JStr watchId), (''match'', JStr pattern),
       (''selector'', JStr selector), (''fields'', JArr (map encodeTabField flds)),
       (''deliver'', JObj [(''orbital'', JStr orbital), (''trait'', JStr trait), (''event'', JStr event)])]"
| "encodeTabAsk (UnwatchTabs w) = JObj [(''kind'', JStr ''unwatch''), (''watchId'', JStr w)]"
| "encodeTabAsk (CaptureTab t format quality) =
     JObj (opt_field ''quality'' JInt quality @
       [(''kind'', JStr ''capture''), (''tab'', JInt t), (''format'', JStr (format_text format))])"

lemma optionalFlag_set [simp]: "obj_get r n = Some (JBool b) \<Longrightarrow> optionalFlag r n = Inr (Some b)"
  by (simp add: optionalFlag_def optional_def)

lemma capture_format_back [simp]: "capture_format_of (format_text f) = Inr f"
  by (cases f) (simp_all add: capture_format_of_def)

lemma decode_encodeTabAsk [simp]: "decodeTabAsk (encodeTabAsk a) = Inr a"
  by (cases a) (simp_all add: decodeTabAsk_def tabRecord_def mapM_map_id)

end
