(* ===== verification/OAuthWire.thy ===== *)
theory OAuthWire
  imports Wire
begin

text \<open>
  The kernel's wire, third part: the closed set of asks an OAuth flow makes of its host
  (\<open>decodeOAuthAsk\<close> of \<open>kernel/decode.ts\<close>). The guard \<open>isJsonObject\<close> of \<open>@almadar/core\<close> is the
  parameter \<open>narrow\<close>: the fields of a value it accepts, \<open>None\<close> for a value it refuses.
\<close>

datatype provider = Google | Github | Auth0

record pending_grant =
  pg_provider :: string
  pg_redirectUri :: string
  pg_verifier :: string
  pg_subject :: "string option"
  pg_scopes :: "string list"

record token_grant =
  tg_accessToken :: string
  tg_refreshToken :: "string option"
  tg_expiresIn :: js_number
  tg_tokenType :: string
  tg_scope :: "string list option"
  tg_subject :: "string option"

datatype oauth_ask =
    PendingPut string js_number pending_grant      \<comment> \<open>state, ttlMs, grant\<close>
  | PendingTake string
  | ConnectionAvailable
  | ConnectionSave provider token_grant
  | ConnectionStatus provider
  | ConnectionRemove provider
  | SubjectRemember string string
  | SubjectLookup string
  | SubjectForget string
  | MetadataGet string
  | MetadataPut string jobj
  | ClockAsk
  | MockTokenPut string string js_number provider
  | MockTokenRefresh string string js_number
  | MockTokenRevoke string
  | MockTokenCheck string
  | Consent string string string

definition recordOf :: "(jval \<Rightarrow> jobj option) \<Rightarrow> jval option \<Rightarrow> string \<Rightarrow> jobj wire_result" where
  "recordOf narrow value what =
     (case Option.bind value narrow of None \<Rightarrow> Inl (NotAnObject what) | Some r \<Rightarrow> Inr r)"

definition oauthText :: "jobj \<Rightarrow> string \<Rightarrow> string wire_result" where
  "oauthText source key =
     (case obj_get source key of Some (JStr s) \<Rightarrow> Inr s | _ \<Rightarrow> Inl (WrongType key ''text''))"

definition oauthNumber :: "jobj \<Rightarrow> string \<Rightarrow> js_number wire_result" where
  "oauthNumber source key =
     (case obj_get source key of Some (JNum x) \<Rightarrow> Inr x | _ \<Rightarrow> Inl (WrongType key ''number''))"

definition oauthNullableText :: "jobj \<Rightarrow> string \<Rightarrow> string option wire_result" where
  "oauthNullableText source key =
     (case obj_get source key of
        None \<Rightarrow> Inr None
      | Some JNull \<Rightarrow> Inr None
      | Some _ \<Rightarrow> rbind (oauthText source key) (\<lambda>s. Inr (Some s)))"

fun text_item :: "string \<Rightarrow> jval \<Rightarrow> string wire_result" where
  "text_item key (JStr s) = Inr s"
| "text_item key _ = Inl (WrongType key ''list of text'')"

definition oauthTextList :: "jobj \<Rightarrow> string \<Rightarrow> string list option wire_result" where
  "oauthTextList source key =
     (case obj_get source key of
        None \<Rightarrow> Inr None
      | Some JNull \<Rightarrow> Inr None
      | Some (JArr items) \<Rightarrow> rbind (mapM (text_item key) items) (\<lambda>ts. Inr (Some ts))
      | Some _ \<Rightarrow> Inl (WrongType key ''list of text''))"

definition provider_of :: "string \<Rightarrow> provider option" where
  "provider_of s = (if s = ''google'' then Some Google else if s = ''github'' then Some Github
     else if s = ''auth0'' then Some Auth0 else None)"

definition oauthProvider :: "jobj \<Rightarrow> provider wire_result" where
  "oauthProvider source =
     (case obj_get source ''provider'' of
        Some (JStr s) \<Rightarrow> (case provider_of s of Some p \<Rightarrow> Inr p | None \<Rightarrow> Inl (UnknownValue ''provider'' s))
      | _ \<Rightarrow> Inl (WrongType ''provider'' ''google, github or auth0''))"

definition decodePendingPut :: "(jval \<Rightarrow> jobj option) \<Rightarrow> jobj \<Rightarrow> oauth_ask wire_result" where
  "decodePendingPut narrow ask =
     rbind (recordOf narrow (obj_get ask ''grant'') ''the pending grant'') (\<lambda>grant.
     rbind (oauthNumber ask ''ttlMs'') (\<lambda>ttlMs.
     rbind (oauthText ask ''state'') (\<lambda>state.
     rbind (oauthText grant ''provider'') (\<lambda>prov.
     rbind (oauthText grant ''redirectUri'') (\<lambda>redirectUri.
     rbind (oauthText grant ''verifier'') (\<lambda>verifier.
     rbind (oauthNullableText grant ''subject'') (\<lambda>subject.
     rbind (oauthTextList grant ''scopes'') (\<lambda>scopes.
     Inr (PendingPut state ttlMs
       \<lparr>pg_provider = prov, pg_redirectUri = redirectUri, pg_verifier = verifier, pg_subject = subject,
        pg_scopes = (case scopes of None \<Rightarrow> [] | Some ss \<Rightarrow> ss)\<rparr>)))))))))"

definition decodeConnectionSave :: "(jval \<Rightarrow> jobj option) \<Rightarrow> jobj \<Rightarrow> oauth_ask wire_result" where
  "decodeConnectionSave narrow ask =
     rbind (recordOf narrow (obj_get ask ''grant'') ''the token grant'') (\<lambda>grant.
     rbind (oauthNumber grant ''expiresIn'') (\<lambda>expiresIn.
     rbind (oauthProvider ask) (\<lambda>prov.
     rbind (oauthText grant ''accessToken'') (\<lambda>accessToken.
     rbind (oauthNullableText grant ''refreshToken'') (\<lambda>refreshToken.
     rbind (oauthText grant ''tokenType'') (\<lambda>tokenType.
     rbind (oauthTextList grant ''scope'') (\<lambda>scope.
     rbind (oauthNullableText grant ''subject'') (\<lambda>subject.
     Inr (ConnectionSave prov
       \<lparr>tg_accessToken = accessToken, tg_refreshToken = refreshToken, tg_expiresIn = expiresIn,
        tg_tokenType = tokenType, tg_scope = scope, tg_subject = subject\<rparr>)))))))))"

definition decodeOAuthAsk :: "(jval \<Rightarrow> jobj option) \<Rightarrow> jval option \<Rightarrow> oauth_ask wire_result" where
  "decodeOAuthAsk narrow value =
     rbind (recordOf narrow value ''the oauth ask'') (\<lambda>ask.
       case obj_get ask ''ask'' of
         Some (JStr kind) \<Rightarrow>
           if kind = ''pendingPut'' then decodePendingPut narrow ask
           else if kind = ''pendingTake'' then rbind (oauthText ask ''state'') (\<lambda>s. Inr (PendingTake s))
           else if kind = ''connectionAvailable'' then Inr ConnectionAvailable
           else if kind = ''connectionSave'' then decodeConnectionSave narrow ask
           else if kind = ''connectionStatus'' then rbind (oauthProvider ask) (\<lambda>p. Inr (ConnectionStatus p))
           else if kind = ''connectionRemove'' then rbind (oauthProvider ask) (\<lambda>p. Inr (ConnectionRemove p))
           else if kind = ''subjectRemember'' then
             rbind (oauthText ask ''accessToken'') (\<lambda>t. rbind (oauthText ask ''subject'') (\<lambda>s. Inr (SubjectRemember t s)))
           else if kind = ''subjectLookup'' then rbind (oauthText ask ''accessToken'') (\<lambda>t. Inr (SubjectLookup t))
           else if kind = ''subjectForget'' then rbind (oauthText ask ''accessToken'') (\<lambda>t. Inr (SubjectForget t))
           else if kind = ''metadataGet'' then rbind (oauthText ask ''issuer'') (\<lambda>i. Inr (MetadataGet i))
           else if kind = ''metadataPut'' then
             rbind (oauthText ask ''issuer'') (\<lambda>i.
             rbind (recordOf narrow (obj_get ask ''metadata'') ''the metadata'') (\<lambda>m. Inr (MetadataPut i m)))
           else if kind = ''clock'' then Inr ClockAsk
           else if kind = ''mockTokenPut'' then
             rbind (oauthText ask ''accessToken'') (\<lambda>a. rbind (oauthText ask ''refreshToken'') (\<lambda>r.
             rbind (oauthNumber ask ''expiresAtMs'') (\<lambda>e. rbind (oauthProvider ask) (\<lambda>p.
             Inr (MockTokenPut a r e p)))))
           else if kind = ''mockTokenRefresh'' then
             rbind (oauthText ask ''refreshToken'') (\<lambda>r. rbind (oauthText ask ''newAccessToken'') (\<lambda>n.
             rbind (oauthNumber ask ''expiresAtMs'') (\<lambda>e. Inr (MockTokenRefresh r n e))))
           else if kind = ''mockTokenRevoke'' then rbind (oauthText ask ''token'') (\<lambda>t. Inr (MockTokenRevoke t))
           else if kind = ''mockTokenCheck'' then rbind (oauthText ask ''accessToken'') (\<lambda>t. Inr (MockTokenCheck t))
           else if kind = ''consent'' then
             rbind (oauthText ask ''authUrl'') (\<lambda>u. rbind (oauthText ask ''state'') (\<lambda>s.
             rbind (oauthText ask ''redirectUri'') (\<lambda>r. Inr (Consent u s r))))
           else Inl (UnknownValue ''driver oauth ask'' kind)
       | _ \<Rightarrow> Inl (UnknownValue ''driver oauth ask'' ''''))"

section \<open>Encoders\<close>

fun provider_text :: "provider \<Rightarrow> string" where
  "provider_text Google = ''google''"
| "provider_text Github = ''github''"
| "provider_text Auth0 = ''auth0''"

text \<open>An absent text is sent as \<open>null\<close>.\<close>

definition nullable :: "('a \<Rightarrow> jval) \<Rightarrow> 'a option \<Rightarrow> jval" where
  "nullable enc x = (case x of None \<Rightarrow> JNull | Some v \<Rightarrow> enc v)"

definition text_list :: "string list \<Rightarrow> jval" where
  "text_list ss = JArr (map JStr ss)"

definition ask_object :: "string \<Rightarrow> jobj \<Rightarrow> jval" where
  "ask_object kind kvs = JObj ((''ask'', JStr kind) # kvs)"

fun encodeOAuthAsk :: "oauth_ask \<Rightarrow> jval" where
  "encodeOAuthAsk (PendingPut state ttlMs g) = ask_object ''pendingPut''
     [(''state'', JStr state), (''ttlMs'', JNum ttlMs),
      (''grant'', JObj [(''provider'', JStr (pg_provider g)), (''redirectUri'', JStr (pg_redirectUri g)),
         (''verifier'', JStr (pg_verifier g)), (''subject'', nullable JStr (pg_subject g)),
         (''scopes'', text_list (pg_scopes g))])]"
| "encodeOAuthAsk (PendingTake s) = ask_object ''pendingTake'' [(''state'', JStr s)]"
| "encodeOAuthAsk ConnectionAvailable = ask_object ''connectionAvailable'' []"
| "encodeOAuthAsk (ConnectionSave p g) = ask_object ''connectionSave''
     [(''provider'', JStr (provider_text p)),
      (''grant'', JObj [(''accessToken'', JStr (tg_accessToken g)), (''refreshToken'', nullable JStr (tg_refreshToken g)),
         (''expiresIn'', JNum (tg_expiresIn g)), (''tokenType'', JStr (tg_tokenType g)),
         (''scope'', nullable text_list (tg_scope g)), (''subject'', nullable JStr (tg_subject g))])]"
| "encodeOAuthAsk (ConnectionStatus p) = ask_object ''connectionStatus'' [(''provider'', JStr (provider_text p))]"
| "encodeOAuthAsk (ConnectionRemove p) = ask_object ''connectionRemove'' [(''provider'', JStr (provider_text p))]"
| "encodeOAuthAsk (SubjectRemember t s) = ask_object ''subjectRemember'' [(''accessToken'', JStr t), (''subject'', JStr s)]"
| "encodeOAuthAsk (SubjectLookup t) = ask_object ''subjectLookup'' [(''accessToken'', JStr t)]"
| "encodeOAuthAsk (SubjectForget t) = ask_object ''subjectForget'' [(''accessToken'', JStr t)]"
| "encodeOAuthAsk (MetadataGet i) = ask_object ''metadataGet'' [(''issuer'', JStr i)]"
| "encodeOAuthAsk (MetadataPut i m) = ask_object ''metadataPut'' [(''issuer'', JStr i), (''metadata'', JObj m)]"
| "encodeOAuthAsk ClockAsk = ask_object ''clock'' []"
| "encodeOAuthAsk (MockTokenPut a r e p) = ask_object ''mockTokenPut''
     [(''accessToken'', JStr a), (''refreshToken'', JStr r), (''expiresAtMs'', JNum e), (''provider'', JStr (provider_text p))]"
| "encodeOAuthAsk (MockTokenRefresh r n e) = ask_object ''mockTokenRefresh''
     [(''refreshToken'', JStr r), (''newAccessToken'', JStr n), (''expiresAtMs'', JNum e)]"
| "encodeOAuthAsk (MockTokenRevoke t) = ask_object ''mockTokenRevoke'' [(''token'', JStr t)]"
| "encodeOAuthAsk (MockTokenCheck t) = ask_object ''mockTokenCheck'' [(''accessToken'', JStr t)]"
| "encodeOAuthAsk (Consent u s r) = ask_object ''consent''
     [(''authUrl'', JStr u), (''state'', JStr s), (''redirectUri'', JStr r)]"

section \<open>Reading back\<close>

lemma oauth_readers [simp, wire_simps]:
  "obj_get r n = Some (JStr s) \<Longrightarrow> oauthText r n = Inr s"
  "obj_get r n = Some (JNum x) \<Longrightarrow> oauthNumber r n = Inr x"
  "obj_get r n = Some (nullable JStr t) \<Longrightarrow> oauthNullableText r n = Inr t"
  "obj_get r n = Some (nullable text_list ts) \<Longrightarrow> oauthTextList r n = Inr ts"
  "obj_get r n = Some (text_list ss) \<Longrightarrow> oauthTextList r n = Inr (Some ss)"
proof -
  have items: "mapM (text_item n) (map JStr ss) = Inr ss" for ss
    by (rule mapM_map_id) simp
  show "obj_get r n = Some (JStr s) \<Longrightarrow> oauthText r n = Inr s"
    "obj_get r n = Some (JNum x) \<Longrightarrow> oauthNumber r n = Inr x"
    by (simp_all add: oauthText_def oauthNumber_def)
  show "obj_get r n = Some (nullable JStr t) \<Longrightarrow> oauthNullableText r n = Inr t"
    by (cases t) (simp_all add: oauthNullableText_def oauthText_def nullable_def)
  show "obj_get r n = Some (nullable text_list ts) \<Longrightarrow> oauthTextList r n = Inr ts"
    "obj_get r n = Some (text_list ss) \<Longrightarrow> oauthTextList r n = Inr (Some ss)"
    by (cases ts; simp add: oauthTextList_def nullable_def text_list_def items)+
qed

lemma oauthProvider_back [simp]:
  "obj_get r ''provider'' = Some (JStr (provider_text p)) \<Longrightarrow> oauthProvider r = Inr p"
  by (cases p) (simp_all add: oauthProvider_def provider_of_def)

lemma decode_encodeOAuthAsk:
  assumes "\<And>kvs. narrow (JObj kvs) = Some kvs"
  shows "decodeOAuthAsk narrow (Some (encodeOAuthAsk a)) = Inr a"
  by (cases a) (simp_all add: decodeOAuthAsk_def ask_object_def recordOf_def assms
      decodePendingPut_def decodeConnectionSave_def)

end
