(* ===== verification/Decode.thy ===== *)
theory Decode
  imports TabWire OAuthWire
begin

text \<open>
  The kernel's requests, decoded: \<open>decodeRequest\<close>, \<open>decodeProgress\<close> and \<open>decodeResolveProgress\<close> of
  \<open>kernel/decode.ts\<close>. The schema parsers and guards of \<open>@almadar/core\<close> and \<open>JSON.parse\<close> are the
  fields of the parameter \<open>wire_core\<close>. Every request kind is one constructor of \<open>io_request\<close>; the
  branches of the \<open>switch\<close> are one definition each, composed by \<open>decodeRequest\<close>.
\<close>

record ('q, 'b) wire_core =
  wc_json :: "string \<Rightarrow> jval wire_result"                  \<comment> \<open>\<open>JSON.parse\<close>\<close>
  wc_query :: "jval \<Rightarrow> 'q wire_result"                     \<comment> \<open>\<open>RowQuerySchema.parse\<close>\<close>
  wc_batch :: "jval \<Rightarrow> 'b wire_result"                     \<comment> \<open>\<open>RowWriteBatchSchema.parse\<close>\<close>
  wc_isEventResponse :: "jval \<Rightarrow> bool"
  wc_narrow :: "jval \<Rightarrow> jobj option"                       \<comment> \<open>\<open>isJsonObject\<close>\<close>

section \<open>Requests\<close>

datatype projection = ProjectRows | ProjectIds
datatype framing = Sse | JsonLines
datatype page_fact = Hostname | Referrer | ScreenWidth

record caller =
  ca_principal :: string
  ca_role :: "string option"

record service_call =
  sv_service :: string
  sv_method :: string
  sv_args :: jval
  sv_key :: "string option"
  sv_caller :: "caller option"
  sv_site :: "call_site option"

datatype ('q, 'b) io_request =
    ReadRow string string
  | ListRows string
  | QueryRows string 'q projection
  | WriteRows 'b
  | CreateRow string jval
  | WriteRow string string jval
  | DeleteRow string string
  | CallService service_call
  | CancelCall string
  | Substrate string "jval list"
  | Http http_request "int option" "string option" "call_site option"       \<comment> \<open>delayMs?, key?, site?\<close>
  | HttpStream http_request framing "string option" "call_site option"
  | HttpBeacon http_request "string option" "call_site option"
  | PageFacts "page_fact list"
  | Prompt string string "string option"
  | Embed "string list" "string option"
  | Tab tab_ask "string option"
  | Secret string "string option"
  | SecretSet string string int "string option"
  | SecretRotate string string "string option"
  | OAuth oauth_ask "string option"
  | Deliver envelope "string option" call_site
  | Random int
  | Os string "jval list" "string option" "call_site option"
  | CredentialStatus string "string option"
  | CredentialForget string "string option"
  | Clock
  | CredentialStoreList
  | CredentialStoreRead string
  | CredentialStoreWrite string string string
  | CredentialStoreRemove string
  | CredentialStoreRotate
  | CredentialModeRead
  | CredentialModeWrite string

definition OS_OPS :: "string list" where
  "OS_OPS = [
     ''os/read-file'', ''os/write-file'', ''os/append-file'', ''os/open'', ''os/close'',
     ''os/read'', ''os/write'', ''os/seek'', ''os/truncate'', ''os/fsync'', ''os/copy'',
     ''os/rename'', ''os/remove'', ''os/link'', ''os/symlink'', ''os/readlink'',
     ''os/watch-files'', ''os/mkdir'', ''os/rmdir'', ''os/list-dir'', ''os/glob'', ''os/mktemp'',
     ''os/realpath'', ''os/cwd'', ''os/chdir'', ''os/stat'', ''os/lstat'', ''os/access'',
     ''os/exists'', ''os/chmod'', ''os/chown'', ''os/utimes'', ''os/spawn'', ''os/wait'',
     ''os/kill'', ''os/pid'', ''os/ppid'', ''os/watch-process'', ''os/watch-signal'',
     ''os/getenv'', ''os/setenv'', ''os/unsetenv'', ''os/environ'', ''os/watch-env'',
     ''os/stdin-read'', ''os/stdout-write'', ''os/stderr-write'', ''os/isatty'', ''os/tty-size'',
     ''os/tcp-connect'', ''os/tcp-listen'', ''os/send'', ''os/recv'', ''os/udp-bind'',
     ''os/sendto'', ''os/recvfrom'', ''os/dns-resolve'', ''os/shutdown'', ''os/watch-port'',
     ''os/clock-monotonic'', ''os/uid'', ''os/gid'', ''os/username'', ''os/group-of'',
     ''os/watch-cron'', ''os/cpu-usage'', ''os/memory-info'', ''os/uptime'', ''os/load-avg'',
     ''os/hostname'', ''os/uname'', ''os/disk-usage'', ''os/mounts'', ''os/disk-io'',
     ''os/network-interfaces'', ''os/network-stats'', ''os/network-connected'',
     ''os/default-gateway'', ''os/battery-status'', ''os/ac-power'', ''os/thermal-zones'',
     ''os/notify'', ''os/speak'', ''os/brightness-get'', ''os/brightness-set'', ''os/volume-get'',
     ''os/volume-set'', ''os/volume-mute'', ''os/suspend'', ''os/hibernate'']"

definition osOp :: "jobj \<Rightarrow> string \<Rightarrow> string wire_result" where
  "osOp r name =
     rbind (text_field r name) (\<lambda>raw.
       case find (\<lambda>op. op = raw) OS_OPS of
         None \<Rightarrow> Inl (UnknownValue ''os op'' raw)
       | Some found \<Rightarrow> Inr found)"

definition REQUEST_KINDS :: "string list" where
  "REQUEST_KINDS = [
     ''readRow'', ''listRows'', ''queryRows'', ''writeRows'', ''createRow'', ''writeRow'',
     ''deleteRow'', ''callService'', ''cancelCall'', ''substrate'', ''http'', ''httpStream'',
     ''httpBeacon'', ''pageFacts'', ''prompt'', ''embed'', ''tab'', ''secret'', ''secretSet'',
     ''secretRotate'', ''oauth'', ''deliver'', ''random'', ''os'', ''credentialStatus'',
     ''credentialForget'', ''clock'', ''credentialStoreList'', ''credentialStoreRead'',
     ''credentialStoreWrite'', ''credentialStoreRemove'', ''credentialStoreRotate'',
     ''credentialModeRead'', ''credentialModeWrite'']"

definition isRequestKind :: "string \<Rightarrow> bool" where
  "isRequestKind raw = (raw \<in> set REQUEST_KINDS)"

section \<open>One branch each\<close>

definition projection_of :: "string \<Rightarrow> projection wire_result" where
  "projection_of p = (if p = ''rows'' then Inr ProjectRows else if p = ''ids'' then Inr ProjectIds
     else Inl (UnknownValue ''projection'' p))"

definition framing_of :: "string \<Rightarrow> framing wire_result" where
  "framing_of f = (if f = ''sse'' then Inr Sse else if f = ''jsonLines'' then Inr JsonLines
     else Inl (UnknownValue ''stream framing'' f))"

fun pageFactField :: "jval \<Rightarrow> page_fact wire_result" where
  "pageFactField (JStr s) =
     (if s = ''hostname'' then Inr Hostname else if s = ''referrer'' then Inr Referrer
      else if s = ''screenWidth'' then Inr ScreenWidth else Inl (UnknownValue ''page fact'' s))"
| "pageFactField _ = Inl (WrongType ''fields'' ''page fact'')"

fun embed_text :: "jval \<Rightarrow> string wire_result" where
  "embed_text (JStr s) = Inr s"
| "embed_text _ = Inl (WrongType ''texts'' ''string'')"

definition optional_site :: "jobj \<Rightarrow> call_site option wire_result" where
  "optional_site r = (case obj_get r ''site'' of None \<Rightarrow> Inr None
     | Some raw \<Rightarrow> rbind (decodeSite raw) (\<lambda>s. Inr (Some s)))"

definition decodeCaller :: "jval \<Rightarrow> caller wire_result" where
  "decodeCaller raw =
     rbind (as_record ''caller'' raw) (\<lambda>c.
     rbind (optionalText c ''role'') (\<lambda>role.
     rbind (text_field c ''principal'') (\<lambda>principal.
     Inr \<lparr>ca_principal = principal, ca_role = role\<rparr>)))"

definition optional_caller :: "jobj \<Rightarrow> caller option wire_result" where
  "optional_caller r = (case obj_get r ''caller'' of None \<Rightarrow> Inr None
     | Some raw \<Rightarrow> rbind (decodeCaller raw) (\<lambda>c. Inr (Some c)))"

definition decodeCallService :: "jobj \<Rightarrow> service_call wire_result" where
  "decodeCallService r =
     rbind (optionalText r ''key'') (\<lambda>key.
     rbind (optional_caller r) (\<lambda>caller.
     rbind (text_field r ''service'') (\<lambda>service.
     rbind (text_field r ''method'') (\<lambda>method.
     rbind (field r ''args'') (\<lambda>args.
     rbind (optional_site r) (\<lambda>site.
     Inr \<lparr>sv_service = service, sv_method = method, sv_args = args, sv_key = key, sv_caller = caller,
          sv_site = site\<rparr>))))))"

definition decodeQueryRows :: "('q, 'b) wire_core \<Rightarrow> jobj \<Rightarrow> ('q, 'b) io_request wire_result" where
  "decodeQueryRows c r =
     rbind (text_field r ''project'') (\<lambda>raw.
     rbind (projection_of raw) (\<lambda>project.
     rbind (text_field r ''entityType'') (\<lambda>entityType.
     rbind (field r ''query'') (\<lambda>rawQuery.
     rbind (wc_query c rawQuery) (\<lambda>q.
     Inr (QueryRows entityType q project))))))"

definition request_body :: "jobj \<Rightarrow> http_request wire_result" where
  "request_body r = rbind (field r ''request'') decodeHttpRequest"

definition decodeHttpAsk :: "jobj \<Rightarrow> ('q, 'b) io_request wire_result" where
  "decodeHttpAsk r =
     rbind (optionalText r ''key'') (\<lambda>key.
     rbind (optional_non_negative r ''delayMs'') (\<lambda>delayMs.
     rbind (request_body r) (\<lambda>request.
     rbind (optional_site r) (\<lambda>site.
     Inr (Http request delayMs key site)))))"

definition decodeHttpStream :: "jobj \<Rightarrow> ('q, 'b) io_request wire_result" where
  "decodeHttpStream r =
     rbind (optionalText r ''key'') (\<lambda>key.
     rbind (text_field r ''framing'') (\<lambda>raw.
     rbind (framing_of raw) (\<lambda>framing.
     rbind (request_body r) (\<lambda>request.
     rbind (optional_site r) (\<lambda>site.
     Inr (HttpStream request framing key site))))))"

definition decodeHttpBeacon :: "jobj \<Rightarrow> ('q, 'b) io_request wire_result" where
  "decodeHttpBeacon r =
     rbind (optionalText r ''key'') (\<lambda>key.
     rbind (request_body r) (\<lambda>request.
     rbind (optional_site r) (\<lambda>site.
     Inr (HttpBeacon request key site))))"

definition decodeOs :: "jobj \<Rightarrow> ('q, 'b) io_request wire_result" where
  "decodeOs r =
     rbind (optionalText r ''key'') (\<lambda>key.
     rbind (osOp r ''op'') (\<lambda>op.
     rbind (list_field r ''args'') (\<lambda>args.
     rbind (optional_site r) (\<lambda>site.
     Inr (Os op args key site)))))"

definition decodeDeliver :: "jobj \<Rightarrow> ('q, 'b) io_request wire_result" where
  "decodeDeliver r =
     rbind (optionalText r ''key'') (\<lambda>key.
     rbind (field r ''envelope'') (\<lambda>rawEnvelope.
     rbind (decodeEnvelope rawEnvelope) (\<lambda>envelope.
     rbind (field r ''site'') (\<lambda>rawSite.
     rbind (decodeSite rawSite) (\<lambda>site.
     Inr (Deliver envelope key site))))))"

text \<open>The asks about named credentials and secrets: a name, an optional principal read first.\<close>

definition with_principal :: "jobj \<Rightarrow> (string option \<Rightarrow> string \<Rightarrow> 'a wire_result) \<Rightarrow> 'a wire_result" where
  "with_principal r k =
     rbind (optionalText r ''principal'') (\<lambda>p. rbind (text_field r ''name'') (\<lambda>name. k p name))"

section \<open>The decoder\<close>

definition decode_row_ask :: "('q, 'b) wire_core \<Rightarrow> string \<Rightarrow> jobj \<Rightarrow> ('q, 'b) io_request wire_result" where
  "decode_row_ask c kind r =
     (if kind = ''readRow'' then
        rbind (text_field r ''entityType'') (\<lambda>e. rbind (text_field r ''id'') (\<lambda>i. Inr (ReadRow e i)))
      else if kind = ''listRows'' then rbind (text_field r ''entityType'') (\<lambda>e. Inr (ListRows e))
      else if kind = ''queryRows'' then decodeQueryRows c r
      else if kind = ''writeRows'' then
        rbind (field r ''batch'') (\<lambda>raw. rbind (wc_batch c raw) (\<lambda>b. Inr (WriteRows b)))
      else if kind = ''createRow'' then
        rbind (text_field r ''entityType'') (\<lambda>e. rbind (field r ''data'') (\<lambda>d. Inr (CreateRow e d)))
      else if kind = ''writeRow'' then
        rbind (text_field r ''entityType'') (\<lambda>e. rbind (text_field r ''id'') (\<lambda>i.
        rbind (field r ''data'') (\<lambda>d. Inr (WriteRow e i d))))
      else
        rbind (text_field r ''entityType'') (\<lambda>e. rbind (text_field r ''id'') (\<lambda>i. Inr (DeleteRow e i))))"

definition decode_credential_ask :: "string \<Rightarrow> jobj \<Rightarrow> ('q, 'b) io_request wire_result" where
  "decode_credential_ask kind r =
     (if kind = ''secret'' then with_principal r (\<lambda>p n. Inr (Secret n p))
      else if kind = ''secretSet'' then
        with_principal r (\<lambda>p n. rbind (text_field r ''value'') (\<lambda>v. rbind (whole r ''ttlMs'') (\<lambda>ms.
          Inr (SecretSet n v ms p))))
      else if kind = ''secretRotate'' then
        with_principal r (\<lambda>p n. rbind (text_field r ''value'') (\<lambda>v. Inr (SecretRotate n v p)))
      else if kind = ''credentialStatus'' then with_principal r (\<lambda>p n. Inr (CredentialStatus n p))
      else if kind = ''credentialForget'' then with_principal r (\<lambda>p n. Inr (CredentialForget n p))
      else if kind = ''credentialStoreList'' then Inr CredentialStoreList
      else if kind = ''credentialStoreRotate'' then Inr CredentialStoreRotate
      else if kind = ''credentialModeRead'' then Inr CredentialModeRead
      else if kind = ''credentialStoreRead'' then rbind (text_field r ''name'') (\<lambda>n. Inr (CredentialStoreRead n))
      else if kind = ''credentialStoreRemove'' then rbind (text_field r ''name'') (\<lambda>n. Inr (CredentialStoreRemove n))
      else if kind = ''credentialStoreWrite'' then
        rbind (text_field r ''service'') (\<lambda>s. rbind (text_field r ''name'') (\<lambda>n.
        rbind (text_field r ''value'') (\<lambda>v. Inr (CredentialStoreWrite s n v))))
      else rbind (text_field r ''mode'') (\<lambda>m. Inr (CredentialModeWrite m)))"

definition decode_host_ask :: "('q, 'b) wire_core \<Rightarrow> string \<Rightarrow> jobj \<Rightarrow> ('q, 'b) io_request wire_result" where
  "decode_host_ask c kind r =
     (if kind = ''callService'' then rbind (decodeCallService r) (\<lambda>s. Inr (CallService s))
      else if kind = ''cancelCall'' then rbind (text_field r ''key'') (\<lambda>k. Inr (CancelCall k))
      else if kind = ''substrate'' then
        rbind (text_field r ''op'') (\<lambda>op. rbind (list_field r ''args'') (\<lambda>args. Inr (Substrate op args)))
      else if kind = ''http'' then decodeHttpAsk r
      else if kind = ''httpStream'' then decodeHttpStream r
      else if kind = ''prompt'' then
        rbind (optionalText r ''key'') (\<lambda>k. rbind (text_field r ''text'') (\<lambda>t.
        rbind (text_field r ''schema'') (\<lambda>s. Inr (Prompt t s k))))
      else if kind = ''embed'' then
        rbind (optionalText r ''key'') (\<lambda>k. rbind (list_of embed_text r ''texts'') (\<lambda>ts. Inr (Embed ts k)))
      else if kind = ''tab'' then
        rbind (optionalText r ''key'') (\<lambda>k. rbind (field r ''ask'') (\<lambda>raw.
        rbind (decodeTabAsk raw) (\<lambda>a. Inr (Tab a k))))
      else if kind = ''random'' then rbind (whole r ''bytes'') (\<lambda>n. Inr (Random n))
      else if kind = ''clock'' then Inr Clock
      else if kind = ''os'' then decodeOs r
      else if kind = ''oauth'' then
        rbind (optionalText r ''principal'') (\<lambda>p. rbind (field r ''ask'') (\<lambda>raw.
        rbind (decodeOAuthAsk (wc_narrow c) (Some raw)) (\<lambda>a. Inr (OAuth a p))))
      else if kind = ''httpBeacon'' then decodeHttpBeacon r
      else if kind = ''pageFacts'' then rbind (list_of pageFactField r ''fields'') (\<lambda>fs. Inr (PageFacts fs))
      else decodeDeliver r)"

definition ROW_KINDS :: "string list" where
  "ROW_KINDS = [''readRow'', ''listRows'', ''queryRows'', ''writeRows'', ''createRow'', ''writeRow'', ''deleteRow'']"

definition CREDENTIAL_KINDS :: "string list" where
  "CREDENTIAL_KINDS = [''secret'', ''secretSet'', ''secretRotate'', ''credentialStatus'', ''credentialForget'',
     ''credentialStoreList'', ''credentialStoreRotate'', ''credentialModeRead'', ''credentialStoreRead'',
     ''credentialStoreRemove'', ''credentialStoreWrite'', ''credentialModeWrite'']"

definition decodeRequest :: "('q, 'b) wire_core \<Rightarrow> jval \<Rightarrow> ('q, 'b) io_request wire_result" where
  "decodeRequest c value =
     rbind (as_record ''a request'' value) (\<lambda>r.
     rbind (text_field r ''kind'') (\<lambda>kind.
       if \<not> isRequestKind kind then Inl (UnknownValue ''request kind'' kind)
       else if kind \<in> set ROW_KINDS then decode_row_ask c kind r
       else if kind \<in> set CREDENTIAL_KINDS then decode_credential_ask kind r
       else decode_host_ask c kind r))"

section \<open>Progress of a dispatch\<close>

record ('q, 'b) pending_request =
  pr_id :: int
  pr_request :: "('q, 'b) io_request"

datatype ('q, 'b) server_progress =
    Done jval
  | Await int "('q, 'b) pending_request list"

datatype ('q, 'b) resolve_progress =
    ResolveDone "jobj list" js_number
  | ResolveAwait int "('q, 'b) pending_request list"

definition decodePending :: "('q, 'b) wire_core \<Rightarrow> jval \<Rightarrow> ('q, 'b) pending_request wire_result" where
  "decodePending c value =
     rbind (as_record ''a pending request'' value) (\<lambda>r.
     rbind (whole r ''id'') (\<lambda>i.
     rbind (field r ''request'') (\<lambda>raw.
     rbind (decodeRequest c raw) (\<lambda>q. Inr \<lparr>pr_id = i, pr_request = q\<rparr>))))"

text \<open>
  \<open>frame.effect\<close>; an event response's frames carry one, and an \<open>undefined\<close> entry of an array is
  \<open>null\<close> in JSON.
\<close>

fun frame_effect :: "jval \<Rightarrow> jval" where
  "frame_effect (JObj kvs) = (case obj_get kvs ''effect'' of Some e \<Rightarrow> e | None \<Rightarrow> JNull)"
| "frame_effect _ = JNull"

fun withSharedEffects :: "jval \<Rightarrow> jval" where
  "withSharedEffects (JObj kvs) =
     (case (obj_get kvs ''clientEffectsByTrait'', obj_get kvs ''clientEffects'') of
        (Some (JArr frames), Some (JArr effects)) \<Rightarrow>
          if length effects \<noteq> length frames then JObj kvs
          else JObj (AList.update ''clientEffects'' (JArr (map frame_effect frames)) kvs)
      | _ \<Rightarrow> JObj kvs)"
| "withSharedEffects v = v"

definition decode_await :: "('q, 'b) wire_core \<Rightarrow> jobj \<Rightarrow> (int \<times> ('q, 'b) pending_request list) wire_result" where
  "decode_await c r =
     rbind (whole r ''flight'') (\<lambda>flight.
     rbind (list_of (decodePending c) r ''requests'') (\<lambda>reqs. Inr (flight, reqs)))"

definition decodeProgress :: "('q, 'b) wire_core \<Rightarrow> string \<Rightarrow> ('q, 'b) server_progress wire_result" where
  "decodeProgress c json =
     rbind (wc_json c json) (\<lambda>value.
     rbind (as_record ''progress'' value) (\<lambda>r.
     rbind (text_field r ''status'') (\<lambda>status.
       if status = ''done'' then
         rbind (field r ''response'') (\<lambda>response.
           if wc_isEventResponse c response then Inr (Done (withSharedEffects response))
           else Inl (WrongType ''response'' ''event response''))
       else if status = ''await'' then rbind (decode_await c r) (\<lambda>x. Inr (Await (fst x) (snd x)))
       else Inl (UnknownValue ''status'' status))))"

fun as_number :: "string \<Rightarrow> jval \<Rightarrow> js_number wire_result" where
  "as_number name (JNum x) = Inr x"
| "as_number name _ = Inl (WrongType name ''number'')"

definition decodeResolveProgress :: "('q, 'b) wire_core \<Rightarrow> string \<Rightarrow> ('q, 'b) resolve_progress wire_result" where
  "decodeResolveProgress c json =
     rbind (wc_json c json) (\<lambda>value.
     rbind (as_record ''resolve progress'' value) (\<lambda>r.
     rbind (text_field r ''status'') (\<lambda>status.
       if status = ''done'' then
         rbind (list_of (as_record ''a resolved row'') r ''rows'') (\<lambda>rows.
         rbind (field r ''total'') (\<lambda>rawTotal.
         rbind (as_number ''total'' rawTotal) (\<lambda>total. Inr (ResolveDone rows total))))
       else if status = ''await'' then rbind (decode_await c r) (\<lambda>x. Inr (ResolveAwait (fst x) (snd x)))
       else Inl (UnknownValue ''status'' status))))"

section \<open>Encoders\<close>

fun projection_text :: "projection \<Rightarrow> string" where
  "projection_text ProjectRows = ''rows''"
| "projection_text ProjectIds = ''ids''"

fun framing_text :: "framing \<Rightarrow> string" where
  "framing_text Sse = ''sse''"
| "framing_text JsonLines = ''jsonLines''"

fun fact_text :: "page_fact \<Rightarrow> string" where
  "fact_text Hostname = ''hostname''"
| "fact_text Referrer = ''referrer''"
| "fact_text ScreenWidth = ''screenWidth''"

definition encodeCaller :: "caller \<Rightarrow> jval" where
  "encodeCaller a = JObj (opt_field ''role'' JStr (ca_role a) @ [(''principal'', JStr (ca_principal a))])"



fun request_kind :: "('q, 'b) io_request \<Rightarrow> string" where
  "request_kind (ReadRow _ _) = ''readRow''"
| "request_kind (ListRows _) = ''listRows''"
| "request_kind (QueryRows _ _ _) = ''queryRows''"
| "request_kind (WriteRows _) = ''writeRows''"
| "request_kind (CreateRow _ _) = ''createRow''"
| "request_kind (WriteRow _ _ _) = ''writeRow''"
| "request_kind (DeleteRow _ _) = ''deleteRow''"
| "request_kind (CallService _) = ''callService''"
| "request_kind (CancelCall _) = ''cancelCall''"
| "request_kind (Substrate _ _) = ''substrate''"
| "request_kind (Http _ _ _ _) = ''http''"
| "request_kind (HttpStream _ _ _ _) = ''httpStream''"
| "request_kind (HttpBeacon _ _ _) = ''httpBeacon''"
| "request_kind (PageFacts _) = ''pageFacts''"
| "request_kind (Prompt _ _ _) = ''prompt''"
| "request_kind (Embed _ _) = ''embed''"
| "request_kind (Tab _ _) = ''tab''"
| "request_kind (Secret _ _) = ''secret''"
| "request_kind (SecretSet _ _ _ _) = ''secretSet''"
| "request_kind (SecretRotate _ _ _) = ''secretRotate''"
| "request_kind (OAuth _ _) = ''oauth''"
| "request_kind (Deliver _ _ _) = ''deliver''"
| "request_kind (Random _) = ''random''"
| "request_kind (Os _ _ _ _) = ''os''"
| "request_kind (CredentialStatus _ _) = ''credentialStatus''"
| "request_kind (CredentialForget _ _) = ''credentialForget''"
| "request_kind Clock = ''clock''"
| "request_kind CredentialStoreList = ''credentialStoreList''"
| "request_kind (CredentialStoreRead _) = ''credentialStoreRead''"
| "request_kind (CredentialStoreWrite _ _ _) = ''credentialStoreWrite''"
| "request_kind (CredentialStoreRemove _) = ''credentialStoreRemove''"
| "request_kind CredentialStoreRotate = ''credentialStoreRotate''"
| "request_kind CredentialModeRead = ''credentialModeRead''"
| "request_kind (CredentialModeWrite _) = ''credentialModeWrite''"



text \<open>What every decoded request satisfies beside its type: waits are not negative, operations are known.\<close>

fun request_ok :: "('q, 'b) io_request \<Rightarrow> bool" where
  "request_ok (Http q delayMs k s) = (http_request_ok q \<and> pred_option (\<lambda>n. 0 \<le> n) delayMs)"
| "request_ok (HttpStream q f k s) = http_request_ok q"
| "request_ok (HttpBeacon q k s) = http_request_ok q"
| "request_ok (Os op args k s) = (op \<in> set OS_OPS)"
| "request_ok _ = True"

section \<open>Lemmas\<close>

lemma text_backs [simp, wire_simps]:
  "projection_of (projection_text p) = Inr p" "framing_of (framing_text f) = Inr f"
  "pageFactField (JStr (fact_text x)) = Inr x"
  by (cases p; cases f; cases x; simp add: projection_of_def framing_of_def)+

lemma osOp_back [simp]: "obj_get r n = Some (JStr op) \<Longrightarrow> op \<in> set OS_OPS \<Longrightarrow> osOp r n = Inr op"
  by (auto simp: osOp_def find_None_iff find_Some_iff split: option.splits)

lemma osOp_known: "osOp r n = Inr op \<Longrightarrow> op \<in> set OS_OPS"
  by (auto simp: osOp_def rbind_eq_Inr split: option.splits dest: find_Some_set)

lemma decode_encodeCaller [simp]: "decodeCaller (encodeCaller a) = Inr a"
  by (simp add: decodeCaller_def encodeCaller_def)

lemma optional_objects_back [simp]:
  "obj_get r ''site'' = map_option encodeSite s \<Longrightarrow> optional_site r = Inr s"
  "obj_get r ''caller'' = map_option encodeCaller a \<Longrightarrow> optional_caller r = Inr a"
  by (cases s; cases a; simp add: optional_site_def optional_caller_def)+

lemma request_body_back [simp]:
  "obj_get r ''request'' = Some (encodeHttpRequest q) \<Longrightarrow> http_request_ok q \<Longrightarrow> request_body r = Inr q"
  by (simp add: request_body_def)

lemmas branch_defs = decode_row_ask_def decode_credential_ask_def decode_host_ask_def
  decodeCallService_def decodeQueryRows_def decodeHttpAsk_def decodeHttpStream_def decodeHttpBeacon_def
  decodeOs_def decodeDeliver_def with_principal_def


lemma request_kind_known: "isRequestKind (request_kind q)"
  by (cases q) (simp_all add: isRequestKind_def REQUEST_KINDS_def)




lemma branch_kinds:
  "decode_row_ask c kind r = Inr q \<Longrightarrow> kind \<in> set ROW_KINDS \<Longrightarrow> request_kind q = kind \<and> request_ok q"
  "decode_credential_ask kind r = Inr q \<Longrightarrow> kind \<in> set CREDENTIAL_KINDS \<Longrightarrow> request_kind q = kind \<and> request_ok q"
  by (auto simp: branch_defs ROW_KINDS_def CREDENTIAL_KINDS_def rbind_eq_Inr split: if_splits)

lemma host_kinds:
  assumes "decode_host_ask c kind r = Inr q" "isRequestKind kind"
    "kind \<notin> set ROW_KINDS" "kind \<notin> set CREDENTIAL_KINDS"
  shows "request_kind q = kind \<and> request_ok q"
proof -
  have body: "request_body r = Inr h \<Longrightarrow> http_request_ok h" for h
    by (auto simp: request_body_def rbind_eq_Inr dest: decodeHttpRequest_ok)
  have "kind \<in> set REQUEST_KINDS - set ROW_KINDS - set CREDENTIAL_KINDS"
    using assms(2-4) by (simp add: isRequestKind_def)
  then have "kind \<in> {''callService'', ''cancelCall'', ''substrate'', ''http'', ''httpStream'', ''httpBeacon'',
      ''pageFacts'', ''prompt'', ''embed'', ''tab'', ''oauth'', ''deliver'', ''random'', ''os'', ''clock''}"
    by (auto simp: REQUEST_KINDS_def ROW_KINDS_def CREDENTIAL_KINDS_def)
  then show ?thesis
    using assms(1)
    by (auto simp: branch_defs rbind_eq_Inr body osOp_known optional_non_negative_ok)
qed

lemma decodeRequest_sound:
  assumes "decodeRequest c v = Inr q"
  shows "\<exists>kvs. v = JObj kvs \<and> obj_get kvs ''kind'' = Some (JStr (request_kind q)) \<and> request_ok q"
proof -
  obtain kvs where v: "v = JObj kvs" using assms by (cases v) (simp_all add: decodeRequest_def)
  with assms obtain kind where k: "obj_get kvs ''kind'' = Some (JStr kind)" "isRequestKind kind"
    by (auto simp: decodeRequest_def rbind_eq_Inr text_field_def field_def split: option.splits if_splits
        elim!: as_text.elims)
  with assms v have "request_kind q = kind \<and> request_ok q"
    by (simp add: decodeRequest_def split: if_splits) (blast dest: branch_kinds host_kinds)+
  with v k show ?thesis by auto
qed

text \<open>Reading one field does not look at another.\<close>

lemma reader_skip:
  assumes "n \<noteq> m"
  shows "field ((m, v) # kvs) n = field kvs n" "text_field ((m, v) # kvs) n = text_field kvs n"
    "flag_field ((m, v) # kvs) n = flag_field kvs n" "optionalText ((m, v) # kvs) n = optionalText kvs n"
  using assms by (simp_all add: text_field_def flag_field_def field_def optionalText_def optional_def
      split: option.splits)

section \<open>Properties\<close>


text \<open>The parameter at a concrete instance: queries and batches are sent as they are.\<close>

definition plain_core :: "(jval, jval) wire_core" where
  "plain_core = \<lparr>wc_json = \<lambda>s. Inr (JStr s), wc_query = Inr, wc_batch = Inr, wc_isEventResponse = \<lambda>_. True,
     wc_narrow = \<lambda>v. case v of JObj kvs \<Rightarrow> Some kvs | _ \<Rightarrow> None\<rparr>"


text \<open>
  The decoder is a guard: whatever value it accepts is an object whose \<open>kind\<close> is the kind of
  the decoded request and one of the wire's kinds, no accepted timeout or delay is negative and an
  accepted \<open>os\<close> request names a known operation; an object of any other kind is refused.
\<close>
theorem decode_guards:
  "(decodeRequest c v = Inr q \<longrightarrow>
     (\<exists>kvs. v = JObj kvs \<and> obj_get kvs ''kind'' = Some (JStr (request_kind q)) \<and>
       isRequestKind (request_kind q) \<and> request_ok q)) \<and>
   (obj_get kvs ''kind'' = Some (JStr k) \<and> \<not> isRequestKind k \<longrightarrow>
     decodeRequest c (JObj kvs) = Inl (UnknownValue ''request kind'' k))"
  using decodeRequest_sound [of c v q] request_kind_known [of q] by (auto simp: decodeRequest_def)

theorem decode_guards_witness:
  "decodeRequest plain_core (JObj [(''kind'', JStr ''reboot'')]) = Inl (UnknownValue ''request kind'' ''reboot'') \<and>
   (\<exists>kvs. JObj [(''kind'', JStr ''random''), (''bytes'', JInt 16)] = JObj kvs \<and>
      obj_get kvs ''kind'' = Some (JStr (request_kind (Random 16 :: (jval, jval) io_request))))"
  using decode_guards [of plain_core v q "[(''kind'', JStr ''reboot'')]" "''reboot''" for v q]
    decode_guards [of plain_core "JObj [(''kind'', JStr ''random''), (''bytes'', JInt 16)]" "Random 16"]
  by (auto simp: isRequestKind_def REQUEST_KINDS_def decodeRequest_def ROW_KINDS_def CREDENTIAL_KINDS_def
      decode_host_ask_def)

text \<open>
  A call site loses its \<open>entityId\<close>: \<open>decodeSite\<close> does not read the field, so a request decodes
  the same whatever row its site names, and the outcome of a deferred \<open>os\<close> call, dispatched on
  \<open>site.entityId\<close>, never names the row.
\<close>
theorem site_entity_dropped:
  "decodeSite (JObj ((''entityId'', v) # kvs)) = decodeSite (JObj kvs)"
  by (simp add: decodeSite_def reader_skip)

end
