(* ===== verification/Engine.thy ===== *)
theory Engine
  imports Decode
begin

text \<open>
  The kernel engine: \<open>kernel/engine.ts\<close>. The kernel itself (WebAssembly) is not part of the
  repository: its handle is a value of type \<open>'k\<close> and its methods are the fields of \<open>kernel_ops\<close>,
  each returning the handle after the call. \<open>'r\<close> is the request as the kernel takes it. The
  answers of the host's ports come from \<open>answer\<close>, which may differ from round to round; when
  several answers of a round fail, the model reports the first of the list.
\<close>

section \<open>The engine's state and settings\<close>

record ('k, 'p) kernel_setup =
  ks_open :: "'k"                                       \<comment> \<open>\<open>openServer()\<close>\<close>
  ks_fork :: "'k \<Rightarrow> 'k"
  ks_declare :: "'k \<Rightarrow> 'k"                              \<comment> \<open>\<open>declareCapabilities\<close> over the ports\<close>
  ks_setTickMount :: "string list \<Rightarrow> 'k \<Rightarrow> 'k"
  ks_setMessages :: "string list \<times> jval \<Rightarrow> 'k \<Rightarrow> 'k"
  ks_setManagedProgram :: "'p \<Rightarrow> 'k \<Rightarrow> 'k"

record ('k, 'p) engine =
  en_handle :: "'k"
  en_tickMount :: "string list"
  en_messages :: "string list \<times> jval"
  en_managedProgram :: "'p option"
  en_store :: bool                                      \<comment> \<open>whether a kernel store was given\<close>

definition declare_ports :: "('k, 'p) kernel_setup \<Rightarrow> bool \<Rightarrow> 'k \<Rightarrow> 'k" where
  "declare_ports ks store h = (if store then h else ks_declare ks h)"

definition new_engine :: "('k, 'p) kernel_setup \<Rightarrow> bool \<Rightarrow> 'k option \<Rightarrow> ('k, 'p) engine" where
  "new_engine ks store forkedFrom =
     \<lparr>en_handle = declare_ports ks store (case forkedFrom of None \<Rightarrow> ks_open ks | Some h \<Rightarrow> ks_fork ks h),
      en_tickMount = [], en_messages = ([], JObj []), en_managedProgram = None, en_store = store\<rparr>"

definition fork_engine :: "('k, 'p) kernel_setup \<Rightarrow> ('k, 'p) engine \<Rightarrow> ('k, 'p) engine" where
  "fork_engine ks e =
     (let forked = new_engine ks (en_store e) (Some (en_handle e)) in
      forked\<lparr>en_tickMount := en_tickMount e, en_messages := en_messages e\<rparr>)"

definition reset_engine :: "('k, 'p) kernel_setup \<Rightarrow> ('k, 'p) engine \<Rightarrow> ('k, 'p) engine" where
  "reset_engine ks e =
     (let h = declare_ports ks (en_store e) (ks_open ks);
          h = ks_setTickMount ks (en_tickMount e) h;
          h = ks_setMessages ks (en_messages e) h;
          h = (case en_managedProgram e of None \<Rightarrow> h | Some p \<Rightarrow> ks_setManagedProgram ks p h)
      in e\<lparr>en_handle := h\<rparr>)"

definition setManagedProgram :: "('k, 'p) kernel_setup \<Rightarrow> 'p \<Rightarrow> ('k, 'p) engine \<Rightarrow> ('k, 'p) engine" where
  "setManagedProgram ks p e = e\<lparr>en_managedProgram := Some p, en_handle := ks_setManagedProgram ks p (en_handle e)\<rparr>"

definition setMessages :: "('k, 'p) kernel_setup \<Rightarrow> string list \<times> jval \<Rightarrow> ('k, 'p) engine \<Rightarrow> ('k, 'p) engine" where
  "setMessages ks m e = e\<lparr>en_messages := m, en_handle := ks_setMessages ks m (en_handle e)\<rparr>"

definition setTickMount :: "('k, 'p) kernel_setup \<Rightarrow> string list \<Rightarrow> ('k, 'p) engine \<Rightarrow> ('k, 'p) engine" where
  "setTickMount ks ts e = e\<lparr>en_tickMount := ts, en_handle := ks_setTickMount ks ts (en_handle e)\<rparr>"

section \<open>The request the kernel takes\<close>

record event_request =
  eq_event :: string
  eq_payload :: "jobj option"
  eq_targetTrait :: "string option"
  eq_entityId :: "string option"
  eq_clientId :: "string option"
  eq_user :: "jval option"
  eq_locale :: "string option"

definition kernelRequest :: "'z event_request_scheme \<Rightarrow> jval option \<Rightarrow> string option \<Rightarrow> 'z event_request_scheme" where
  "kernelRequest request user locale =
     (let given = (case eq_payload request of None \<Rightarrow> [] | Some p \<Rightarrow> p);
          payload = filter (\<lambda>(k, v). k \<noteq> ''_activeTraits'' \<and> k \<noteq> ''_targetTrait'') given;
          sidecar = (case obj_get given ''_targetTrait'' of Some (JStr t) \<Rightarrow> Some t | _ \<Rightarrow> None);
          target = (case eq_targetTrait request of Some t \<Rightarrow> Some t | None \<Rightarrow> sidecar)
      in request\<lparr>eq_payload := (case eq_payload request of None \<Rightarrow> None | Some _ \<Rightarrow> Some payload),
           eq_targetTrait := target,
           eq_user := (case user of Some u \<Rightarrow> Some u | None \<Rightarrow> eq_user request),
           eq_locale := (case locale of Some l \<Rightarrow> Some l | None \<Rightarrow> eq_locale request)\<rparr>)"

text \<open>The requesting client stamped on each emit that has a source and no client yet.\<close>

definition stamp_client :: "string \<Rightarrow> jobj \<Rightarrow> jobj" where
  "stamp_client clientId source =
     (case obj_get source ''originClientId'' of
        None \<Rightarrow> AList.update ''originClientId'' (JStr clientId) source
      | Some JNull \<Rightarrow> AList.update ''originClientId'' (JStr clientId) source
      | Some _ \<Rightarrow> source)"

fun stamp_emitted :: "string \<Rightarrow> jval \<Rightarrow> jval" where
  "stamp_emitted clientId (JObj emitted) =
     (case obj_get emitted ''source'' of
        Some (JObj source) \<Rightarrow> JObj (AList.update ''source'' (JObj (stamp_client clientId source)) emitted)
      | _ \<Rightarrow> JObj emitted)"
| "stamp_emitted clientId v = v"

fun withOriginClient :: "jval \<Rightarrow> string option \<Rightarrow> jval" where
  "withOriginClient (JObj response) (Some clientId) =
     (case obj_get response ''emittedEvents'' of
        Some (JArr emitted) \<Rightarrow>
          JObj (AList.update ''emittedEvents'' (JArr (map (stamp_emitted clientId) emitted)) response)
      | _ \<Rightarrow> JObj response)"
| "withOriginClient response _ = response"

section \<open>Running a dispatch\<close>

record ('k, 'r, 'ans) kernel_ops =
  ko_start :: "string \<Rightarrow> 'r \<Rightarrow> 'k \<Rightarrow> 'k \<times> string"
  ko_resume :: "int \<Rightarrow> (int \<times> 'ans) list \<Rightarrow> 'k \<Rightarrow> 'k \<times> string"
  ko_abandon :: "int \<Rightarrow> 'k \<Rightarrow> 'k"

datatype engine_error = WireError wire_error | AnswerError string

type_synonym ('q, 'b, 'ans) answers = "nat \<Rightarrow> ('q, 'b) io_request \<Rightarrow> string + 'ans"

text \<open>One round of answers: every pending request, each reply under its request's id.\<close>

definition answer_round ::
  "('q, 'b, 'ans) answers \<Rightarrow> nat \<Rightarrow> ('q, 'b) pending_request list \<Rightarrow> string + (int \<times> 'ans) list" where
  "answer_round answer n requests =
     mapM (\<lambda>p. rbind (answer n (pr_request p)) (\<lambda>a. Inr (pr_id p, a))) requests"

partial_function (option) drive ::
  "('q, 'b) wire_core \<Rightarrow> ('k, 'r, 'ans) kernel_ops \<Rightarrow> ('q, 'b, 'ans) answers \<Rightarrow> nat \<Rightarrow> 'k \<Rightarrow>
   (wire_error + ('q, 'b) server_progress) \<Rightarrow> ('k \<times> (engine_error + jval)) option" where
  "drive c ko answer n k progress =
     (case progress of
        Inl e \<Rightarrow> Some (k, Inl (WireError e))
      | Inr p \<Rightarrow>
          (case p of
             Done response \<Rightarrow> Some (k, Inr response)
           | Await flight requests \<Rightarrow>
               (case answer_round answer n requests of
                  Inl e \<Rightarrow> Some (ko_abandon ko flight k, Inl (AnswerError e))
                | Inr replies \<Rightarrow>
                    drive c ko answer (Suc n) (fst (ko_resume ko flight replies k))
                      (decodeProgress c (snd (ko_resume ko flight replies k))))))"

definition evaluate ::
  "('q, 'b) wire_core \<Rightarrow> ('k, 'r, 'ans) kernel_ops \<Rightarrow> ('q, 'b, 'ans) answers \<Rightarrow> string \<Rightarrow> 'r \<Rightarrow> 'k \<Rightarrow>
   ('k \<times> (engine_error + jval)) option" where
  "evaluate c ko answer orbital request k =
     drive c ko answer 0 (fst (ko_start ko orbital request k)) (decodeProgress c (snd (ko_start ko orbital request k)))"

definition evaluateOnKernel ::
  "('q, 'b) wire_core \<Rightarrow> ('k, 'z event_request_scheme, 'ans) kernel_ops \<Rightarrow> ('q, 'b, 'ans) answers \<Rightarrow> string \<Rightarrow> 'z event_request_scheme \<Rightarrow>
   jval option \<Rightarrow> string option \<Rightarrow> 'k \<Rightarrow> ('k \<times> (engine_error + jval)) option" where
  "evaluateOnKernel c ko answer orbital request user locale k =
     map_option (\<lambda>(k', r). (k', rbind r (\<lambda>response. Inr (withOriginClient response (eq_clientId request)))))
       (evaluate c ko answer orbital (kernelRequest request user locale) k)"

text \<open>The same loop for \<open>resolveRows\<close>.\<close>

partial_function (option) drive_resolve ::
  "('q, 'b) wire_core \<Rightarrow> ('k, 'r, 'ans) kernel_ops \<Rightarrow> ('q, 'b, 'ans) answers \<Rightarrow> nat \<Rightarrow> 'k \<Rightarrow>
   (wire_error + ('q, 'b) resolve_progress) \<Rightarrow> ('k \<times> (engine_error + jobj list \<times> js_number)) option" where
  "drive_resolve c ko answer n k progress =
     (case progress of
        Inl e \<Rightarrow> Some (k, Inl (WireError e))
      | Inr p \<Rightarrow>
          (case p of
             ResolveDone rows counted \<Rightarrow> Some (k, Inr (rows, counted))
           | ResolveAwait flight requests \<Rightarrow>
               (case answer_round answer n requests of
                  Inl e \<Rightarrow> Some (ko_abandon ko flight k, Inl (AnswerError e))
                | Inr replies \<Rightarrow>
                    drive_resolve c ko answer (Suc n) (fst (ko_resume ko flight replies k))
                      (decodeResolveProgress c (snd (ko_resume ko flight replies k))))))"

section \<open>What the kernel promises about flights\<close>




lemma obj_get_filter:
  "obj_get (filter (\<lambda>(k, v). P k) kvs) k = (if P k then obj_get kvs k else None)"
  by (induction kvs) (auto simp: obj_get_def)

section \<open>Properties\<close>






text \<open>
  What the kernel is handed is the host's: \<open>_activeTraits\<close> and \<open>_targetTrait\<close> never reach it in
  the payload and every other key does with its value; an explicit target wins over the sidecar,
  which counts only when it is a string; the viewer and locale the host resolved replace the
  client's.
\<close>
theorem kernel_request_sidecars:
  "pred_option (\<lambda>p. obj_get p ''_activeTraits'' = None \<and> obj_get p ''_targetTrait'' = None)
     (eq_payload (kernelRequest req user locale)) \<and>
   (k \<noteq> ''_activeTraits'' \<and> k \<noteq> ''_targetTrait'' \<longrightarrow>
     map_option (\<lambda>p. obj_get p k) (eq_payload (kernelRequest req user locale))
       = map_option (\<lambda>p. obj_get p k) (eq_payload req)) \<and>
   eq_targetTrait (kernelRequest (req\<lparr>eq_targetTrait := Some t\<rparr>) user locale) = Some t \<and>
   eq_targetTrait (kernelRequest (req\<lparr>eq_targetTrait := None, eq_payload := Some ((''_targetTrait'', JStr t) # p)\<rparr>) user locale)
     = Some t \<and>
   eq_user (kernelRequest req (Some u) locale) = Some u \<and>
   eq_locale (kernelRequest req user (Some l)) = Some l"
  by (auto simp: kernelRequest_def Let_def obj_get_filter option.pred_set elem_set split: option.splits)

theorem kernel_request_sidecars_witness:
  "map_option (\<lambda>p. obj_get p ''id'') (eq_payload (kernelRequest \<lparr>eq_event = ''SAVE'',
      eq_payload = Some [(''_activeTraits'', JArr []), (''id'', JInt 4)], eq_targetTrait = None, eq_entityId = None,
      eq_clientId = None, eq_user = None, eq_locale = None\<rparr> None None)) = Some (Some (JInt 4))"
  using kernel_request_sidecars [of "\<lparr>eq_event = ''SAVE'',
      eq_payload = Some [(''_activeTraits'', JArr []), (''id'', JInt 4)], eq_targetTrait = None, eq_entityId = None,
      eq_clientId = None, eq_user = None, eq_locale = None\<rparr>" None None "''id''"]
  by simp

end
