(* ===== verification/Cron.thy ===== *)
theory Cron
  imports JsText
begin

text \<open>
  Cron expressions and durations: \<open>time/cron.ts\<close> and \<open>time/duration.ts\<close>. A cron field is a Set of
  numbers. Its loops follow \<open>step\<close> and \<open>hi\<close> wherever the text says, so they may run forever:
  \<open>for_values\<close> is the loop with \<open>None\<close> for not returning, and every function over it has the same
  option.
\<close>

section \<open>Parsing\<close>

type_synonym num_set = "js_number list"

partial_function (option) for_values :: "js_number \<Rightarrow> js_number \<Rightarrow> js_number \<Rightarrow> num_set \<Rightarrow> num_set option" where
  "for_values i hi step vals =
     (if num_le i hi then for_values (num_add i step) hi step (set_add i vals) else Some vals)"

definition parse_part :: "string \<Rightarrow> nat \<Rightarrow> nat \<Rightarrow> num_set \<Rightarrow> num_set option" where
  "parse_part part lo hi vals =
     (if part = ''*'' then for_values (Fin (of_nat lo)) (Fin (of_nat hi)) (Fin 1) vals
      else if CHR ''/'' \<in> set part then
        (let pieces = split_on (CHR ''/'') part;
             step = parseInt (pieces ! 1);
             start = (if pieces ! 0 = ''*'' then Fin (of_nat lo) else parseInt (pieces ! 0))
         in for_values start (Fin (of_nat hi)) step vals)
      else if CHR ''-'' \<in> set part then
        (let pieces = split_on (CHR ''-'') part
         in for_values (to_number (pieces ! 0)) (to_number (pieces ! 1)) (Fin 1) vals)
      else Some (set_add (parseInt part) vals))"

fun parse_parts :: "string list \<Rightarrow> nat \<Rightarrow> nat \<Rightarrow> num_set \<Rightarrow> num_set option" where
  "parse_parts [] lo hi vals = Some vals"
| "parse_parts (p # ps) lo hi vals =
     Option.bind (parse_part p lo hi vals) (parse_parts ps lo hi)"

definition parseCronField :: "string \<Rightarrow> nat \<Rightarrow> nat \<Rightarrow> num_set option" where
  "parseCronField fld lo hi = parse_parts (split_on (CHR '','') fld) lo hi []"

record cron_fields =
  cf_minute :: num_set
  cf_hour :: num_set
  cf_day :: num_set
  cf_month :: num_set
  cf_weekday :: num_set

text \<open>\<open>Inl\<close> is the thrown error of a wrong number of fields, which carries the expression.\<close>

definition parseCron :: "string \<Rightarrow> (string + cron_fields) option" where
  "parseCron expression =
     (let parts = words_of expression in
      if length parts \<noteq> 5 then Some (Inl expression)
      else
        Option.bind (parseCronField (parts ! 0) 0 59) (\<lambda>minute.
        Option.bind (parseCronField (parts ! 1) 0 23) (\<lambda>hour.
        Option.bind (parseCronField (parts ! 2) 1 31) (\<lambda>day.
        Option.bind (parseCronField (parts ! 3) 1 12) (\<lambda>month.
        Option.bind (parseCronField (parts ! 4) 0 6) (\<lambda>weekday.
        Some (Inr \<lparr>cf_minute = minute, cf_hour = hour, cf_day = day, cf_month = month,
                   cf_weekday = weekday\<rparr>)))))))"

definition isValidCronExpression :: "string \<Rightarrow> bool option" where
  "isValidCronExpression expression = map_option (\<lambda>r. case r of Inl _ \<Rightarrow> False | Inr _ \<Rightarrow> True) (parseCron expression)"

section \<open>Matching a date\<close>

record date =
  d_year :: int
  d_month :: int   \<comment> \<open>0 to 11, as \<open>getMonth\<close>\<close>
  d_date :: int
  d_hours :: int
  d_minutes :: int
  d_day :: int     \<comment> \<open>0 to 6, the weekday\<close>

definition has_num :: "num_set \<Rightarrow> int \<Rightarrow> bool" where
  "has_num vals n = (Fin (of_int n) \<in> set vals)"

definition cronMatches :: "cron_fields \<Rightarrow> date \<Rightarrow> bool" where
  "cronMatches f d =
     (has_num (cf_minute f) (d_minutes d) \<and> has_num (cf_hour f) (d_hours d) \<and>
      has_num (cf_day f) (d_date d) \<and> has_num (cf_month f) (d_month d + 1) \<and>
      has_num (cf_weekday f) (d_day d))"

definition cronMinuteKey :: "date \<Rightarrow> int" where
  "cronMinuteKey d = d_year d * 10 ^ 8 + d_month d * 10 ^ 6 + d_date d * 10 ^ 4 + d_hours d * 100 + d_minutes d"

text \<open>What \<open>Date\<close> getters return.\<close>

definition date_ok :: "date \<Rightarrow> bool" where
  "date_ok d \<longleftrightarrow> 0 \<le> d_month d \<and> d_month d < 12 \<and> 1 \<le> d_date d \<and> d_date d \<le> 31 \<and>
     0 \<le> d_hours d \<and> d_hours d < 24 \<and> 0 \<le> d_minutes d \<and> d_minutes d < 60 \<and> 0 \<le> d_year d"

section \<open>Durations\<close>

text \<open>\<open>/^(\d+)(ms|s|m|h)?$/\<close>: the digits and the unit, \<open>None\<close> when the text has another shape.\<close>

definition duration_match :: "string \<Rightarrow> (string \<times> string) option" where
  "duration_match interval =
     (let ds = takeWhile is_digit interval; unit = dropWhile is_digit interval in
      if ds \<noteq> [] \<and> unit \<in> {'''', ''ms'', ''s'', ''m'', ''h''} then Some (ds, unit) else None)"

fun unit_ms :: "string \<Rightarrow> nat" where
  "unit_ms unit =
     (if unit = ''s'' then 1000
      else if unit = ''m'' then 60 * 1000
      else if unit = ''h'' then 60 * 60 * 1000
      else 1)"

definition parseDurationString :: "string \<Rightarrow> string + nat" where
  "parseDurationString interval =
     (case duration_match interval of
        None \<Rightarrow> Inl interval
      | Some (ds, unit) \<Rightarrow> Inr (nat_of_digits ds * unit_ms unit))"

definition isValidDurationString :: "string \<Rightarrow> bool" where
  "isValidDurationString interval = (duration_match interval \<noteq> None)"

section \<open>What a field denotes\<close>

datatype cron_part = Every | Value nat | Range nat nat | Step "nat option" nat

fun print_part :: "cron_part \<Rightarrow> string" where
  "print_part Every = ''*''"
| "print_part (Value n) = show_nat n"
| "print_part (Range a b) = show_nat a @ ''-'' @ show_nat b"
| "print_part (Step None k) = ''*/'' @ show_nat k"
| "print_part (Step (Some a) k) = show_nat a @ ''/'' @ show_nat k"

fun part_denotes :: "nat \<Rightarrow> nat \<Rightarrow> cron_part \<Rightarrow> nat \<Rightarrow> bool" where
  "part_denotes lo hi Every n = (lo \<le> n \<and> n \<le> hi)"
| "part_denotes lo hi (Value v) n = (n = v)"
| "part_denotes lo hi (Range a b) n = (a \<le> n \<and> n \<le> b)"
| "part_denotes lo hi (Step s k) n =
     (let start = (case s of None \<Rightarrow> lo | Some a \<Rightarrow> a) in start \<le> n \<and> n \<le> hi \<and> (n - start) mod k = 0)"

fun part_ok :: "cron_part \<Rightarrow> bool" where
  "part_ok (Step s k) = (0 < k)"
| "part_ok _ = True"

section \<open>Lemmas on the loop\<close>

text \<open>The loop returns when it counts up by a positive step.\<close>

lemma for_values_counts:
  assumes "0 < k"
  shows "\<exists>vs. for_values (Fin (of_nat i)) (Fin (of_nat hi)) (Fin (of_nat k)) vals = Some vs \<and>
    set vs = set vals \<union> (\<lambda>n. Fin (of_nat n)) ` {n. i \<le> n \<and> n \<le> hi \<and> (n - i) mod k = 0}"
proof (induction "Suc hi - i" arbitrary: i vals rule: less_induct)
  case less
  show ?case
  proof (cases "i \<le> hi")
    case False
    then show ?thesis by (subst for_values.simps) auto
  next
    case True
    then have "Suc hi - (i + k) < Suc hi - i" using assms by auto
    from less [OF this, of "set_add (Fin (of_nat i)) vals"] obtain vs where
      vs: "for_values (Fin (of_nat (i + k))) (Fin (of_nat hi)) (Fin (of_nat k)) (set_add (Fin (of_nat i)) vals) = Some vs"
        "set vs = insert (Fin (of_nat i)) (set vals) \<union>
           (\<lambda>n. Fin (of_nat n)) ` {n. i + k \<le> n \<and> n \<le> hi \<and> (n - (i + k)) mod k = 0}"
      by auto
    have "{n. i \<le> n \<and> n \<le> hi \<and> (n - i) mod k = 0}
        = insert i {n. i + k \<le> n \<and> n \<le> hi \<and> (n - (i + k)) mod k = 0}" (is "?A = insert i ?B")
    proof (rule set_eqI)
      fix n
      have "i + k \<le> n" if "(n - i) mod k = 0" "i \<le> n" "n \<noteq> i"
        using that assms by (metis add.commute diff_is_0_eq le_add_diff_inverse2 le_antisym mod_less
            nat_add_left_cancel_le not_le zero_less_diff)
      moreover have "(n - i) mod k = (n - (i + k)) mod k" if "i + k \<le> n"
        using that le_mod_geq [of k "n - i"] by (simp add: diff_diff_left)
      ultimately show "n \<in> ?A \<longleftrightarrow> n \<in> insert i ?B" using True by auto
    qed
    then show ?thesis
      using True vs by (subst for_values.simps) auto
  qed
qed

text \<open>With a step of zero it never returns once it has entered.\<close>

lemma for_values_stuck:
  assumes "for_values i hi (Fin 0) vals = Some r"
  shows "\<not> num_le i hi"
proof -
  have stay: "num_add x (Fin 0) = x" for x by (cases x) auto
  have "step = Fin 0 \<longrightarrow> \<not> num_le i hi" if r: "for_values i hi step vals = Some r" for step
    by (rule for_values.raw_induct [OF _ r, where P = "\<lambda>i hi step vals r. step = Fin 0 \<longrightarrow> \<not> num_le i hi"])
      (auto simp: stay split: if_splits)
  with assms show ?thesis by blast
qed

section \<open>Lemmas on fields\<close>

lemma no_sep_show: "\<not> is_digit c \<Longrightarrow> c \<notin> set (show_nat n)"
  using show_nat_digits by blast

lemma print_part_chars: "CHR '','' \<notin> set (print_part p)"
  by (cases p rule: print_part.cases) (simp_all add: no_sep_show)

lemma show_not_star: "show_nat n \<noteq> ''*''" "show_nat n @ r \<noteq> ''*''"
proof -
  have "is_digit (hd (show_nat n @ r))" for r
    using show_nat_digits [of "hd (show_nat n)" n] by (cases "show_nat n") auto
  then have *: "show_nat n @ r \<noteq> ''*''" for r by (metis digit_not(4) list.sel(1))
  then show "show_nat n @ r \<noteq> ''*''" .
  from * [of "[]"] show "show_nat n \<noteq> ''*''" by simp
qed

lemma parse_print_part:
  assumes "part_ok p"
  shows "\<exists>vs. parse_part (print_part p) lo hi vals = Some vs \<and>
    set vs = set vals \<union> (\<lambda>n. Fin (of_nat n)) ` {n. part_denotes lo hi p n}"
proof (cases p rule: print_part.cases)
  case 1
  with for_values_counts [of 1 lo hi vals] show ?thesis by (simp add: parse_part_def)
next
  case (2 n)
  have "parseInt (show_nat n) = Fin (of_nat n)" using parseInt_show [of "[]" n] by simp
  with 2 show ?thesis by (simp add: parse_part_def show_not_star no_sep_show)
next
  case (3 a b)
  have "split_on (CHR ''-'') (show_nat a @ ''-'' @ show_nat b) = [show_nat a, show_nat b]"
    by (simp add: split_on_append_sep split_on_no_sep no_sep_show)
  with 3 for_values_counts [of 1 a b vals] show ?thesis
    by (simp add: parse_part_def show_not_star no_sep_show Let_def)
next
  case (4 k)
  have "split_on (CHR ''/'') (''*/'' @ show_nat k) = [''*'', show_nat k]"
    by (simp add: split_on_no_sep no_sep_show)
  moreover have "parseInt (show_nat k) = Fin (of_nat k)" using parseInt_show [of "[]" k] by simp
  ultimately show ?thesis
    using 4 assms for_values_counts [of k lo hi vals] by (simp add: parse_part_def Let_def)
next
  case (5 a k)
  have "split_on (CHR ''/'') (show_nat a @ ''/'' @ show_nat k) = [show_nat a, show_nat k]"
    by (simp add: split_on_append_sep split_on_no_sep no_sep_show)
  moreover have "parseInt (show_nat m) = Fin (of_nat m)" for m using parseInt_show [of "[]" m] by simp
  ultimately show ?thesis
    using 5 assms for_values_counts [of k a hi vals] by (simp add: parse_part_def show_not_star Let_def)
qed

lemma parse_print_parts:
  assumes "list_all part_ok ps"
  shows "\<exists>vs. parse_parts (map print_part ps) lo hi vals = Some vs \<and>
    set vs = set vals \<union> (\<lambda>n. Fin (of_nat n)) ` {n. \<exists>p\<in>set ps. part_denotes lo hi p n}"
  using assms
proof (induction ps arbitrary: vals)
  case (Cons p ps)
  then obtain v1 where v1: "parse_part (print_part p) lo hi vals = Some v1"
    "set v1 = set vals \<union> (\<lambda>n. Fin (of_nat n)) ` {n. part_denotes lo hi p n}"
    using parse_print_part [of p lo hi vals] by auto
  from Cons obtain vs where "parse_parts (map print_part ps) lo hi v1 = Some vs"
    "set vs = set v1 \<union> (\<lambda>n. Fin (of_nat n)) ` {n. \<exists>p\<in>set ps. part_denotes lo hi p n}"
    by fastforce
  with v1 show ?case by auto
qed simp

lemma duration_digits:
  assumes "unit \<in> {'''', ''ms'', ''s'', ''m'', ''h''}"
  shows "duration_match (show_nat n @ unit) = Some (show_nat n, unit)"
proof -
  have "unit = [] \<or> \<not> is_digit (hd unit)" using assms by auto
  then have "takeWhile is_digit (show_nat n @ unit) = show_nat n" "dropWhile is_digit (show_nat n @ unit) = unit"
    using takeWhile_digits [of "show_nat n" unit] show_nat_digits by blast+
  then show ?thesis using assms by (simp add: duration_match_def Let_def)
qed

lemma two_digits:
  fixes a a' b b' :: int
  assumes "0 \<le> b" "b < 100" "0 \<le> b'" "b' < 100"
  shows "a * 100 + b = a' * 100 + b' \<longleftrightarrow> a = a' \<and> b = b'"
proof -
  have "(a * 100 + b) div 100 = a" "(a * 100 + b) mod 100 = b"
    "(a' * 100 + b') div 100 = a'" "(a' * 100 + b') mod 100 = b'" using assms by auto
  then show ?thesis by metis
qed

section \<open>Properties\<close>

text \<open>
  A well-formed cron field means what cron says: a comma-separated list of \<open>*\<close>, values, ranges
  and steps with a positive step parses, and the set holds exactly the numbers one of its parts
  denotes within the field's bounds.
\<close>
theorem cron_field_denotes:
  assumes "ps \<noteq> []" and "list_all part_ok ps"
  shows "\<exists>vs. parseCronField (join_with '','' (map print_part ps)) lo hi = Some vs \<and>
    (\<forall>n. has_num vs (int n) \<longleftrightarrow> (\<exists>p\<in>set ps. part_denotes lo hi p n))"
proof -
  have "split_on (CHR '','') (join_with '','' (map print_part ps)) = map print_part ps"
    using assms(1) print_part_chars by (intro split_on_join) auto
  then show ?thesis
    using parse_print_parts [OF assms(2), of lo hi "[]"]
    by (auto simp: parseCronField_def has_num_def image_iff)
qed

theorem cron_field_denotes_witness:
  "\<exists>vs. parseCronField ''5,10-12,*/20'' 0 59 = Some vs \<and> has_num vs 40 \<and> has_num vs 11 \<and> \<not> has_num vs 13"
proof -
  let ?ps = "[Value 5, Range 10 12, Step None 20]"
  have spelled: "join_with '','' (map print_part ?ps) = ''5,10-12,*/20''"
    by code_simp
  obtain vs where "parseCronField ''5,10-12,*/20'' 0 59 = Some vs"
    "\<And>n. has_num vs (int n) \<longleftrightarrow> (\<exists>p\<in>set ?ps. part_denotes 0 59 p n)"
    using cron_field_denotes [of ?ps 0 59] unfolding spelled by auto
  from this(1) this(2) [of 40] this(2) [of 11] this(2) [of 13] show ?thesis by simp
qed

text \<open>
  A step of zero hangs the parser, and with it everything that only wants to know whether the
  text is a cron expression: \<open>isValidCronExpression\<close> neither returns nor throws on \<open>*/0\<close>.
\<close>
theorem cron_zero_step_hangs:
  "isValidCronExpression ''*/0 * * * *'' = None \<and> parseCron ''*/0 * * * *'' = None"
proof -
  have "for_values (Fin 0) (Fin 59) (Fin 0) [] = None"
    using for_values_stuck [of "Fin 0" "Fin 59" "[]"] by (cases "for_values (Fin 0) (Fin 59) (Fin 0) []") auto
  then have "parseCronField ''*/0'' 0 59 = None"
    by (simp add: parseCronField_def parse_part_def Let_def parseInt_def is_space_def is_digit_def nat_of_digits_def digit_val_def)
  then have "parseCron ''*/0 * * * *'' = None"
    by (simp add: parseCron_def words_of_def Let_def is_space_def)
  then show ?thesis by (simp add: isValidCronExpression_def)
qed

text \<open>
  What the validity check decides: when it returns, the answer is whether the text has five
  words, whatever they are, so an expression of five words that are no cron fields passes.
\<close>
lemma cron_validity_is_word_count:
  "pred_option (\<lambda>ok. ok = (length (words_of s) = 5)) (isValidCronExpression s) \<and>
   isValidCronExpression ''a b c d e'' = Some True"
proof
  show "pred_option (\<lambda>ok. ok = (length (words_of s) = 5)) (isValidCronExpression s)"
    by (auto simp: isValidCronExpression_def parseCron_def Let_def bind_eq_Some_conv split: option.splits
        simp del: not_None_eq) (auto simp: option.pred_set elem_set bind_eq_Some_conv)
  show "isValidCronExpression ''a b c d e'' = Some True"
    by (simp add: isValidCronExpression_def parseCron_def words_of_def Let_def is_space_def
        parseCronField_def parse_part_def parseInt_def is_digit_def)
qed

text \<open>
  The once-a-minute key tells calendar minutes apart: two dates have the same key exactly when
  they agree on year, month, day, hour and minute, and no date has the scheduler's initial key.
\<close>
theorem minute_key_identifies:
  assumes "date_ok d" and "date_ok e"
  shows "(cronMinuteKey d = cronMinuteKey e \<longleftrightarrow>
     d_year d = d_year e \<and> d_month d = d_month e \<and> d_date d = d_date e \<and>
     d_hours d = d_hours e \<and> d_minutes d = d_minutes e) \<and> cronMinuteKey d \<noteq> - 1"
proof -
  have b: "0 \<le> d_month x" "d_month x < 100" "0 \<le> d_date x" "d_date x < 100"
      "0 \<le> d_hours x" "d_hours x < 100" "0 \<le> d_minutes x" "d_minutes x < 100" "0 \<le> d_year x"
    if "date_ok x" for x using that by (auto simp: date_ok_def)
  have key: "cronMinuteKey x = (((d_year x * 100 + d_month x) * 100 + d_date x) * 100 + d_hours x) * 100 + d_minutes x"
    for x by (simp add: cronMinuteKey_def)
  have "0 \<le> cronMinuteKey d" using b [OF assms(1)] by (simp add: key)
  then show ?thesis
    unfolding key using b [OF assms(1)] b [OF assms(2)] by (simp only: two_digits conj_assoc) auto
qed

theorem minute_key_identifies_witness:
  "cronMinuteKey \<lparr>d_year = 2024, d_month = 0, d_date = 31, d_hours = 23, d_minutes = 59, d_day = 3\<rparr> \<noteq>
   cronMinuteKey \<lparr>d_year = 2024, d_month = 1, d_date = 1, d_hours = 0, d_minutes = 0, d_day = 4\<rparr>"
  using minute_key_identifies [of "\<lparr>d_year = 2024, d_month = 0, d_date = 31, d_hours = 23, d_minutes = 59, d_day = 3\<rparr>"
    "\<lparr>d_year = 2024, d_month = 1, d_date = 1, d_hours = 0, d_minutes = 0, d_day = 4\<rparr>"]
  by (simp add: date_ok_def)

text \<open>
  Durations round-trip: a number written with a unit, or bare for milliseconds, parses to that
  many milliseconds; and the parser throws exactly on the texts the validity check rejects.
\<close>
lemma duration_roundtrip:
  "parseDurationString (show_nat n @ ''ms'') = Inr n \<and> parseDurationString (show_nat n) = Inr n \<and>
   parseDurationString (show_nat n @ ''s'') = Inr (n * 1000) \<and>
   parseDurationString (show_nat n @ ''m'') = Inr (n * 60000) \<and>
   parseDurationString (show_nat n @ ''h'') = Inr (n * 3600000) \<and>
   (isValidDurationString s \<longleftrightarrow> (\<exists>ms. parseDurationString s = Inr ms))"
  using duration_digits [of "''ms''" n] duration_digits [of "''s''" n] duration_digits [of "''m''" n]
    duration_digits [of "''h''" n] duration_digits [of "''''" n]
  by (auto simp: parseDurationString_def isValidDurationString_def split: option.splits)

end
