(* ===== verification/Ticks.thy ===== *)
theory Ticks
  imports Cron
begin

text \<open>
  The coalesced tick scheduler: \<open>time/TickScheduler.ts\<close>. Its state is beside that the browser's:
  \<open>sc_due\<close> holds the requested animation frames not yet run (or the active intervals), the log the
  ticks that fired. What a tick's \<open>onDue\<close> does is a parameter: the scheduler calls it makes and
  whether it throws. The Map of ticks is iterated live, ids ascend in insertion order, so the
  iteration always goes on with the first id above the last one visited.
\<close>

section \<open>State\<close>

record cron_tick =
  ct_fields :: cron_fields
  ct_accumulated :: rat
  ct_last :: "rat option"
  ct_lastKey :: int
  ct_onDue :: nat

record interval_tick =
  it_interval :: rat
  it_accumulated :: rat
  it_last :: "rat option"
  it_onDue :: nat

datatype tick = IntervalTick interval_tick | CronTick cron_tick

definition CRON_CHECK_INTERVAL_MS :: rat where
  "CRON_CHECK_INTERVAL_MS = 1000"

record scheduler =
  sc_ticks :: "(nat \<times> tick) list"
  sc_nextId :: nat
  sc_running :: bool
  sc_paused :: bool
  sc_frame :: "nat option"
  sc_hasRaf :: bool
  sc_due :: "nat list"          \<comment> \<open>the browser: frames requested or intervals set\<close>
  sc_nextHandle :: nat
  sc_log :: "nat list"          \<comment> \<open>ids of the ticks that fired, in order\<close>

definition new_scheduler :: "bool \<Rightarrow> scheduler" where
  "new_scheduler hasRaf = \<lparr>sc_ticks = [], sc_nextId = 1, sc_running = False, sc_paused = False,
     sc_frame = None, sc_hasRaf = hasRaf, sc_due = [], sc_nextHandle = 1, sc_log = []\<rparr>"

section \<open>Operations\<close>

text \<open>\<open>requestAnimationFrame\<close> or \<open>setInterval\<close>: a fresh handle.\<close>

definition request :: "scheduler \<Rightarrow> scheduler" where
  "request s = s\<lparr>sc_frame := Some (sc_nextHandle s), sc_due := sc_due s @ [sc_nextHandle s],
     sc_nextHandle := Suc (sc_nextHandle s)\<rparr>"

definition ensureRunning :: "scheduler \<Rightarrow> scheduler" where
  "ensureRunning s = (if sc_running s \<or> sc_paused s then s else request (s\<lparr>sc_running := True\<rparr>))"

definition stopLoop :: "scheduler \<Rightarrow> scheduler" where
  "stopLoop s =
     (let s = s\<lparr>sc_running := False\<rparr> in
      case sc_frame s of
        None \<Rightarrow> s
      | Some h \<Rightarrow> s\<lparr>sc_due := removeAll h (sc_due s), sc_frame := None\<rparr>)"

definition maybeStop :: "scheduler \<Rightarrow> scheduler" where
  "maybeStop s = (if sc_ticks s \<noteq> [] \<or> \<not> sc_running s then s else stopLoop s)"

definition register :: "tick \<Rightarrow> scheduler \<Rightarrow> nat \<times> scheduler" where
  "register t s =
     (sc_nextId s, ensureRunning (s\<lparr>sc_nextId := Suc (sc_nextId s), sc_ticks := sc_ticks s @ [(sc_nextId s, t)]\<rparr>))"

definition add_tick :: "rat \<Rightarrow> nat \<Rightarrow> scheduler \<Rightarrow> nat \<times> scheduler" where
  "add_tick intervalMs onDue s =
     register (IntervalTick \<lparr>it_interval = (if intervalMs > 0 then intervalMs else 0), it_accumulated = 0,
       it_last = None, it_onDue = onDue\<rparr>) s"

definition add_cron_fields :: "cron_fields \<Rightarrow> nat \<Rightarrow> scheduler \<Rightarrow> nat \<times> scheduler" where
  "add_cron_fields flds onDue s =
     register (CronTick \<lparr>ct_fields = flds, ct_accumulated = CRON_CHECK_INTERVAL_MS, ct_last = None,
       ct_lastKey = - 1, ct_onDue = onDue\<rparr>) s"

definition addCron :: "string \<Rightarrow> nat \<Rightarrow> scheduler \<Rightarrow> (string + nat \<times> scheduler) option" where
  "addCron expression onDue s =
     map_option (\<lambda>r. rbind r (\<lambda>flds. Inr (add_cron_fields flds onDue s))) (parseCron expression)"

definition stop_tick :: "nat \<Rightarrow> scheduler \<Rightarrow> scheduler" where
  "stop_tick i s = maybeStop (s\<lparr>sc_ticks := filter (\<lambda>(j, t). j \<noteq> i) (sc_ticks s)\<rparr>)"

definition stopAll :: "scheduler \<Rightarrow> scheduler" where
  "stopAll s = maybeStop (s\<lparr>sc_ticks := []\<rparr>)"

definition pause :: "scheduler \<Rightarrow> scheduler" where
  "pause s = (if sc_paused s then s else stopLoop (s\<lparr>sc_paused := True\<rparr>))"

fun forget_timestamp :: "tick \<Rightarrow> tick" where
  "forget_timestamp (IntervalTick t) = IntervalTick (t\<lparr>it_last := None\<rparr>)"
| "forget_timestamp (CronTick t) = CronTick (t\<lparr>ct_last := None\<rparr>)"

definition resume :: "scheduler \<Rightarrow> scheduler" where
  "resume s =
     (if \<not> sc_paused s then s
      else
        (let s = s\<lparr>sc_paused := False, sc_ticks := map (\<lambda>(i, t). (i, forget_timestamp t)) (sc_ticks s)\<rparr>
         in if sc_ticks s \<noteq> [] then ensureRunning s else s))"

section \<open>What a callback does\<close>

datatype sched_op = AddTick rat nat | AddCron cron_fields nat | StopTick nat | StopAll | Pause | Resume

fun run_op :: "sched_op \<Rightarrow> scheduler \<Rightarrow> scheduler" where
  "run_op (AddTick ms cb) s = snd (add_tick ms cb s)"
| "run_op (AddCron flds cb) s = snd (add_cron_fields flds cb s)"
| "run_op (StopTick i) s = stop_tick i s"
| "run_op StopAll s = stopAll s"
| "run_op Pause s = pause s"
| "run_op Resume s = resume s"

type_synonym callbacks = "nat \<Rightarrow> sched_op list \<times> bool" \<comment> \<open>the calls made, and whether it throws\<close>

definition fire :: "callbacks \<Rightarrow> nat \<Rightarrow> nat \<Rightarrow> scheduler \<Rightarrow> scheduler" where
  "fire beh i cb s = fold run_op (fst (beh cb)) (s\<lparr>sc_log := sc_log s @ [i]\<rparr>)"

section \<open>A pass\<close>

text \<open>A write through the reference the loop holds; a tick no longer in the Map is written in vain.\<close>

definition set_tick :: "nat \<Rightarrow> tick \<Rightarrow> scheduler \<Rightarrow> scheduler" where
  "set_tick i t s = s\<lparr>sc_ticks := map (\<lambda>(j, u). if j = i then (j, t) else (j, u)) (sc_ticks s)\<rparr>"

fun keep_phase :: "tick \<Rightarrow> tick" where
  "keep_phase (IntervalTick t) =
     IntervalTick (t\<lparr>it_accumulated := it_accumulated t - of_int \<lfloor>it_accumulated t / it_interval t\<rfloor> * it_interval t\<rparr>)"
| "keep_phase t = t"

definition map_tick :: "nat \<Rightarrow> (tick \<Rightarrow> tick) \<Rightarrow> scheduler \<Rightarrow> scheduler" where
  "map_tick i f s = s\<lparr>sc_ticks := map (\<lambda>(j, u). if j = i then (j, f u) else (j, u)) (sc_ticks s)\<rparr>"

text \<open>The cron tick's own step: its new state and whether it is due.\<close>

definition advanceCron :: "rat \<Rightarrow> date \<Rightarrow> cron_tick \<Rightarrow> cron_tick \<times> bool" where
  "advanceCron timestamp now t =
     (case ct_last t of
        None \<Rightarrow> (t\<lparr>ct_last := Some timestamp\<rparr>, False)
      | Some l \<Rightarrow>
          (let t = t\<lparr>ct_accumulated := ct_accumulated t + (timestamp - l), ct_last := Some timestamp\<rparr> in
           if ct_accumulated t < CRON_CHECK_INTERVAL_MS then (t, False)
           else
             (let t = t\<lparr>ct_accumulated := 0\<rparr>; key = cronMinuteKey now in
              if key \<noteq> ct_lastKey t \<and> cronMatches (ct_fields t) now then (t\<lparr>ct_lastKey := key\<rparr>, True)
              else (t, False))))"

text \<open>One tick of a pass: the new state and whether the callback threw.\<close>

definition advance_tick :: "callbacks \<Rightarrow> rat \<Rightarrow> (nat \<Rightarrow> date) \<Rightarrow> nat \<Rightarrow> tick \<Rightarrow> scheduler \<Rightarrow> scheduler \<times> bool" where
  "advance_tick beh timestamp now i tk s =
     (case tk of
        CronTick t \<Rightarrow>
          (let (t', due) = advanceCron timestamp (now i) t; s = set_tick i (CronTick t') s in
           if due then (fire beh i (ct_onDue t) s, snd (beh (ct_onDue t))) else (s, False))
      | IntervalTick t \<Rightarrow>
          if it_interval t \<le> 0 then (fire beh i (it_onDue t) s, snd (beh (it_onDue t)))
          else
            (case it_last t of
               None \<Rightarrow> (set_tick i (IntervalTick (t\<lparr>it_last := Some timestamp\<rparr>)) s, False)
             | Some l \<Rightarrow>
                 (let t = t\<lparr>it_accumulated := it_accumulated t + (timestamp - l), it_last := Some timestamp\<rparr>;
                      s = set_tick i (IntervalTick t) s
                  in if it_accumulated t \<ge> it_interval t
                     then if snd (beh (it_onDue t)) then (fire beh i (it_onDue t) s, True)
                          else (map_tick i keep_phase (fire beh i (it_onDue t) s), False)
                     else (s, False))))"

text \<open>
  The loop over \<open>ticks.values()\<close> after id \<open>visited\<close>: it ends at the end of the Map or when a callback
  throws; callbacks that keep adding every-pass ticks make it run forever.
\<close>

partial_function (option) advance_from ::
  "callbacks \<Rightarrow> rat \<Rightarrow> (nat \<Rightarrow> date) \<Rightarrow> nat \<Rightarrow> scheduler \<Rightarrow> (scheduler \<times> bool) option" where
  "advance_from beh timestamp now visited s =
     (case find (\<lambda>p. visited < fst p) (sc_ticks s) of
        None \<Rightarrow> Some (s, False)
      | Some p \<Rightarrow>
          (let r = advance_tick beh timestamp now (fst p) (snd p) s in
           if snd r then Some (fst r, True) else advance_from beh timestamp now (fst p) (fst r)))"

definition advance :: "callbacks \<Rightarrow> rat \<Rightarrow> (nat \<Rightarrow> date) \<Rightarrow> scheduler \<Rightarrow> (scheduler \<times> bool) option" where
  "advance beh timestamp now s = advance_from beh timestamp now 0 s"

text \<open>
  The browser runs the requested frame \<open>h\<close>: the \<open>loop\<close> closure of \<open>ensureRunning\<close>. A throwing pass
  leaves before it asks for the next frame. The second definition is the interval's tick.
\<close>

definition run_frame :: "callbacks \<Rightarrow> rat \<Rightarrow> (nat \<Rightarrow> date) \<Rightarrow> nat \<Rightarrow> scheduler \<Rightarrow> scheduler option" where
  "run_frame beh timestamp now h s =
     (let s = s\<lparr>sc_due := removeAll h (sc_due s)\<rparr> in
      if \<not> sc_running s then Some s
      else map_option (\<lambda>(s', threw). if threw then s' else request s') (advance beh timestamp now s))"

definition run_interval :: "callbacks \<Rightarrow> rat \<Rightarrow> (nat \<Rightarrow> date) \<Rightarrow> scheduler \<Rightarrow> scheduler option" where
  "run_interval beh timestamp now s = map_option fst (advance beh timestamp now s)"


section \<open>Reachable schedulers\<close>

text \<open>The host calls the operations between passes, the browser runs the frames it holds.\<close>

inductive reach :: "callbacks \<Rightarrow> scheduler \<Rightarrow> bool" for beh where
  created: "reach beh (new_scheduler True)"
| called: "reach beh s \<Longrightarrow> reach beh (run_op op s)"
| framed: "reach beh s \<Longrightarrow> h \<in> set (sc_due s) \<Longrightarrow> run_frame beh timestamp now h s = Some s' \<Longrightarrow> reach beh s'"

inductive_cases reach_cases: "reach beh s"

section \<open>Lemmas on the operations\<close>

definition every_tick :: "(nat \<Rightarrow> tick \<Rightarrow> bool) \<Rightarrow> scheduler \<Rightarrow> bool" where
  "every_tick Q s = (\<forall>(i, t) \<in> set (sc_ticks s). Q i t)"

fun fresh_tick :: "tick \<Rightarrow> bool" where
  "fresh_tick (IntervalTick t) = (0 \<le> it_interval t \<and> it_accumulated t = 0 \<and> it_last t = None)"
| "fresh_tick (CronTick t) = (ct_last t = None)"

lemma loop_frame [simp]:
  "sc_ticks (request s) = sc_ticks s" "sc_ticks (ensureRunning s) = sc_ticks s"
  "sc_ticks (stopLoop s) = sc_ticks s" "sc_ticks (maybeStop s) = sc_ticks s"
  "sc_log (request s) = sc_log s" "sc_log (ensureRunning s) = sc_log s"
  "sc_log (stopLoop s) = sc_log s" "sc_log (maybeStop s) = sc_log s"
  "sc_nextId (request s) = sc_nextId s" "sc_nextId (ensureRunning s) = sc_nextId s"
  "sc_nextId (stopLoop s) = sc_nextId s" "sc_nextId (maybeStop s) = sc_nextId s"
  by (simp_all add: request_def ensureRunning_def stopLoop_def maybeStop_def Let_def split: option.splits)

lemmas op_defs = add_tick_def add_cron_fields_def register_def stop_tick_def stopAll_def pause_def resume_def

lemma run_op_frame [simp]:
  "sc_log (run_op op s) = sc_log s" "sc_nextId s \<le> sc_nextId (run_op op s)"
  by (cases op; auto simp: op_defs Let_def)+

lemma run_op_every:
  assumes "every_tick Q s" "\<And>i t. Q i t \<Longrightarrow> Q i (forget_timestamp t)"
    and "\<And>i t. sc_nextId s \<le> i \<Longrightarrow> fresh_tick t \<Longrightarrow> Q i t"
  shows "every_tick Q (run_op op s)"
  using assms by (cases op) (auto simp: every_tick_def op_defs Let_def)

lemma fold_ops_frame [simp]:
  "sc_log (fold run_op ops s) = sc_log s" "sc_nextId s \<le> sc_nextId (fold run_op ops s)"
proof -
  show "sc_log (fold run_op ops s) = sc_log s"
    by (induction ops arbitrary: s) auto
  show "sc_nextId s \<le> sc_nextId (fold run_op ops s)"
    by (induction ops arbitrary: s) (auto intro: order_trans [OF run_op_frame(2)])
qed

lemma fold_ops_every:
  assumes "every_tick Q s" "\<And>i t. Q i t \<Longrightarrow> Q i (forget_timestamp t)"
    and "\<And>i t. sc_nextId s \<le> i \<Longrightarrow> fresh_tick t \<Longrightarrow> Q i t"
  shows "every_tick Q (fold run_op ops s)"
  using assms(1,3)
proof (induction ops arbitrary: s)
  case (Cons op ops)
  have "every_tick Q (run_op op s)" using Cons.prems assms(2) by (intro run_op_every) auto
  moreover have "sc_nextId (run_op op s) \<le> i \<Longrightarrow> fresh_tick t \<Longrightarrow> Q i t" for i t
    using Cons.prems(2) order_trans [OF run_op_frame(2)] by blast
  ultimately show ?case using Cons.IH by simp
qed simp

lemma fire_frame [simp]:
  "sc_log (fire beh i cb s) = sc_log s @ [i]" "sc_nextId s \<le> sc_nextId (fire beh i cb s)"
  using fold_ops_frame(2) [of "s\<lparr>sc_log := sc_log s @ [i]\<rparr>"] by (simp_all add: fire_def)

lemma fire_every:
  assumes "every_tick Q s" "\<And>i t. Q i t \<Longrightarrow> Q i (forget_timestamp t)"
    and "\<And>i t. sc_nextId s \<le> i \<Longrightarrow> fresh_tick t \<Longrightarrow> Q i t"
  shows "every_tick Q (fire beh j cb s)"
  unfolding fire_def using assms by (intro fold_ops_every) (auto simp: every_tick_def)

lemma write_frame [simp]:
  "sc_log (set_tick i t s) = sc_log s" "sc_log (map_tick i f s) = sc_log s"
  "sc_nextId (set_tick i t s) = sc_nextId s" "sc_nextId (map_tick i f s) = sc_nextId s"
  by (simp_all add: set_tick_def map_tick_def)

lemma write_every:
  "every_tick Q s \<Longrightarrow> Q i t \<Longrightarrow> every_tick Q (set_tick i t s)"
  "every_tick (\<lambda>j t. if j = i then Q i (f t) else Q j t) s \<Longrightarrow> every_tick Q (map_tick i f s)"
  by (auto simp: every_tick_def set_tick_def map_tick_def split: if_splits)

section \<open>Lemmas on a pass\<close>

text \<open>What one step of a pass does to the log: the tick's id when it fired.\<close>

definition fired :: "callbacks \<Rightarrow> rat \<Rightarrow> (nat \<Rightarrow> date) \<Rightarrow> nat \<Rightarrow> tick \<Rightarrow> bool" where
  "fired beh timestamp now i tk =
     (case tk of
        CronTick t \<Rightarrow> snd (advanceCron timestamp (now i) t)
      | IntervalTick t \<Rightarrow> it_interval t \<le> 0 \<or>
          (case it_last t of None \<Rightarrow> False | Some l \<Rightarrow> it_interval t \<le> it_accumulated t + (timestamp - l)))"

lemma advance_tick_log:
  "sc_log (fst (advance_tick beh timestamp now i tk s))
     = sc_log s @ (if fired beh timestamp now i tk then [i] else [])"
  by (auto simp: advance_tick_def fired_def Let_def split: tick.splits option.splits prod.splits)

lemma advance_tick_next: "sc_nextId s \<le> sc_nextId (fst (advance_tick beh timestamp now i tk s))"
  by (auto simp: advance_tick_def Let_def intro: order_trans [OF _ fire_frame(2)]
      split: tick.splits option.splits prod.splits)

text \<open>
  The induction a pass allows: \<open>R v s new r\<close> relates what is left after id \<open>v\<close> in state \<open>s\<close> to the
  ids that fire from there on and the result.
\<close>

definition visit :: "callbacks \<Rightarrow> rat \<Rightarrow> (nat \<Rightarrow> date) \<Rightarrow> nat \<times> tick \<Rightarrow> nat list" where
  "visit beh timestamp now p = (if fired beh timestamp now (fst p) (snd p) then [fst p] else [])"

definition next_tick :: "nat \<Rightarrow> scheduler \<Rightarrow> (nat \<times> tick) option" where
  "next_tick v s = find (\<lambda>p. v < fst p) (sc_ticks s)"

lemma next_tick_some: "next_tick v s = Some p \<Longrightarrow> v < fst p \<and> p \<in> set (sc_ticks s)"
  unfolding next_tick_def by (auto dest: find_Some_set)

lemma pass_induct:
  assumes run: "advance_from beh timestamp now v s = Some r"
    and stops: "\<And>v s. next_tick v s = None \<Longrightarrow> R v s [] (s, False)"
    and threw: "\<And>v s p. next_tick v s = Some p \<Longrightarrow> snd (advance_tick beh timestamp now (fst p) (snd p) s) \<Longrightarrow>
      R v s (visit beh timestamp now p) (fst (advance_tick beh timestamp now (fst p) (snd p) s), True)"
    and goes: "\<And>v s p new r. next_tick v s = Some p \<Longrightarrow> \<not> snd (advance_tick beh timestamp now (fst p) (snd p) s) \<Longrightarrow>
      R (fst p) (fst (advance_tick beh timestamp now (fst p) (snd p) s)) new r \<Longrightarrow>
      R v s (visit beh timestamp now p @ new) r"
  shows "\<exists>new. sc_log (fst r) = sc_log s @ new \<and> R v s new r"
proof -
  define P where "P b t n v s r \<longleftrightarrow> (b = beh \<and> t = timestamp \<and> n = now \<longrightarrow>
      (\<exists>new. sc_log (fst r) = sc_log s @ new \<and> R v s new r))" for b t n v s r
  have "P beh timestamp now v s r"
  proof (rule advance_from.raw_induct [OF _ run, where P = P])
    fix f :: "callbacks \<Rightarrow> rat \<Rightarrow> (nat \<Rightarrow> date) \<Rightarrow> nat \<Rightarrow> scheduler \<Rightarrow> (scheduler \<times> bool) option"
    fix b t n v s r
    assume IH: "\<And>b t n v s r. f b t n v s = Some r \<Longrightarrow> P b t n v s r"
      and step: "(case find (\<lambda>p. v < fst p) (sc_ticks s) of None \<Rightarrow> Some (s, False)
        | Some p \<Rightarrow> let r = advance_tick b t n (fst p) (snd p) s in
            if snd r then Some (fst r, True) else f b t n (fst p) (fst r)) = Some r"
    show "P b t n v s r"
      unfolding P_def
    proof (intro impI)
      assume "b = beh \<and> t = timestamp \<and> n = now"
      then have eqs: "b = beh" "t = timestamp" "n = now" by auto
      show "\<exists>new. sc_log (fst r) = sc_log s @ new \<and> R v s new r"
      proof (cases "next_tick v s")
        case None
        with step stops show ?thesis by (auto simp: next_tick_def)
      next
        case (Some p)
        let ?a = "advance_tick beh timestamp now (fst p) (snd p) s"
        have log: "sc_log (fst ?a) = sc_log s @ visit beh timestamp now p"
          by (simp add: advance_tick_log visit_def)
        show ?thesis
        proof (cases "snd ?a")
          case True
          with Some step threw [OF Some] log show ?thesis by (auto simp: next_tick_def Let_def eqs)
        next
          case False
          with Some step have "f beh timestamp now (fst p) (fst ?a) = Some r"
            by (simp add: next_tick_def Let_def eqs)
          from IH [OF this] obtain new where "sc_log (fst r) = sc_log (fst ?a) @ new" "R (fst p) (fst ?a) new r"
            by (auto simp: P_def)
          with goes [OF Some False] log show ?thesis by auto
        qed
      qed
    qed
  qed
  then show ?thesis by (simp add: P_def)
qed

text \<open>A pass visits ascending ids.\<close>

lemma advance_from_log:
  assumes "advance_from beh timestamp now v s = Some r"
  shows "\<exists>new. sc_log (fst r) = sc_log s @ new \<and> sorted_wrt (<) new \<and> (\<forall>i\<in>set new. v < i)"
proof (rule pass_induct [OF assms, where R = "\<lambda>v s new r. sorted_wrt (<) new \<and> (\<forall>i\<in>set new. v < i)"])
  fix v s p new r
  assume "next_tick v s = Some p" and "sorted_wrt (<) new \<and> (\<forall>i\<in>set new. fst p < i)"
  then show "sorted_wrt (<) (visit beh timestamp now p @ new) \<and> (\<forall>i\<in>set (visit beh timestamp now p @ new). v < i)"
    using next_tick_some [of v s p] by (auto simp: visit_def intro: less_trans)
qed (auto simp: visit_def dest: next_tick_some)

text \<open>A tick that waits for its first timestamp does not fire when it is visited.\<close>

fun waiting :: "tick \<Rightarrow> bool" where
  "waiting (IntervalTick t) = (0 < it_interval t \<and> it_last t = None)"
| "waiting (CronTick t) = (ct_last t = None)"

definition idle :: "nat \<Rightarrow> scheduler \<Rightarrow> bool" where
  "idle i s = (i < sc_nextId s \<and> every_tick (\<lambda>j t. j = i \<longrightarrow> waiting t) s)"

lemma waiting_forget: "waiting t \<Longrightarrow> waiting (forget_timestamp t)"
  by (cases t) auto

lemma waiting_not_fired: "waiting t \<Longrightarrow> \<not> fired beh timestamp now i t"
  by (cases t) (auto simp: fired_def advanceCron_def)

lemma idle_advance_other:
  assumes "idle i s" "j \<noteq> i"
  shows "idle i (fst (advance_tick beh timestamp now j t s))"
proof -
  have fire: "every_tick (\<lambda>k t. k = i \<longrightarrow> waiting t) (fire beh j cb x)"
    if "every_tick (\<lambda>k t. k = i \<longrightarrow> waiting t) x" "i < sc_nextId x" for cb x
    using that by (intro fire_every) (auto simp: waiting_forget)
  have set: "every_tick (\<lambda>k t. k = i \<longrightarrow> waiting t) (set_tick j u s)" for u
    using assms by (intro write_every) (auto simp: idle_def)
  have kept: "every_tick (\<lambda>k t. k = i \<longrightarrow> waiting t) (map_tick j f x)"
    if "every_tick (\<lambda>k t. k = i \<longrightarrow> waiting t) x" for f x
    using that assms(2) by (intro write_every) (auto simp: every_tick_def)
  have "every_tick (\<lambda>k t. k = i \<longrightarrow> waiting t) (fst (advance_tick beh timestamp now j t s))"
    using assms(1) fire set
    by (auto simp: advance_tick_def idle_def Let_def intro!: kept
        split: tick.splits option.splits prod.splits)
  then show ?thesis
    using assms(1) order_less_le_trans [OF _ advance_tick_next] by (auto simp: idle_def)
qed

lemma idle_not_fired:
  assumes "advance_from beh timestamp now v s = Some r" "idle i s"
  shows "\<exists>new. sc_log (fst r) = sc_log s @ new \<and> i \<notin> set new"
proof -
  have "\<exists>new. sc_log (fst r) = sc_log s @ new \<and>
      ((v < i \<longrightarrow> idle i s) \<longrightarrow> i \<notin> set new) \<and> (\<forall>k\<in>set new. v < k)"
  proof (rule pass_induct [OF assms(1), where R = "\<lambda>v s new r.
      ((v < i \<longrightarrow> idle i s) \<longrightarrow> i \<notin> set new) \<and> (\<forall>k\<in>set new. v < k)"])
    fix v s p new r
    assume p: "next_tick v s = Some p"
      and new: "((fst p < i \<longrightarrow> idle i (fst (advance_tick beh timestamp now (fst p) (snd p) s))) \<longrightarrow> i \<notin> set new) \<and>
        (\<forall>k\<in>set new. fst p < k)"
    have "i \<notin> set (visit beh timestamp now p @ new)" if "v < i \<longrightarrow> idle i s"
    proof -
      have "i \<notin> set (visit beh timestamp now p)"
        using that next_tick_some [OF p] waiting_not_fired [of "snd p"]
        by (cases p) (auto simp: visit_def idle_def every_tick_def)
      moreover have "i \<notin> set new"
        using new that next_tick_some [OF p] idle_advance_other [of i s "fst p"] by auto
      ultimately show ?thesis by simp
    qed
    moreover have "\<forall>k\<in>set (visit beh timestamp now p @ new). v < k"
      using new next_tick_some [OF p] by (auto simp: visit_def)
    ultimately show "((v < i \<longrightarrow> idle i s) \<longrightarrow> i \<notin> set (visit beh timestamp now p @ new)) \<and>
      (\<forall>k\<in>set (visit beh timestamp now p @ new). v < k)" by blast
  next
    fix v s p
    assume p: "next_tick v s = Some p"
    then show "((v < i \<longrightarrow> idle i s) \<longrightarrow> i \<notin> set (visit beh timestamp now p)) \<and>
      (\<forall>k\<in>set (visit beh timestamp now p). v < k)"
      using next_tick_some [OF p] waiting_not_fired [of "snd p"]
      by (cases p) (auto simp: visit_def idle_def every_tick_def)
  qed auto
  with assms(2) show ?thesis by auto
qed

section \<open>The phase of an interval\<close>









section \<open>One loop\<close>

text \<open>
  The browser holds at most one frame of the scheduler, the one its handle names, and holds one
  exactly while it runs.
\<close>

definition one_loop :: "scheduler \<Rightarrow> bool" where
  "one_loop s \<longleftrightarrow> (if sc_running s then \<exists>h. sc_frame s = Some h \<and> sc_due s = [h] \<and> \<not> sc_paused s
                   else sc_frame s = None \<and> sc_due s = [])"

lemma one_loop_parts:
  "one_loop s \<Longrightarrow> one_loop (ensureRunning s)"
  "one_loop s \<Longrightarrow> one_loop (stopLoop s)"
  "one_loop s \<Longrightarrow> one_loop (stopLoop (s\<lparr>sc_paused := True\<rparr>))"
  "one_loop s \<Longrightarrow> one_loop (maybeStop s)"
  "one_loop s \<Longrightarrow> sc_paused s \<Longrightarrow> one_loop (s\<lparr>sc_paused := False\<rparr>)"
  "one_loop (s\<lparr>sc_ticks := ts\<rparr>) = one_loop s" "one_loop (s\<lparr>sc_nextId := n\<rparr>) = one_loop s"
  by (auto simp: one_loop_def ensureRunning_def request_def stopLoop_def maybeStop_def Let_def split: if_splits)

lemma one_loop_op: "one_loop s \<Longrightarrow> one_loop (run_op op s)"
proof (cases op)
  case Resume
  assume s: "one_loop s"
  show ?thesis
  proof (cases "sc_paused s")
    case True
    then have "one_loop (s\<lparr>sc_paused := False, sc_ticks := map (\<lambda>(i, t). (i, forget_timestamp t)) (sc_ticks s)\<rparr>)"
      using one_loop_parts(5) [OF s] by (simp add: one_loop_parts(6))
    from one_loop_parts(1) [OF this] this True Resume show ?thesis by (auto simp: resume_def Let_def)
  qed (simp add: Resume resume_def s)
qed (simp_all add: op_defs one_loop_parts)

text \<open>Callbacks that leave the scheduler alone.\<close>

definition quiet :: callbacks where
  "quiet cb = ([], False)"

lemma write_ids [simp]:
  "map fst (sc_ticks (set_tick i t s)) = map fst (sc_ticks s)"
  "map fst (sc_ticks (map_tick i f s)) = map fst (sc_ticks s)"
  by (simp_all add: set_tick_def map_tick_def split_beta if_distrib cong: if_cong)

definition loop_of :: "scheduler \<Rightarrow> bool \<times> bool \<times> nat option \<times> nat list" where
  "loop_of s = (sc_running s, sc_paused s, sc_frame s, sc_due s)"

lemma loop_of_write [simp]: "loop_of (set_tick i t s) = loop_of s" "loop_of (map_tick i f s) = loop_of s"
  by (simp_all add: loop_of_def set_tick_def map_tick_def)

lemma quiet_fire [simp]:
  "loop_of (fire quiet i cb s) = loop_of s" "sc_ticks (fire quiet i cb s) = sc_ticks s" "snd (quiet cb) = False"
  by (simp_all add: loop_of_def fire_def quiet_def)

lemma quiet_pass:
  "loop_of (fst (advance_tick quiet t now i tk s)) = loop_of s"
  "map fst (sc_ticks (fst (advance_tick quiet t now i tk s))) = map fst (sc_ticks s)"
  "\<not> snd (advance_tick quiet t now i tk s)"
proof -
  show "loop_of (fst (advance_tick quiet t now i tk s)) = loop_of s"
    by (cases tk) (simp_all add: advance_tick_def split_beta Let_def split: option.split)
  show "map fst (sc_ticks (fst (advance_tick quiet t now i tk s))) = map fst (sc_ticks s)"
    by (cases tk) (simp_all add: advance_tick_def split_beta Let_def split: option.split)
  show "\<not> snd (advance_tick quiet t now i tk s)"
    by (cases tk) (simp_all add: advance_tick_def split_beta Let_def split: option.split)
qed

lemma find_first_above:
  fixes v :: nat
  assumes "find (\<lambda>p. v < fst p) xs = Some p"
  shows "length (filter (\<lambda>q. fst p < q) (map fst xs)) < length (filter (\<lambda>q. v < q) (map fst xs))"
proof -
  have p: "v < fst p" "fst p \<in> set (map fst xs)" using assms by (auto dest: find_Some_set)
  have "filter (\<lambda>q. fst p < q) (map fst xs) = filter (\<lambda>q. fst p < q) (filter (\<lambda>q. v < q) (map fst xs))"
    unfolding filter_filter using p(1) less_trans [of v "fst p"] by (intro filter_cong) auto
  also have "length \<dots> < length (filter (\<lambda>q. v < q) (map fst xs))"
    using p by (intro length_filter_less [of "fst p"]) auto
  finally show ?thesis .
qed

lemma quiet_returns:
  "\<exists>r. advance_from quiet t now v s = Some (r, False) \<and> loop_of r = loop_of s"
proof (induction "length (filter (\<lambda>q. v < q) (map fst (sc_ticks s)))" arbitrary: v s rule: less_induct)
  case less
  show ?case
  proof (cases "find (\<lambda>p. v < fst p) (sc_ticks s)")
    case None
    then show ?thesis by (subst advance_from.simps) simp
  next
    case (Some p)
    let ?s = "fst (advance_tick quiet t now (fst p) (snd p) s)"
    have "length (filter (\<lambda>q. fst p < q) (map fst (sc_ticks ?s))) < length (filter (\<lambda>q. v < q) (map fst (sc_ticks s)))"
      unfolding quiet_pass(2) by (rule find_first_above [OF Some])
    from less [OF this] obtain r where "advance_from quiet t now (fst p) ?s = Some (r, False)" "loop_of r = loop_of ?s"
      by blast
    with Some quiet_pass [of t now "fst p" "snd p" s] show ?thesis
      by (subst advance_from.simps) (simp add: Let_def)
  qed
qed

lemma reach_one_loop: "reach quiet s \<Longrightarrow> one_loop s"
proof (induction rule: reach.induct)
  case created
  then show ?case by (simp add: one_loop_def new_scheduler_def)
next
  case (called s op)
  then show ?case by (simp add: one_loop_op)
next
  case (framed s h timestamp now s')
  then have h: "sc_running s" "sc_due s = [h]" "\<not> sc_paused s"
    by (auto simp: one_loop_def split: if_splits)
  obtain r where "advance_from quiet timestamp now 0 (s\<lparr>sc_due := []\<rparr>) = Some (r, False)"
    "sc_running r" "sc_due r = []" "\<not> sc_paused r"
    using quiet_returns [of timestamp now 0 "s\<lparr>sc_due := []\<rparr>"] h by (auto simp: loop_of_def)
  with framed(3) h show ?case
    by (auto simp: run_frame_def Let_def advance_def one_loop_def request_def)
qed

section \<open>Examples\<close>

text \<open>One tick of 100 ms, with its phase, last timestamp and log.\<close>

definition beat :: "rat \<Rightarrow> rat \<Rightarrow> nat list \<Rightarrow> scheduler" where
  "beat acc l lg = (new_scheduler True)\<lparr>sc_ticks := [(1, IntervalTick \<lparr>it_interval = 100,
     it_accumulated = acc, it_last = Some l, it_onDue = 0\<rparr>)], sc_nextId := 2, sc_log := lg\<rparr>"


text \<open>A callback that stops its own tick and registers another.\<close>

definition restarting :: callbacks where
  "restarting cb = (if cb = 0 then ([StopTick 1, AddTick 0 1], False) else ([], False))"

section \<open>Cron ticks over time\<close>

text \<open>The dates at which a cron tick fires, over the timestamps and dates of successive passes.\<close>

fun fired_dates :: "(rat \<times> date) list \<Rightarrow> cron_tick \<Rightarrow> date list" where
  "fired_dates [] t = []"
| "fired_dates ((timestamp, now) # passes) t =
     (if snd (advanceCron timestamp now t) then now # fired_dates passes (fst (advanceCron timestamp now t))
      else fired_dates passes (fst (advanceCron timestamp now t)))"

lemma advanceCron_effect:
  "ct_fields (fst (advanceCron ts d t)) = ct_fields t"
  "snd (advanceCron ts d t) \<Longrightarrow> cronMatches (ct_fields t) d \<and> cronMinuteKey d \<noteq> ct_lastKey t"
  "ct_lastKey (fst (advanceCron ts d t)) = (if snd (advanceCron ts d t) then cronMinuteKey d else ct_lastKey t)"
  by (auto simp: advanceCron_def Let_def split: option.splits if_splits)

lemma fired_dates_adjacent:
  "distinct_adj (ct_lastKey t # map cronMinuteKey (fired_dates passes t)) \<and>
   list_all (cronMatches (ct_fields t)) (fired_dates passes t)"
proof (induction passes arbitrary: t)
  case (Cons p passes)
  obtain ts d where p: "p = (ts, d)" by (cases p)
  show ?case
    using Cons.IH [of "fst (advanceCron ts d t)"] advanceCron_effect [of ts d t] by (auto simp: p)
qed simp

section \<open>Properties\<close>

text \<open>
  A pass fires each tick at most once, whatever the callbacks do: the ids that fire are strictly
  ascending, so missed beats are dropped and no pass bursts.
\<close>
theorem pass_fires_once:
  "pred_option (\<lambda>r. \<exists>new. sc_log (fst r) = sc_log s @ new \<and> distinct new) (advance beh timestamp now s)"
proof (cases "advance beh timestamp now s")
  case (Some r)
  then obtain new where "sc_log (fst r) = sc_log s @ new" "sorted_wrt (<) new"
    unfolding advance_def using advance_from_log by blast
  moreover from this(2) have "distinct new" by (simp add: strict_sorted_iff)
  ultimately show ?thesis using Some by auto
qed simp



text \<open>
  Resuming never fires a backlog: after \<open>resume\<close> of a paused scheduler, the first pass fires no
  interval tick and no cron tick that was registered, however long the pause was and whatever the
  callbacks of that pass do.
\<close>
theorem resume_no_backlog:
  assumes "sc_paused s" and "(i, t) \<in> set (sc_ticks s)" and "distinct (map fst (sc_ticks s))" and "i < sc_nextId s"
    and "case t of IntervalTick x \<Rightarrow> 0 < it_interval x | CronTick x \<Rightarrow> True"
    and "advance beh timestamp now (resume s) = Some r"
  shows "\<exists>new. sc_log (fst r) = sc_log s @ new \<and> i \<notin> set new"
proof -
  have "waiting (forget_timestamp t)" using assms(5) by (cases t) auto
  moreover have "u = t" if "(i, u) \<in> set (sc_ticks s)" for u
    using eq_key_imp_eq_value [OF assms(3) that assms(2)] .
  ultimately have "idle i (resume s)"
    using assms(1,4) by (auto simp: idle_def every_tick_def resume_def Let_def)
  moreover have "sc_log (resume s) = sc_log s" by (simp add: resume_def Let_def)
  ultimately show ?thesis using idle_not_fired [of beh timestamp now 0 "resume s" r i] assms(6)
    by (simp add: advance_def)
qed

theorem resume_no_backlog_witness:
  "\<exists>r. advance restarting 9000000 (\<lambda>_. undefined) (resume (pause (beat 90 0 []))) = Some r \<and>
     1 \<notin> set (sc_log (fst r))"
proof -
  let ?s = "pause (beat 90 0 [])"
  obtain r where r: "advance restarting 9000000 (\<lambda>_. undefined) (resume ?s) = Some r"
    by (simp add: advance_def advance_from.simps beat_def pause_def stopLoop_def resume_def ensureRunning_def
        request_def advance_tick_def new_scheduler_def set_tick_def Let_def)
  have "\<exists>new. sc_log (fst r) = sc_log ?s @ new \<and> (1 :: nat) \<notin> set new"
    by (rule resume_no_backlog [where t = "IntervalTick \<lparr>it_interval = 100, it_accumulated = 90,
          it_last = Some 0, it_onDue = 0\<rparr>", OF _ _ _ _ _ r])
      (simp_all add: beat_def pause_def stopLoop_def new_scheduler_def)
  moreover have "sc_log ?s = []" by (simp add: beat_def pause_def stopLoop_def new_scheduler_def)
  ultimately show ?thesis using r by auto
qed

text \<open>
  A cron tick fires at most once per matching minute: over any run of passes every date it fires
  at matches its fields, and two successive fires never fall in the same calendar minute.
\<close>
theorem cron_once_per_minute:
  "distinct_adj (map cronMinuteKey (fired_dates passes t)) \<and>
   list_all (cronMatches (ct_fields t)) (fired_dates passes t)"
  using fired_dates_adjacent [of t passes] by (auto dest: distinct_adj_ConsD)

text \<open>
  One shared clock: however the host calls the scheduler and whenever the browser runs its
  frames, as long as the ticks' callbacks do not call the scheduler themselves, the browser holds
  exactly one frame while the scheduler runs and none when it does not, and every frame returns.
\<close>
theorem single_loop:
  "reach quiet s \<Longrightarrow> one_loop s \<and> (\<exists>s'. run_frame quiet timestamp now h s = Some s')"
  using reach_one_loop [of s] quiet_returns [of timestamp now 0 "s\<lparr>sc_due := removeAll h (sc_due s)\<rparr>"]
  by (auto simp: run_frame_def Let_def advance_def)

theorem single_loop_witness:
  "one_loop (run_op Pause (run_op (AddTick 16 0) (new_scheduler True)))"
proof -
  have "reach quiet (run_op Pause (run_op (AddTick 16 0) (new_scheduler True)))"
    by (intro reach.called reach.created)
  from single_loop [OF this] show ?thesis by blast
qed

text \<open>
  A tick that replaces itself from its own callback doubles the clock: stopping the last tick
  and adding another inside \<open>onDue\<close> starts a second loop beside the one that is running, and from
  then on every displayed frame runs two passes and the new tick twice.
\<close>
theorem restart_in_callback_doubles_loop:
  "let s = snd (add_tick 0 0 (new_scheduler True)) in
   sc_due s = [1] \<and>
   (\<exists>s1 s2 s3. run_frame restarting 16 now 1 s = Some s1 \<and> sc_due s1 = [2, 3] \<and> sc_log s1 = [1, 2] \<and>
     run_frame restarting 32 now 2 s1 = Some s2 \<and> run_frame restarting 32 now 3 s2 = Some s3 \<and>
     sc_log s3 = [1, 2, 2, 2] \<and> length (sc_due s3) = 2)"
  by (simp add: add_tick_def register_def ensureRunning_def request_def new_scheduler_def run_frame_def
      advance_def advance_from.simps advance_tick_def fire_def restarting_def stop_tick_def maybeStop_def
      stopLoop_def Let_def)

end
