(* ===== verification/Payload.thy ===== *)
theory Payload
  imports StateBook JsText
begin

text \<open>
  Payload validation: \<open>traits/PayloadValidator.ts\<close>. The container a declared type stands for
  (\<open>payloadTypeContainer\<close> of \<open>@almadar/core\<close>) is the parameter \<open>container\<close>. S-expressions and
  payloads are \<open>jval\<close>; a Map of emits is an association list in insertion order.
\<close>

section \<open>Validating one payload\<close>

datatype failure_reason = MissingField | NullField | WrongType


record validation_failure =
  vf_event :: string
  vf_field :: string
  vf_reason :: failure_reason
  vf_expectedType :: string




fun reason_text :: "failure_reason \<Rightarrow> string" where
  "reason_text MissingField = ''missing''"
| "reason_text NullField = ''null''"
| "reason_text WrongType = ''wrong-type''"

definition quote :: string where
  "quote = [CHR 0x27]"

definition formatPayloadValidationError :: "validation_failure list \<Rightarrow> string" where
  "formatPayloadValidationError failures =
     (case failures of
        [] \<Rightarrow> ''''
      | f0 # _ \<Rightarrow>
          ''Payload validation failed for event '' @ quote @ vf_event f0 @ quote @ '': '' @
          join_with ''; '' (map (\<lambda>f. vf_field f @ '' ('' @ reason_text (vf_reason f) @
             (if vf_expectedType f \<noteq> '''' then '', expected '' @ vf_expectedType f else '''') @ '')'') failures))"

section \<open>Validating payload mappings\<close>

record emit_decl =
  ed_event :: string
  ed_payloadSchema :: "string list option" \<comment> \<open>the fields' names\<close>

type_synonym emits_map = "(string \<times> emit_decl list) list"

record mapped_listener =
  ml_event :: string
  ml_payloadMapping :: "jobj option"

record payload_trait =
  pt_name :: string
  pt_listens :: "mapped_listener list option"
  pt_transitions :: "transition list"

record payload_mismatch =
  mm_listenerTrait :: string
  mm_emitterTrait :: string
  mm_event :: string
  mm_referencedField :: string
  mm_availableFields :: "string list"

definition is_word_char :: "char \<Rightarrow> bool" where
  "is_word_char c = (is_digit c \<or> c = CHR ''_'' \<or> ((97 :: nat) \<le> of_char c \<and> of_char c \<le> (122 :: nat)) \<or>
     ((65 :: nat) \<le> of_char c \<and> of_char c \<le> (90 :: nat)))"

text \<open>\<open>/^@payload\.(\w+)$/\<close>.\<close>

definition payload_ref :: "string \<Rightarrow> string option" where
  "payload_ref s =
     (if starts_with ''@payload.'' s \<and> drop 9 s \<noteq> [] \<and> list_all is_word_char (drop 9 s) then Some (drop 9 s) else None)"

lemma size_snd_in [termination_simp]:
  fixes kvs :: jobj
  assumes "kv \<in> set kvs"
  shows "size (snd kv) < Suc (size_list (size_prod (\<lambda>x. 0) size) kvs)"
  using size_values_of [of "snd kv" "JObj kvs"] assms by auto

fun collect_refs :: "jval \<Rightarrow> string list" where
  "collect_refs (JStr s) = (case payload_ref s of None \<Rightarrow> [] | Some f \<Rightarrow> [f])"
| "collect_refs (JArr xs) = concat (map collect_refs xs)"
| "collect_refs (JObj kvs) = concat (map (\<lambda>kv. collect_refs (snd kv)) kvs)"
| "collect_refs _ = []"

definition extractPayloadReferences :: "jobj \<Rightarrow> string list" where
  "extractPayloadReferences mapping = fold set_add (concat (map (\<lambda>kv. collect_refs (snd kv)) mapping)) []"

text \<open>\<open>emitIndex\<close>: the last declaration of an event wins.\<close>

definition emit_index :: "emits_map \<Rightarrow> (string \<times> string \<times> string list) list" where
  "emit_index emits =
     fold (\<lambda>(traitName, decls). fold (\<lambda>d. AList.update (ed_event d)
         (traitName, case ed_payloadSchema d of None \<Rightarrow> [] | Some fs \<Rightarrow> fs)) decls) emits []"

definition listener_mismatches ::
  "(string \<times> string \<times> string list) list \<Rightarrow> string \<Rightarrow> mapped_listener \<Rightarrow> payload_mismatch list" where
  "listener_mismatches index traitName listener =
     (case map_of index (ml_event listener) of
        None \<Rightarrow> []
      | Some (emitter, available) \<Rightarrow>
          (case ml_payloadMapping listener of
             None \<Rightarrow> []
           | Some mapping \<Rightarrow>
               map (\<lambda>ref. \<lparr>mm_listenerTrait = traitName, mm_emitterTrait = emitter, mm_event = ml_event listener,
                          mm_referencedField = ref, mm_availableFields = available\<rparr>)
                 (filter (\<lambda>ref. ref \<notin> set available) (extractPayloadReferences mapping))))"

definition validatePayloadShapes :: "payload_trait list \<Rightarrow> emits_map \<Rightarrow> payload_mismatch list" where
  "validatePayloadShapes traits emits =
     concat (map (\<lambda>t. case pt_listens t of None \<Rightarrow> []
         | Some ls \<Rightarrow> concat (map (listener_mismatches (emit_index emits) (pt_name t)) ls)) traits)"

section \<open>Emits read off the transitions\<close>

definition truthy_value :: "jval \<Rightarrow> bool" where
  "truthy_value v = (v \<notin> {JNull, JBool False, JNum (Fin 0), JNum NaN, JStr ''''})"

text \<open>\<open>Object.keys\<close> of a value that is not \<open>null\<close>.\<close>

fun keys_of :: "jval \<Rightarrow> string list" where
  "keys_of (JObj kvs) = map fst kvs"
| "keys_of (JArr xs) = map show_nat [0..<length xs]"
| "keys_of (JStr s) = map show_nat [0..<length s]"
| "keys_of _ = []"

fun emit_of_effect :: "jval \<Rightarrow> emit_decl option" where
  "emit_of_effect (JArr (JStr op # JStr event # rest)) =
     (if op = ''emit'' then
        Some \<lparr>ed_event = event,
          ed_payloadSchema = (case rest of [] \<Rightarrow> None
             | p # _ \<Rightarrow> if truthy_value p then Some (keys_of p) else None)\<rparr>
      else None)"
| "emit_of_effect _ = None"

definition add_emit :: "emit_decl \<Rightarrow> emit_decl list \<Rightarrow> emit_decl list" where
  "add_emit d ds = (if list_ex (\<lambda>e. ed_event e = ed_event d) ds then ds else ds @ [d])"

definition emits_of_trait :: "payload_trait \<Rightarrow> emit_decl list" where
  "emits_of_trait t =
     fold add_emit (List.map_filter emit_of_effect
       (concat (map (\<lambda>tr. case t_effects tr of None \<Rightarrow> [] | Some es \<Rightarrow> es) (pt_transitions t)))) []"

definition add_trait_emits :: "payload_trait \<Rightarrow> emits_map \<Rightarrow> emits_map" where
  "add_trait_emits t m =
     (if map_of m (pt_name t) \<noteq> None then m
      else if emits_of_trait t \<noteq> [] then AList.update (pt_name t) (emits_of_trait t) m else m)"

definition buildEmitsFromTraits :: "payload_trait list \<Rightarrow> emits_map option \<Rightarrow> emits_map" where
  "buildEmitsFromTraits traits explicitEmits =
     fold add_trait_emits traits (case explicitEmits of None \<Rightarrow> [] | Some m \<Rightarrow> fold (\<lambda>(k, v). AList.update k v) m [])"

section \<open>Lemmas\<close>

text \<open>The strings anywhere in a value.\<close>

inductive string_in :: "string \<Rightarrow> jval \<Rightarrow> bool" where
  here: "string_in s (JStr s)"
| deeper: "w \<in> set (values_of v) \<Longrightarrow> string_in s w \<Longrightarrow> string_in s v"

inductive_simps string_in_leaf [simp]:
  "string_in s JNull" "string_in s (JBool b)" "string_in s (JNum n)" "string_in s (JStr t)"

inductive_simps string_in_node: "string_in s (JArr xs)" "string_in s (JObj kvs)"

lemma string_in_values [simp]:
  "string_in s (JArr xs) \<longleftrightarrow> (\<exists>w\<in>set xs. string_in s w)"
  "string_in s (JObj kvs) \<longleftrightarrow> (\<exists>kv\<in>set kvs. string_in s (snd kv))"
  unfolding string_in_node by force+

lemma collect_refs_iff: "f \<in> set (collect_refs v) \<longleftrightarrow> (\<exists>s. string_in s v \<and> payload_ref s = Some f)"
  by (induction v rule: collect_refs.induct) (auto split: option.splits)

lemma extract_iff:
  "f \<in> set (extractPayloadReferences mapping) \<longleftrightarrow>
   (\<exists>v\<in>snd ` set mapping. \<exists>s. string_in s v \<and> payload_ref s = Some f)"
proof -
  have "set (fold set_add xs ys) = set ys \<union> set xs" for xs ys :: "string list"
    by (induction xs arbitrary: ys) auto
  then show ?thesis by (auto simp: extractPayloadReferences_def collect_refs_iff)
qed

text \<open>What a listener's mapping may reference.\<close>

definition mapping_ok :: "(string \<times> string \<times> string list) list \<Rightarrow> mapped_listener \<Rightarrow> bool" where
  "mapping_ok index l =
     (case (map_of index (ml_event l), ml_payloadMapping l) of
        (Some (emitter, available), Some mapping) \<Rightarrow>
          {f. \<exists>v\<in>snd ` set mapping. \<exists>s. string_in s v \<and> payload_ref s = Some f} \<subseteq> set available
      | _ \<Rightarrow> True)"


lemma add_emit_names: "ed_event ` set (add_emit d ds) = insert (ed_event d) (ed_event ` set ds)"
  by (auto simp: add_emit_def list_ex_iff image_iff) (metis)

lemma add_emit_distinct: "distinct (map ed_event ds) \<Longrightarrow> distinct (map ed_event (add_emit d ds))"
  by (auto simp: add_emit_def list_ex_iff image_iff)

lemma fold_add_emit:
  "ed_event ` set (fold add_emit xs ds) = ed_event ` set xs \<union> ed_event ` set ds"
  "distinct (map ed_event ds) \<Longrightarrow> distinct (map ed_event (fold add_emit xs ds))"
  by (induction xs arbitrary: ds) (auto simp: add_emit_names add_emit_distinct)

text \<open>The event literals a trait's effects emit.\<close>

definition emitted_literals :: "payload_trait \<Rightarrow> string set" where
  "emitted_literals t = {ev. \<exists>tr es rest. tr \<in> set (pt_transitions t) \<and> t_effects tr = Some es \<and>
     JArr (JStr ''emit'' # JStr ev # rest) \<in> set es}"

lemma emit_of_effect_iff:
  "(\<exists>d. emit_of_effect e = Some d \<and> ed_event d = ev) \<longleftrightarrow> (\<exists>rest. e = JArr (JStr ''emit'' # JStr ev # rest))"
  by (cases e rule: emit_of_effect.cases) auto

lemma emits_of_trait_spec:
  "ed_event ` set (emits_of_trait t) = emitted_literals t" "distinct (map ed_event (emits_of_trait t))"
proof -
  let ?effects = "concat (map (\<lambda>tr. case t_effects tr of None \<Rightarrow> [] | Some es \<Rightarrow> es) (pt_transitions t))"
  have "ev \<in> ed_event ` set (emits_of_trait t) \<longleftrightarrow> (\<exists>e\<in>set ?effects. \<exists>d. emit_of_effect e = Some d \<and> ed_event d = ev)" for ev
    by (force simp: emits_of_trait_def fold_add_emit List.map_filter_def)
  then show "ed_event ` set (emits_of_trait t) = emitted_literals t"
    unfolding emit_of_effect_iff by (auto simp: emitted_literals_def split: option.splits) force+
  show "distinct (map ed_event (emits_of_trait t))"
    by (simp add: emits_of_trait_def fold_add_emit)
qed

section \<open>Properties\<close>


text \<open>
  Payload mappings are checked completely: no mismatch is reported exactly when every string
  \<open>@payload.f\<close> at any depth of any listener's mapping, for an event some trait emits, names a field
  of the declaration the index holds for that event.
\<close>
theorem shapes_valid_iff:
  "validatePayloadShapes traits emits = [] \<longleftrightarrow>
   list_all (\<lambda>t. list_all (mapping_ok (emit_index emits))
     (case pt_listens t of None \<Rightarrow> [] | Some ls \<Rightarrow> ls)) traits"
proof -
  have one: "listener_mismatches index n l = [] \<longleftrightarrow> mapping_ok index l" for index n l
    by (auto simp: listener_mismatches_def mapping_ok_def filter_empty_conv extract_iff split: option.splits)
  have "(case pt_listens t of None \<Rightarrow> [] | Some ls \<Rightarrow> concat (map (listener_mismatches index (pt_name t)) ls)) = [] \<longleftrightarrow>
      list_all (mapping_ok index) (case pt_listens t of None \<Rightarrow> [] | Some ls \<Rightarrow> ls)" for t index
    by (cases "pt_listens t") (auto simp: one list_all_iff)
  note each = this
  show ?thesis
    unfolding validatePayloadShapes_def concat_eq_Nil_conv list_all_iff set_map ball_simps
    unfolding each list_all_iff ..
qed

text \<open>
  Emits are read off the effects without loss or repetition: a trait with no explicit
  declarations that emits at least one literal event gets exactly one declaration for each literal
  event its transitions emit, and a trait with explicit declarations keeps them.
\<close>
theorem emits_built:
  "ed_event ` set (emits_of_trait t) = emitted_literals t \<and> distinct (map ed_event (emits_of_trait t)) \<and>
   map_of (add_trait_emits t m) (pt_name t) =
     (case map_of m (pt_name t) of Some ds \<Rightarrow> Some ds
      | None \<Rightarrow> if emitted_literals t = {} then None else Some (emits_of_trait t))"
  using emits_of_trait_spec [of t] by (auto simp: add_trait_emits_def split: option.splits)

end
