(* ===== verification/TraitIndex.thy ===== *)
theory TraitIndex
  imports Payload Routing
begin

text \<open>
  The per-trait evaluation index: \<open>traits/config-defaults.ts\<close>, \<open>traits/OrbitalTraitParsing.ts\<close>,
  \<open>traits/trait-index.ts\<close> and \<open>traits/listen-targets.ts\<close>. The guards and evaluators of
  \<open>@almadar/core\<close> and the operator registry of \<open>@almadar/std\<close> are the fields of \<open>index_core\<close>.
\<close>

section \<open>Entities, traits, orbitals\<close>

record entity_field =
  ef_name :: "string option"
  ef_default :: "jval option"

record entity =
  e_name :: string
  e_fields :: "entity_field list"
  e_shared :: bool
  e_persistence :: "string option"
  e_collection :: "string option"

record trait_listener = listen_entry +
  tl_triggers :: string
  tl_triggersId :: "string option"
  tl_guard :: "jval option"
  tl_payloadMapping :: "jobj option"

record trait_tick =
  tk_name :: string
  tk_background :: bool
  tk_effects :: "jval list"

record ir_trait =
  ir_id :: "string option"
  ir_name :: string
  ir_linkedEntity :: "string option"
  ir_states :: "state_def list option"
  ir_transitions :: "transition list option"
  ir_listens :: "trait_listener list option"
  ir_ticks :: "trait_tick list option"
  ir_config :: "jobj option"

record trait_definition = trait_def +
  td_id :: "string option"
  td_listens :: "trait_listener list option"

record entity_call =
  ec_name :: "string option"
  ec_extends :: string
  ec_fields :: "entity_field list option"
  ec_persistence :: "string option"
  ec_collection :: "string option"

datatype entity_ref = NamedEntity string | CalledEntity entity_call | InlineEntity entity

record 'e orbital_def =
  od_name :: string
  od_id :: "string option"
  od_traits :: "'e list option"
  od_entity :: entity_ref

datatype dispatch_mode = LocalMode | PersistedAwaited | OtherMode string

text \<open>
  \<open>unwrapTraitRef\<close> with \<open>isInlineTrait\<close> gives the trait or the name it stays a reference to, and
  the call-site config; \<open>isStaticallyFalse\<close> folds a condition with the known bindings; the effect
  site of an operator is \<open>server\<close> or not, given where rows are stored.
\<close>

record 'e index_core =
  xc_unwrap :: "'e \<Rightarrow> (string + ir_trait) \<times> jobj option"
  xc_normalize :: "jobj option \<Rightarrow> jobj option"
  xc_entities :: "'e orbital_def \<Rightarrow> entity list"              \<comment> \<open>\<open>orbitalInlineEntities\<close>\<close>
  xc_storesInBrowser :: "entity \<Rightarrow> bool"
  xc_isStaticallyFalse :: "jval \<Rightarrow> (string \<Rightarrow> jval option) \<Rightarrow> bool"
  xc_effectSite :: "string \<Rightarrow> jval list \<Rightarrow> (string \<Rightarrow> bool) \<Rightarrow> string option"
  xc_runsOn :: "string \<Rightarrow> string option"
  xc_dispatchMode :: "ir_trait \<Rightarrow> entity \<Rightarrow> bool \<Rightarrow> dispatch_mode"
  xc_nestedValue :: "jval option \<Rightarrow> string \<Rightarrow> jval option"    \<comment> \<open>\<open>getNestedValue\<close>\<close>

section \<open>Config and entity defaults\<close>

fun declared_default :: "string \<times> jval \<Rightarrow> (string \<times> jval) option" where
  "declared_default (k, JObj f) = map_option (\<lambda>d. (k, d)) (obj_get f ''default'')"
| "declared_default (k, _) = None"

definition non_empty :: "'a list \<Rightarrow> 'a list option" where
  "non_empty xs = (if xs = [] then None else Some xs)"

definition collectDeclaredConfigDefaults :: "jobj option \<Rightarrow> jobj option" where
  "collectDeclaredConfigDefaults config =
     (case config of None \<Rightarrow> None
      | Some schema \<Rightarrow> non_empty (List.map_filter declared_default schema))"

fun field_default :: "entity_field \<Rightarrow> jobj \<Rightarrow> jobj" where
  "field_default f defaults =
     (case (ef_name f, ef_default f) of
        (Some n, Some d) \<Rightarrow> AList.update n d defaults
      | _ \<Rightarrow> defaults)"

definition collectDeclaredEntityDefaults :: "entity option \<Rightarrow> jobj option" where
  "collectDeclaredEntityDefaults ent =
     (case ent of None \<Rightarrow> None
      | Some e \<Rightarrow> non_empty (fold field_default (e_fields e) []))"

fun is_config_forward :: "jval \<Rightarrow> bool" where
  "is_config_forward (JStr s) = starts_with ''@config.'' s"
| "is_config_forward _ = False"

text \<open>\<open>/^@user(?:\.[\w]+)+$/\<close>: the path after \<open>@user.\<close>.\<close>

definition user_forward :: "string \<Rightarrow> string option" where
  "user_forward s =
     (if starts_with ''@user.'' s \<and>
         list_all (\<lambda>w. w \<noteq> [] \<and> list_all is_word_char w) (split_on (CHR ''.'') (drop 6 s))
      then Some (drop 6 s) else None)"

definition resolve_user :: "'e index_core \<Rightarrow> jval option \<Rightarrow> jval \<Rightarrow> jval" where
  "resolve_user xc user value =
     (case value of
        JStr s \<Rightarrow>
          (case user_forward s of
             None \<Rightarrow> value
           | Some path \<Rightarrow>
               (case xc_nestedValue xc user path of
                  Some (JStr x) \<Rightarrow> JStr x | Some (JNum x) \<Rightarrow> JNum x | Some (JBool x) \<Rightarrow> JBool x
                | _ \<Rightarrow> JStr ''''))
      | _ \<Rightarrow> value)"

definition spread_opt :: "jobj \<Rightarrow> jobj option \<Rightarrow> jobj" where
  "spread_opt a b = (case b of None \<Rightarrow> a | Some kvs \<Rightarrow> spread a kvs)"

definition buildConfigBinding ::
  "'e index_core \<Rightarrow> jobj option \<Rightarrow> jobj option \<Rightarrow> jobj option \<Rightarrow> jval option \<Rightarrow> jobj option" where
  "buildConfigBinding xc declared resolvedDefaults override user =
     (let declaredDefaults = collectDeclaredConfigDefaults declared;
          callSite = map_option (filter (\<lambda>kv. \<not> is_config_forward (snd kv))) override
      in if declaredDefaults = None \<and> resolvedDefaults = None \<and> callSite = None then None
         else Some (map (\<lambda>(k, v). (k, resolve_user xc user v))
           (spread_opt (spread_opt (spread_opt [] declaredDefaults) resolvedDefaults) callSite)))"

definition buildEntityBinding :: "entity option \<Rightarrow> jobj option \<Rightarrow> jobj option \<Rightarrow> jobj option" where
  "buildEntityBinding ent persisted frame =
     (let defaults = collectDeclaredEntityDefaults ent in
      if defaults = None \<and> frame = None then persisted
      else Some (spread_opt (spread_opt (spread_opt [] defaults) persisted) frame))"

section \<open>Parsing an orbital's traits\<close>

record parsed_orbital =
  po_traits :: "trait_definition list"
  po_inlineTraits :: "ir_trait list"
  po_configByTrait :: "(string \<times> jobj) list"
  po_entity :: entity

definition definition_of :: "ir_trait \<Rightarrow> trait_definition" where
  "definition_of t =
     \<lparr>td_name = ir_name t, td_states = (case ir_states t of None \<Rightarrow> [] | Some ss \<Rightarrow> ss),
      td_transitions = (case ir_transitions t of None \<Rightarrow> [] | Some ts \<Rightarrow> ts),
      td_id = ir_id t, td_listens = ir_listens t\<rparr>"

definition strip_entity :: "string \<Rightarrow> string" where
  "strip_entity s =
     (let n = length s - 7 in if 7 \<le> length s \<and> drop n s = ''.entity'' then take n s else s)"

fun resolve_entity_ref :: "entity_ref \<Rightarrow> entity" where
  "resolve_entity_ref (NamedEntity n) =
     \<lparr>e_name = n, e_fields = [], e_shared = False, e_persistence = None, e_collection = None\<rparr>"
| "resolve_entity_ref (CalledEntity c) =
     \<lparr>e_name = (case ec_name c of Some n \<Rightarrow> n | None \<Rightarrow> strip_entity (ec_extends c)),
      e_fields = (case ec_fields c of Some fs \<Rightarrow> fs | None \<Rightarrow> []), e_shared = False,
      e_persistence = (if ec_persistence c = Some '''' then None else ec_persistence c),
      e_collection = (if ec_collection c = Some '''' then None else ec_collection c)\<rparr>"
| "resolve_entity_ref (InlineEntity e) = e"

definition config_entry :: "'e index_core \<Rightarrow> 'e \<Rightarrow> (string \<times> jobj) option" where
  "config_entry xc t =
     (case (fst (xc_unwrap xc t), xc_normalize xc (snd (xc_unwrap xc t))) of
        (Inr trait, Some config) \<Rightarrow> if ir_name trait = '''' then None else Some (ir_name trait, config)
      | _ \<Rightarrow> None)"

definition inline_of :: "'e index_core \<Rightarrow> 'e \<Rightarrow> ir_trait option" where
  "inline_of xc t = (case fst (xc_unwrap xc t) of Inl _ \<Rightarrow> None | Inr trait \<Rightarrow> Some trait)"

definition parseOrbitalTraits :: "'e index_core \<Rightarrow> 'e orbital_def \<Rightarrow> parsed_orbital" where
  "parseOrbitalTraits xc orbital =
     (let entries = (case od_traits orbital of None \<Rightarrow> [] | Some ts \<Rightarrow> ts);
          inlineTraits = List.map_filter (inline_of xc) entries
      in \<lparr>po_traits = map definition_of inlineTraits, po_inlineTraits = inlineTraits,
          po_configByTrait = fold (\<lambda>(k, v). AList.update k v) (List.map_filter (config_entry xc) entries) [],
          po_entity = resolve_entity_ref (od_entity orbital)\<rparr>)"

definition findEntityAmongOrbitals :: "entity list \<Rightarrow> string \<Rightarrow> entity option" where
  "findEntityAmongOrbitals entities name = find (\<lambda>e. e_name e = name) entities"

section \<open>Which effects an expression calls\<close>

fun containsConfigForward :: "jval \<Rightarrow> bool" where
  "containsConfigForward (JStr s) = starts_with ''@config.'' s"
| "containsConfigForward (JArr xs) = list_ex containsConfigForward xs"
| "containsConfigForward (JObj kvs) = list_ex (\<lambda>kv. containsConfigForward (snd kv)) kvs"
| "containsConfigForward _ = False"

text \<open>
  The head of an array decides the branch: a conditional of three elements or more, a \<open>let\<close>, a
  function, any other call or list.
\<close>

datatype shape = IfShape | WhenShape | LetShape | FnShape | PlainShape

fun shape_of :: "jval list \<Rightarrow> shape" where
  "shape_of (JStr h # rest) =
     (if h = ''if'' \<and> 2 \<le> length rest then IfShape
      else if h = ''when'' \<and> 2 \<le> length rest then WhenShape
      else if h = ''let'' \<and> 1 \<le> length rest then LetShape
      else if (h = ''fn'' \<or> h = ''lambda'') \<and> 2 \<le> length rest then FnShape
      else PlainShape)"
| "shape_of _ = PlainShape"

fun calls_head :: "(string \<Rightarrow> jval list \<Rightarrow> bool) \<Rightarrow> jval list \<Rightarrow> bool" where
  "calls_head m (JStr h # rest) = m h rest"
| "calls_head m _ = False"

text \<open>The expressions a walk goes on with, and whether it has already found a call.\<close>

fun binding_parts :: "jval \<Rightarrow> jval list" where
  "binding_parts (JArr pairs) = concat (map (\<lambda>p. case p of JArr ps \<Rightarrow> drop 1 ps | _ \<Rightarrow> [p]) pairs)"
| "binding_parts b = [b]"

definition walk_parts :: "(jval \<Rightarrow> bool) \<Rightarrow> jval list \<Rightarrow> jval list" where
  "walk_parts isFalse xs =
     (case shape_of xs of
        IfShape \<Rightarrow> (if isFalse (xs ! 1) then [] else [xs ! 2]) @ take 1 (drop 3 xs)
      | WhenShape \<Rightarrow> (if isFalse (xs ! 1) then [] else drop 2 xs)
      | LetShape \<Rightarrow> binding_parts (xs ! 1) @ drop 2 xs
      | FnShape \<Rightarrow> drop 2 xs
      | PlainShape \<Rightarrow> xs)"

lemma size_in_JArr: "x \<in> set xs \<Longrightarrow> size x < size (JArr xs)"
  using size_values_of [of x "JArr xs"] by simp

lemmas size_in_list = size_in_JArr [simplified]

lemma binding_parts_size: "x \<in> set (binding_parts b) \<Longrightarrow> size x \<le> size b"
proof (cases b)
  case (JArr pairs)
  assume "x \<in> set (binding_parts b)"
  then obtain p where p: "p \<in> set pairs" "x \<in> set (case p of JArr ps \<Rightarrow> drop 1 ps | _ \<Rightarrow> [p])"
    using JArr by auto
  have "size x \<le> size p" using p(2)
    by (cases p) (auto dest!: in_set_dropD dest: size_in_list intro: less_imp_le)
  then show ?thesis using size_in_JArr [OF p(1)] JArr by simp
qed auto

lemma shape_length:
  "shape_of xs = IfShape \<Longrightarrow> 3 \<le> length xs" "shape_of xs = WhenShape \<Longrightarrow> 3 \<le> length xs"
  "shape_of xs = LetShape \<Longrightarrow> 2 \<le> length xs" "shape_of xs = FnShape \<Longrightarrow> 3 \<le> length xs"
  by (cases xs rule: shape_of.cases; auto split: if_splits)+

lemma walk_parts_size: "x \<in> set (walk_parts isFalse xs) \<Longrightarrow> size x < size (JArr xs)"
proof -
  assume x: "x \<in> set (walk_parts isFalse xs)"
  show ?thesis
  proof (cases "shape_of xs")
    case LetShape
    have "size (xs ! 1) < size (JArr xs)" using shape_length(3) [OF LetShape] by (intro size_in_JArr) simp
    then show ?thesis using x LetShape binding_parts_size [of x "xs ! 1"]
      by (auto simp: walk_parts_def dest!: in_set_dropD intro: size_in_list)
  next
    case IfShape
    then show ?thesis using x shape_length(1) [OF IfShape]
      by (intro size_in_JArr) (auto simp: walk_parts_def dest!: in_set_takeD in_set_dropD split: if_splits)
  next
    case WhenShape
    then show ?thesis using x
      by (intro size_in_JArr) (auto simp: walk_parts_def dest!: in_set_dropD split: if_splits)
  next
    case FnShape
    then show ?thesis using x by (intro size_in_JArr) (auto simp: walk_parts_def dest!: in_set_dropD)
  next
    case PlainShape
    then show ?thesis using x by (intro size_in_JArr) (simp add: walk_parts_def)
  qed
qed

function callsEffect :: "(jval \<Rightarrow> bool) \<Rightarrow> (string \<Rightarrow> jval list \<Rightarrow> bool) \<Rightarrow> jval \<Rightarrow> bool" where
  "callsEffect isFalse m (JArr xs) =
     ((shape_of xs = PlainShape \<and> calls_head m xs) \<or> list_ex (callsEffect isFalse m) (walk_parts isFalse xs))"
| "callsEffect isFalse m (JObj kvs) = list_ex (\<lambda>kv. callsEffect isFalse m (snd kv)) kvs"
| "callsEffect isFalse m JNull = False"
| "callsEffect isFalse m (JBool b) = False"
| "callsEffect isFalse m (JNum n) = False"
| "callsEffect isFalse m (JStr s) = False"
  by pat_completeness auto
termination
  by (relation "measure (\<lambda>(isFalse, m, v). size v)") (use walk_parts_size size_snd_in in \<open>auto simp: less_Suc_eq_le\<close>)

definition runsServerEffect :: "'e index_core \<Rightarrow> (string \<Rightarrow> jval option) \<Rightarrow> (string \<Rightarrow> bool) \<Rightarrow> jval \<Rightarrow> bool" where
  "runsServerEffect xc resolve stores expr =
     callsEffect (\<lambda>e. xc_isStaticallyFalse xc e resolve)
       (\<lambda>op args. xc_effectSite xc op args stores = Some ''server'') expr"

definition runsBrowserDataEffect :: "'e index_core \<Rightarrow> (string \<Rightarrow> bool) \<Rightarrow> (string \<Rightarrow> jval option) \<Rightarrow> jval \<Rightarrow> bool" where
  "runsBrowserDataEffect xc stores resolve expr =
     callsEffect (\<lambda>e. xc_isStaticallyFalse xc e resolve)
       (\<lambda>op args. xc_runsOn xc op = Some ''server'' \<and> xc_effectSite xc op args stores = Some ''client'') expr"

text \<open>A scalar knob of the config is a known literal; anything else stays undecided.\<close>

fun scalar :: "jval \<Rightarrow> bool" where
  "scalar (JArr _) = False"
| "scalar (JObj _) = False"
| "scalar _ = True"

definition configResolver :: "jobj option \<Rightarrow> string \<Rightarrow> jval option" where
  "configResolver config binding =
     (if \<not> starts_with ''@config.'' binding then None
      else case Option.bind config (\<lambda>c. obj_get c (drop 8 binding)) of
          None \<Rightarrow> None
        | Some v \<Rightarrow> if scalar v then Some v else None)"

definition transition_live :: "'e index_core \<Rightarrow> (string \<Rightarrow> jval option) \<Rightarrow> transition \<Rightarrow> bool" where
  "transition_live xc resolve t =
     (case t_guard t of None \<Rightarrow> True | Some g \<Rightarrow> \<not> xc_isStaticallyFalse xc g resolve)"

definition effects_of :: "transition \<Rightarrow> jval list" where
  "effects_of t = (case t_effects t of None \<Rightarrow> [] | Some es \<Rightarrow> es)"

definition touchesServer ::
  "'e index_core \<Rightarrow> transition list \<Rightarrow> trait_tick list option \<Rightarrow> jobj option \<Rightarrow> (string \<Rightarrow> bool) \<Rightarrow> string option \<Rightarrow> bool" where
  "touchesServer xc transitions ticks config stores event =
     (let resolve = configResolver config in
      list_ex (\<lambda>t. (event = None \<or> event = Some (t_event t)) \<and> transition_live xc resolve t \<and>
         list_ex (runsServerEffect xc resolve stores) (effects_of t)) transitions \<or>
      (event = None \<and>
       list_ex (\<lambda>tick. \<not> tk_background tick \<and> list_ex (runsServerEffect xc resolve stores) (tk_effects tick))
         (case ticks of None \<Rightarrow> [] | Some ts \<Rightarrow> ts)))"

definition browserLegEvents ::
  "'e index_core \<Rightarrow> transition list \<Rightarrow> (string \<Rightarrow> bool) \<Rightarrow> jobj option \<Rightarrow> trait_tick list \<Rightarrow> string list" where
  "browserLegEvents xc transitions stores config ticks =
     (let resolve = configResolver config in
      fold set_add
        (map t_event (filter (\<lambda>t. list_ex (runsBrowserDataEffect xc stores resolve) (effects_of t))
            (filter (transition_live xc resolve) transitions)) @
         map (\<lambda>tick. tickEventKey (tk_name tick))
           (filter (\<lambda>tick. list_ex (runsBrowserDataEffect xc stores resolve) (tk_effects tick))
             (filter (\<lambda>tick. \<not> tk_background tick) ticks))) [])"

section \<open>The index\<close>

record indexed_trait =
  ix_traitDef :: trait_definition
  ix_irTrait :: ir_trait
  ix_entity :: entity
  ix_config :: "jobj option"
  ix_orbitalName :: string
  ix_orbitalId :: "string option"
  ix_frameKey :: string
  ix_isShared :: bool
  ix_dispatchMode :: dispatch_mode

record 'e trait_index =
  ti_byName :: "(string \<times> indexed_trait) list"
  ti_allEntities :: "entity list"
  ti_orbitals :: "('e orbital_def \<times> entity) list"

definition trait_entity :: "entity list \<Rightarrow> entity \<Rightarrow> ir_trait \<Rightarrow> entity" where
  "trait_entity allEntities host t =
     (case ir_linkedEntity t of
        None \<Rightarrow> host
      | Some n \<Rightarrow>
          if n = '''' \<or> n = e_name host then host
          else case findEntityAmongOrbitals allEntities n of
              Some e \<Rightarrow> e
            | None \<Rightarrow> \<lparr>e_name = n, e_fields = [], e_shared = False, e_persistence = None, e_collection = None\<rparr>)"

definition index_config :: "jobj option \<Rightarrow> jobj option \<Rightarrow> jobj option \<Rightarrow> jobj option" where
  "index_config declared override callSite =
     (let defaults = collectDeclaredConfigDefaults declared;
          stripped = map_option (filter (\<lambda>kv. \<not> containsConfigForward (snd kv))) callSite
      in if defaults = None \<and> override = None \<and> stripped = None then None
         else Some (spread_opt (spread_opt (spread_opt [] defaults) override) stripped))"

definition index_entry ::
  "'e index_core \<Rightarrow> bool \<Rightarrow> (string \<Rightarrow> jobj option) \<Rightarrow> entity list \<Rightarrow> 'e orbital_def \<Rightarrow> parsed_orbital \<Rightarrow>
   trait_definition \<times> ir_trait \<Rightarrow> indexed_trait" where
  "index_entry xc hostRunsProgram overrides allEntities orbital p x =
     (let (traitDef, irTrait) = x;
          ent = trait_entity allEntities (po_entity p) irTrait;
          config = index_config (ir_config irTrait) (overrides (td_name traitDef))
                     (map_of (po_configByTrait p) (td_name traitDef));
          stores = (\<lambda>n. n \<in> e_name ` set (filter (xc_storesInBrowser xc) allEntities))
      in \<lparr>ix_traitDef = traitDef, ix_irTrait = irTrait, ix_entity = ent, ix_config = config,
          ix_orbitalName = od_name orbital, ix_orbitalId = od_id orbital,
          ix_frameKey = (if e_shared ent then ''$shared::'' @ e_name ent else td_name traitDef),
          ix_isShared = e_shared ent,
          ix_dispatchMode = (if hostRunsProgram then PersistedAwaited
             else xc_dispatchMode xc irTrait ent
               (touchesServer xc (td_transitions traitDef) (ir_ticks irTrait) config stores None))\<rparr>)"

definition index_orbital ::
  "'e index_core \<Rightarrow> bool \<Rightarrow> (string \<Rightarrow> jobj option) \<Rightarrow> entity list \<Rightarrow> 'e orbital_def \<Rightarrow>
   (string \<times> indexed_trait) list \<Rightarrow> (string \<times> indexed_trait) list" where
  "index_orbital xc hostRunsProgram overrides allEntities orbital m =
     (let p = parseOrbitalTraits xc orbital in
      fold (\<lambda>x. AList.update (td_name (fst x)) (index_entry xc hostRunsProgram overrides allEntities orbital p x))
        (zip (po_traits p) (po_inlineTraits p)) m)"

definition buildTraitIndex ::
  "'e index_core \<Rightarrow> 'e orbital_def list \<Rightarrow> (string \<Rightarrow> jobj option) \<Rightarrow> bool \<Rightarrow> 'e trait_index" where
  "buildTraitIndex xc orbitals overrides hostRunsProgram =
     (let allEntities = concat (map (xc_entities xc) orbitals) in
      \<lparr>ti_byName = fold (index_orbital xc hostRunsProgram overrides allEntities) orbitals [],
       ti_allEntities = allEntities,
       ti_orbitals = map (\<lambda>od. (od, po_entity (parseOrbitalTraits xc od))) orbitals\<rparr>)"

definition buildTraitIndexForOrbital :: "'e index_core \<Rightarrow> 'e orbital_def \<Rightarrow> 'e orbital_def list \<Rightarrow> 'e trait_index" where
  "buildTraitIndexForOrbital xc host others =
     (let full = buildTraitIndex xc (host # others) (\<lambda>_. None) False;
          hostNames = map td_name (po_traits (parseOrbitalTraits xc host))
      in full\<lparr>ti_byName := filter (\<lambda>(name, entry). name \<in> set hostNames) (ti_byName full)\<rparr>)"

section \<open>The targets of an emitted event\<close>

record collected_target =
  tg_listenerTrait :: string
  tg_entry :: indexed_trait
  tg_listener :: trait_listener
  tg_triggers :: string
  tg_triggersId :: "string option"
  tg_payload :: "jobj option"

definition collectListenerTargets ::
  "(jval \<Rightarrow> jobj option \<Rightarrow> bool) \<Rightarrow> (jobj option \<Rightarrow> jobj option \<Rightarrow> jobj option) \<Rightarrow> 'e trait_index \<Rightarrow>
   route_meta option \<Rightarrow> string \<Rightarrow> jobj option \<Rightarrow> collected_target list" where
  "collectListenerTargets guardHolds applyMapping ti stamp event payload =
     concat (map (\<lambda>(name, entry).
       List.map_filter (\<lambda>l.
         (let (bareEvent, matcher) = parseListenSource (listen_entry.truncate l) (ix_orbitalName entry) in
          if bareEvent \<noteq> event \<or> \<not> matcher stamp then None
          else if (case tl_guard l of None \<Rightarrow> False | Some g \<Rightarrow> \<not> guardHolds g payload) then None
          else Some \<lparr>tg_listenerTrait = name, tg_entry = entry, tg_listener = l, tg_triggers = tl_triggers l,
                     tg_triggersId = tl_triggersId l, tg_payload = applyMapping (tl_payloadMapping l) payload\<rparr>))
         (case td_listens (ix_traitDef entry) of None \<Rightarrow> [] | Some ls \<Rightarrow> ls))
       (ti_byName ti))"

section \<open>Lemmas\<close>

text \<open>The expressions anywhere in an expression.\<close>

inductive sub_expr :: "jval \<Rightarrow> jval \<Rightarrow> bool" where
  itself: "sub_expr v v"
| inside: "w \<in> set (values_of v) \<Longrightarrow> sub_expr u w \<Longrightarrow> sub_expr u v"

lemma binding_within: "x \<in> set (binding_parts b) \<Longrightarrow> sub_expr x b"
proof (cases b)
  case (JArr pairs)
  assume "x \<in> set (binding_parts b)"
  then obtain p where p: "p \<in> set pairs" "x \<in> set (case p of JArr ps \<Rightarrow> drop 1 ps | _ \<Rightarrow> [p])"
    using JArr by auto
  have "sub_expr x p"
    using p(2) by (cases p) (auto dest!: in_set_dropD intro: sub_expr.intros)
  then show ?thesis using p(1) JArr by (auto intro: sub_expr.inside)
qed (auto intro: sub_expr.itself)

lemma within_trans: "sub_expr v w \<Longrightarrow> sub_expr u v \<Longrightarrow> sub_expr u w"
  by (induction rule: sub_expr.induct) (auto intro: sub_expr.intros)

lemma walk_parts_within: "x \<in> set (walk_parts isFalse xs) \<Longrightarrow> sub_expr x (JArr xs)"
proof -
  have el: "y \<in> set xs \<Longrightarrow> sub_expr y (JArr xs)" for y by (auto intro: sub_expr.intros)
  assume x: "x \<in> set (walk_parts isFalse xs)"
  show ?thesis
  proof (cases "shape_of xs")
    case LetShape
    have "sub_expr (xs ! 1) (JArr xs)" using shape_length(3) [OF LetShape] by (intro el) simp
    then show ?thesis using x LetShape binding_within [of x "xs ! 1"] within_trans
      by (auto simp: walk_parts_def dest!: in_set_dropD intro: el)
  next
    case IfShape
    then show ?thesis using x shape_length(1) [OF IfShape]
      by (intro el) (auto simp: walk_parts_def dest!: in_set_takeD in_set_dropD split: if_splits)
  next
    case WhenShape
    then show ?thesis using x
      by (intro el) (auto simp: walk_parts_def dest!: in_set_dropD split: if_splits)
  next
    case FnShape
    then show ?thesis using x by (intro el) (auto simp: walk_parts_def dest!: in_set_dropD)
  next
    case PlainShape
    then show ?thesis using x by (intro el) (simp add: walk_parts_def)
  qed
qed

lemma callsEffect_sound:
  "callsEffect isFalse m v \<Longrightarrow> \<exists>op args. sub_expr (JArr (JStr op # args)) v \<and> m op args"
proof (induction isFalse m v rule: callsEffect.induct)
  case (1 isFalse m xs)
  show ?case
  proof (cases "calls_head m xs")
    case True
    then show ?thesis by (cases xs rule: shape_of.cases) (auto intro: sub_expr.itself)
  next
    case False
    then obtain x where x: "x \<in> set (walk_parts isFalse xs)" "callsEffect isFalse m x"
      using 1(2) by (auto simp: list_ex_iff)
    with 1(1) obtain op args where "sub_expr (JArr (JStr op # args)) x" "m op args" by blast
    then show ?thesis using walk_parts_within [OF x(1)] within_trans by blast
  qed
next
  case (2 isFalse m kvs)
  from 2(2) obtain kv where kv: "kv \<in> set kvs" "callsEffect isFalse m (snd kv)"
    by (auto simp: list_ex_iff)
  then obtain op args where "sub_expr (JArr (JStr op # args)) (snd kv)" "m op args"
    using 2(1) by blast
  with kv(1) show ?case by (metis image_eqI list.set_map sub_expr.inside values_of.simps(2))
qed auto

text \<open>Deciding more conditions never finds more calls.\<close>

lemma walk_parts_mono:
  "(\<And>e. isFalse e \<Longrightarrow> isFalse' e) \<Longrightarrow> set (walk_parts isFalse' xs) \<subseteq> set (walk_parts isFalse xs)"
  by (auto simp: walk_parts_def split: shape.splits)

lemma callsEffect_mono:
  "callsEffect isFalse' m v \<Longrightarrow> (\<And>e. isFalse e \<Longrightarrow> isFalse' e) \<Longrightarrow> callsEffect isFalse m v"
proof (induction isFalse' m v rule: callsEffect.induct)
  case (1 isFalse' m xs)
  then show ?case using walk_parts_mono [of isFalse isFalse' xs] by (fastforce simp: list_ex_iff)
qed (auto simp: list_ex_iff)

lemma spread_opt_get:
  "(\<And>kvs. b = Some kvs \<Longrightarrow> distinct (map fst kvs)) \<Longrightarrow>
   map_of (spread_opt a b) k = (case Option.bind b (\<lambda>kvs. map_of kvs k) of None \<Rightarrow> map_of a k | Some v \<Rightarrow> Some v)"
  by (cases b) (auto simp: spread_opt_def)

lemma trait_entity_name:
  "e_name (trait_entity es host t) =
     (case ir_linkedEntity t of None \<Rightarrow> e_name host | Some n \<Rightarrow> if n = '''' then e_name host else n)"
  by (auto simp: trait_entity_def findEntityAmongOrbitals_def dest!: find_Some_set split: option.splits)

lemma indexed_traits:
  "n \<in> td_name ` set (po_traits (parseOrbitalTraits xc orbital)) \<Longrightarrow>
   \<exists>x \<in> set (zip (po_traits (parseOrbitalTraits xc orbital)) (po_inlineTraits (parseOrbitalTraits xc orbital))).
     td_name (fst x) = n \<and>
     map_of (index_orbital xc h ov es orbital m) n = Some (index_entry xc h ov es orbital (parseOrbitalTraits xc orbital) x)"
proof -
  let ?p = "parseOrbitalTraits xc orbital"
  let ?xs = "zip (po_traits ?p) (po_inlineTraits ?p)"
  let ?kv = "\<lambda>x. (td_name (fst x), index_entry xc h ov es orbital ?p x)"
  assume n: "n \<in> td_name ` set (po_traits ?p)"
  have "length (po_traits ?p) = length (po_inlineTraits ?p)" by (simp add: parseOrbitalTraits_def Let_def)
  then have "map (td_name \<circ> fst) ?xs = map td_name (po_traits ?p)" by (simp flip: map_map)
  then have "n \<in> (td_name \<circ> fst) ` set ?xs" using n by (metis list.set_map)
  moreover have "index_orbital xc h ov es orbital m = fold (\<lambda>(k, v). AList.update k v) (map ?kv ?xs) m"
    by (simp add: index_orbital_def Let_def fold_map comp_def)
  moreover obtain v where v: "map_of (rev (map ?kv ?xs)) n = Some v"
  proof (cases "map_of (rev (map ?kv ?xs)) n")
    case None
    then have "n \<notin> fst ` set (map ?kv ?xs)" by (simp add: map_of_eq_None_iff)
    with calculation(1) show ?thesis by (simp add: image_image comp_def)
  qed
  ultimately have "map_of (index_orbital xc h ov es orbital m) n = Some v"
    by (simp add: map_of_fold_update)
  with map_of_SomeD [OF v] show ?thesis by auto
qed

lemma map_of_filter_name:
  "map_of (filter (\<lambda>(name, e). name \<in> A) m) n = (if n \<in> A then map_of m n else None)"
  by (induction m) auto

section \<open>Properties\<close>

text \<open>
  Server work is never invented: an expression counts as running a server effect only when a
  call of an operator whose site is the server stands somewhere inside it, and knowing more
  config values can only make it count less often.
\<close>
theorem server_effect_sound:
  "(runsServerEffect xc resolve stores e \<longrightarrow>
     (\<exists>op args. sub_expr (JArr (JStr op # args)) e \<and> xc_effectSite xc op args stores = Some ''server'')) \<and>
   ((\<forall>g. xc_isStaticallyFalse xc g (\<lambda>_. None) \<longrightarrow> xc_isStaticallyFalse xc g resolve) \<longrightarrow>
     runsServerEffect xc resolve stores e \<longrightarrow> runsServerEffect xc (\<lambda>_. None) stores e)"
  unfolding runsServerEffect_def
  using callsEffect_sound [of _ "\<lambda>op args. xc_effectSite xc op args stores = Some ''server''" e]
    callsEffect_mono [of "\<lambda>e. xc_isStaticallyFalse xc e resolve" _ e "\<lambda>e. xc_isStaticallyFalse xc e (\<lambda>_. None)"]
  by blast

text \<open>A core for the examples: \<open>persist\<close> runs on the server, only the literal \<open>false\<close> is false.\<close>

definition plain_index_core :: "ir_trait index_core" where
  "plain_index_core = \<lparr>xc_unwrap = \<lambda>t. (Inr t, None), xc_normalize = id, xc_entities = \<lambda>od. [],
     xc_storesInBrowser = \<lambda>_. False, xc_isStaticallyFalse = \<lambda>e r. e = JBool False,
     xc_effectSite = \<lambda>op args stores. if op = ''persist'' then Some ''server'' else None,
     xc_runsOn = \<lambda>_. None, xc_dispatchMode = \<lambda>t e b. if b then PersistedAwaited else LocalMode,
     xc_nestedValue = \<lambda>_ _. None\<rparr>"

theorem server_effect_sound_witness:
  "runsServerEffect plain_index_core (\<lambda>_. None) (\<lambda>_. False)
     (JArr [JStr ''if'', JBool True, JArr [JStr ''persist'', JStr ''Order'']]) \<and>
   (\<exists>op args. sub_expr (JArr (JStr op # args)) (JArr [JStr ''if'', JBool True, JArr [JStr ''persist'', JStr ''Order'']]) \<and>
     xc_effectSite plain_index_core op args (\<lambda>_. False) = Some ''server'')"
proof -
  let ?e = "JArr [JStr ''if'', JBool True, JArr [JStr ''persist'', JStr ''Order'']]"
  have "runsServerEffect plain_index_core (\<lambda>_. None) (\<lambda>_. False) ?e"
    by (simp add: runsServerEffect_def plain_index_core_def walk_parts_def)
  then show ?thesis
    using server_effect_sound [of plain_index_core "\<lambda>_. None" "\<lambda>_. False" ?e] by blast
qed

text \<open>
  A server effect in a condition is not seen: \<open>callsEffect\<close> is said to look at any depth, but
  never walks the condition of an \<open>if\<close> or \<open>when\<close>, so an expression whose condition persists counts
  as running nothing on the server.
\<close>
theorem server_effect_in_condition_missed:
  "\<not> runsServerEffect plain_index_core (\<lambda>_. None) (\<lambda>_. False)
     (JArr [JStr ''if'', JArr [JStr ''persist'', JStr ''Order''], JStr ''ok'', JStr ''failed'']) \<and>
   runsServerEffect plain_index_core (\<lambda>_. None) (\<lambda>_. False) (JArr [JStr ''persist'', JStr ''Order''])"
  by (simp add: runsServerEffect_def plain_index_core_def walk_parts_def)

text \<open>
  Every trait of every orbital is indexed, under an entity of the right name: the one it links,
  wherever it is declared, else its orbital's; and its config takes a key from the call site when
  that is no forward, else from the override, else from the declared defaults.
\<close>
theorem index_resolves:
  assumes "n \<in> td_name ` set (po_traits (parseOrbitalTraits xc orbital))"
  shows "\<exists>e. map_of (ti_byName (buildTraitIndex xc [orbital] ov h)) n = Some e \<and> td_name (ix_traitDef e) = n \<and>
    e_name (ix_entity e) = (case ir_linkedEntity (ix_irTrait e) of
        None \<Rightarrow> e_name (resolve_entity_ref (od_entity orbital))
      | Some l \<Rightarrow> if l = '''' then e_name (resolve_entity_ref (od_entity orbital)) else l) \<and>
    ix_config e = index_config (ir_config (ix_irTrait e)) (ov n) (map_of (po_configByTrait (parseOrbitalTraits xc orbital)) n)"
  using indexed_traits [OF assms, of h ov "concat (map (xc_entities xc) [orbital])" "[]"]
  by (auto simp: buildTraitIndex_def Let_def index_entry_def trait_entity_name parseOrbitalTraits_def split_beta
      split: option.splits)

text \<open>
  A sibling's trait takes the place of the host's: the index of one orbital is built from the
  index of all of them, in which a later orbital's trait of the same name has overwritten the
  host's, so the host then dispatches the sibling's definition under the sibling's name.
\<close>
theorem host_trait_shadowed:
  assumes "n \<in> td_name ` set (po_traits (parseOrbitalTraits xc host))"
    and "n \<in> td_name ` set (po_traits (parseOrbitalTraits xc sibling))"
  shows "\<exists>e. map_of (ti_byName (buildTraitIndexForOrbital xc host [sibling])) n = Some e \<and>
    ix_orbitalName e = od_name sibling \<and> ix_traitDef e \<in> set (po_traits (parseOrbitalTraits xc sibling))"
proof -
  let ?es = "xc_entities xc host @ xc_entities xc sibling"
  let ?p = "parseOrbitalTraits xc sibling"
  let ?m = "index_orbital xc False (\<lambda>_. None) ?es host []"
  obtain x where x: "x \<in> set (zip (po_traits ?p) (po_inlineTraits ?p))"
    "map_of (index_orbital xc False (\<lambda>_. None) ?es sibling ?m) n
      = Some (index_entry xc False (\<lambda>_. None) ?es sibling ?p x)"
    using indexed_traits [OF assms(2), of False "\<lambda>_. None" ?es ?m] by blast
  have "map_of (ti_byName (buildTraitIndexForOrbital xc host [sibling])) n
      = map_of (index_orbital xc False (\<lambda>_. None) ?es sibling ?m) n"
    using assms(1) by (simp add: buildTraitIndexForOrbital_def buildTraitIndex_def Let_def map_of_filter_name)
  moreover have "fst x \<in> set (po_traits ?p)" using x(1) by (metis prod.collapse set_zip_leftD)
  ultimately show ?thesis using x(2) by (simp add: index_entry_def split_beta Let_def)
qed

text \<open>Two orbitals whose composed traits share a name.\<close>

definition cart_orbital :: "string \<Rightarrow> ir_trait orbital_def" where
  "cart_orbital name = \<lparr>od_name = name, od_id = None,
     od_traits = Some [\<lparr>ir_id = None, ir_name = ''Cart'', ir_linkedEntity = Some ''Order'', ir_states = None,
       ir_transitions = None, ir_listens = None, ir_ticks = None, ir_config = None\<rparr>],
     od_entity = NamedEntity ''Item''\<rparr>"

lemma cart_orbital_traits: "''Cart'' \<in> td_name ` set (po_traits (parseOrbitalTraits plain_index_core (cart_orbital name)))"
  by (simp add: parseOrbitalTraits_def Let_def cart_orbital_def inline_of_def plain_index_core_def definition_of_def
      List.map_filter_def)

theorem index_resolves_witness:
  "\<exists>e. map_of (ti_byName (buildTraitIndex plain_index_core [cart_orbital ''shop''] (\<lambda>_. None) False)) ''Cart'' = Some e"
  using index_resolves [OF cart_orbital_traits] by blast

theorem host_trait_shadowed_witness:
  "\<exists>e. map_of (ti_byName (buildTraitIndexForOrbital plain_index_core (cart_orbital ''shop'') [cart_orbital ''admin''])) ''Cart''
     = Some e \<and> ix_orbitalName e = ''admin''"
  using host_trait_shadowed [OF cart_orbital_traits cart_orbital_traits, of "''shop''" "''admin''"]
  by (auto simp: cart_orbital_def)

end
