(* ===== verification/InFlight.thy ===== *)
theory InFlight
  imports Prelude
begin

text \<open>
  \<open>InFlightCalls\<close> and \<open>untilAborted\<close> (\<open>effects/in-flight-calls.ts\<close>): the registry of the running
  keyed calls of one app. The registry maps a key to a mutable \<open>Set\<close> of abort controllers; a
  running call captures the \<open>Set\<close> it joined, so the sets live in an explicit store addressed by
  reference. \<open>run\<close> is cut at its only \<open>await\<close>: \<open>run_start\<close> is the code before it, \<open>run_settle\<close> the
  code after it; between the two any other call may start, settle or be cancelled, which the
  relation \<open>registry_step\<close> lists.
\<close>

section \<open>State\<close>

type_synonym controller = nat
type_synonym set_ref = nat

record registry =
  calls :: "(string \<times> set_ref) list"
  sets :: "set_ref \<Rightarrow> controller list"
  aborted :: "controller list"
  next_ref :: nat

definition new_registry :: registry where
  "new_registry = \<lparr>calls = [], sets = \<lambda>_. [], aborted = [], next_ref = 0\<rparr>"

text \<open>The locals of a \<open>run\<close> that is waiting for its work.\<close>

record run_frame =
  rf_key :: string
  rf_controller :: controller
  rf_running :: set_ref

text \<open>\<open>KeyedCallOutcome\<close>; a call that throws is \<open>Inl\<close> at the caller.\<close>

datatype 'v outcome = Cancelled | Finished 'v

section \<open>Operations\<close>

definition inFlight :: "registry \<Rightarrow> string \<Rightarrow> bool" where
  "inFlight s key = (case map_of (calls s) key of None \<Rightarrow> False | Some r \<Rightarrow> length (sets s r) > 0)"

definition run_start :: "string \<Rightarrow> registry \<Rightarrow> run_frame \<times> registry" where
  "run_start key s =
     (let controller = next_ref s;
          (running, content, fresh) =
            (case map_of (calls s) key of
               Some r \<Rightarrow> (r, sets s r, Suc (next_ref s))
             | None \<Rightarrow> (Suc (next_ref s), [], Suc (Suc (next_ref s))))
      in (\<lparr>rf_key = key, rf_controller = controller, rf_running = running\<rparr>,
          s\<lparr>sets := (sets s)(running := set_add controller content),
            calls := AList.update key running (calls s),
            next_ref := fresh\<rparr>))"

text \<open>The \<open>finally\<close> block, which runs on every way out.\<close>

definition run_cleanup :: "run_frame \<Rightarrow> registry \<Rightarrow> registry" where
  "run_cleanup f s =
     (let left = removeAll (rf_controller f) (sets s (rf_running f));
          s1 = s\<lparr>sets := (sets s)(rf_running f := left)\<rparr>
      in if length left = 0 \<and> map_of (calls s1) (rf_key f) = Some (rf_running f)
         then s1\<lparr>calls := AList.delete (rf_key f) (calls s1)\<rparr> else s1)"

definition run_settle :: "run_frame \<Rightarrow> 'e + 'v \<Rightarrow> registry \<Rightarrow> ('e + 'v outcome) \<times> registry" where
  "run_settle f settled s =
     (let was_aborted = rf_controller f \<in> set (aborted s);
          result = (case settled of
              Inr value \<Rightarrow> Inr (if was_aborted then Cancelled else Finished value)
            | Inl err \<Rightarrow> (if was_aborted then Inr Cancelled else Inl err))
      in (result, run_cleanup f s))"

definition cancel :: "string \<Rightarrow> registry \<Rightarrow> bool \<times> registry" where
  "cancel key s =
     (case map_of (calls s) key of
        None \<Rightarrow> (False, s)
      | Some running \<Rightarrow>
          if length (sets s running) = 0 then (False, s)
          else (True, s\<lparr>calls := AList.delete key (calls s), aborted := aborted s @ sets s running\<rparr>))"

text \<open>
  \<open>untilAborted\<close>: the promise it returns, from whether the signal was aborted already and what
  happens next, in order: the signal aborts or the promise settles. \<open>None\<close> is a promise that
  is still pending.
\<close>

datatype ('e, 'v) happening = Aborts | Settles "'e + 'v"

fun untilAborted :: "bool \<Rightarrow> 'e \<Rightarrow> ('e, 'v) happening list \<Rightarrow> ('e + 'v) option" where
  "untilAborted True cancelled events = Some (Inl cancelled)"
| "untilAborted False cancelled [] = None"
| "untilAborted False cancelled (Aborts # events) = Some (Inl cancelled)"
| "untilAborted False cancelled (Settles r # events) = Some r"

section \<open>Histories\<close>

text \<open>The registry together with the calls that wait for their work, and what each step answers.\<close>

datatype ('e, 'v) registry_event =
    Started run_frame
  | Settled run_frame "'e + 'v outcome"
  | CancelCalled string bool

inductive registry_step ::
  "registry \<times> run_frame list \<Rightarrow> ('e, 'v) registry_event \<Rightarrow> registry \<times> run_frame list \<Rightarrow> bool" where
  start: "run_start key s = (f, s') \<Longrightarrow> registry_step (s, fs) (Started f) (s', f # fs)"
| settle: "f \<in> set fs \<Longrightarrow> run_settle f settled s = (r, s') \<Longrightarrow>
    registry_step (s, fs) (Settled f r) (s', removeAll f fs)"
| cancel: "cancel key s = (b, s') \<Longrightarrow> registry_step (s, fs) (CancelCalled key b) (s', fs)"

inductive_cases stepE: "registry_step (s, fs) e (s', fs')"

text \<open>A history, the latest event first.\<close>

inductive history :: "('e, 'v) registry_event list \<Rightarrow> registry \<times> run_frame list \<Rightarrow> bool" where
  none: "history [] (new_registry, [])"
| step: "history es st \<Longrightarrow> registry_step st e st' \<Longrightarrow> history (e # es) st'"

inductive_cases historyE: "history (e # es) st"

section \<open>Invariant\<close>

text \<open>The controllers of the waiting calls of a key that nobody has cancelled.\<close>

definition active :: "registry \<Rightarrow> run_frame list \<Rightarrow> string \<Rightarrow> controller set" where
  "active s fs key = {rf_controller f | f. f \<in> set fs \<and> rf_key f = key \<and> rf_controller f \<notin> set (aborted s)}"

text \<open>
  References and controllers are allocated; a controller belongs to one waiting call; a waiting
  call that is not aborted sits in the set registered under its key, an aborted one in a set that
  is registered nowhere; and a registered set holds exactly the active calls of its key.
\<close>

definition registry_ok :: "registry \<Rightarrow> run_frame list \<Rightarrow> bool" where
  "registry_ok s fs \<longleftrightarrow>
     (\<forall>f\<in>set fs. rf_controller f < next_ref s \<and> rf_running f < next_ref s) \<and>
     (\<forall>c\<in>set (aborted s). c < next_ref s) \<and>
     (\<forall>k r. map_of (calls s) k = Some r \<longrightarrow> r < next_ref s \<and> set (sets s r) = active s fs k \<and> sets s r \<noteq> []) \<and>
     (\<forall>k k' r. map_of (calls s) k = Some r \<and> map_of (calls s) k' = Some r \<longrightarrow> k = k') \<and>
     (\<forall>f\<in>set fs. \<forall>g\<in>set fs. rf_controller f = rf_controller g \<longrightarrow> f = g) \<and>
     (\<forall>f\<in>set fs. if rf_controller f \<in> set (aborted s) then \<forall>k. map_of (calls s) k \<noteq> Some (rf_running f)
        else map_of (calls s) (rf_key f) = Some (rf_running f))"

named_theorems registry_defs \<open>the definitions of the registry's operations\<close>

declare run_start_def [registry_defs] run_cleanup_def [registry_defs] run_settle_def [registry_defs]
  cancel_def [registry_defs] Let_def [registry_defs]

lemma registry_okD:
  assumes "registry_ok s fs"
  shows "f \<in> set fs \<Longrightarrow> rf_controller f < next_ref s" "f \<in> set fs \<Longrightarrow> rf_running f < next_ref s"
    "c \<in> set (aborted s) \<Longrightarrow> c < next_ref s"
    "map_of (calls s) k = Some r \<Longrightarrow> r < next_ref s"
    "map_of (calls s) k = Some r \<Longrightarrow> set (sets s r) = active s fs k"
    "map_of (calls s) k = Some r \<Longrightarrow> sets s r \<noteq> []"
    "map_of (calls s) k = Some r \<Longrightarrow> map_of (calls s) k' = Some r \<Longrightarrow> k = k'"
    "f \<in> set fs \<Longrightarrow> g \<in> set fs \<Longrightarrow> rf_controller f = rf_controller g \<Longrightarrow> f = g"
    "f \<in> set fs \<Longrightarrow> rf_controller f \<in> set (aborted s) \<Longrightarrow> map_of (calls s) k \<noteq> Some (rf_running f)"
    "f \<in> set fs \<Longrightarrow> rf_controller f \<notin> set (aborted s) \<Longrightarrow> map_of (calls s) (rf_key f) = Some (rf_running f)"
  using assms unfolding registry_ok_def by metis+

lemma no_active_unregistered:
  assumes "registry_ok s fs" and "map_of (calls s) k = None"
  shows "active s fs k = {}"
  using registry_okD(10) [OF assms(1)] assms(2) by (force simp: active_def)

lemma start_ok:
  assumes ok: "registry_ok s fs" and run: "run_start key s = (f, s')"
  shows "registry_ok s' (f # fs)"
proof -
  note D = registry_okD [OF ok]
  let ?r = "rf_running f"
  have f: "rf_controller f = next_ref s" "rf_key f = key" and ab: "aborted s' = aborted s"
    and calls': "calls s' = AList.update key ?r (calls s)"
    and sets': "set (sets s' ?r) = insert (next_ref s) (active s fs key)"
    and other: "\<And>r. r \<noteq> ?r \<Longrightarrow> sets s' r = sets s r"
    and fresh: "next_ref s < next_ref s'" "?r < next_ref s'"
    and reg: "map_of (calls s) key = Some ?r \<or> map_of (calls s) key = None \<and> ?r > next_ref s"
    using run D(5) [of key] no_active_unregistered [OF ok, of key]
    by (auto simp: registry_defs split: option.splits dest: D(4))
  have fc: "next_ref s \<notin> set (aborted s)" using D(3) by blast
  have act: "active s' (f # fs) k = (if k = key then insert (next_ref s) (active s fs k) else active s fs k)" for k
    unfolding active_def ab list.set using fc f(2) unfolding f(1) [symmetric] by (cases "k = key") auto
  have r_other: "map_of (calls s) k \<noteq> Some ?r" if "k \<noteq> key" for k
    using reg D(4) [of k ?r] D(7) [of k ?r key] that by auto
  have neq: "sets s' ?r \<noteq> []" using sets' by force
  have key_of: "map_of (calls s') k = (if k = key then Some ?r else map_of (calls s) k)" for k
    by (simp add: calls')
  show ?thesis unfolding registry_ok_def
  proof (intro conjI)
    show "\<forall>g\<in>set (f # fs). rf_controller g < next_ref s' \<and> rf_running g < next_ref s'"
      using D(1,2) fresh f by (auto intro: less_trans)
    show "\<forall>c\<in>set (aborted s'). c < next_ref s'" using D(3) fresh ab by (auto intro: less_trans)
    show "\<forall>k r. map_of (calls s') k = Some r \<longrightarrow> r < next_ref s' \<and> set (sets s' r) = active s' (f # fs) k \<and> sets s' r \<noteq> []"
      using key_of act sets' neq fresh r_other other D(4,5,6) by (metis less_trans option.inject)
    show "\<forall>k k' r. map_of (calls s') k = Some r \<and> map_of (calls s') k' = Some r \<longrightarrow> k = k'"
      using key_of r_other D(7) by (metis option.inject)
    show "\<forall>g\<in>set (f # fs). \<forall>h\<in>set (f # fs). rf_controller g = rf_controller h \<longrightarrow> g = h"
      using D(1,8) f by fastforce
    show "\<forall>g\<in>set (f # fs). if rf_controller g \<in> set (aborted s') then \<forall>k. map_of (calls s') k \<noteq> Some (rf_running g)
        else map_of (calls s') (rf_key g) = Some (rf_running g)"
    proof
      fix g assume g: "g \<in> set (f # fs)"
      show "if rf_controller g \<in> set (aborted s') then \<forall>k. map_of (calls s') k \<noteq> Some (rf_running g)
        else map_of (calls s') (rf_key g) = Some (rf_running g)"
      proof (cases "g = f")
        case False
        with g have "g \<in> set fs" by simp
        then show ?thesis using key_of ab reg D(2) [of g] D(9) [of g] D(10) [of g] by (metis less_imp_not_less option.inject option.distinct(1))
      qed (use key_of ab fc f in auto)
    qed
  qed
qed

lemma aborted_frames [simp]:
  "aborted (run_cleanup f s) = aborted s" "next_ref (run_cleanup f s) = next_ref s"
  "run_start key s = (f, s') \<Longrightarrow> aborted s' = aborted s"
  by (auto simp: registry_defs split: option.splits)

lemma settle_ok:
  assumes ok: "registry_ok s fs" and f: "f \<in> set fs"
  shows "registry_ok (run_cleanup f s) (removeAll f fs)"
proof -
  note D = registry_okD [OF ok]
  let ?s = "run_cleanup f s" and ?r = "rf_running f" and ?c = "rf_controller f"
  have ab: "aborted ?s = aborted s" "next_ref ?s = next_ref s" by simp_all
  have act: "active ?s (removeAll f fs) k = active s fs k - {?c}" for k
    unfolding active_def ab using D(8) [OF f] by auto metis
  show ?thesis
  proof (cases "?c \<in> set (aborted s)")
    case True
    have calls': "calls ?s = calls s" and sets': "r \<noteq> ?r \<Longrightarrow> sets ?s r = sets s r" for r
      using D(9) [OF f True] by (auto simp: registry_defs)
    have "active s fs k - {?c} = active s fs k" for k using True by (auto simp: active_def)
    with act have act': "active ?s (removeAll f fs) k = active s fs k" for k by simp
    show ?thesis unfolding registry_ok_def ab calls' act'
      using D D(9) [OF f True] sets' by (intro conjI ballI allI impI) (auto, metis+)
  next
    case False
    have key: "map_of (calls s) (rf_key f) = Some ?r" using D(10) [OF f False] .
    have left: "set (removeAll ?c (sets s ?r)) = active ?s (removeAll f fs) (rf_key f)"
      using D(5) [OF key] act by auto
    have r_other: "map_of (calls s) k \<noteq> Some ?r" if "k \<noteq> rf_key f" for k
      using D(7) [OF _ key, of k] that by blast
    have r_frame: "rf_running g \<noteq> ?r" if "g \<in> set fs" "rf_key g \<noteq> rf_key f" for g
      using D(9) [OF that(1), of "rf_key f"] D(10) [OF that(1)] key r_other [OF that(2)] by metis
    let ?left = "removeAll ?c (sets s ?r)"
    have sets': "sets ?s = (sets s)(?r := ?left)" by (simp add: registry_defs)
    have key_of: "map_of (calls ?s) k = (if k = rf_key f \<and> ?left = [] then None else map_of (calls s) k)" for k
      using key by (auto simp: registry_defs)
    have gone: "rf_controller g \<in> set (aborted s)" if "?left = []" "g \<in> set (removeAll f fs)" "rf_key g = rf_key f" for g
      using that left act [of "rf_key f"] by (auto simp: active_def ab)
    show ?thesis unfolding registry_ok_def ab
    proof (intro conjI)
      show "\<forall>k r. map_of (calls ?s) k = Some r \<longrightarrow>
          r < next_ref s \<and> set (sets ?s r) = active ?s (removeAll f fs) k \<and> sets ?s r \<noteq> []"
      proof (intro allI impI)
        fix k r assume k: "map_of (calls ?s) k = Some r"
        then have k': "map_of (calls s) k = Some r" using key_of by (auto split: if_splits)
        show "r < next_ref s \<and> set (sets ?s r) = active ?s (removeAll f fs) k \<and> sets ?s r \<noteq> []"
        proof (cases "k = rf_key f")
          case True
          then show ?thesis using k k' key key_of left sets' D(4) [OF k'] by (auto split: if_splits)
        next
          case other: False
          then have "r \<noteq> ?r" using k' r_other by auto
          moreover have "?c \<notin> active s fs k" using other D(8) [OF f] by (auto simp: active_def)
          then have "active ?s (removeAll f fs) k = active s fs k" using act [of k] by simp
          ultimately show ?thesis using D(4,5,6) [OF k'] sets' by simp
        qed
      qed
      show "\<forall>g\<in>set (removeAll f fs). if rf_controller g \<in> set (aborted s)
          then \<forall>k. map_of (calls ?s) k \<noteq> Some (rf_running g) else map_of (calls ?s) (rf_key g) = Some (rf_running g)"
        using key_of gone D(9,10) by auto
    qed (use D key_of in \<open>auto split: if_splits\<close>)
  qed
qed

lemma cancel_ok:
  assumes ok: "registry_ok s fs" and run: "cancel key s = (b, s')"
  shows "registry_ok s' fs"
proof (cases "map_of (calls s) key")
  case None
  with run ok show ?thesis by (simp add: registry_defs)
next
  case (Some r)
  note D = registry_okD [OF ok]
  have s': "s' = s\<lparr>calls := AList.delete key (calls s), aborted := aborted s @ sets s r\<rparr>"
    using run Some D(6) [OF Some] by (simp add: registry_defs)
  have ab: "set (aborted s') = set (aborted s) \<union> active s fs key" "next_ref s' = next_ref s" "sets s' = sets s"
    using D(5) [OF Some] by (auto simp: s')
  have key_of: "map_of (calls s') k = (if k = key then None else map_of (calls s) k)" for k by (simp add: s')
  have act: "active s' fs k = (if k = key then {} else active s fs k)" for k
    using D(8) by (auto simp: active_def ab)
  have r_other: "map_of (calls s) k \<noteq> Some r" if "k \<noteq> key" for k
    using D(7) [OF _ Some, of k] that by blast
  show ?thesis unfolding registry_ok_def ab(2,3)
  proof (intro conjI)
    show "\<forall>c\<in>set (aborted s'). c < next_ref s" using D(1,3) ab(1) by (auto simp: active_def)
    show "\<forall>g\<in>set fs. if rf_controller g \<in> set (aborted s') then \<forall>k. map_of (calls s') k \<noteq> Some (rf_running g)
        else map_of (calls s') (rf_key g) = Some (rf_running g)"
    proof
      fix g assume g: "g \<in> set fs"
      have "rf_running g = r" if "rf_controller g \<in> active s fs key"
        using that D(8) [OF g] D(10) [OF g] Some by (auto simp: active_def)
      moreover have "rf_controller g \<in> active s fs key" if "rf_controller g \<notin> set (aborted s)" "rf_key g = key"
        using that g by (auto simp: active_def)
      ultimately show "if rf_controller g \<in> set (aborted s') then \<forall>k. map_of (calls s') k \<noteq> Some (rf_running g)
        else map_of (calls s') (rf_key g) = Some (rf_running g)"
        using D(9,10) [OF g] ab(1) key_of r_other by auto
    qed
  qed (use D act key_of in \<open>auto split: if_splits\<close>)
qed

lemma history_ok: "history es (s, fs) \<Longrightarrow> registry_ok s fs"
proof (induction es "(s, fs)" arbitrary: s fs rule: history.induct)
  case none
  then show ?case by (simp add: registry_ok_def new_registry_def)
next
  case (step es st e)
  then show ?case
    by (cases st) (auto elim!: registry_step.cases intro: start_ok cancel_ok settle_ok simp: run_settle_def Let_def)
qed

text \<open>
  The abstract registry: a call is running until it settles, and cancelled when a cancel of its
  key is called while it runs.
\<close>

fun running_of :: "('e, 'v) registry_event list \<Rightarrow> run_frame list" where
  "running_of [] = []"
| "running_of (Started f # es) = f # running_of es"
| "running_of (Settled f r # es) = removeAll f (running_of es)"
| "running_of (CancelCalled key b # es) = running_of es"

fun cancelled_in :: "('e, 'v) registry_event list \<Rightarrow> controller set" where
  "cancelled_in [] = {}"
| "cancelled_in (CancelCalled key b # es) =
     cancelled_in es \<union> {rf_controller f | f. f \<in> set (running_of es) \<and> rf_key f = key}"
| "cancelled_in (_ # es) = cancelled_in es"

lemma cancel_aborts:
  assumes ok: "registry_ok s fs" and run: "cancel key s = (b, s')"
  shows "set (aborted s') = set (aborted s) \<union> {rf_controller f | f. f \<in> set fs \<and> rf_key f = key}"
    and "b \<longleftrightarrow> active s fs key \<noteq> {}"
proof -
  note D = registry_okD [OF ok]
  have *: "{rf_controller f | f. f \<in> set fs \<and> rf_key f = key} \<subseteq> set (aborted s) \<union> active s fs key"
    "active s fs key \<subseteq> {rf_controller f | f. f \<in> set fs \<and> rf_key f = key}"
    by (auto simp: active_def)
  show "set (aborted s') = set (aborted s) \<union> {rf_controller f | f. f \<in> set fs \<and> rf_key f = key}"
  proof (cases "map_of (calls s) key")
    case None
    then show ?thesis using run no_active_unregistered [OF ok None] * by (auto simp: cancel_def)
  next
    case (Some r)
    then have "set (aborted s') = set (aborted s) \<union> active s fs key"
      using run D(5) [OF Some] D(6) [OF Some] by (auto simp: cancel_def)
    with * show ?thesis by blast
  qed
  show "b \<longleftrightarrow> active s fs key \<noteq> {}"
    using run no_active_unregistered [OF ok, of key] D(5,6) [of key]
    by (cases "map_of (calls s) key") (auto simp: cancel_def)
qed

lemma history_abstract:
  "history es (s, fs) \<Longrightarrow> fs = running_of es \<and> set (aborted s) = cancelled_in es"
proof (induction es "(s, fs)" arbitrary: s fs rule: history.induct)
  case none
  then show ?case by (simp add: new_registry_def)
next
  case (step es st e)
  obtain s0 fs0 where st: "st = (s0, fs0)" by (cases st)
  note ok = history_ok [OF step(1) [unfolded st]] and IH = step(2) [OF st]
  from step(3) show ?case unfolding st
  proof (cases rule: registry_step.cases)
    case (start key f)
    then show ?thesis using IH by auto
  next
    case (settle f settled r)
    then have "s = run_cleanup f s0" by (simp add: run_settle_def Let_def)
    with settle IH show ?thesis by simp
  next
    case (cancel key b)
    then show ?thesis using IH cancel_aborts [OF ok cancel(3)] by simp
  qed
qed

lemma inFlight_active: "registry_ok s fs \<Longrightarrow> inFlight s key \<longleftrightarrow> active s fs key \<noteq> {}"
  using registry_okD(5,6) [of s fs key] no_active_unregistered [of s fs key]
  by (cases "map_of (calls s) key") (auto simp: inFlight_def)

text \<open>
  C3: The registry is what its history says: \<open>inFlight(key)\<close> and the answer of \<open>cancel(key)\<close> hold
  exactly when a call of the key has started and neither settled nor been cancelled, a successful
  cancel ends that, and a call whose work settles is reported cancelled exactly when a cancel of
  its key was called while it ran, whatever its work settled with and however the other calls of
  the key come and go meanwhile.
\<close>
theorem registry_follows_history:
  assumes "history es (s, fs)"
  shows "(inFlight s key \<longleftrightarrow> (\<exists>f\<in>set (running_of es). rf_key f = key \<and> rf_controller f \<notin> cancelled_in es)) \<and>
    fst (cancel key s) = inFlight s key \<and> \<not> inFlight (snd (cancel key s)) key \<and>
    (\<forall>f\<in>set (running_of es).
       fst (run_settle f settled s) =
         (if rf_controller f \<in> cancelled_in es then Inr Cancelled else map_sum id Finished settled))"
proof -
  note ok = history_ok [OF assms]
  obtain b s' where c: "cancel key s = (b, s')" by fastforce
  have "\<not> inFlight s' key"
    using inFlight_active [OF cancel_ok [OF ok c], of key] cancel_aborts(1) [OF ok c] by (auto simp: active_def)
  then show ?thesis
    using inFlight_active [OF ok, of key] cancel_aborts(2) [OF ok c] c history_abstract [OF assms]
    by (auto simp: active_def run_settle_def Let_def split: sum.splits)
qed

theorem registry_follows_history_witness:
  "inFlight (snd (run_start ''search'' new_registry)) ''search'' \<and>
   fst (run_settle (fst (run_start ''search'' new_registry)) (Inr (7::int) :: string + int)
      (snd (cancel ''search'' (snd (run_start ''search'' new_registry))))) = Inr Cancelled"
proof
  let ?f = "fst (run_start ''search'' new_registry)" and ?s = "snd (run_start ''search'' new_registry)"
  have h1: "history [Started ?f :: (string, int) registry_event] (?s, [?f])"
    by (rule history.step [OF history.none], rule registry_step.start) simp
  from conjunct1 [OF registry_follows_history [OF h1, of "''search''"]]
  have "inFlight ?s ''search'' \<longleftrightarrow> (\<exists>f\<in>{?f}. rf_key f = ''search'')" by simp
  then show "inFlight ?s ''search''" by (simp add: run_start_def new_registry_def)
  have h2: "history [CancelCalled ''search'' (fst (cancel ''search'' ?s)), Started ?f :: (string, int) registry_event]
      (snd (cancel ''search'' ?s), [?f])"
    by (rule history.step [OF h1], rule registry_step.cancel) simp
  from registry_follows_history [OF h2, where key = "''search''" and settled = "Inr (7::int) :: string + int"]
  have "fst (run_settle ?f (Inr (7::int) :: string + int) (snd (cancel ''search'' ?s))) =
      (if rf_key ?f = ''search'' then Inr Cancelled else Inr (Finished 7))"
    by (auto simp: map_sum_def)
  then show "fst (run_settle ?f (Inr (7::int) :: string + int) (snd (cancel ''search'' ?s))) = Inr Cancelled"
    by (simp add: run_start_def new_registry_def)
qed

text \<open>A call that watches its signal does not wait for its provider after an abort.\<close>

lemma untilAborted_first:
  "untilAborted a c es = (if a then Some (Inl c) else case es of [] \<Rightarrow> None | Aborts # _ \<Rightarrow> Some (Inl c) | Settles r # _ \<Rightarrow> Some r)"
  by (cases "(a, c, es)" rule: untilAborted.cases) auto

end
