(* ===== verification/Hex.thy ===== *)
theory Hex
  imports JsText "HOL-Library.Word"
begin

text \<open>
  The hexadecimal text of byte arrays: \<open>fromHex\<close> and \<open>toHex\<close> of \<open>host/credentials/store.ts\<close>, over
  the library's \<open>Number.parseInt(s, 16)\<close>, \<open>n.toString(16)\<close> and \<open>padStart\<close>. A \<open>Uint8Array\<close> is a list of
  8-bit words; writing a number into one keeps it modulo 256, and NaN as 0.
\<close>

type_synonym bytes = "8 word list"

section \<open>The library\<close>

definition parseInt16 :: "string \<Rightarrow> js_number" where
  "parseInt16 s =
     (let t = dropWhile is_space s;
          (sign, u) = (case t of
              [] \<Rightarrow> (1 :: int, [])
            | c # r \<Rightarrow> if c = CHR ''-'' then (- 1, r) else if c = CHR ''+'' then (1, r) else (1, t));
          v = (if take 2 u = ''0x'' \<or> take 2 u = ''0X'' then drop 2 u else u);
          ds = takeWhile (\<lambda>c. radix_digit c < 16) v
      in if ds = [] then NaN else Fin (of_int (sign * int (foldl (\<lambda>n c. n * 16 + radix_digit c) 0 ds))))"

fun to_uint8 :: "js_number \<Rightarrow> 8 word" where
  "to_uint8 (Fin r) = word_of_int (if r < 0 then \<lceil>r\<rceil> else \<lfloor>r\<rfloor>)"
| "to_uint8 _ = 0"

definition hex_char :: "nat \<Rightarrow> char" where
  "hex_char d = ''0123456789abcdef'' ! d"

fun show_hex :: "nat \<Rightarrow> string" where
  "show_hex n = (if n < 16 then [hex_char n] else show_hex (n div 16) @ [hex_char (n mod 16)])"

declare show_hex.simps [simp del]

definition pad_start :: "nat \<Rightarrow> char \<Rightarrow> string \<Rightarrow> string" where
  "pad_start n c s = replicate (n - length s) c @ s"

section \<open>\<open>fromHex\<close> and \<open>toHex\<close>\<close>

definition fromHex :: "string \<Rightarrow> bytes" where
  "fromHex hex = map (\<lambda>i. to_uint8 (parseInt16 (take 2 (drop (i * 2) hex)))) [0..<length hex div 2]"

definition toHex :: "bytes \<Rightarrow> string" where
  "toHex bytes = concat (map (\<lambda>byte. pad_start 2 (CHR ''0'') (show_hex (unat byte))) bytes)"

section \<open>Round trip\<close>

lemma hex_chars: "list_all (\<lambda>d. radix_digit (hex_char d) = d \<and> \<not> is_space (hex_char d) \<and>
    hex_char d \<notin> set ''-+xX'') [0..<16]"
  by (simp add: upt_conv_Cons hex_char_def radix_digit_def is_space_def is_digit_def digit_val_def)

lemma hex_char_0: "hex_char 0 = CHR ''0''"
  by (simp add: hex_char_def)

lemma hex_char_facts:
  assumes "d < 16"
  shows "radix_digit (hex_char d) = d" "\<not> is_space (hex_char d)"
    "hex_char d \<noteq> CHR ''-''" "hex_char d \<noteq> CHR ''+''" "hex_char d \<noteq> CHR ''x''" "hex_char d \<noteq> CHR ''X''"
  using hex_chars assms unfolding list_all_iff by auto

lemma parseInt16_pair:
  assumes "a < 16" and "b < 16"
  shows "parseInt16 [hex_char a, hex_char b] = Fin (of_nat (a * 16 + b))"
  using hex_char_facts [OF assms(1)] hex_char_facts [OF assms(2)] assms
  by (simp add: parseInt16_def)

lemma byte_hex: "pad_start 2 (CHR ''0'') (show_hex (unat (b :: 8 word))) = [hex_char (unat b div 16), hex_char (unat b mod 16)]"
proof -
  have "unat b < 2 ^ LENGTH(8)" by (rule unsigned_less)
  then have "unat b div 16 < 16" by simp
  then show ?thesis
    by (cases "unat b < 16") (simp_all add: show_hex.simps [of "unat b"] show_hex.simps [of "unat b div 16"] pad_start_def numeral_2_eq_2 hex_char_0)
qed

lemma toHex_simps [simp]:
  "toHex [] = []"
  "toHex (b # bs) = hex_char (unat b div 16) # hex_char (unat b mod 16) # toHex bs"
  by (simp_all add: toHex_def byte_hex)

lemma length_toHex [simp]: "length (toHex bs) = 2 * length bs"
  by (induction bs) auto

lemma toHex_eq_Nil [simp]: "toHex bs = [] \<longleftrightarrow> bs = []"
  by (cases bs) auto

lemma fromHex_pair: "fromHex (x # y # s) = to_uint8 (parseInt16 [x, y]) # fromHex s"
proof -
  have "[0..<length (x # y # s) div 2] = 0 # map Suc [0..<length s div 2]"
    by (simp add: map_Suc_upt upt_conv_Cons del: upt_Suc)
  then show ?thesis by (simp add: fromHex_def)
qed

lemma fromHex_toHex [simp]: "fromHex (toHex bs) = bs"
proof (induction bs)
  case Nil
  show ?case by (simp add: fromHex_def)
next
  case (Cons b bs)
  have "unat b < 2 ^ LENGTH(8)" by (rule unsigned_less)
  then have "unat b div 16 < 16" by simp
  then have "parseInt16 [hex_char (unat b div 16), hex_char (unat b mod 16)] = Fin (of_nat (unat b))"
    using parseInt16_pair [of "unat b div 16" "unat b mod 16"] by simp
  moreover have "(of_nat (unat b) :: 8 word) = b" by simp
  then have "to_uint8 (Fin (of_nat (unat b))) = b" by (simp del: of_nat_unat)
  ultimately show ?case using Cons by (simp add: fromHex_pair del: of_nat_unat)
qed

end
