(* ===== verification/Credentials.thy ===== *)
theory Credentials
  imports Hex
begin

text \<open>
  \<open>CredentialStore\<close> (\<open>host/credentials/store.ts\<close>): credentials kept as AES-GCM encrypted rows of a
  persistence adapter, decrypted into memory by \<open>warm\<close>, rotated to a new master key by \<open>rotate\<close>.

  The platform (\<open>crypto.subtle\<close>, the random source as the bytes of its n-th draw, \<open>TextEncoder\<close>) and \<open>credentialStorageKey\<close> of
  \<open>@almadar/core\<close> are the record \<open>platform\<close>, the persistence adapter is the record \<open>adapter\<close> over a
  state of its own. An \<open>await\<close> that rejects is \<open>Inl\<close>; what the call changed before stays changed.
  The calls of one store run one after another here; the interleaving of two calls that both wait
  for the adapter is not modelled.
\<close>

section \<open>What the store is built on\<close>

record identity =
  id_name :: string
  id_principal :: "string option"

record platform =
  pl_seal :: "bytes \<Rightarrow> bytes \<Rightarrow> bytes option \<Rightarrow> bytes \<Rightarrow> bytes"
  pl_open :: "bytes \<Rightarrow> bytes \<Rightarrow> bytes option \<Rightarrow> bytes \<Rightarrow> bytes option"
  pl_sha256 :: "bytes \<Rightarrow> bytes"
  pl_encode :: "string \<Rightarrow> bytes"
  pl_decode :: "bytes \<Rightarrow> string"
  pl_random :: "nat \<Rightarrow> nat \<Rightarrow> bytes"
  pl_storageKey :: "identity \<Rightarrow> string"
  pl_localeCompare :: "string \<Rightarrow> string \<Rightarrow> int"

text \<open>
  The adapter's operations on the rows of an entity type; \<open>getById\<close> and the conditional delete are
  there or not. The conditional delete answers whether it deleted the row.
\<close>

record ('a, 'e) adapter =
  ad_list :: "string \<Rightarrow> 'a \<Rightarrow> 'e + jobj list"
  ad_create :: "string \<Rightarrow> jobj \<Rightarrow> 'a \<Rightarrow> ('e + string) \<times> 'a"
  ad_update :: "string \<Rightarrow> string \<Rightarrow> jobj \<Rightarrow> 'a \<Rightarrow> ('e + unit) \<times> 'a"
  ad_delete :: "string \<Rightarrow> string \<Rightarrow> 'a \<Rightarrow> ('e + unit) \<times> 'a"
  ad_getById :: "(string \<Rightarrow> string \<Rightarrow> 'a \<Rightarrow> 'e + jobj option) option"
  ad_conditional :: "string \<Rightarrow> bool"
  ad_deleteWhere :: "(string \<Rightarrow> string \<Rightarrow> 'a \<Rightarrow> ('e + bool) \<times> 'a) option"

definition CREDENTIAL_ENTITY_TYPE :: string where
  "CREDENTIAL_ENTITY_TYPE = ''AlmadarIntegrationCredential''"

definition DERIVED_ENTITY_TYPE :: string where
  "DERIVED_ENTITY_TYPE = ''AlmadarKernelDerivedSecret''"

definition TAG_BYTES :: nat where
  "TAG_BYTES = 16"

definition IV_BYTES :: nat where
  "IV_BYTES = 12"

section \<open>The store\<close>

datatype 'e cred_error =
    MasterKeyShape
  | NotConfigured
  | BadPrincipal
  | BadLabel
  | NotShared
  | AdapterError 'e

record credential_entry =
  ce_service :: string
  ce_envVar :: string
  ce_last4 :: string
  ce_updatedAt :: js_number
  ce_principal :: "string option"

record stored_credential = credential_entry +
  sc_id :: string
  sc_value :: string
  sc_label :: "string option"

record 'a cred_store =
  cr_adapter :: 'a
  cr_master :: "string option"
  cr_previous :: "string option"
  cr_byIdentity :: "(string \<times> stored_credential) list"
  cr_listeners :: "nat list"
  cr_warmed :: bool
  cr_draws :: nat
  cr_notified :: "(nat \<times> string option) list"

text \<open>\<open>/^[0-9a-fA-F]{64}$/\<close>.\<close>

definition master_key_shape :: "string \<Rightarrow> bool" where
  "master_key_shape k \<longleftrightarrow> length k = 64 \<and> list_all (\<lambda>c. radix_digit c < 16) k"

definition new_store :: "(string \<Rightarrow> string option) \<Rightarrow> 'a \<Rightarrow> string option \<Rightarrow> string option \<Rightarrow>
    'e cred_error + 'a cred_store" where
  "new_store env adapter masterKey previousMasterKey =
     (let key = (case masterKey of Some k \<Rightarrow> Some k | None \<Rightarrow> env ''ALMADAR_CREDENTIAL_MASTER_KEY'');
          valid = (case key of Some k \<Rightarrow> master_key_shape k | None \<Rightarrow> False);
          prev = (case previousMasterKey of Some k \<Rightarrow> Some k | None \<Rightarrow> env ''ALMADAR_CREDENTIAL_MASTER_KEY_PREVIOUS'')
      in if \<not> valid \<and> env ''NODE_ENV'' = Some ''production'' then Inl MasterKeyShape
         else Inr \<lparr>cr_adapter = adapter,
           cr_master = (if valid then key else None),
           cr_previous = (case prev of Some k \<Rightarrow> if master_key_shape k then Some k else None | None \<Rightarrow> None),
           cr_byIdentity = [], cr_listeners = [], cr_warmed = False, cr_draws = 0, cr_notified = []\<rparr>)"

definition enabled :: "'a cred_store \<Rightarrow> bool" where
  "enabled s \<longleftrightarrow> cr_master s \<noteq> None"

definition subscribe :: "nat \<Rightarrow> 'a cred_store \<Rightarrow> 'a cred_store" where
  "subscribe l s = s\<lparr>cr_listeners := set_add l (cr_listeners s)\<rparr>"

definition unsubscribe :: "nat \<Rightarrow> 'a cred_store \<Rightarrow> 'a cred_store" where
  "unsubscribe l s = s\<lparr>cr_listeners := removeAll l (cr_listeners s)\<rparr>"

definition notify :: "string option \<Rightarrow> 'a cred_store \<Rightarrow> 'a cred_store" where
  "notify who s = s\<lparr>cr_notified := cr_notified s @ map (\<lambda>l. (l, who)) (cr_listeners s)\<rparr>"

section \<open>Encryption\<close>

record sealed =
  se_ciphertext :: string
  se_iv :: string
  se_authTag :: string
  se_keyId :: string

definition keyIdOf :: "platform \<Rightarrow> string \<Rightarrow> string" where
  "keyIdOf p masterKeyHex = take 16 (toHex (pl_sha256 p (fromHex masterKeyHex)))"

definition additional_data :: "platform \<Rightarrow> identity \<Rightarrow> bytes option" where
  "additional_data p i = (case id_principal i of None \<Rightarrow> None | Some _ \<Rightarrow> Some (pl_encode p (pl_storageKey p i)))"

definition seal_with :: "platform \<Rightarrow> string \<Rightarrow> bytes \<Rightarrow> identity \<Rightarrow> string \<Rightarrow> sealed" where
  "seal_with p master iv i plaintext =
     (let out = pl_seal p (fromHex master) iv (additional_data p i) (pl_encode p plaintext);
          n = length out - TAG_BYTES
      in \<lparr>se_ciphertext = toHex (take n out), se_iv = toHex iv, se_authTag = toHex (drop n out),
          se_keyId = keyIdOf p master\<rparr>)"

definition encrypt :: "platform \<Rightarrow> string \<Rightarrow> identity \<Rightarrow> 'a cred_store \<Rightarrow> ('e cred_error + sealed) \<times> 'a cred_store" where
  "encrypt p plaintext i s =
     (case cr_master s of
        None \<Rightarrow> (Inl NotConfigured, s)
      | Some master \<Rightarrow>
          (Inr (seal_with p master (pl_random p (cr_draws s) IV_BYTES) i plaintext), s\<lparr>cr_draws := Suc (cr_draws s)\<rparr>))"

definition decryptWithKey :: "platform \<Rightarrow> string \<Rightarrow> string \<Rightarrow> string \<Rightarrow> string \<Rightarrow> identity \<Rightarrow> string option" where
  "decryptWithKey p keyHex ciphertext ivHex authTagHex i =
     map_option (pl_decode p)
       (pl_open p (fromHex keyHex) (fromHex ivHex) (additional_data p i) (fromHex ciphertext @ fromHex authTagHex))"

fun try_keys :: "(string \<Rightarrow> string option) \<Rightarrow> string list \<Rightarrow> string option" where
  "try_keys f [] = None"
| "try_keys f (k # ks) = (case f k of Some v \<Rightarrow> Some v | None \<Rightarrow> try_keys f ks)"

definition candidates :: "platform \<Rightarrow> string \<Rightarrow> string option \<Rightarrow> string option \<Rightarrow> string list" where
  "candidates p master previous rowKeyId =
     (if rowKeyId = None \<or> rowKeyId = Some (keyIdOf p master) then [master] else []) @
     (case previous of None \<Rightarrow> []
      | Some prev \<Rightarrow> if rowKeyId = None \<or> rowKeyId = Some (keyIdOf p prev) then [prev] else [])"

definition decryptRow :: "platform \<Rightarrow> 'a cred_store \<Rightarrow> string \<Rightarrow> string \<Rightarrow> string \<Rightarrow> string option \<Rightarrow> identity \<Rightarrow>
    'e cred_error + string option" where
  "decryptRow p s ciphertext ivHex authTagHex rowKeyId i =
     (case cr_master s of
        None \<Rightarrow> Inl NotConfigured
      | Some master \<Rightarrow>
          Inr (try_keys (\<lambda>key. decryptWithKey p key ciphertext ivHex authTagHex i)
                 (candidates p master (cr_previous s) rowKeyId)))"

section \<open>Reading rows\<close>

fun nonempty_string :: "jval option \<Rightarrow> string option" where
  "nonempty_string (Some (JStr s)) = (if s = '''' then None else Some s)"
| "nonempty_string _ = None"

text \<open>The fields \<open>warm\<close> and \<open>rotate\<close> take from a row, unless they \<open>continue\<close> with the next one.\<close>

record cred_row =
  rw_id :: string
  rw_service :: string
  rw_identity :: identity
  rw_ciphertext :: string
  rw_iv :: string
  rw_authTag :: string
  rw_keyId :: "string option"

definition read_row :: "jobj \<Rightarrow> cred_row option" where
  "read_row row =
     (case (nonempty_string (obj_get row ''id''), nonempty_string (obj_get row ''service''),
            nonempty_string (obj_get row ''envVar''), obj_get row ''ciphertext'',
            nonempty_string (obj_get row ''iv''), nonempty_string (obj_get row ''authTag'')) of
        (Some i, Some service, Some envVar, Some (JStr ciphertext), Some iv, Some authTag) \<Rightarrow>
          (if obj_get row ''principal'' \<noteq> None \<and> nonempty_string (obj_get row ''principal'') = None then None
           else Some \<lparr>rw_id = i, rw_service = service,
             rw_identity = \<lparr>id_name = envVar, id_principal = nonempty_string (obj_get row ''principal'')\<rparr>,
             rw_ciphertext = ciphertext, rw_iv = iv, rw_authTag = authTag,
             rw_keyId = nonempty_string (obj_get row ''keyId'')\<rparr>)
      | _ \<Rightarrow> None)"

definition last4 :: "string \<Rightarrow> string" where
  "last4 value = drop (length value - 4) value"

text \<open>The body of the loop in \<open>warm\<close>, for a store with a master key.\<close>

definition warm_row :: "platform \<Rightarrow> 'a cred_store \<Rightarrow> jobj \<Rightarrow> (string \<times> stored_credential) option" where
  "warm_row p s row =
     Option.bind (read_row row) (\<lambda>r.
       case (decryptRow p s (rw_ciphertext r) (rw_iv r) (rw_authTag r) (rw_keyId r) (rw_identity r) :: unit cred_error + string option) of
         Inr (Some value) \<Rightarrow>
           Some (pl_storageKey p (rw_identity r),
             \<lparr>ce_service = rw_service r, ce_envVar = id_name (rw_identity r), ce_last4 = last4 value,
              ce_updatedAt = (case obj_get row ''updatedAt'' of Some (JNum t) \<Rightarrow> t | _ \<Rightarrow> Fin 0),
              ce_principal = id_principal (rw_identity r), sc_id = rw_id r, sc_value = value,
              sc_label = nonempty_string (obj_get row ''label'')\<rparr>)
       | _ \<Rightarrow> None)"

definition warm_rows :: "platform \<Rightarrow> 'a cred_store \<Rightarrow> jobj list \<Rightarrow> (string \<times> stored_credential) list" where
  "warm_rows p s rows = fold (\<lambda>(k, v). AList.update k v) (List.map_filter (warm_row p s) rows) []"

definition list_rows :: "('a, 'e) adapter \<Rightarrow> 'a cred_store \<Rightarrow> ('e cred_error + jobj list) \<times> 'a cred_store" where
  "list_rows ad s = (map_sum AdapterError id (ad_list ad CREDENTIAL_ENTITY_TYPE (cr_adapter s)), s)"

definition warm :: "platform \<Rightarrow> ('a, 'e) adapter \<Rightarrow> 'a cred_store \<Rightarrow> ('e cred_error + nat) \<times> 'a cred_store" where
  "warm p ad s =
     (let s1 = s\<lparr>cr_byIdentity := [], cr_warmed := True\<rparr>
      in if \<not> enabled s1 then (Inr 0, s1)
         else sbind (list_rows ad) (\<lambda>rows s2.
           let m = warm_rows p s2 rows in (Inr (length m), s2\<lparr>cr_byIdentity := m\<rparr>)) s1)"

section \<open>Reading the store\<close>

definition lookup :: "platform \<Rightarrow> 'a cred_store \<Rightarrow> string \<Rightarrow> string option \<Rightarrow> stored_credential option" where
  "lookup p s envVar who =
     map_of (cr_byIdentity s) (pl_storageKey p \<lparr>id_name = envVar, id_principal = who\<rparr>)"

definition resolve :: "platform \<Rightarrow> 'a cred_store \<Rightarrow> string \<Rightarrow> string option \<Rightarrow> string option" where
  "resolve p s envVar who = map_option sc_value (lookup p s envVar who)"

definition label :: "platform \<Rightarrow> 'a cred_store \<Rightarrow> string \<Rightarrow> string option \<Rightarrow> string option" where
  "label p s envVar who = Option.bind (lookup p s envVar who) sc_label"

definition snapshotEnv :: "'a cred_store \<Rightarrow> (string \<times> string) list" where
  "snapshotEnv s = fold (\<lambda>e. if ce_principal e = None then AList.update (ce_envVar e) (sc_value e) else id)
     (map snd (cr_byIdentity s)) []"

definition masked :: "stored_credential \<Rightarrow> credential_entry" where
  "masked e = \<lparr>ce_service = ce_service e, ce_envVar = ce_envVar e, ce_last4 = ce_last4 e,
     ce_updatedAt = ce_updatedAt e, ce_principal = ce_principal e\<rparr>"

text \<open>A stable sort by a comparator.\<close>

fun insert_by :: "('b \<Rightarrow> 'b \<Rightarrow> int) \<Rightarrow> 'b \<Rightarrow> 'b list \<Rightarrow> 'b list" where
  "insert_by cmp x [] = [x]"
| "insert_by cmp x (y # ys) = (if cmp x y \<le> 0 then x # y # ys else y # insert_by cmp x ys)"

definition sort_by :: "('b \<Rightarrow> 'b \<Rightarrow> int) \<Rightarrow> 'b list \<Rightarrow> 'b list" where
  "sort_by cmp xs = foldr (insert_by cmp) xs []"

definition entries :: "platform \<Rightarrow> 'a cred_store \<Rightarrow> string option \<Rightarrow> credential_entry list" where
  "entries p s who =
     sort_by (\<lambda>a b. let c = pl_localeCompare p (ce_service a) (ce_service b)
                    in if c \<noteq> 0 then c else pl_localeCompare p (ce_envVar a) (ce_envVar b))
       (map masked (filter (\<lambda>e. ce_principal e = who) (map snd (cr_byIdentity s))))"

section \<open>Writing the store\<close>

text \<open>Running an operation of the adapter on the store's adapter.\<close>

definition on_adapter :: "('a \<Rightarrow> ('e + 'r) \<times> 'a) \<Rightarrow> 'a cred_store \<Rightarrow> ('e cred_error + 'r) \<times> 'a cred_store" where
  "on_adapter f s = (let (r, a) = f (cr_adapter s) in (map_sum AdapterError id r, s\<lparr>cr_adapter := a\<rparr>))"

definition warm_once :: "platform \<Rightarrow> ('a, 'e) adapter \<Rightarrow> 'a cred_store \<Rightarrow> ('e cred_error + unit) \<times> 'a cred_store" where
  "warm_once p ad s = (if cr_warmed s then (Inr (), s) else sbind (warm p ad) (\<lambda>_ s. (Inr (), s)) s)"

definition opt_entry :: "string \<Rightarrow> string option \<Rightarrow> jobj" where
  "opt_entry k v = (case v of None \<Rightarrow> [] | Some x \<Rightarrow> [(k, JStr x)])"

definition row_data :: "string \<Rightarrow> string \<Rightarrow> sealed \<Rightarrow> js_number \<Rightarrow> string option \<Rightarrow> jobj" where
  "row_data service envVar c now who =
     [(''service'', JStr service), (''envVar'', JStr envVar), (''ciphertext'', JStr (se_ciphertext c)),
      (''iv'', JStr (se_iv c)), (''authTag'', JStr (se_authTag c)), (''keyId'', JStr (se_keyId c)),
      (''updatedAt'', JNum now)] @ opt_entry ''principal'' who"

definition set_credential :: "platform \<Rightarrow> ('a, 'e) adapter \<Rightarrow> js_number \<Rightarrow> string \<Rightarrow> string \<Rightarrow> string \<Rightarrow>
    string option \<Rightarrow> string option \<Rightarrow> 'a cred_store \<Rightarrow> ('e cred_error + credential_entry) \<times> 'a cred_store" where
  "set_credential p ad now service envVar value who lab s =
     (if who = Some '''' then (Inl BadPrincipal, s)
      else if lab = Some '''' then (Inl BadLabel, s)
      else sbind (warm_once p ad) (\<lambda>_.
        let i = \<lparr>id_name = envVar, id_principal = who\<rparr>;
            storageKey = pl_storageKey p i
        in sbind (encrypt p value i) (\<lambda>c s.
          let existing = map_of (cr_byIdentity s) storageKey;
              data = row_data service envVar c now who @ opt_entry ''label'' lab
          in sbind (case existing of
                Some e \<Rightarrow> sbind (on_adapter (ad_update ad CREDENTIAL_ENTITY_TYPE (sc_id e) data))
                  (\<lambda>_ s. (Inr (sc_id e), s))
              | None \<Rightarrow> on_adapter (ad_create ad CREDENTIAL_ENTITY_TYPE data))
            (\<lambda>i s.
              let kept = (case lab of Some l \<Rightarrow> Some l | None \<Rightarrow> Option.bind existing sc_label);
                  e = \<lparr>ce_service = service, ce_envVar = envVar, ce_last4 = last4 value, ce_updatedAt = now,
                       ce_principal = who, sc_id = i, sc_value = value, sc_label = kept\<rparr>
              in (Inr (masked e), notify who (s\<lparr>cr_byIdentity := AList.update storageKey e (cr_byIdentity s)\<rparr>))) s)) s)"

definition remove :: "platform \<Rightarrow> ('a, 'e) adapter \<Rightarrow> string \<Rightarrow> string option \<Rightarrow> 'a cred_store \<Rightarrow>
    ('e cred_error + bool) \<times> 'a cred_store" where
  "remove p ad envVar who =
     sbind (warm_once p ad) (\<lambda>_ s.
       let storageKey = pl_storageKey p \<lparr>id_name = envVar, id_principal = who\<rparr>
       in case map_of (cr_byIdentity s) storageKey of
            None \<Rightarrow> (Inr False, s)
          | Some existing \<Rightarrow>
              sbind (on_adapter (ad_delete ad CREDENTIAL_ENTITY_TYPE (sc_id existing))) (\<lambda>_ s.
                (Inr True, notify who (s\<lparr>cr_byIdentity := AList.delete storageKey (cr_byIdentity s)\<rparr>))) s)"

section \<open>Rotation\<close>

record rotation =
  ro_rotated :: nat
  ro_alreadyCurrent :: nat
  ro_unreadable :: nat

text \<open>One row of the loop in \<open>rotate\<close>.\<close>

definition rotate_row :: "platform \<Rightarrow> ('a, 'e) adapter \<Rightarrow> js_number \<Rightarrow> string \<Rightarrow> jobj \<Rightarrow> rotation \<Rightarrow>
    'a cred_store \<Rightarrow> ('e cred_error + rotation) \<times> 'a cred_store" where
  "rotate_row p ad now currentKeyId row n s =
     (case read_row row of
        None \<Rightarrow> (Inr (n\<lparr>ro_unreadable := Suc (ro_unreadable n)\<rparr>), s)
      | Some r \<Rightarrow>
          let dec = (\<lambda>rowKeyId s. (decryptRow p s (rw_ciphertext r) (rw_iv r) (rw_authTag r) rowKeyId (rw_identity r), s))
          in sbind (dec (rw_keyId r)) (\<lambda>value s. case value of
                None \<Rightarrow> (Inr (n\<lparr>ro_unreadable := Suc (ro_unreadable n)\<rparr>), s)
              | Some v \<Rightarrow>
                  if rw_keyId r = Some currentKeyId then (Inr (n\<lparr>ro_alreadyCurrent := Suc (ro_alreadyCurrent n)\<rparr>), s)
                  else sbind (if rw_keyId r = None then dec (Some currentKeyId) else (\<lambda>s. (Inr None, s))) (\<lambda>legacy s.
                    if legacy \<noteq> None
                    then sbind (on_adapter (ad_update ad CREDENTIAL_ENTITY_TYPE (rw_id r)
                           (AList.update ''keyId'' (JStr currentKeyId) row)))
                         (\<lambda>_ s. (Inr (n\<lparr>ro_alreadyCurrent := Suc (ro_alreadyCurrent n)\<rparr>), s)) s
                    else sbind (encrypt p v (rw_identity r)) (\<lambda>fresh.
                      sbind (on_adapter (ad_update ad CREDENTIAL_ENTITY_TYPE (rw_id r)
                             (row_data (rw_service r) (id_name (rw_identity r)) fresh now (id_principal (rw_identity r)))))
                        (\<lambda>_ s. (Inr (n\<lparr>ro_rotated := Suc (ro_rotated n)\<rparr>), s))) s) s) s)"

fun rotate_rows :: "platform \<Rightarrow> ('a, 'e) adapter \<Rightarrow> js_number \<Rightarrow> string \<Rightarrow> jobj list \<Rightarrow> rotation \<Rightarrow>
    'a cred_store \<Rightarrow> ('e cred_error + rotation) \<times> 'a cred_store" where
  "rotate_rows p ad now currentKeyId [] n s = (Inr n, s)"
| "rotate_rows p ad now currentKeyId (row # rows) n s =
     sbind (rotate_row p ad now currentKeyId row n) (rotate_rows p ad now currentKeyId rows) s"

definition rotate_credentials :: "platform \<Rightarrow> ('a, 'e) adapter \<Rightarrow> js_number \<Rightarrow> 'a cred_store \<Rightarrow>
    ('e cred_error + rotation) \<times> 'a cred_store" where
  "rotate_credentials p ad now s =
     (case cr_master s of
        None \<Rightarrow> (Inl NotConfigured, s)
      | Some master \<Rightarrow>
          sbind (list_rows ad) (\<lambda>rows.
            sbind (rotate_rows p ad now (keyIdOf p master) rows
                     \<lparr>ro_rotated = 0, ro_alreadyCurrent = 0, ro_unreadable = 0\<rparr>) (\<lambda>n.
              sbind (warm p ad) (\<lambda>_ s. (Inr n, notify None s)))) s)"

section \<open>One-use values\<close>

definition sharesDerived :: "('a, 'e) adapter \<Rightarrow> 'a cred_store \<Rightarrow> bool" where
  "sharesDerived ad s \<longleftrightarrow> enabled s \<and> ad_getById ad \<noteq> None"

definition derivedId :: "platform \<Rightarrow> identity \<Rightarrow> string" where
  "derivedId p i = toHex (pl_sha256 p (pl_encode p (pl_storageKey p i)))"

definition get_by_id :: "('a, 'e) adapter \<Rightarrow> string \<Rightarrow> 'a cred_store \<Rightarrow> ('e cred_error + jobj option) \<times> 'a cred_store" where
  "get_by_id ad i s =
     (case ad_getById ad of None \<Rightarrow> (Inl NotShared, s)
      | Some get \<Rightarrow> (map_sum AdapterError id (get DERIVED_ENTITY_TYPE i (cr_adapter s)), s))"

definition holdDerived :: "platform \<Rightarrow> ('a, 'e) adapter \<Rightarrow> string \<Rightarrow> string \<Rightarrow> js_number \<Rightarrow> string option \<Rightarrow>
    'a cred_store \<Rightarrow> ('e cred_error + unit) \<times> 'a cred_store" where
  "holdDerived p ad name value expiresAt who s =
     (if \<not> sharesDerived ad s then (Inl NotShared, s)
      else let i = \<lparr>id_name = name, id_principal = who\<rparr>; key = derivedId p i in
        sbind (encrypt p value i) (\<lambda>c.
          let data = [(''envVar'', JStr name), (''ciphertext'', JStr (se_ciphertext c)), (''iv'', JStr (se_iv c)),
                      (''authTag'', JStr (se_authTag c)), (''keyId'', JStr (se_keyId c)), (''expiresAt'', JNum expiresAt)] @
                     opt_entry ''principal'' who
          in sbind (get_by_id ad key) (\<lambda>found.
               if found \<noteq> None then on_adapter (ad_update ad DERIVED_ENTITY_TYPE key data)
               else sbind (on_adapter (ad_create ad DERIVED_ENTITY_TYPE ((''id'', JStr key) # data))) (\<lambda>_ s. (Inr (), s)))) s)"

definition takeDerived :: "platform \<Rightarrow> ('a, 'e) adapter \<Rightarrow> string \<Rightarrow> string option \<Rightarrow> js_number \<Rightarrow>
    'a cred_store \<Rightarrow> ('e cred_error + string option) \<times> 'a cred_store" where
  "takeDerived p ad name who now s =
     (if \<not> sharesDerived ad s then (Inr None, s)
      else let i = \<lparr>id_name = name, id_principal = who\<rparr>; key = derivedId p i in
        sbind (get_by_id ad key) (\<lambda>found. case found of
            None \<Rightarrow> (\<lambda>s. (Inr None, s))
          | Some row \<Rightarrow>
              sbind (case (ad_conditional ad DERIVED_ENTITY_TYPE, ad_deleteWhere ad) of
                  (True, Some deleteWhere) \<Rightarrow> on_adapter (deleteWhere DERIVED_ENTITY_TYPE key)
                | _ \<Rightarrow> sbind (on_adapter (ad_delete ad DERIVED_ENTITY_TYPE key)) (\<lambda>_ s. (Inr True, s)))
              (\<lambda>deleted s.
                if \<not> deleted then (Inr None, s)
                else case (obj_get row ''expiresAt'', obj_get row ''ciphertext'',
                    nonempty_string (obj_get row ''iv''), nonempty_string (obj_get row ''authTag'')) of
                  (Some (JNum expiresAt), Some (JStr ciphertext), Some iv, Some authTag) \<Rightarrow>
                    (if num_le expiresAt now then (Inr None, s)
                     else (decryptRow p s ciphertext iv authTag (nonempty_string (obj_get row ''keyId'')) i, s))
                | _ \<Rightarrow> (Inr None, s))) s)"

end
