(* ===== verification/CredentialRows.thy ===== *)
theory CredentialRows
  imports Credentials
begin

text \<open>
  What \<open>CredentialStore\<close> relies on and what follows: the laws of the platform's cipher and codecs
  (\<open>platform_ok\<close>), the contract of the row adapter (the locale \<open>credential_rows\<close>: reads give the
  rows kept, an update merges into the row of its id, a create appends), and, proved from the
  contract alone, that the store's memory is what a restart would load and that a rotation lets
  the previous master key be retired.
\<close>

section \<open>The platform\<close>

definition platform_ok :: "platform \<Rightarrow> bool" where
  "platform_ok p \<longleftrightarrow>
     (\<forall>key iv aad x. pl_open p key iv aad (pl_seal p key iv aad x) = Some x \<and>
        TAG_BYTES \<le> length (pl_seal p key iv aad x)) \<and>
     (\<forall>t. pl_decode p (pl_encode p t) = t) \<and> (\<forall>n k. length (pl_random p n k) = k) \<and> inj (pl_storageKey p)"

lemma decrypt_seal:
  assumes "platform_ok p"
  shows "decryptWithKey p key (se_ciphertext (seal_with p key iv i v)) (se_iv (seal_with p key iv i v))
    (se_authTag (seal_with p key iv i v)) i = Some v"
  using assms by (simp add: decryptWithKey_def seal_with_def Let_def platform_ok_def)

lemma seal_fields:
  assumes "platform_ok p"
  shows "iv \<noteq> [] \<Longrightarrow> se_iv (seal_with p key iv i v) \<noteq> ''''" "se_authTag (seal_with p key iv i v) \<noteq> ''''"
    "se_keyId (seal_with p key iv i v) = keyIdOf p key"
proof -
  have "TAG_BYTES \<le> length (pl_seal p (fromHex key) iv (additional_data p i) (pl_encode p v))"
    using assms by (simp add: platform_ok_def)
  then show "se_authTag (seal_with p key iv i v) \<noteq> ''''"
    by (auto simp: seal_with_def Let_def TAG_BYTES_def)
qed (simp_all add: seal_with_def Let_def)

lemma try_keys_append: "try_keys f (xs @ ys) = (case try_keys f xs of Some v \<Rightarrow> Some v | None \<Rightarrow> try_keys f ys)"
  by (induction xs) (auto split: option.splits)

section \<open>Rows\<close>

text \<open>A row of texts and numbers, as every row of the store is.\<close>

definition flat_row :: "jobj \<Rightarrow> bool" where
  "flat_row row \<longleftrightarrow> distinct (map fst row) \<and>
     list_all (\<lambda>(k, v). case v of JStr _ \<Rightarrow> True | JNum _ \<Rightarrow> True | _ \<Rightarrow> False) row"

lemma flat_update:
  assumes "flat_row row" and "case v of JStr _ \<Rightarrow> True | JNum _ \<Rightarrow> True | _ \<Rightarrow> False"
  shows "flat_row (AList.update k v row)"
proof -
  have "set (AList.update k v row) \<subseteq> insert (k, v) (set row)" by (induction row) auto
  then show ?thesis using assms distinct_update [of row k v] by (auto simp: flat_row_def list_all_iff)
qed

lemma flat_update_JStr [simp]: "flat_row row \<Longrightarrow> flat_row (AList.update k (JStr v) row)"
  by (simp add: flat_update)

lemma flat_spread:
  assumes "flat_row row" and "flat_row d"
  shows "flat_row (spread row d)"
proof -
  have "flat_row (fold (\<lambda>(k, v). AList.update k v) d row)"
    using assms
  proof (induction d arbitrary: row)
    case (Cons kv d)
    obtain k v where kv: "kv = (k, v)" by (cases kv)
    have v: "case v of JStr _ \<Rightarrow> True | JNum _ \<Rightarrow> True | _ \<Rightarrow> False" and d: "flat_row d"
      using Cons.prems kv by (simp_all add: flat_row_def)
    have "flat_row (fold (\<lambda>(k, v). AList.update k v) d (AList.update k v row))"
      using Cons.IH flat_update [OF Cons.prems(1) v] d by blast
    then show ?case by (simp add: kv)
  qed simp
  then show ?thesis by (simp add: spread_def)
qed

definition row_id :: "jobj \<Rightarrow> jval option" where
  "row_id row = obj_get row ''id''"

definition merge_row :: "string \<Rightarrow> jobj \<Rightarrow> jobj \<Rightarrow> jobj" where
  "merge_row i d row = (if row_id row = Some (JStr i) then AList.update ''id'' (JStr i) (spread row d) else row)"

lemma row_id_merge [simp]: "row_id (merge_row i d row) = row_id row"
  by (simp add: merge_row_def row_id_def obj_get_def)

lemma merge_only:
  assumes "distinct (map row_id (A @ r # B))" and "row_id r = Some (JStr i)"
  shows "map (merge_row i d) (A @ r # B) = A @ merge_row i d r # B"
proof -
  have "row_id x \<noteq> Some (JStr i)" if "x \<in> set A \<union> set B" for x
    using assms that by (auto simp: image_iff)
  then show ?thesis by (auto simp: merge_row_def map_idI)
qed

section \<open>Memory and rows\<close>

definition loaded :: "platform \<Rightarrow> 'a cred_store \<Rightarrow> jobj list \<Rightarrow> string \<Rightarrow> stored_credential option" where
  "loaded p s rows = map_of (rev (List.map_filter (warm_row p s) rows))"

lemma warm_rows_loaded: "map_of (warm_rows p s rows) = loaded p s rows"
  by (rule ext) (auto simp: warm_rows_def loaded_def map_of_fold_update split: option.splits)

lemma map_filter_append: "List.map_filter f (xs @ ys) = List.map_filter f xs @ List.map_filter f ys"
  by (simp add: List.map_filter_def)

lemma map_filter_Cons: "List.map_filter f (x # xs) = (case f x of None \<Rightarrow> [] | Some y \<Rightarrow> [y]) @ List.map_filter f xs"
  by (auto simp: List.map_filter_def split: option.splits)

lemma loaded_append:
  "loaded p s (A @ r # B) k =
     (case loaded p s B k of Some e \<Rightarrow> Some e
      | None \<Rightarrow> (case warm_row p s r of
          Some (k', e) \<Rightarrow> if k' = k then Some e else loaded p s A k
        | None \<Rightarrow> loaded p s A k))"
  by (auto simp: loaded_def map_filter_append map_filter_Cons map_add_def split: option.splits)

lemma loaded_last:
  assumes "loaded p s rows k = Some e"
  obtains A r B where "rows = A @ r # B" and "warm_row p s r = Some (k, e)" and "loaded p s B k = None"
  using assms
proof (induction rows arbitrary: thesis rule: rev_induct)
  case Nil
  then show ?case by (simp add: loaded_def)
next
  case (snoc x rows)
  show ?case
  proof (cases "warm_row p s x")
    case (Some ke)
    show ?thesis
    proof (cases "fst ke = k")
      case True
      then show ?thesis
        using snoc.prems loaded_append [of p s rows x "[]" k] Some by (auto simp: loaded_def [of _ _ "[]"] map_filter_def split: prod.splits)
    next
      case False
      then obtain A r B where "rows = A @ r # B" "warm_row p s r = Some (k, e)" "loaded p s B k = None"
        using snoc loaded_append [of p s rows x "[]" k] Some by (auto simp: loaded_def [of _ _ "[]"] map_filter_def split: prod.splits)
      then show ?thesis using snoc.prems(1) [of A r "B @ [x]"] loaded_append [of p s B x "[]" k] Some False
        by (auto simp: loaded_def [of _ _ "[]"] map_filter_def split: prod.splits)
    qed
  next
    case None
    then obtain A r B where "rows = A @ r # B" "warm_row p s r = Some (k, e)" "loaded p s B k = None"
      using snoc loaded_append [of p s rows x "[]" k] by (auto simp: loaded_def [of _ _ "[]"] map_filter_def)
    then show ?thesis using snoc.prems(1) [of A r "B @ [x]"] loaded_append [of p s B x "[]" k] None
      by (auto simp: loaded_def [of _ _ "[]"] map_filter_def)
  qed
qed

lemma warm_row_keys:
  assumes "cr_master s = cr_master s'" and "cr_previous s = cr_previous s'"
  shows "warm_row p s = warm_row p s'"
  unfolding fun_eq_iff warm_row_def decryptRow_def assms by blast

lemma loaded_keys:
  assumes "cr_master s = cr_master s'" and "cr_previous s = cr_previous s'"
  shows "loaded p s = loaded p s'"
  by (simp add: loaded_def warm_row_keys [OF assms] fun_eq_iff)

text \<open>The memory is what loading the rows gives.\<close>

definition in_step :: "platform \<Rightarrow> 'a cred_store \<Rightarrow> jobj list \<Rightarrow> bool" where
  "in_step p s rs \<longleftrightarrow> cr_warmed s \<and> map_of (cr_byIdentity s) = loaded p s rs"

section \<open>A row that was just written\<close>

lemma nonempty_string_JStr: "nonempty_string x = Some t \<longleftrightarrow> x = Some (JStr t) \<and> t \<noteq> ''''"
  by (cases x rule: nonempty_string.cases) auto

lemma nonempty_opt [simp]: "who \<noteq> Some '''' \<Longrightarrow> nonempty_string (map_option JStr who) = who"
  by (cases who) auto

lemma try_master:
  assumes "f m = Some v"
  shows "try_keys f ([m] @ ks) = Some v"
  using assms by simp

lemma read_row_iff:
  "read_row row = Some r \<longleftrightarrow>
     obj_get row ''id'' = Some (JStr (rw_id r)) \<and> rw_id r \<noteq> '''' \<and>
     obj_get row ''service'' = Some (JStr (rw_service r)) \<and> rw_service r \<noteq> '''' \<and>
     obj_get row ''envVar'' = Some (JStr (id_name (rw_identity r))) \<and> id_name (rw_identity r) \<noteq> '''' \<and>
     obj_get row ''ciphertext'' = Some (JStr (rw_ciphertext r)) \<and>
     obj_get row ''iv'' = Some (JStr (rw_iv r)) \<and> rw_iv r \<noteq> '''' \<and>
     obj_get row ''authTag'' = Some (JStr (rw_authTag r)) \<and> rw_authTag r \<noteq> '''' \<and>
     obj_get row ''principal'' = map_option JStr (id_principal (rw_identity r)) \<and> id_principal (rw_identity r) \<noteq> Some '''' \<and>
     rw_keyId r = nonempty_string (obj_get row ''keyId'')"
proof -
  have n: "nonempty_string x = None \<longleftrightarrow> (\<forall>t. x \<noteq> Some (JStr t) \<or> t = '''')" for x
    by (cases x rule: nonempty_string.cases) auto
  show ?thesis
    by (cases r; cases "rw_identity r")
      (auto simp: read_row_def nonempty_string_JStr n split: option.splits jval.splits prod.splits)
qed

lemma written_row:
  assumes ok: "platform_ok p" and m: "cr_master s = Some m"
    and c: "c = seal_with p m (pl_random p n IV_BYTES) \<lparr>id_name = envVar, id_principal = who\<rparr> v"
    and ids: "service \<noteq> ''''" "envVar \<noteq> ''''" "i \<noteq> ''''" "who \<noteq> Some ''''"
    and row: "obj_get row ''id'' = Some (JStr i)" "obj_get row ''service'' = Some (JStr service)"
      "obj_get row ''envVar'' = Some (JStr envVar)" "obj_get row ''ciphertext'' = Some (JStr (se_ciphertext c))"
      "obj_get row ''iv'' = Some (JStr (se_iv c))" "obj_get row ''authTag'' = Some (JStr (se_authTag c))"
      "obj_get row ''keyId'' = Some (JStr (se_keyId c))" "obj_get row ''updatedAt'' = Some (JNum now)"
      "obj_get row ''principal'' = map_option JStr who" "nonempty_string (obj_get row ''label'') = kept"
  shows "warm_row p s row = Some (pl_storageKey p \<lparr>id_name = envVar, id_principal = who\<rparr>,
     \<lparr>ce_service = service, ce_envVar = envVar, ce_last4 = last4 v, ce_updatedAt = now, ce_principal = who,
      sc_id = i, sc_value = v, sc_label = kept\<rparr>)"
proof -
  let ?i = "\<lparr>id_name = envVar, id_principal = who\<rparr>"
  have "length (pl_random p n IV_BYTES) = 12" using ok by (simp add: platform_ok_def IV_BYTES_def)
  then have iv: "pl_random p n IV_BYTES \<noteq> []" by auto
  have r: "read_row row = Some \<lparr>rw_id = i, rw_service = service, rw_identity = ?i, rw_ciphertext = se_ciphertext c,
      rw_iv = se_iv c, rw_authTag = se_authTag c, rw_keyId = nonempty_string (Some (JStr (se_keyId c)))\<rparr>"
    using row ids seal_fields [OF ok] iv c by (simp add: read_row_iff del: nonempty_string.simps)
  have "try_keys (\<lambda>key. decryptWithKey p key (se_ciphertext c) (se_iv c) (se_authTag c) ?i)
      (candidates p m prev (nonempty_string (Some (JStr (se_keyId c))))) = Some v" for prev
    using decrypt_seal [OF ok, of m "pl_random p n IV_BYTES" ?i v] by (simp add: c candidates_def seal_fields(3) [OF ok])
  then show ?thesis
    by (simp add: warm_row_def r decryptRow_def m row)
qed

lemma row_data_keys: "distinct (map fst (row_data service envVar c now who))"
  "distinct (map fst (row_data service envVar c now who @ opt_entry ''label'' lab))"
  by (auto simp: row_data_def opt_entry_def split: option.splits)

lemma flat_row_data [simp]: "flat_row (row_data service envVar c now who @ opt_entry ''label'' lab)"
  "flat_row (row_data service envVar c now who)"
  by (auto simp: row_data_def opt_entry_def flat_row_def split: option.splits)

lemma row_data_get:
  "map_of (row_data service envVar c now who @ opt_entry ''label'' lab) k =
     (if k = ''service'' then Some (JStr service) else if k = ''envVar'' then Some (JStr envVar)
      else if k = ''ciphertext'' then Some (JStr (se_ciphertext c)) else if k = ''iv'' then Some (JStr (se_iv c))
      else if k = ''authTag'' then Some (JStr (se_authTag c)) else if k = ''keyId'' then Some (JStr (se_keyId c))
      else if k = ''updatedAt'' then Some (JNum now) else if k = ''principal'' then map_option JStr who
      else if k = ''label'' then map_option JStr lab else None)"
  by (auto simp: row_data_def opt_entry_def split: option.splits)

lemma spread_row_data:
  "map_of (spread r (row_data service envVar c now who @ opt_entry ''label'' lab)) k =
     (case map_of (row_data service envVar c now who @ opt_entry ''label'' lab) k of None \<Rightarrow> map_of r k | Some v \<Rightarrow> Some v)"
  by (rule map_of_spread) (rule row_data_keys)

lemmas row_data_gets = row_data_get row_data_get [unfolded map_of_append]

lemma warm_row_Some:
  "warm_row p s row = Some ke \<longleftrightarrow>
    (\<exists>r v. read_row row = Some r \<and>
       (decryptRow p s (rw_ciphertext r) (rw_iv r) (rw_authTag r) (rw_keyId r) (rw_identity r) :: unit cred_error + string option)
         = Inr (Some v) \<and>
       ke = (pl_storageKey p (rw_identity r),
         \<lparr>ce_service = rw_service r, ce_envVar = id_name (rw_identity r), ce_last4 = last4 v,
          ce_updatedAt = (case obj_get row ''updatedAt'' of Some (JNum t) \<Rightarrow> t | _ \<Rightarrow> Fin 0),
          ce_principal = id_principal (rw_identity r), sc_id = rw_id r, sc_value = v,
          sc_label = nonempty_string (obj_get row ''label'')\<rparr>))"
  unfolding warm_row_def bind_eq_Some_conv
  by (rule iffI; elim exE conjE) (auto split: sum.splits option.splits)

lemma warm_row_id: "warm_row p s r = Some (k, e) \<Longrightarrow> row_id r = Some (JStr (sc_id e)) \<and> sc_id e \<noteq> ''''"
  by (auto simp: warm_row_Some row_id_def read_row_iff)

lemma identity_eta [simp]: "\<lparr>id_name = id_name i, id_principal = id_principal i\<rparr> = (i :: identity)"
  by (cases i) simp

lemma warm_row_facts:
  assumes "warm_row p s r = Some (k, e)"
  shows "k = pl_storageKey p \<lparr>id_name = ce_envVar e, id_principal = ce_principal e\<rparr>"
    "obj_get r ''principal'' = map_option JStr (ce_principal e)"
    "nonempty_string (obj_get r ''label'') = sc_label e"
  using assms by (auto simp: warm_row_Some read_row_iff)

lemma map_sum_Inr [simp]: "map_sum f id x = Inr y \<longleftrightarrow> x = Inr y" "Inr y = map_sum f id x \<longleftrightarrow> x = Inr y"
  by (cases x; auto)+

text \<open>An adapter that keeps the credential rows.\<close>

locale credential_rows =
  fixes ad :: "('a, 'e) adapter" and rows :: "'a \<Rightarrow> jobj list" and keeps :: "jobj list \<Rightarrow> bool"
  assumes list_law: "ad_list ad CREDENTIAL_ENTITY_TYPE a = Inr (rows a)"
    and update_law: "ad_update ad CREDENTIAL_ENTITY_TYPE i d a = (Inr u, a') \<Longrightarrow>
      keeps (map (merge_row i d) (rows a)) \<Longrightarrow> rows a' = map (merge_row i d) (rows a)"
    and create_law: "ad_create ad CREDENTIAL_ENTITY_TYPE d a = (Inr i, a') \<Longrightarrow>
      i \<noteq> '''' \<and> (keeps (rows a @ [AList.update ''id'' (JStr i) d]) \<longrightarrow> rows a' = rows a @ [AList.update ''id'' (JStr i) d])"
    and delete_law: "ad_delete ad CREDENTIAL_ENTITY_TYPE i a = (Inr u, a') \<Longrightarrow>
      keeps (filter (\<lambda>r. row_id r \<noteq> Some (JStr i)) (rows a)) \<Longrightarrow>
      rows a' = filter (\<lambda>r. row_id r \<noteq> Some (JStr i)) (rows a)"
begin

abbreviation rows_of :: "'a cred_store \<Rightarrow> jobj list" where
  "rows_of s \<equiv> rows (cr_adapter s)"

lemma warm_in_step:
  assumes "cr_master s \<noteq> None"
  shows "\<exists>n s'. warm p ad s = (Inr n, s') \<and> in_step p s' (rows_of s) \<and> cr_adapter s' = cr_adapter s \<and>
    cr_master s' = cr_master s \<and> cr_previous s' = cr_previous s"
proof -
  let ?s1 = "s\<lparr>cr_byIdentity := [], cr_warmed := True\<rparr>"
  have "warm p ad s = (Inr (length (warm_rows p ?s1 (rows_of s))), ?s1\<lparr>cr_byIdentity := warm_rows p ?s1 (rows_of s)\<rparr>)"
    using assms by (auto simp: warm_def Let_def enabled_def sbind_def list_rows_def list_law)
  moreover have "loaded p ?s1 = loaded p s" "loaded p (?s1\<lparr>cr_byIdentity := x\<rparr>) = loaded p s" for x
    by (rule loaded_keys; simp)+
  ultimately show ?thesis by (simp add: in_step_def warm_rows_loaded)
qed

lemma set_in_step:
  assumes ok: "platform_ok p" and names: "service \<noteq> ''''" "envVar \<noteq> ''''"
    and keeps: "\<And>rs. list_all flat_row rs \<Longrightarrow> keeps rs" and flat: "list_all flat_row (rows_of s)" and step: "in_step p s (rows_of s)"
    and ids: "distinct (map row_id (rows_of s))"
    and run: "set_credential p ad now service envVar v who lab s = (Inr out, s')"
  shows "in_step p s' (rows_of s') \<and>
    cr_byIdentity s' = AList.update (pl_storageKey p \<lparr>id_name = envVar, id_principal = who\<rparr>)
      \<lparr>ce_service = service, ce_envVar = envVar, ce_last4 = last4 v, ce_updatedAt = now, ce_principal = who,
       sc_id = sc_id (the (map_of (cr_byIdentity s') (pl_storageKey p \<lparr>id_name = envVar, id_principal = who\<rparr>))),
       sc_value = v, sc_label = (case lab of Some l \<Rightarrow> Some l | None \<Rightarrow> label p s envVar who)\<rparr> (cr_byIdentity s)"
proof -
  let ?i = "\<lparr>id_name = envVar, id_principal = who\<rparr>"
  let ?k = "pl_storageKey p ?i"
  obtain m where m: "cr_master s = Some m" and who: "who \<noteq> Some ''''" and lab: "lab \<noteq> Some ''''"
    using run step by (cases "cr_master s")
      (auto simp: set_credential_def sbind_def warm_once_def in_step_def encrypt_def Let_def split: if_splits)
  define c where "c = seal_with p m (pl_random p (cr_draws s) IV_BYTES) ?i v"
  let ?d = "row_data service envVar c now who @ opt_entry ''label'' lab"
  define kept where "kept = (case lab of Some l \<Rightarrow> Some l | None \<Rightarrow> Option.bind (map_of (cr_byIdentity s) ?k) sc_label)"
  define entry where "entry = (\<lambda>i. \<lparr>ce_service = service, ce_envVar = envVar, ce_last4 = last4 v, ce_updatedAt = now,
      ce_principal = who, sc_id = i, sc_value = v, sc_label = kept\<rparr>)"
  have load: "loaded p s'' = loaded p s" if "cr_master s'' = cr_master s" "cr_previous s'' = cr_previous s" for s''
    using loaded_keys [OF that] .
  have "\<exists>i a'. s' = notify who (s\<lparr>cr_draws := Suc (cr_draws s), cr_adapter := a',
        cr_byIdentity := AList.update ?k (entry i) (cr_byIdentity s)\<rparr>) \<and>
      loaded p s (rows a') = (loaded p s (rows_of s))(?k \<mapsto> entry i)"
  proof (cases "map_of (cr_byIdentity s) ?k")
    case None
    then obtain i a' where create: "ad_create ad CREDENTIAL_ENTITY_TYPE ?d (cr_adapter s) = (Inr i, a')"
      and s': "s' = notify who (s\<lparr>cr_draws := Suc (cr_draws s), cr_adapter := a',
        cr_byIdentity := AList.update ?k (entry i) (cr_byIdentity s)\<rparr>)"
      using run step m who lab
      by (auto simp: set_credential_def sbind_def warm_once_def in_step_def encrypt_def Let_def on_adapter_def c_def
          entry_def kept_def split: if_splits prod.splits sum.splits cong: option.case_cong)
    let ?r = "AList.update ''id'' (JStr i) ?d"
    have rows': "rows a' = rows_of s @ [?r]" and i: "i \<noteq> ''''" using create_law [OF create] keeps flat by auto
    have "warm_row p s ?r = Some (?k, entry i)"
      unfolding entry_def
      by (rule written_row [OF ok m c_def names i who])
        (use lab None in \<open>simp_all add: obj_get_def row_data_gets kept_def split: option.splits\<close>)
    then have "loaded p s (rows a') = (loaded p s (rows_of s))(?k \<mapsto> entry i)"
      by (auto simp: rows' fun_eq_iff loaded_append [where B = "[]"] loaded_def [of _ _ "[]"] List.map_filter_def)
    with s' show ?thesis by blast
  next
    case (Some e)
    then obtain u a' where update: "ad_update ad CREDENTIAL_ENTITY_TYPE (sc_id e) ?d (cr_adapter s) = (Inr u, a')"
      and s': "s' = notify who (s\<lparr>cr_draws := Suc (cr_draws s), cr_adapter := a',
        cr_byIdentity := AList.update ?k (entry (sc_id e)) (cr_byIdentity s)\<rparr>)"
      using run step m who lab
      by (auto simp: set_credential_def sbind_def warm_once_def in_step_def encrypt_def Let_def on_adapter_def c_def
          entry_def kept_def split: if_splits prod.splits sum.splits cong: option.case_cong)
    have "loaded p s (rows_of s) ?k = Some e" using step Some by (simp add: in_step_def)
    then obtain A r B where split: "rows_of s = A @ r # B" and r: "warm_row p s r = Some (?k, e)"
      and last: "loaded p s B ?k = None"
      by (rule loaded_last)
    note rid = warm_row_id [OF r] and facts = warm_row_facts [OF r]
    have same: "ce_envVar e = envVar" "ce_principal e = who"
      using facts(1) ok by (auto simp: platform_ok_def dest: injD)
    let ?r = "AList.update ''id'' (JStr (sc_id e)) (spread r ?d)"
    have merged: "merge_row (sc_id e) ?d r = ?r" using rid by (simp add: merge_row_def)
    have rows': "rows a' = A @ ?r # B"
      using update_law [OF update] keeps flat flat_spread [of r ?d] merge_only [of A r B] ids rid split merged by simp
    have "warm_row p s ?r = Some (?k, entry (sc_id e))"
      unfolding entry_def
      by (rule written_row [OF ok m c_def names _ who])
        (use lab Some rid facts(2,3) same in \<open>simp_all add: obj_get_def spread_row_data row_data_gets kept_def split: option.splits\<close>)
    then have "loaded p s (rows a') = (loaded p s (rows_of s))(?k \<mapsto> entry (sc_id e))"
      unfolding rows' split by (intro ext) (simp add: loaded_append [of p s A] last r split: option.split)
    with s' show ?thesis by blast
  qed
  then obtain i a' where s': "s' = notify who (s\<lparr>cr_draws := Suc (cr_draws s), cr_adapter := a',
        cr_byIdentity := AList.update ?k (entry i) (cr_byIdentity s)\<rparr>)"
    and a': "loaded p s (rows a') = (loaded p s (rows_of s))(?k \<mapsto> entry i)" by blast
  have "in_step p s' (rows_of s')"
    using step a' load [of s'] by (auto simp: in_step_def s' notify_def fun_eq_iff)
  moreover have "label p s envVar who = Option.bind (map_of (cr_byIdentity s) ?k) sc_label"
    by (simp add: label_def lookup_def)
  ultimately show ?thesis by (simp add: s' notify_def entry_def kept_def cong: option.case_cong)
qed

end

text \<open>What a row is worth, but for its date.\<close>

definition worth :: "platform \<Rightarrow> 'a cred_store \<Rightarrow> jobj \<Rightarrow> (string \<times> stored_credential) option" where
  "worth p s row = map_option (apsnd (\<lambda>e. e\<lparr>ce_updatedAt := Fin 0\<rparr>)) (warm_row p s row)"

definition rotation_sum :: "rotation \<Rightarrow> nat" where
  "rotation_sum n = ro_rotated n + ro_alreadyCurrent n + ro_unreadable n"

lemma candidates_fewer:
  "try_keys f (candidates p m None k) = Some v \<Longrightarrow> try_keys f (candidates p m q k) = Some v"
  by (auto simp: candidates_def split: if_splits option.splits)

lemma candidates_current:
  assumes "\<And>q'. q = Some q' \<Longrightarrow> keyIdOf p q' = keyIdOf p m \<Longrightarrow> q' = m"
  shows "try_keys f (candidates p m q (Some (keyIdOf p m))) = f m"
  using assms by (auto simp: candidates_def split: option.splits)

context credential_rows
begin

text \<open>Reading a row again when only its stamp or nothing has changed.\<close>

lemma worth_restamped:
  assumes "read_row r = Some w" and "cr_master s = Some m"
    and "try_keys (\<lambda>k. decryptWithKey p k (rw_ciphertext w) (rw_iv w) (rw_authTag w) (rw_identity w))
      (candidates p m (cr_previous s) (rw_keyId w)) = Some v"
    and "decryptWithKey p m (rw_ciphertext w) (rw_iv w) (rw_authTag w) (rw_identity w) = Some v"
    and "\<And>k. k \<noteq> ''keyId'' \<Longrightarrow> obj_get r' k = obj_get r k"
    and "nonempty_string (obj_get r' ''keyId'') \<in> {None, Some (keyIdOf p m)}"
  shows "worth p (s\<lparr>cr_previous := None\<rparr>) r' = worth p s r"
proof -
  have w': "read_row r' = Some (w\<lparr>rw_keyId := nonempty_string (obj_get r' ''keyId'')\<rparr>)"
    using assms(1,5) by (simp add: read_row_iff)
  have "try_keys (\<lambda>k. decryptWithKey p k (rw_ciphertext w) (rw_iv w) (rw_authTag w) (rw_identity w))
      (candidates p m None (nonempty_string (obj_get r' ''keyId''))) = Some v"
    using assms(4,6) by (auto simp: candidates_def)
  then show ?thesis
    using assms(1-3,5) by (simp add: worth_def warm_row_def decryptRow_def w')
qed

end

lemma worth_unreadable:
  assumes "cr_master s = Some m"
    and "\<And>w. read_row r = Some w \<Longrightarrow> try_keys (\<lambda>k. decryptWithKey p k (rw_ciphertext w) (rw_iv w) (rw_authTag w) (rw_identity w))
      (candidates p m (cr_previous s) (rw_keyId w)) = None"
  shows "worth p (s\<lparr>cr_previous := None\<rparr>) r = worth p s r"
proof (cases "read_row r")
  case (Some w)
  have "try_keys (\<lambda>k. decryptWithKey p k (rw_ciphertext w) (rw_iv w) (rw_authTag w) (rw_identity w))
      (candidates p m None (rw_keyId w)) = None"
    using assms(2) [OF Some] by (metis candidates_fewer not_None_eq)
  with assms(2) [OF Some] Some assms(1) show ?thesis by (simp add: worth_def warm_row_def decryptRow_def)
qed (simp add: worth_def warm_row_def)

text \<open>What one turn of the loop in \<open>rotate\<close> does to the row it is at.\<close>

definition turned :: "platform \<Rightarrow> 'a cred_store \<Rightarrow> 'a cred_store \<Rightarrow> rotation \<Rightarrow> rotation \<Rightarrow> jobj \<Rightarrow> jobj \<Rightarrow> bool" where
  "turned p s s' n n' r r' \<longleftrightarrow> row_id r' = row_id r \<and> flat_row r' \<and>
     worth p (s\<lparr>cr_previous := None\<rparr>) r' = worth p s r \<and>
     cr_master s' = cr_master s \<and> cr_previous s' = cr_previous s \<and> rotation_sum n' = Suc (rotation_sum n)"

lemma worth_rewritten:
  assumes ok: "platform_ok p" and m: "cr_master s = Some m" and w: "read_row r = Some w"
    and v: "try_keys (\<lambda>k. decryptWithKey p k (rw_ciphertext w) (rw_iv w) (rw_authTag w) (rw_identity w))
      (candidates p m (cr_previous s) (rw_keyId w)) = Some v"
    and c: "c = seal_with p m (pl_random p k IV_BYTES) (rw_identity w) v"
  shows "worth p (s\<lparr>cr_previous := None\<rparr>)
      (AList.update ''id'' (JStr (rw_id w))
        (spread r (row_data (rw_service w) (id_name (rw_identity w)) c now (id_principal (rw_identity w))))) = worth p s r"
    (is "worth p ?s ?r = _")
proof -
  note get = spread_row_data [of r _ _ _ _ _ None, unfolded opt_entry_def option.case append_Nil2]
    row_data_get [where lab = None, unfolded opt_entry_def option.case append_Nil2]
  note fields = w [unfolded read_row_iff]
  have "warm_row p ?s ?r = Some (pl_storageKey p \<lparr>id_name = id_name (rw_identity w), id_principal = id_principal (rw_identity w)\<rparr>,
     \<lparr>ce_service = rw_service w, ce_envVar = id_name (rw_identity w), ce_last4 = last4 v, ce_updatedAt = now,
      ce_principal = id_principal (rw_identity w), sc_id = rw_id w, sc_value = v,
      sc_label = nonempty_string (obj_get r ''label'')\<rparr>)"
    by (rule written_row [OF ok, where c = c and m = m])
      (use fields m c in \<open>simp_all add: obj_get_def get split: option.splits\<close>)
  then show ?thesis using w v m by (simp add: worth_def warm_row_def [of p s] decryptRow_def)
qed

context credential_rows
begin

lemma rotate_row_turned:
  assumes ok: "platform_ok p" and m: "cr_master s = Some m"
    and keyids: "\<And>q. cr_previous s = Some q \<Longrightarrow> keyIdOf p q = keyIdOf p m \<Longrightarrow> q = m"
    and keeps: "\<And>rs. list_all flat_row rs \<Longrightarrow> keeps rs" and all: "list_all flat_row (rows_of s)"
    and at: "rows_of s = A @ r # B" and ids: "distinct (map row_id (rows_of s))"
    and run: "rotate_row p ad now (keyIdOf p m) r n s = (Inr n', s')"
  shows "\<exists>r'. rows_of s' = A @ r' # B \<and> turned p s s' n n' r r'"
proof -
  have flat: "flat_row r" using all at by simp
  show ?thesis
proof (cases "read_row r")
  case None
  with run have "s' = s" "n' = n\<lparr>ro_unreadable := Suc (ro_unreadable n)\<rparr>" by (auto simp: rotate_row_def)
  moreover have "worth p (s\<lparr>cr_previous := None\<rparr>) r = worth p s r" using None by (intro worth_unreadable [OF m]) simp
  ultimately show ?thesis using at flat by (auto simp: turned_def rotation_sum_def)
next
  case (Some w)
  let ?f = "\<lambda>k. decryptWithKey p k (rw_ciphertext w) (rw_iv w) (rw_authTag w) (rw_identity w)"
  have wid: "row_id r = Some (JStr (rw_id w))" using Some by (simp add: read_row_iff row_id_def)
  have put: "rows a' = A @ merge_row (rw_id w) d r # B"
    if "ad_update ad CREDENTIAL_ENTITY_TYPE (rw_id w) d (cr_adapter s) = (Inr u, a')" and "flat_row d" for d u a'
    using update_law [OF that(1)] keeps all flat_spread [OF flat that(2)] merge_only [of A r B] ids wid at
    by (simp add: merge_row_def)
  show ?thesis
  proof (cases "try_keys ?f (candidates p m (cr_previous s) (rw_keyId w))")
    case None
    with run Some m have "s' = s" "n' = n\<lparr>ro_unreadable := Suc (ro_unreadable n)\<rparr>"
      by (auto simp: rotate_row_def sbind_def decryptRow_def Let_def)
    moreover have "worth p (s\<lparr>cr_previous := None\<rparr>) r = worth p s r"
      using None Some by (intro worth_unreadable [OF m]) simp
    ultimately show ?thesis using at flat by (auto simp: turned_def rotation_sum_def)
  next
    case v: (Some v)
    consider (current) "rw_keyId w = Some (keyIdOf p m)"
      | (legacy) "rw_keyId w = None" "?f m \<noteq> None"
      | (stale) "rw_keyId w \<noteq> Some (keyIdOf p m)" "rw_keyId w \<noteq> None \<or> ?f m = None" by blast
    then show ?thesis
    proof cases
      case current
      with run Some m v have "s' = s" "n' = n\<lparr>ro_alreadyCurrent := Suc (ro_alreadyCurrent n)\<rparr>"
        by (auto simp: rotate_row_def sbind_def decryptRow_def Let_def)
      moreover have "?f m = Some v" using v current candidates_current [OF keyids] by simp
      then have "worth p (s\<lparr>cr_previous := None\<rparr>) r = worth p s r"
        using Some current by (intro worth_restamped [OF Some m v]) (auto simp: read_row_iff)
      ultimately show ?thesis using at flat by (auto simp: turned_def rotation_sum_def)
    next
      case legacy
      let ?d = "AList.update ''keyId'' (JStr (keyIdOf p m)) r"
      have fm: "?f m = Some v" using v legacy by (auto simp: candidates_def split: option.splits)
      obtain a' where update: "ad_update ad CREDENTIAL_ENTITY_TYPE (rw_id w) ?d (cr_adapter s) = (Inr (), a')"
        and s': "s' = s\<lparr>cr_adapter := a'\<rparr>" and n': "n' = n\<lparr>ro_alreadyCurrent := Suc (ro_alreadyCurrent n)\<rparr>"
        using run Some m v legacy fm candidates_current [OF keyids, where f = ?f]
        by (auto simp: rotate_row_def sbind_def decryptRow_def Let_def on_adapter_def split: prod.splits sum.splits)
      let ?r = "AList.update ''id'' (JStr (rw_id w)) (spread r ?d)"
      have "distinct (map fst ?d)" using flat by (auto simp: flat_row_def intro: distinct_update)
      then have get: "obj_get ?r k = (if k = ''id'' then Some (JStr (rw_id w)) else if k = ''keyId'' then Some (JStr (keyIdOf p m)) else obj_get r k)" for k
        by (simp add: obj_get_def split: option.splits)
      have "worth p (s\<lparr>cr_previous := None\<rparr>) ?r = worth p s r"
        using wid by (intro worth_restamped [OF Some m v fm]) (auto simp: get row_id_def)
      moreover have "flat_row ?r" using flat by (simp add: flat_spread)
      ultimately show ?thesis
        using put [OF update] flat wid by (auto simp: s' n' turned_def rotation_sum_def merge_row_def row_id_def get)
    next
      case stale
      define c where "c = seal_with p m (pl_random p (cr_draws s) IV_BYTES) (rw_identity w) v"
      let ?d = "row_data (rw_service w) (id_name (rw_identity w)) c now (id_principal (rw_identity w))"
      obtain a' where update: "ad_update ad CREDENTIAL_ENTITY_TYPE (rw_id w) ?d (cr_adapter s) = (Inr (), a')"
        and s': "s' = s\<lparr>cr_draws := Suc (cr_draws s), cr_adapter := a'\<rparr>" and n': "n' = n\<lparr>ro_rotated := Suc (ro_rotated n)\<rparr>"
        using run Some m v stale candidates_current [OF keyids, where f = ?f]
        by (auto simp: rotate_row_def sbind_def decryptRow_def Let_def on_adapter_def encrypt_def c_def
            split: prod.splits sum.splits if_splits)
      let ?r = "AList.update ''id'' (JStr (rw_id w)) (spread r ?d)"
      have "worth p (s\<lparr>cr_previous := None\<rparr>) ?r = worth p s r"
        by (rule worth_rewritten [OF ok m Some v c_def])
      moreover have "flat_row ?r" using flat by (simp add: flat_spread)
      ultimately show ?thesis
        using put [OF update] wid by (auto simp: s' n' turned_def rotation_sum_def merge_row_def row_id_def obj_get_def)
    qed
  qed
qed
qed

end

lemma worth_keys:
  assumes "cr_master s = cr_master s'" and "cr_previous s = cr_previous s'"
  shows "worth p s = worth p s'"
  by (simp add: worth_def fun_eq_iff warm_row_keys [OF assms])

lemma loaded_worth:
  "map_option (\<lambda>e. e\<lparr>ce_updatedAt := Fin 0\<rparr>) (loaded p s rs k) = map_of (rev (List.map_filter (worth p s) rs)) k"
proof -
  have "List.map_filter (worth p s) rs = map (apsnd (\<lambda>e. e\<lparr>ce_updatedAt := Fin 0\<rparr>)) (List.map_filter (warm_row p s) rs)"
    by (induction rs) (auto simp: map_filter_Cons worth_def split: option.splits)
  moreover have "map_of (map (apsnd f) xs) k = map_option f (map_of xs k)" for f :: "stored_credential \<Rightarrow> stored_credential" and xs
    by (induction xs) auto
  ultimately show ?thesis by (simp add: loaded_def rev_map)
qed

lemma loaded_same_worth:
  assumes "list_all2 (\<lambda>r r'. worth p s' r' = worth p s r) rs rs'"
  shows "map_option (\<lambda>e. e\<lparr>ce_updatedAt := Fin 0\<rparr>) (loaded p s' rs' k) = map_option (\<lambda>e. e\<lparr>ce_updatedAt := Fin 0\<rparr>) (loaded p s rs k)"
proof -
  have "List.map_filter (worth p s') rs' = List.map_filter (worth p s) rs"
    using assms by (induction rule: list_all2_induct) (simp_all add: map_filter_Cons List.map_filter_def)
  then show ?thesis by (simp add: loaded_worth)
qed

context credential_rows
begin

lemma rotate_rows_turned:
  assumes ok: "platform_ok p" and "cr_master s = Some m"
    and "\<And>q. cr_previous s = Some q \<Longrightarrow> keyIdOf p q = keyIdOf p m \<Longrightarrow> q = m"
    and keeps: "\<And>rs. list_all flat_row rs \<Longrightarrow> keeps rs" and "list_all flat_row (A @ rs)"
    and "rows_of s = A @ rs" and "distinct (map row_id (A @ rs))"
    and "rotate_rows p ad now (keyIdOf p m) rs n s = (Inr n', s')"
  shows "\<exists>rs'. rows_of s' = A @ rs' \<and> list_all flat_row (A @ rs') \<and>
    list_all2 (\<lambda>r r'. worth p (s\<lparr>cr_previous := None\<rparr>) r' = worth p s r) rs rs' \<and>
    cr_master s' = cr_master s \<and> cr_previous s' = cr_previous s \<and>
    rotation_sum n' = rotation_sum n + length rs"
  using assms(2,3,5-)
proof (induction rs arbitrary: A n s)
  case Nil
  then show ?case by auto
next
  case (Cons r rs)
  from Cons.prems(6) obtain n1 s1 where turn: "rotate_row p ad now (keyIdOf p m) r n s = (Inr n1, s1)"
    and rest: "rotate_rows p ad now (keyIdOf p m) rs n1 s1 = (Inr n', s')" by (auto simp: sbind_Inr)
  obtain r' where at: "rows_of s1 = A @ r' # rs" and t: "turned p s s1 n n1 r r'"
    using rotate_row_turned [OF ok Cons.prems(1,2) keeps _ Cons.prems(4) _ turn] Cons.prems(3-5) by auto
  note t = t [unfolded turned_def]
  have keys: "worth p s1 = worth p s" "worth p (s1\<lparr>cr_previous := None\<rparr>) = worth p (s\<lparr>cr_previous := None\<rparr>)"
    by (rule worth_keys; use t in simp)+
  have "\<exists>rs'. rows_of s' = (A @ [r']) @ rs' \<and> list_all flat_row ((A @ [r']) @ rs') \<and>
    list_all2 (\<lambda>r r'. worth p (s1\<lparr>cr_previous := None\<rparr>) r' = worth p s1 r) rs rs' \<and>
    cr_master s' = cr_master s1 \<and> cr_previous s' = cr_previous s1 \<and> rotation_sum n' = rotation_sum n1 + length rs"
    by (rule Cons.IH) (use Cons.prems t at rest in auto)
  then obtain rs' where "rows_of s' = (A @ [r']) @ rs'" "list_all flat_row ((A @ [r']) @ rs')"
    "list_all2 (\<lambda>r r'. worth p (s1\<lparr>cr_previous := None\<rparr>) r' = worth p s1 r) rs rs'"
    "cr_master s' = cr_master s1" "cr_previous s' = cr_previous s1" "rotation_sum n' = rotation_sum n1 + length rs"
    by blast
  then show ?case using t keys by (intro exI [of _ "r' # rs'"]) auto
qed

lemma rotate_retires:
  assumes ok: "platform_ok p" and m: "cr_master s = Some m"
    and keyids: "\<And>q. cr_previous s = Some q \<Longrightarrow> keyIdOf p q = keyIdOf p m \<Longrightarrow> q = m"
    and keeps: "\<And>rs. list_all flat_row rs \<Longrightarrow> keeps rs" and flat: "list_all flat_row (rows_of s)"
    and ids: "distinct (map row_id (rows_of s))"
    and run: "rotate_credentials p ad now s = (Inr n, s')"
  shows "rotation_sum n = length (rows_of s) \<and> in_step p s' (rows_of s') \<and> cr_master s' = cr_master s \<and>
    map_option (\<lambda>e. e\<lparr>ce_updatedAt := Fin 0\<rparr>) (loaded p (s'\<lparr>cr_previous := None\<rparr>) (rows_of s') k)
      = map_option (\<lambda>e. e\<lparr>ce_updatedAt := Fin 0\<rparr>) (loaded p s (rows_of s) k)"
proof -
  let ?n0 = "\<lparr>ro_rotated = 0, ro_alreadyCurrent = 0, ro_unreadable = 0\<rparr>"
  obtain s1 i s2 where loop: "rotate_rows p ad now (keyIdOf p m) (rows_of s) ?n0 s = (Inr n, s1)"
    and warm: "warm p ad s1 = (Inr i, s2)" and s': "s' = notify None s2"
    using run m list_law
    by (auto simp: rotate_credentials_def sbind_Inr list_rows_def)
  obtain rs' where 1: "rows_of s1 = rs'" "list_all flat_row rs'"
    "list_all2 (\<lambda>r r'. worth p (s\<lparr>cr_previous := None\<rparr>) r' = worth p s r) (rows_of s) rs'"
    "cr_master s1 = cr_master s" "cr_previous s1 = cr_previous s" "rotation_sum n = rotation_sum ?n0 + length (rows_of s)"
    using rotate_rows_turned [OF ok m keyids keeps _ _ _ loop, of "[]"] flat ids by auto
  have 2: "in_step p s2 (rows_of s1)" "cr_adapter s2 = cr_adapter s1" "cr_master s2 = cr_master s1" "cr_previous s2 = cr_previous s1"
    using warm_in_step [of s1 p] 1 m warm by auto
  have load: "loaded p s' = loaded p s2" "loaded p (s'\<lparr>cr_previous := None\<rparr>) = loaded p (s\<lparr>cr_previous := None\<rparr>)"
    by (rule loaded_keys; use 1 2 in \<open>simp add: s' notify_def\<close>)+
  show ?thesis
    using 1 2 load loaded_same_worth [OF 1(3), of k]
    by (simp add: s' notify_def in_step_def rotation_sum_def)
qed

end

end
