(* ===== verification/ChromeRows.thy ===== *)
theory ChromeRows
  imports CredentialRows
begin

text \<open>
  The credential store of a browser profile (\<open>host/chrome/credentials.ts\<close>): the rows as one array
  under one key of \<open>chrome.storage\<close>, the master key under another. The storage area is its items;
  the schema \<open>EntityRowSchema.array()\<close> of \<open>@almadar/core\<close> is the parameter \<open>parse\<close>. The queue of
  \<open>chromeCredentialRows\<close> runs one change after another, so each change is one function here. The
  locale \<open>credential_rows\<close> is interpreted on these rows, which gives the store its properties.
\<close>

section \<open>The rows in the storage area\<close>

record chrome_area =
  ca_items :: "(string \<times> jval) list"
  ca_draws :: nat

definition CHROME_CREDENTIAL_ROWS_KEY :: string where
  "CHROME_CREDENTIAL_ROWS_KEY = ''almadar.credentials.rows''"

definition CHROME_CREDENTIAL_MASTER_KEY :: string where
  "CHROME_CREDENTIAL_MASTER_KEY = ''almadar.credentials.masterKey''"

type_synonym row_schema = "jval option \<Rightarrow> jobj list option"

definition chrome_read :: "row_schema \<Rightarrow> chrome_area \<Rightarrow> jobj list" where
  "chrome_read parse a = (case parse (map_of (ca_items a) CHROME_CREDENTIAL_ROWS_KEY) of Some rows \<Rightarrow> rows | None \<Rightarrow> [])"

definition chrome_write :: "jobj list \<Rightarrow> chrome_area \<Rightarrow> chrome_area" where
  "chrome_write rows a =
     a\<lparr>ca_items := AList.update CHROME_CREDENTIAL_ROWS_KEY (JArr (map JObj rows)) (ca_items a)\<rparr>"

text \<open>\<open>crypto.randomUUID\<close>: sixteen random bytes in five groups.\<close>

definition uuid_text :: "bytes \<Rightarrow> string" where
  "uuid_text b = join_with ''-'' [toHex (take 4 b), toHex (take 2 (drop 4 b)), toHex (take 2 (drop 6 b)),
     toHex (take 2 (drop 8 b)), toHex (drop 10 b)]"

definition chromeCredentialRows :: "platform \<Rightarrow> row_schema \<Rightarrow> (chrome_area, unit) adapter" where
  "chromeCredentialRows p parse =
     \<lparr>ad_list = \<lambda>entityType a. Inr (if entityType \<noteq> CREDENTIAL_ENTITY_TYPE then [] else chrome_read parse a),
      ad_create = \<lambda>entityType data a.
        (let i = uuid_text (pl_random p (ca_draws a) 16); a1 = a\<lparr>ca_draws := Suc (ca_draws a)\<rparr>
         in (Inr i, chrome_write (chrome_read parse a @ [AList.update ''id'' (JStr i) data]) a1)),
      ad_update = \<lambda>entityType i data a. (Inr (), chrome_write (map (merge_row i data) (chrome_read parse a)) a),
      ad_delete = \<lambda>entityType i a.
        (Inr (), chrome_write (filter (\<lambda>row. row_id row \<noteq> Some (JStr i)) (chrome_read parse a)) a),
      ad_getById = None, ad_conditional = \<lambda>entityType. False, ad_deleteWhere = None\<rparr>"

lemma chrome_read_write:
  "parse (Some (JArr (map JObj rs))) = Some rs \<Longrightarrow> chrome_read parse (chrome_write rs a) = rs"
  by (simp add: chrome_read_def chrome_write_def)

lemma chrome_draws [simp]: "chrome_read parse (a\<lparr>ca_draws := n\<rparr>) = chrome_read parse a"
  by (simp add: chrome_read_def)

lemma uuid_nonempty: "uuid_text b \<noteq> ''''"
  by (simp add: uuid_text_def)

interpretation chrome: credential_rows "chromeCredentialRows p parse" "chrome_read parse"
    "\<lambda>rs. parse (Some (JArr (map JObj rs))) = Some rs" for p parse
  by unfold_locales
    (auto simp: chromeCredentialRows_def Let_def uuid_nonempty chrome_read_write simp del: map_map)

section \<open>The store of a profile\<close>

definition randomMasterKey :: "platform \<Rightarrow> nat \<Rightarrow> string" where
  "randomMasterKey p n = toHex (pl_random p n 32)"

definition open_chrome_store :: "platform \<Rightarrow> row_schema \<Rightarrow> string \<Rightarrow> chrome_area \<Rightarrow> unit cred_error + chrome_area cred_store" where
  "open_chrome_store p parse key a =
     rbind (new_store (\<lambda>_. None) a (Some key) None) (\<lambda>s.
       case warm p (chromeCredentialRows p parse) s of (Inl e, s') \<Rightarrow> Inl e | (Inr _, s') \<Rightarrow> Inr s')"

definition store_master_key :: "string \<Rightarrow> chrome_area \<Rightarrow> chrome_area" where
  "store_master_key key a =
     a\<lparr>ca_items := AList.update CHROME_CREDENTIAL_MASTER_KEY (JObj [(''key'', JStr key)]) (ca_items a),
       ca_draws := Suc (ca_draws a)\<rparr>"

text \<open>\<open>None\<close>: the membership test throws on \<open>null\<close>. A browser has no environment variables.\<close>

definition createChromeCredentialStore :: "platform \<Rightarrow> row_schema \<Rightarrow> chrome_area \<Rightarrow> (unit cred_error + chrome_area cred_store) option" where
  "createChromeCredentialStore p parse a =
     (let mint = (let key = randomMasterKey p (ca_draws a) in Some (open_chrome_store p parse key (store_master_key key a)))
      in case map_of (ca_items a) CHROME_CREDENTIAL_MASTER_KEY of
           Some JNull \<Rightarrow> None
         | Some (JObj kvs) \<Rightarrow>
             (case obj_get kvs ''key'' of Some (JStr key) \<Rightarrow> Some (open_chrome_store p parse key a) | _ \<Rightarrow> mint)
         | _ \<Rightarrow> mint)"

lemma toHex_radix: "c \<in> set (toHex b) \<Longrightarrow> radix_digit c < 16"
proof (induction b)
  case (Cons x b)
  have "unat x < 2 ^ LENGTH(8)" by (rule unsigned_less)
  then have "unat x div 16 < 16" by simp
  with Cons show ?case using hex_char_facts(1) [of "unat x div 16"] hex_char_facts(1) [of "unat x mod 16"] by auto
qed simp

lemma minted_key: "platform_ok p \<Longrightarrow> master_key_shape (randomMasterKey p n)"
  using toHex_radix by (auto simp: master_key_shape_def randomMasterKey_def platform_ok_def list_all_iff)

definition chrome_master :: "chrome_area \<Rightarrow> string option" where
  "chrome_master a = (case map_of (ca_items a) CHROME_CREDENTIAL_MASTER_KEY of
     Some (JObj kvs) \<Rightarrow> (case obj_get kvs ''key'' of Some (JStr key) \<Rightarrow> Some key | _ \<Rightarrow> None) | _ \<Rightarrow> None)"

lemma chrome_keys_differ [simp]: "CHROME_CREDENTIAL_ROWS_KEY \<noteq> CHROME_CREDENTIAL_MASTER_KEY"
  by (simp add: CHROME_CREDENTIAL_ROWS_KEY_def CHROME_CREDENTIAL_MASTER_KEY_def)

lemma created_from:
  assumes "createChromeCredentialStore p parse a = Some r"
  obtains key a0 where "r = open_chrome_store p parse key a0" "chrome_master a0 = Some key"
    "chrome_read parse a0 = chrome_read parse a"
proof (cases "chrome_master a")
  case (Some key)
  then have "createChromeCredentialStore p parse a = Some (open_chrome_store p parse key a)"
    by (auto simp: createChromeCredentialStore_def chrome_master_def split: option.splits jval.splits)
  with Some assms that show ?thesis by auto
next
  case None
  let ?key = "randomMasterKey p (ca_draws a)"
  have "r = open_chrome_store p parse ?key (store_master_key ?key a)"
    using None assms by (auto simp: createChromeCredentialStore_def chrome_master_def Let_def split: option.splits jval.splits)
  moreover have "chrome_master (store_master_key ?key a) = Some ?key"
    "chrome_read parse (store_master_key ?key a) = chrome_read parse a"
    by (simp_all add: store_master_key_def chrome_master_def chrome_read_def obj_get_def)
  ultimately show ?thesis using that by blast
qed

lemma opened:
  assumes "open_chrome_store p parse key a = Inr s"
  shows "cr_warmed s \<and> cr_previous s = None \<and> cr_master s = (if master_key_shape key then Some key else None) \<and>
    cr_adapter s = a \<and> (cr_master s \<noteq> None \<longrightarrow> in_step p s (chrome_read parse a))"
proof -
  obtain s0 n where s0: "new_store (\<lambda>_. None) a (Some key) None = (Inr s0 :: unit cred_error + _)"
    and warm: "warm p (chromeCredentialRows p parse) s0 = (Inr n, s)"
  proof -
    from assms obtain s0 where s0: "new_store (\<lambda>_. None) a (Some key) None = (Inr s0 :: unit cred_error + _)"
      and w: "(case warm p (chromeCredentialRows p parse) s0 of (Inl e, s') \<Rightarrow> Inl e | (Inr _, s') \<Rightarrow> Inr s') = Inr s"
      unfolding open_chrome_store_def rbind_eq_Inr by blast
    from w obtain n where "warm p (chromeCredentialRows p parse) s0 = (Inr n, s)"
      by (cases "warm p (chromeCredentialRows p parse) s0") (auto split: sum.splits)
    with s0 that show thesis by blast
  qed
  have "cr_adapter s0 = a" "cr_previous s0 = None" "cr_master s0 = (if master_key_shape key then Some key else None)"
    using s0 by (auto simp: new_store_def Let_def split: if_splits)
  then show ?thesis
    using chrome.warm_in_step [where s = s0 and p = p and pa = p and parse = parse] warm
    by (cases "cr_master s0") (auto simp: warm_def Let_def enabled_def in_step_def split: if_splits)
qed

lemma open_profile:
  assumes "createChromeCredentialStore p parse a = Some (Inr s)" and "cr_master s \<noteq> None"
  shows "chrome_master (cr_adapter s) = cr_master s \<and> (\<forall>k. cr_master s = Some k \<longrightarrow> master_key_shape k) \<and>
    chrome_read parse (cr_adapter s) = chrome_read parse a \<and> cr_previous s = None \<and>
    in_step p s (chrome_read parse a)"
proof -
  obtain key a0 where "Inr s = open_chrome_store p parse key a0" "chrome_master a0 = Some key"
    "chrome_read parse a0 = chrome_read parse a"
    using assms(1) by (rule created_from)
  then show ?thesis using opened [of p parse key a0 s] assms(2) by (auto split: if_splits)
qed

lemma created_warmed: "createChromeCredentialStore p parse a = Some (Inr s) \<Longrightarrow> cr_warmed s"
  by (erule created_from) (metis opened)

lemma reopen_profile:
  assumes "chrome_master a = Some key" and "master_key_shape key"
  shows "\<exists>s. createChromeCredentialStore p parse a = Some (Inr s) \<and> in_step p s (chrome_read parse a) \<and>
    cr_master s = Some key \<and> cr_previous s = None \<and> cr_adapter s = a"
proof -
  let ?s0 = "\<lparr>cr_adapter = a, cr_master = Some key, cr_previous = None, cr_byIdentity = [], cr_listeners = [],
    cr_warmed = False, cr_draws = 0, cr_notified = []\<rparr>"
  obtain n s where s: "warm p (chromeCredentialRows p parse) ?s0 = (Inr n, s)" "in_step p s (chrome_read parse a)"
    "cr_adapter s = a" "cr_master s = Some key" "cr_previous s = None"
    using chrome.warm_in_step [where s = ?s0 and p = p and pa = p and parse = parse] by auto
  have "open_chrome_store p parse key a = Inr s"
    using assms(2) s(1) by (simp add: open_chrome_store_def new_store_def)
  moreover have "createChromeCredentialStore p parse a = Some (open_chrome_store p parse key a)"
    using assms(1) by (auto simp: createChromeCredentialStore_def chrome_master_def split: option.splits jval.splits)
  ultimately show ?thesis using s by auto
qed

lemma chrome_master_write [simp]: "chrome_master (chrome_write rs a) = chrome_master a"
  by (simp add: chrome_master_def chrome_write_def chrome_keys_differ [symmetric])

lemma chrome_master_draws [simp]: "chrome_master (a\<lparr>ca_draws := n\<rparr>) = chrome_master a"
  by (simp add: chrome_master_def)

text \<open>On these rows a write succeeds whenever the arguments are proper.\<close>

lemma chrome_set_succeeds:
  assumes "cr_master s \<noteq> None" and "cr_warmed s" and "who \<noteq> Some ''''" and "lab \<noteq> Some ''''"
  shows "\<exists>out s'. set_credential p (chromeCredentialRows p parse) now service envVar v who lab s = (Inr out, s') \<and>
    chrome_master (cr_adapter s') = chrome_master (cr_adapter s) \<and> cr_master s' = cr_master s \<and> cr_previous s' = cr_previous s"
  using assms
  by (auto simp: set_credential_def sbind_def warm_once_def encrypt_def Let_def on_adapter_def chromeCredentialRows_def
      notify_def split: option.split)

text \<open>
  C8: A credential outlives its session: whatever a browser profile's storage holds, after
  \<open>set\<close> with a service and a name the store answers the new value for that identity and every
  other identity as before, and a store opened later on the same storage, with the master key it
  finds there, answers exactly the same; the row's label stays unless a new one was given. (The
  cipher opens what it sealed, and the row schema reads back rows of texts and numbers.)
\<close>
theorem credential_survives_restart:
  assumes "platform_ok p" and "\<And>rs. list_all flat_row rs \<Longrightarrow> parse (Some (JArr (map JObj rs))) = Some rs"
    and "createChromeCredentialStore p parse a = Some (Inr s)"
    and "list_all flat_row (chrome_read parse a)" and "distinct (map row_id (chrome_read parse a))"
    and "service \<noteq> ''''" and "envVar \<noteq> ''''"
    and "set_credential p (chromeCredentialRows p parse) now service envVar v who lab s = (Inr out, s')"
  shows "\<exists>t. createChromeCredentialStore p parse (cr_adapter s') = Some (Inr t) \<and>
    (\<forall>w q. resolve p t w q = resolve p s' w q \<and> label p t w q = label p s' w q \<and>
       resolve p s' w q = (if w = envVar \<and> q = who then Some v else resolve p s w q) \<and>
       label p s' w q = (if w = envVar \<and> q = who \<and> lab \<noteq> None then lab else label p s w q))"
proof -
  have inj: "pl_storageKey p x = pl_storageKey p y \<longleftrightarrow> x = y" for x y
    using assms(1) by (auto simp: platform_ok_def dest: injD)
  have run: "who \<noteq> Some ''''" "lab \<noteq> Some ''''" "cr_master s \<noteq> None"
    using assms(8) created_warmed [OF assms(3)]
    by (auto simp: set_credential_def sbind_def encrypt_def warm_once_def Let_def split: if_splits option.splits)
  note opened = open_profile [OF assms(3) run(3)]
  have step: "in_step p s (chrome_read parse (cr_adapter s))" using opened by simp
  have set: "in_step p s' (chrome_read parse (cr_adapter s'))"
    "cr_byIdentity s' = AList.update (pl_storageKey p \<lparr>id_name = envVar, id_principal = who\<rparr>)
      \<lparr>ce_service = service, ce_envVar = envVar, ce_last4 = last4 v, ce_updatedAt = now, ce_principal = who,
       sc_id = sc_id (the (map_of (cr_byIdentity s') (pl_storageKey p \<lparr>id_name = envVar, id_principal = who\<rparr>))),
       sc_value = v, sc_label = (case lab of Some l \<Rightarrow> Some l | None \<Rightarrow> label p s envVar who)\<rparr> (cr_byIdentity s)"
    using chrome.set_in_step [OF assms(1,6,7) assms(2) _ step _ assms(8)] assms(4,5) opened by auto
  obtain s'' where s'': "s' = s''" "chrome_master (cr_adapter s') = chrome_master (cr_adapter s)"
    "cr_master s' = cr_master s" "cr_previous s' = cr_previous s"
    using chrome_set_succeeds [of s who lab p parse now service envVar v] run assms(8) step by (auto simp: in_step_def)
  obtain key where key: "cr_master s = Some key" using run by blast
  then obtain t where t: "createChromeCredentialStore p parse (cr_adapter s') = Some (Inr t)"
    "in_step p t (chrome_read parse (cr_adapter s'))" "cr_master t = Some key" "cr_previous t = None"
    using reopen_profile [of "cr_adapter s'" key p parse] opened s'' by auto
  have "loaded p t = loaded p s'" by (rule loaded_keys) (use t key s'' opened in auto)
  then have "map_of (cr_byIdentity t) = map_of (cr_byIdentity s')" using t(2) set(1) by (simp add: in_step_def)
  then have same: "lookup p t w q = lookup p s' w q" for w q by (simp add: lookup_def)
  have new: "lookup p s' w q = (if w = envVar \<and> q = who then Some
      \<lparr>ce_service = service, ce_envVar = envVar, ce_last4 = last4 v, ce_updatedAt = now, ce_principal = who,
       sc_id = sc_id (the (map_of (cr_byIdentity s') (pl_storageKey p \<lparr>id_name = envVar, id_principal = who\<rparr>))),
       sc_value = v, sc_label = (case lab of Some l \<Rightarrow> Some l | None \<Rightarrow> label p s envVar who)\<rparr> else lookup p s w q)" for w q
    unfolding lookup_def by (subst set(2)) (auto simp: inj)
  show ?thesis
    using t(1) by (auto simp: resolve_def label_def same new split: option.splits)
qed

section \<open>An example platform\<close>

text \<open>
  A cipher that appends the first sixteen bytes of its key as the tag, and a storage key that
  marks where the principal begins: enough to evaluate the statements at.
\<close>

definition example_tag :: "bytes \<Rightarrow> bytes" where
  "example_tag key = take 16 (key @ replicate 16 0)"

definition example_platform :: platform where
  "example_platform =
     \<lparr>pl_seal = \<lambda>key iv aad x. x @ example_tag key,
      pl_open = \<lambda>key iv aad c. if drop (length c - 16) c = example_tag key then Some (take (length c - 16) c) else None,
      pl_sha256 = \<lambda>b. b,
      pl_encode = map (\<lambda>c. of_nat (of_char c)), pl_decode = map (\<lambda>b. char_of (unat b)),
      pl_random = \<lambda>n k. replicate k (of_nat n),
      pl_storageKey = \<lambda>i. concat (map (\<lambda>c. [CHR ''n'', c]) (id_name i)) @
        (case id_principal i of None \<Rightarrow> [] | Some w \<Rightarrow> CHR ''p'' # w),
      pl_localeCompare = \<lambda>a b. 0\<rparr>"

lemma example_key_inj:
  "concat (map (\<lambda>c. [CHR ''n'', c]) a) @ (case x of None \<Rightarrow> [] | Some w \<Rightarrow> CHR ''p'' # w) =
   concat (map (\<lambda>c. [CHR ''n'', c]) b) @ (case y of None \<Rightarrow> [] | Some w \<Rightarrow> CHR ''p'' # w) \<Longrightarrow> a = b \<and> x = y"
proof (induction a arbitrary: b)
  case Nil
  then show ?case by (cases b) (auto split: option.splits)
next
  case (Cons c a)
  then show ?case by (cases b) (auto split: option.splits)
qed

lemma example_ok: "platform_ok example_platform"
proof -
  have "char_of (unat (of_nat (of_char c) :: 8 word)) = c" for c
    by (simp add: unsigned_of_nat char_of_take_bit_eq)
  moreover have "inj (pl_storageKey example_platform)"
    by (rule injI) (auto simp: example_platform_def intro: identity.equality dest: example_key_inj)
  moreover have "length (example_tag key) = 16" for key by (simp add: example_tag_def)
  ultimately show ?thesis
    by (simp add: platform_ok_def example_platform_def TAG_BYTES_def o_def)
qed

definition example_schema :: row_schema where
  "example_schema v = (case v of Some (JArr vs) \<Rightarrow> those (map (\<lambda>v. case v of JObj kvs \<Rightarrow> Some kvs | _ \<Rightarrow> None) vs) | _ \<Rightarrow> None)"

lemma example_schema_reads: "example_schema (Some (JArr (map JObj rs))) = Some rs"
  by (induction rs) (auto simp: example_schema_def o_def)

lemma fresh_profile:
  "\<exists>s. createChromeCredentialStore example_platform example_schema \<lparr>ca_items = [], ca_draws = 0\<rparr> = Some (Inr s) \<and> cr_master s \<noteq> None"
proof -
  let ?a = "\<lparr>ca_items = [], ca_draws = 0\<rparr>" and ?key = "randomMasterKey example_platform 0"
  let ?a1 = "store_master_key ?key ?a"
  have "chrome_master ?a1 = Some ?key" by (simp add: chrome_master_def store_master_key_def obj_get_def)
  then obtain s where "createChromeCredentialStore example_platform example_schema ?a1 = Some (Inr s)" "cr_master s = Some ?key"
    using reopen_profile [of ?a1 ?key example_platform example_schema] minted_key [OF example_ok, of 0] by auto
  moreover have "createChromeCredentialStore example_platform example_schema ?a = createChromeCredentialStore example_platform example_schema ?a1"
    by (simp add: createChromeCredentialStore_def store_master_key_def obj_get_def Let_def)
  ultimately show ?thesis by auto
qed

theorem credential_survives_restart_witness:
  "\<exists>s out s' t. createChromeCredentialStore example_platform example_schema \<lparr>ca_items = [], ca_draws = 0\<rparr> = Some (Inr s) \<and>
     set_credential example_platform (chromeCredentialRows example_platform example_schema) (Fin 1) ''mail'' ''TOKEN'' ''secret''
       None (Some ''ann'') s = (Inr out, s') \<and>
     createChromeCredentialStore example_platform example_schema (cr_adapter s') = Some (Inr t) \<and>
     resolve example_platform t ''TOKEN'' None = Some ''secret'' \<and> label example_platform t ''TOKEN'' None = Some ''ann''"
proof -
  let ?a = "\<lparr>ca_items = [], ca_draws = 0\<rparr>"
  have read: "chrome_read example_schema ?a = []" by (simp add: chrome_read_def example_schema_def)
  obtain s where s: "createChromeCredentialStore example_platform example_schema ?a = Some (Inr s)" "cr_master s \<noteq> None"
    using fresh_profile by blast
  obtain out s' where run: "set_credential example_platform (chromeCredentialRows example_platform example_schema) (Fin 1)
      ''mail'' ''TOKEN'' ''secret'' None (Some ''ann'') s = (Inr out, s')"
    using chrome_set_succeeds [OF s(2) created_warmed [OF s(1)], of None "Some ''ann''"] by fastforce
  show ?thesis
    using credential_survives_restart [OF example_ok example_schema_reads s(1) _ _ _ _ run] s(1) run read by fastforce
qed

text \<open>
  C9: Rotation lets the old key go: when \<open>rotate\<close> returns over the rows of a profile, its three
  counts add up to the rows there were, and the store without the previous master key, loaded
  again, answers every identity's value and label as the store loaded before the rotation did;
  rows no key reads are kept, not dropped.
\<close>
theorem rotation_retires_previous_key:
  assumes "platform_ok p" and "\<And>rs. list_all flat_row rs \<Longrightarrow> parse (Some (JArr (map JObj rs))) = Some rs"
    and "list_all flat_row (chrome_read parse (cr_adapter s))" and "distinct (map row_id (chrome_read parse (cr_adapter s)))"
    and "cr_master s = Some m" and "\<And>q. cr_previous s = Some q \<Longrightarrow> keyIdOf p q = keyIdOf p m \<Longrightarrow> q = m"
    and "rotate_credentials p (chromeCredentialRows p parse) now s = (Inr n, s')"
    and "before = snd (warm p (chromeCredentialRows p parse) s)"
    and "after = snd (warm p (chromeCredentialRows p parse) (s'\<lparr>cr_previous := None\<rparr>))"
  shows "ro_rotated n + ro_alreadyCurrent n + ro_unreadable n = length (chrome_read parse (cr_adapter s)) \<and>
    resolve p after w q = resolve p before w q \<and> label p after w q = label p before w q"
proof -
  note ret = chrome.rotate_retires [OF assms(1,5,6,2,3,4,7)]
  let ?k = "pl_storageKey p \<lparr>id_name = w, id_principal = q\<rparr>" and ?u = "\<lambda>e. e\<lparr>ce_updatedAt := Fin 0\<rparr>"
  have ms': "cr_master s' = Some m"
    using ret [of ?k] assms(5) by simp
  have before: "in_step p before (chrome_read parse (cr_adapter s))" "cr_master before = cr_master s" "cr_previous before = cr_previous s"
    using chrome.warm_in_step [where s = s and p = p and pa = p and parse = parse] assms(5,8) by auto
  have after: "in_step p after (chrome_read parse (cr_adapter s'))" "cr_master after = cr_master s'" "cr_previous after = None"
    using chrome.warm_in_step [where s = "s'\<lparr>cr_previous := None\<rparr>" and p = p and pa = p and parse = parse] ms' assms(9) by auto
  have "loaded p after = loaded p (s'\<lparr>cr_previous := None\<rparr>)" "loaded p before = loaded p s"
    by (rule loaded_keys; use before after in simp)+
  then have "map_option ?u (lookup p after w q) = map_option ?u (lookup p before w q)"
    using before(1) after(1) ret [of ?k] by (simp add: in_step_def lookup_def)
  then have "resolve p after w q = resolve p before w q \<and> label p after w q = label p before w q"
    by (cases "lookup p after w q"; cases "lookup p before w q")
      (auto simp: resolve_def label_def dest: arg_cong [of _ _ sc_value] arg_cong [of _ _ sc_label])
  with ret [of ?k] show ?thesis by (simp add: rotation_sum_def)
qed

text \<open>A profile in the middle of a rotation: one row, sealed under the previous key.\<close>

definition old_key :: string where
  "old_key = toHex (2 # replicate 31 2)"

definition new_key :: string where
  "new_key = toHex (1 # replicate 31 1)"

definition old_row :: jobj where
  "old_row = (''id'', JStr ''r1'') # row_data ''mail'' ''TOKEN''
     (seal_with example_platform old_key (pl_random example_platform 0 IV_BYTES) \<lparr>id_name = ''TOKEN'', id_principal = None\<rparr> ''secret'')
     (Fin 1) None"

definition rotating_store :: "chrome_area cred_store" where
  "rotating_store = \<lparr>cr_adapter = chrome_write [old_row] \<lparr>ca_items = [], ca_draws = 0\<rparr>, cr_master = Some new_key,
     cr_previous = Some old_key, cr_byIdentity = [], cr_listeners = [], cr_warmed = False, cr_draws = 0, cr_notified = []\<rparr>"

lemma example_keyIds: "keyIdOf example_platform old_key \<noteq> keyIdOf example_platform new_key" "keyIdOf example_platform old_key \<noteq> ''''"
proof -
  have "keyIdOf example_platform (toHex (b # bs)) = hex_char (unat b div 16) # hex_char (unat b mod 16) # take 14 (toHex bs)" for b bs
  proof -
    have "keyIdOf example_platform (toHex (b # bs)) = take 16 (toHex (b # bs))"
      unfolding keyIdOf_def example_platform_def platform.select_convs fromHex_toHex ..
    then show ?thesis by (simp add: take_Cons')
  qed
  from this [of 2 "replicate 31 2"] this [of 1 "replicate 31 1"]
  show "keyIdOf example_platform old_key \<noteq> keyIdOf example_platform new_key" "keyIdOf example_platform old_key \<noteq> ''''"
    unfolding old_key_def new_key_def by (simp_all add: hex_char_def del: toHex_simps)
qed

lemma old_row_get: "obj_get old_row k = (if k = ''id'' then Some (JStr ''r1'') else
    map_of (row_data ''mail'' ''TOKEN'' (seal_with example_platform old_key (pl_random example_platform 0 IV_BYTES)
      \<lparr>id_name = ''TOKEN'', id_principal = None\<rparr> ''secret'') (Fin 1) None @ opt_entry ''label'' None) k)"
  by (simp add: old_row_def obj_get_def opt_entry_def)

lemma old_row_resolves:
  assumes "in_step example_platform t [old_row]" and "cr_master t = Some new_key" and "cr_previous t = Some old_key"
  shows "resolve example_platform t ''TOKEN'' None = Some ''secret''"
proof -
  let ?i = "\<lparr>id_name = ''TOKEN'', id_principal = None\<rparr>"
  define c where "c = seal_with example_platform old_key (pl_random example_platform 0 IV_BYTES) ?i ''secret''"
  have ne: "pl_random example_platform 0 IV_BYTES \<noteq> []" by (simp add: example_platform_def IV_BYTES_def)
  have "read_row old_row = Some \<lparr>rw_id = ''r1'', rw_service = ''mail'', rw_identity = ?i, rw_ciphertext = se_ciphertext c,
      rw_iv = se_iv c, rw_authTag = se_authTag c, rw_keyId = Some (keyIdOf example_platform old_key)\<rparr>"
    using seal_fields [OF example_ok] ne example_keyIds(2)
    by (simp add: read_row_iff old_row_get row_data_get c_def [symmetric] del: map_of_append) (simp add: c_def seal_fields [OF example_ok])
  moreover have "decryptWithKey example_platform old_key (se_ciphertext c) (se_iv c) (se_authTag c) ?i = Some ''secret''"
    unfolding c_def by (rule decrypt_seal [OF example_ok])
  ultimately have "map_option (sc_value \<circ> snd) (warm_row example_platform t old_row) = Some ''secret''"
    and "map_option fst (warm_row example_platform t old_row) = Some (pl_storageKey example_platform ?i)"
    using assms(2,3) example_keyIds by (simp_all add: warm_row_def decryptRow_def candidates_def)
  then show ?thesis
    using assms(1) by (auto simp: in_step_def resolve_def lookup_def loaded_def List.map_filter_def)
qed

lemma chrome_rotates:
  assumes "cr_master s = Some m"
  shows "\<exists>n' s'. rotate_rows p (chromeCredentialRows p parse) now (keyIdOf p m) rs n s = (Inr n', s') \<and> cr_master s' = Some m"
  using assms
proof (induction rs arbitrary: n s)
  case (Cons r rs)
  have "\<exists>n' s'. rotate_row p (chromeCredentialRows p parse) now (keyIdOf p m) r n s = (Inr n', s') \<and> cr_master s' = Some m"
    using Cons.prems by (auto simp: rotate_row_def sbind_def decryptRow_def encrypt_def on_adapter_def chromeCredentialRows_def
        Let_def split: option.split)
  with Cons.IH show ?case by (fastforce simp: sbind_def)
qed simp

theorem rotation_retires_previous_key_witness:
  "\<exists>n s'. rotate_credentials example_platform (chromeCredentialRows example_platform example_schema) (Fin 2) rotating_store = (Inr n, s') \<and>
     ro_rotated n + ro_alreadyCurrent n + ro_unreadable n = 1 \<and>
     resolve example_platform (snd (warm example_platform (chromeCredentialRows example_platform example_schema)
       (s'\<lparr>cr_previous := None\<rparr>))) ''TOKEN'' None = Some ''secret''"
proof -
  let ?s = rotating_store and ?p = example_platform and ?ad = "chromeCredentialRows example_platform example_schema"
  have m: "cr_master ?s = Some new_key" "cr_previous ?s = Some old_key" by (simp_all add: rotating_store_def)
  have rows: "chrome_read example_schema (cr_adapter ?s) = [old_row]"
    using chrome_read_write [of example_schema "[old_row]", OF example_schema_reads] by (simp add: rotating_store_def)
  have flat: "flat_row old_row" using flat_row_data(2) row_data_keys(1)
    by (auto simp: old_row_def flat_row_def row_data_def opt_entry_def)
  obtain n0 s1 where loop: "rotate_rows ?p ?ad (Fin 2) (keyIdOf ?p new_key) [old_row] \<lparr>ro_rotated = 0, ro_alreadyCurrent = 0, ro_unreadable = 0\<rparr> ?s
      = (Inr n0, s1)" "cr_master s1 = Some new_key"
    using chrome_rotates [OF m(1)] by blast
  then obtain n s' where run: "rotate_credentials ?p ?ad (Fin 2) ?s = (Inr n, s')"
    using m rows chrome.warm_in_step [where s = s1 and p = ?p and pa = ?p and parse = example_schema]
    by (auto simp: rotate_credentials_def sbind_def list_rows_def chrome.list_law)
  have "in_step ?p (snd (warm ?p ?ad ?s)) [old_row] \<and> cr_master (snd (warm ?p ?ad ?s)) = Some new_key \<and>
      cr_previous (snd (warm ?p ?ad ?s)) = Some old_key"
    using chrome.warm_in_step [where s = ?s and p = ?p and pa = ?p and parse = example_schema] m rows by auto
  then have before: "resolve ?p (snd (warm ?p ?ad ?s)) ''TOKEN'' None = Some ''secret''" using old_row_resolves by blast
  show ?thesis
    using rotation_retires_previous_key [OF example_ok example_schema_reads _ _ m(1) _ run refl refl, of "''TOKEN''" None]
      rows flat m example_keyIds(1) before run by auto
qed

end
