(* ===== verification/Secrets.thy ===== *)
theory Secrets
  imports ChromeRows "HOL-Library.Sublist"
begin

text \<open>
  Where a host looks its credentials up (\<open>host/credentials/scope.ts\<close>), how it seeds the store
  (\<open>host/credentials/seed.ts\<close>) and the secrets of the HTTP exchange built on both
  (\<open>createHttpSecrets\<close> and \<open>createCredentialAdminPort\<close> of \<open>kernel/http-exchange.ts\<close>): minted values with
  an expiry, one-use values, and the durable credentials of the store in force.

  Stores are addressed by reference, since the caches of minted values belong to a store. Times
  are milliseconds. The locale \<open>one_use\<close> is the contract of a holder of one-use values.
\<close>

section \<open>The scope\<close>

record ('a, 'm) secrets_world =
  sw_stores :: "nat \<Rightarrow> 'a cred_store"
  sw_tenant :: "nat option"
  sw_installed :: "nat option"
  sw_mode :: "(string \<times> 'm) option"
  sw_minted :: "nat option \<Rightarrow> (string \<times> string \<times> rat) list"

type_synonym env = "string \<Rightarrow> string option"

definition credentialModeFromEnv :: "env \<Rightarrow> string" where
  "credentialModeFromEnv env =
     (if env ''ALMADAR_INTEGRATIONS_MODE'' = Some ''mock'' \<or> env ''USE_MOCK_DATA'' = Some ''true'' then ''mock'' else ''real'')"

definition installCredentialStore :: "nat \<Rightarrow> ('a, 'm) secrets_world \<Rightarrow> ('a, 'm) secrets_world" where
  "installCredentialStore store w = w\<lparr>sw_installed := Some store\<rparr>"

definition uninstallCredentialStore :: "('a, 'm) secrets_world \<Rightarrow> ('a, 'm) secrets_world" where
  "uninstallCredentialStore w = w\<lparr>sw_installed := None\<rparr>"

definition getEffectiveCredentialStore :: "('a, 'm) secrets_world \<Rightarrow> nat option" where
  "getEffectiveCredentialStore w = (case sw_tenant w of Some t \<Rightarrow> Some t | None \<Rightarrow> sw_installed w)"

definition runWithCredentialScope :: "nat \<Rightarrow> (('a, 'm) secrets_world \<Rightarrow> 'r \<times> ('a, 'm) secrets_world) \<Rightarrow>
    ('a, 'm) secrets_world \<Rightarrow> 'r \<times> ('a, 'm) secrets_world" where
  "runWithCredentialScope store fn w =
     (let (r, w') = fn (w\<lparr>sw_tenant := Some store\<rparr>) in (r, w'\<lparr>sw_tenant := sw_tenant w\<rparr>))"

definition HOST_SETTING_VARS :: "string list" where
  "HOST_SETTING_VARS = [''ALMADAR_CREDENTIAL_ADMIN_ROLES'', ''ALMADAR_CREDENTIALS_SOURCE'',
     ''ALMADAR_INTEGRATIONS_MODE'', ''USE_MOCK_DATA'']"

definition credentialsFromStoreOnly :: "env \<Rightarrow> bool" where
  "credentialsFromStoreOnly env \<longleftrightarrow> env ''ALMADAR_CREDENTIALS_SOURCE'' = Some ''store''"

definition resolveCredentialRef :: "platform \<Rightarrow> env \<Rightarrow> string \<Rightarrow> string option \<Rightarrow> ('a, 'm) secrets_world \<Rightarrow> string option" where
  "resolveCredentialRef p env ref who w =
     (let installed = (\<lambda>q. Option.bind (sw_installed w) (\<lambda>st. resolve p (sw_stores w st) ref q))
      in case sw_tenant w of
           Some t \<Rightarrow> resolve p (sw_stores w t) ref who
         | None \<Rightarrow>
             if who \<noteq> None then installed who
             else case installed None of
                 Some v \<Rightarrow> Some v
               | None \<Rightarrow> if credentialsFromStoreOnly env \<and> ref \<notin> set HOST_SETTING_VARS then None else env ref)"

section \<open>The secrets\<close>

datatype 'e secrets_error =
    NoStore
  | NotInStore string
  | StoreError "'e cred_error"
  | BadMode string

definition on_store :: "nat \<Rightarrow> ('a cred_store \<Rightarrow> ('e cred_error + 'r) \<times> 'a cred_store) \<Rightarrow> ('a, 'm) secrets_world \<Rightarrow>
    ('e secrets_error + 'r) \<times> ('a, 'm) secrets_world" where
  "on_store st m w =
     (let (r, s') = m (sw_stores w st) in (map_sum StoreError id r, w\<lparr>sw_stores := (sw_stores w)(st := s')\<rparr>))"

definition slot :: "platform \<Rightarrow> string \<Rightarrow> string option \<Rightarrow> string" where
  "slot p name who = pl_storageKey p \<lparr>id_name = name, id_principal = who\<rparr>"

text \<open>\<open>cacheFor\<close>: the cache of a store, or of the environment when there is none.\<close>

definition minted_get :: "nat option \<Rightarrow> string \<Rightarrow> ('a, 'm) secrets_world \<Rightarrow> (string \<times> rat) option" where
  "minted_get c key w = map_of (sw_minted w c) key"

definition minted_delete :: "nat option \<Rightarrow> string \<Rightarrow> ('a, 'm) secrets_world \<Rightarrow> ('a, 'm) secrets_world" where
  "minted_delete c key w = w\<lparr>sw_minted := (sw_minted w)(c := AList.delete key (sw_minted w c))\<rparr>"

definition minted_put :: "nat option \<Rightarrow> string \<Rightarrow> string \<Rightarrow> rat \<Rightarrow> ('a, 'm) secrets_world \<Rightarrow> ('a, 'm) secrets_world" where
  "minted_put c key v expiresAt w = w\<lparr>sw_minted := (sw_minted w)(c := AList.update key (v, expiresAt) (sw_minted w c))\<rparr>"

definition secrets_get :: "platform \<Rightarrow> env \<Rightarrow> string \<Rightarrow> string option \<Rightarrow> rat \<Rightarrow> ('a, 'm) secrets_world \<Rightarrow>
    string option \<times> ('a, 'm) secrets_world" where
  "secrets_get p env name who now w =
     (let c = getEffectiveCredentialStore w; key = slot p name who
      in case minted_get c key w of
           Some (v, expiresAt) \<Rightarrow>
             if expiresAt > now then (Some v, w)
             else (let w1 = minted_delete c key w in (resolveCredentialRef p env name who w1, w1))
         | None \<Rightarrow> (resolveCredentialRef p env name who w, w))"

definition secrets_set :: "platform \<Rightarrow> string \<Rightarrow> string \<Rightarrow> rat \<Rightarrow> string option \<Rightarrow> rat \<Rightarrow> ('a, 'm) secrets_world \<Rightarrow>
    ('a, 'm) secrets_world" where
  "secrets_set p name v ttlMs who now w =
     (let c = getEffectiveCredentialStore w; key = slot p name who
      in if ttlMs \<le> 0 then minted_delete c key w else minted_put c key v (now + ttlMs) w)"

definition secrets_rotate :: "platform \<Rightarrow> ('a, 'e) adapter \<Rightarrow> string \<Rightarrow> string \<Rightarrow> string option \<Rightarrow> rat \<Rightarrow>
    ('a, 'm) secrets_world \<Rightarrow> ('e secrets_error + unit) \<times> ('a, 'm) secrets_world" where
  "secrets_rotate p ad name v who now w =
     (case getEffectiveCredentialStore w of
        None \<Rightarrow> (Inl NoStore, w)
      | Some st \<Rightarrow>
          (case find (\<lambda>e. ce_envVar e = name) (entries p (sw_stores w st) who) of
             None \<Rightarrow> (Inl (NotInStore name), w)
           | Some stored \<Rightarrow>
               sbind (on_store st (set_credential p ad (Fin now) (ce_service stored) name v who None)) (\<lambda>_ w. (Inr (), w))
                 (minted_delete (Some st) (slot p name who) w)))"

definition PERSISTED_SERVICE :: string where
  "PERSISTED_SERVICE = ''kernel''"

definition secrets_durable :: "('a, 'm) secrets_world \<Rightarrow> bool" where
  "secrets_durable w = (case getEffectiveCredentialStore w of None \<Rightarrow> False | Some st \<Rightarrow> enabled (sw_stores w st))"

definition secrets_persist :: "platform \<Rightarrow> ('a, 'e) adapter \<Rightarrow> string \<Rightarrow> string \<Rightarrow> string option \<Rightarrow> string option \<Rightarrow> rat \<Rightarrow>
    ('a, 'm) secrets_world \<Rightarrow> ('e secrets_error + unit) \<times> ('a, 'm) secrets_world" where
  "secrets_persist p ad name v who lab now w =
     (case getEffectiveCredentialStore w of
        None \<Rightarrow> (Inl NoStore, w)
      | Some st \<Rightarrow>
          if \<not> enabled (sw_stores w st) then (Inl NoStore, w)
          else sbind (on_store st (set_credential p ad (Fin now) PERSISTED_SERVICE name v who lab)) (\<lambda>_ w. (Inr (), w))
                 (minted_delete (Some st) (slot p name who) w))"

text \<open>The store that shares one-use values with other instances, when the one in force does.\<close>

definition sharing_store :: "('a, 'e) adapter \<Rightarrow> ('a, 'm) secrets_world \<Rightarrow> nat option" where
  "sharing_store ad w =
     (case getEffectiveCredentialStore w of None \<Rightarrow> None
      | Some st \<Rightarrow> if sharesDerived ad (sw_stores w st) then Some st else None)"

definition secrets_hold :: "platform \<Rightarrow> ('a, 'e) adapter \<Rightarrow> string \<Rightarrow> string \<Rightarrow> rat \<Rightarrow> string option \<Rightarrow> rat \<Rightarrow>
    ('a, 'm) secrets_world \<Rightarrow> ('e secrets_error + unit) \<times> ('a, 'm) secrets_world" where
  "secrets_hold p ad name v ttlMs who now w =
     (let c = getEffectiveCredentialStore w; key = slot p name who
      in case sharing_store ad w of
           Some st \<Rightarrow>
             (let w1 = minted_delete c key w
              in if ttlMs > 0 then on_store st (holdDerived p ad name v (Fin (now + ttlMs)) who) w1 else (Inr (), w1))
         | None \<Rightarrow> (Inr (), if ttlMs \<le> 0 then minted_delete c key w else minted_put c key v (now + ttlMs) w))"

definition minted_take :: "platform \<Rightarrow> string \<Rightarrow> string option \<Rightarrow> rat \<Rightarrow> ('a, 'm) secrets_world \<Rightarrow>
    ('e secrets_error + string option) \<times> ('a, 'm) secrets_world" where
  "minted_take p name who now w =
     (let c = getEffectiveCredentialStore w; key = slot p name who
      in case minted_get c key w of
           None \<Rightarrow> (Inr None, w)
         | Some (v, expiresAt) \<Rightarrow> (Inr (if expiresAt > now then Some v else None), minted_delete c key w))"

definition secrets_take :: "platform \<Rightarrow> ('a, 'e) adapter \<Rightarrow> string \<Rightarrow> string option \<Rightarrow> rat \<Rightarrow>
    ('a, 'm) secrets_world \<Rightarrow> ('e secrets_error + string option) \<times> ('a, 'm) secrets_world" where
  "secrets_take p ad name who now w =
     (case sharing_store ad w of
        Some st \<Rightarrow>
          sbind (on_store st (takeDerived p ad name who (Fin now))) (\<lambda>shared w.
            case shared of Some v \<Rightarrow> (Inr (Some v), w) | None \<Rightarrow> minted_take p name who now w) w
      | None \<Rightarrow> minted_take p name who now w)"

definition secrets_label :: "platform \<Rightarrow> string \<Rightarrow> string option \<Rightarrow> ('a, 'm) secrets_world \<Rightarrow> string option" where
  "secrets_label p name who w =
     Option.bind (getEffectiveCredentialStore w) (\<lambda>st. label p (sw_stores w st) name who)"

definition secrets_forget :: "platform \<Rightarrow> ('a, 'e) adapter \<Rightarrow> string \<Rightarrow> string option \<Rightarrow>
    ('a, 'm) secrets_world \<Rightarrow> ('e secrets_error + unit) \<times> ('a, 'm) secrets_world" where
  "secrets_forget p ad name who w =
     (let c = getEffectiveCredentialStore w; w1 = minted_delete c (slot p name who) w
      in case c of
           None \<Rightarrow> (Inr (), w1)
         | Some st \<Rightarrow> sbind (on_store st (remove p ad name who)) (\<lambda>_ w. (Inr (), w)) w1)"

section \<open>The administration port\<close>

definition admin_list :: "platform \<Rightarrow> ('a, 'm) secrets_world \<Rightarrow> (bool \<times> (string \<times> string) list) option" where
  "admin_list p w = map_option (\<lambda>st. (enabled (sw_stores w st),
     map (\<lambda>e. (ce_service e, ce_envVar e)) (entries p (sw_stores w st) None))) (getEffectiveCredentialStore w)"

definition admin_read :: "platform \<Rightarrow> string \<Rightarrow> ('a, 'm) secrets_world \<Rightarrow> string option" where
  "admin_read p name w = Option.bind (getEffectiveCredentialStore w) (\<lambda>st. resolve p (sw_stores w st) name None)"

definition admin_store :: "(nat \<Rightarrow> ('a, 'm) secrets_world \<Rightarrow> ('e secrets_error + 'r) \<times> ('a, 'm) secrets_world) \<Rightarrow>
    ('a, 'm) secrets_world \<Rightarrow> ('e secrets_error + 'r) \<times> ('a, 'm) secrets_world" where
  "admin_store f w = (case getEffectiveCredentialStore w of None \<Rightarrow> (Inl NoStore, w) | Some st \<Rightarrow> f st w)"

definition admin_write :: "platform \<Rightarrow> ('a, 'e) adapter \<Rightarrow> js_number \<Rightarrow> string \<Rightarrow> string \<Rightarrow> string \<Rightarrow>
    ('a, 'm) secrets_world \<Rightarrow> ('e secrets_error + unit) \<times> ('a, 'm) secrets_world" where
  "admin_write p ad now service name v =
     admin_store (\<lambda>st. sbind (on_store st (set_credential p ad now service name v None None)) (\<lambda>_ w. (Inr (), w)))"

definition admin_remove :: "platform \<Rightarrow> ('a, 'e) adapter \<Rightarrow> string \<Rightarrow>
    ('a, 'm) secrets_world \<Rightarrow> ('e secrets_error + bool) \<times> ('a, 'm) secrets_world" where
  "admin_remove p ad name = admin_store (\<lambda>st. on_store st (remove p ad name None))"

definition admin_rotate :: "platform \<Rightarrow> ('a, 'e) adapter \<Rightarrow> js_number \<Rightarrow>
    ('a, 'm) secrets_world \<Rightarrow> ('e secrets_error + rotation) \<times> ('a, 'm) secrets_world" where
  "admin_rotate p ad now = admin_store (\<lambda>st. on_store st (rotate_credentials p ad now))"

text \<open>The mode control is the host's object: its mode, and \<open>switch\<close>, what setting it does.\<close>

definition admin_mode :: "('a, 'm) secrets_world \<Rightarrow> string option" where
  "admin_mode w = map_option fst (sw_mode w)"

definition admin_setMode :: "(string \<Rightarrow> string \<times> 'm \<Rightarrow> string \<times> 'm) \<Rightarrow> string \<Rightarrow>
    ('a, 'm) secrets_world \<Rightarrow> ('e secrets_error + string) \<times> ('a, 'm) secrets_world" where
  "admin_setMode switch mode w =
     (case sw_mode w of
        None \<Rightarrow> (Inl NoStore, w)
      | Some control \<Rightarrow>
          if mode \<noteq> ''mock'' \<and> mode \<noteq> ''real'' then (Inl (BadMode mode), w)
          else (let control' = switch mode control in (Inr (fst control'), w\<lparr>sw_mode := Some control'\<rparr>)))"

section \<open>Seeding\<close>

record declared_credential =
  dc_service :: string
  dc_envVar :: string

definition plan_row :: "jval \<Rightarrow> declared_credential option" where
  "plan_row row = (case row of
     JObj kvs \<Rightarrow> (case (obj_get kvs ''service'', obj_get kvs ''envVar'') of
         (Some (JStr s), Some (JStr e)) \<Rightarrow> Some \<lparr>dc_service = s, dc_envVar = e\<rparr> | _ \<Rightarrow> None)
   | _ \<Rightarrow> None)"

datatype 'e seed_error = BadPlan | NotInEnv string | SeedStore "'e cred_error"

definition planRows :: "jval \<Rightarrow> 'e seed_error + declared_credential list" where
  "planRows rows = (case rows of
     JArr vs \<Rightarrow> mapM (\<lambda>v. case plan_row v of None \<Rightarrow> Inl BadPlan | Some d \<Rightarrow> Inr d) vs
   | _ \<Rightarrow> Inl BadPlan)"

text \<open>The \<open>const value = env[envVar]\<close> loop.\<close>

fun seed_rows :: "platform \<Rightarrow> ('a, 'e) adapter \<Rightarrow> js_number \<Rightarrow> env \<Rightarrow> declared_credential list \<Rightarrow> 'a cred_store \<Rightarrow>
    ('e seed_error + unit) \<times> 'a cred_store" where
  "seed_rows p ad now env [] s = (Inr (), s)"
| "seed_rows p ad now env (d # ds) s =
     (case env (dc_envVar d) of
        None \<Rightarrow> (Inl (NotInEnv (dc_envVar d)), s)
      | Some v \<Rightarrow>
          (case set_credential p ad now (dc_service d) (dc_envVar d) v None None s of
             (Inl e, s') \<Rightarrow> (Inl (SeedStore e), s')
           | (Inr _, s') \<Rightarrow> seed_rows p ad now env ds s'))"

definition distinct_names :: "declared_credential list \<Rightarrow> string list" where
  "distinct_names ds = fold set_add (map dc_envVar ds) []"

definition seedCredentialStore :: "platform \<Rightarrow> ('a, 'e) adapter \<Rightarrow> js_number \<Rightarrow>
    (declared_credential list \<Rightarrow> string list \<Rightarrow> string list \<Rightarrow> jval) \<Rightarrow>
    declared_credential list \<Rightarrow> env \<Rightarrow> 'a cred_store \<Rightarrow> ('e seed_error + nat) \<times> 'a cred_store" where
  "seedCredentialStore p ad now seedPlan declared env s =
     (if \<not> enabled s then (Inr 0, s)
      else let names = distinct_names declared;
               held = filter (\<lambda>n. resolve p s n None \<noteq> None) names;
               present = filter (\<lambda>n. env n \<noteq> None \<and> env n \<noteq> Some '''') names
           in case planRows (seedPlan declared held present) of
                Inl e \<Rightarrow> (Inl e, s)
              | Inr plan \<Rightarrow>
                  (case seed_rows p ad now env plan s of
                     (Inl e, s') \<Rightarrow> (Inl e, s')
                   | (Inr _, s') \<Rightarrow> (Inr (length plan), s')))"

section \<open>One-use values\<close>





definition handed_out :: "'k \<Rightarrow> ('k \<times> 'v) list \<Rightarrow> 'v list" where
  "handed_out k rs = map snd (filter (\<lambda>r. fst r = k) rs)"

lemma handed_out_simps [simp]:
  "handed_out k [] = []"
  "handed_out k ((k', v) # rs) = (if k' = k then v # handed_out k rs else handed_out k rs)"
  by (simp_all add: handed_out_def)






lemma minted_frames [simp]:
  "getEffectiveCredentialStore (minted_put c k v e w) = getEffectiveCredentialStore w"
  "getEffectiveCredentialStore (minted_delete c k w) = getEffectiveCredentialStore w"
  "sw_stores (minted_put c k v e w) = sw_stores w" "sw_stores (minted_delete c k w) = sw_stores w"
  "sw_tenant (minted_put c k v e w) = sw_tenant w" "sw_tenant (minted_delete c k w) = sw_tenant w"
  "sw_installed (minted_put c k v e w) = sw_installed w" "sw_installed (minted_delete c k w) = sw_installed w"
  by (simp_all add: minted_put_def minted_delete_def getEffectiveCredentialStore_def split: option.split)

lemma minted_sharing [simp]:
  "sharing_store ad (minted_put c k v e w) = sharing_store ad w" "sharing_store ad (minted_delete c k w) = sharing_store ad w"
  by (simp_all add: sharing_store_def split: option.split)

lemma minted_reads [simp]:
  "minted_get c k (minted_put c k' v e w) = (if k = k' then Some (v, e) else minted_get c k w)"
  "minted_get c k (minted_delete c k' w) = (if k = k' then None else minted_get c k w)"
  by (simp_all add: minted_get_def minted_put_def minted_delete_def)




section \<open>Tenants\<close>

datatype secrets_op =
    GetOp string "string option" rat
  | SetOp string string rat "string option" rat
  | RotateOp string string "string option" rat
  | PersistOp string string "string option" "string option" rat
  | HoldOp string string rat "string option" rat
  | TakeOp string "string option" rat
  | LabelOp string "string option"
  | DurableOp
  | ForgetOp string "string option"

datatype 'e secrets_answer = Answer "string option" | Flag bool | Done "'e secrets_error + unit" | Taken "'e secrets_error + string option"

fun secrets_step :: "platform \<Rightarrow> ('a, 'e) adapter \<Rightarrow> env \<Rightarrow> secrets_op \<Rightarrow> ('a, 'm) secrets_world \<Rightarrow>
    'e secrets_answer \<times> ('a, 'm) secrets_world" where
  "secrets_step p ad env (GetOp n who now) w = apfst Answer (secrets_get p env n who now w)"
| "secrets_step p ad env (SetOp n v ttl who now) w = (Done (Inr ()), secrets_set p n v ttl who now w)"
| "secrets_step p ad env (RotateOp n v who now) w = apfst Done (secrets_rotate p ad n v who now w)"
| "secrets_step p ad env (PersistOp n v who lab now) w = apfst Done (secrets_persist p ad n v who lab now w)"
| "secrets_step p ad env (HoldOp n v ttl who now) w = apfst Done (secrets_hold p ad n v ttl who now w)"
| "secrets_step p ad env (TakeOp n who now) w = apfst Taken (secrets_take p ad n who now w)"
| "secrets_step p ad env (LabelOp n who) w = (Answer (secrets_label p n who w), w)"
| "secrets_step p ad env DurableOp w = (Flag (secrets_durable w), w)"
| "secrets_step p ad env (ForgetOp n who) w = apfst Done (secrets_forget p ad n who w)"

fun secrets_run :: "platform \<Rightarrow> ('a, 'e) adapter \<Rightarrow> env \<Rightarrow> secrets_op list \<Rightarrow> ('a, 'm) secrets_world \<Rightarrow>
    'e secrets_answer list \<times> ('a, 'm) secrets_world" where
  "secrets_run p ad env [] w = ([], w)"
| "secrets_run p ad env (x # xs) w =
     (let (a, w1) = secrets_step p ad env x w; (as, w2) = secrets_run p ad env xs w1 in (a # as, w2))"

text \<open>Two worlds a tenant cannot tell apart, and what a tenant's operation leaves alone.\<close>

definition same_tenant :: "nat \<Rightarrow> ('a, 'm) secrets_world \<Rightarrow> ('a, 'm) secrets_world \<Rightarrow> bool" where
  "same_tenant t w w' \<longleftrightarrow> sw_tenant w = Some t \<and> sw_tenant w' = Some t \<and> sw_stores w t = sw_stores w' t \<and>
     sw_minted w (Some t) = sw_minted w' (Some t)"

definition others_kept :: "nat \<Rightarrow> ('a, 'm) secrets_world \<Rightarrow> ('a, 'm) secrets_world \<Rightarrow> bool" where
  "others_kept t w w' \<longleftrightarrow> (\<forall>st. st \<noteq> t \<longrightarrow> sw_stores w' st = sw_stores w st) \<and>
     (\<forall>c. c \<noteq> Some t \<longrightarrow> sw_minted w' c = sw_minted w c) \<and> sw_tenant w' = sw_tenant w \<and>
     sw_installed w' = sw_installed w \<and> sw_mode w' = sw_mode w"

lemma others_kept_refl [simp]: "others_kept t w w"
  by (simp add: others_kept_def)

lemma others_kept_trans: "others_kept t w w' \<Longrightarrow> others_kept t w' w'' \<Longrightarrow> others_kept t w w''"
  by (simp add: others_kept_def)

text \<open>A function of the world that only sees and touches the tenant.\<close>

definition confined :: "nat \<Rightarrow> (('a, 'm) secrets_world \<Rightarrow> 'r \<times> ('a, 'm) secrets_world) \<Rightarrow> (('a, 'm) secrets_world \<Rightarrow> 'r \<times> ('a, 'm) secrets_world) \<Rightarrow> bool" where
  "confined t f g \<longleftrightarrow> (\<forall>w w'. same_tenant t w w' \<longrightarrow>
     fst (f w) = fst (g w') \<and> same_tenant t (snd (f w)) (snd (g w')) \<and> others_kept t w (snd (f w)))"

lemma confined_minted:
  "same_tenant t w w' \<Longrightarrow> same_tenant t (minted_delete (Some t) k w) (minted_delete (Some t) k w')"
  "same_tenant t w w' \<Longrightarrow> same_tenant t (minted_put (Some t) k v e w) (minted_put (Some t) k v e w')"
  "others_kept t w (minted_delete (Some t) k w)" "others_kept t w (minted_put (Some t) k v e w)"
  "same_tenant t w w' \<Longrightarrow> minted_get (Some t) k w = minted_get (Some t) k w'"
  by (auto simp: same_tenant_def others_kept_def minted_delete_def minted_put_def minted_get_def)

lemma confined_store: "confined t (on_store t m) (on_store t m)"
  by (auto simp: confined_def on_store_def same_tenant_def others_kept_def split: prod.splits)

lemma confined_sbind:
  fixes f g :: "('a, 'm) secrets_world \<Rightarrow> ('e + 'r) \<times> ('a, 'm) secrets_world"
  assumes "confined t f g" and "\<And>x. confined t (h x) (k x)"
  shows "confined t (sbind f h) (sbind g k)"
  unfolding confined_def
proof (intro allI impI)
  fix w w' :: "('a, 'm) secrets_world"
  assume "same_tenant t w w'"
  with assms(1) have f: "fst (f w) = fst (g w')" "same_tenant t (snd (f w)) (snd (g w'))" "others_kept t w (snd (f w))"
    by (auto simp: confined_def)
  obtain r u where fw: "f w = (r, u)" by fastforce
  obtain r' u' where gw: "g w' = (r', u')" by fastforce
  show "fst (sbind f h w) = fst (sbind g k w') \<and> same_tenant t (snd (sbind f h w)) (snd (sbind g k w')) \<and>
      others_kept t w (snd (sbind f h w))"
    using f fw gw assms(2) by (cases r) (auto simp: sbind_def confined_def intro: others_kept_trans)
qed

lemma confined_ret: "confined t (\<lambda>w. (r, w)) (\<lambda>w. (r, w))"
  by (simp add: confined_def)

lemma same_tenantD:
  assumes "same_tenant t w w'"
  shows "getEffectiveCredentialStore w = Some t" "getEffectiveCredentialStore w' = Some t"
    "sw_stores w' t = sw_stores w t" "sw_tenant w = Some t" "sw_tenant w' = Some t"
    "minted_get (Some t) k w' = minted_get (Some t) k w"
    "sharing_store ad w' = sharing_store ad w"
  using assms by (auto simp: same_tenant_def getEffectiveCredentialStore_def minted_get_def sharing_store_def)

text \<open>Composing confined parts.\<close>

lemma confined_after:
  assumes "confined t f g" and "same_tenant t w w'" and "same_tenant t u u'" and "others_kept t w u"
  shows "fst (f u) = fst (g u') \<and> same_tenant t (snd (f u)) (snd (g u')) \<and> others_kept t w (snd (f u))"
  using assms unfolding confined_def by (blast intro: others_kept_trans)

lemma confined_done: "confined t (sbind (on_store t m) (\<lambda>_ w. (Inr (), w))) (sbind (on_store t m) (\<lambda>_ w. (Inr (), w)))"
  by (rule confined_sbind [OF confined_store confined_ret])

lemma confined_taken: "confined t (minted_take p n who now) (minted_take p n who now)"
  unfolding confined_def
proof (intro allI impI)
  fix u u' :: "('a, 'm) secrets_world"
  assume same: "same_tenant t u u'"
  show "fst (minted_take p n who now u) = fst (minted_take p n who now u') \<and>
      same_tenant t (snd (minted_take p n who now u)) (snd (minted_take p n who now u')) \<and>
      others_kept t u (snd (minted_take p n who now u))"
    using same_tenantD [OF same] same confined_minted(1) [OF same] confined_minted(3)
    by (auto simp: minted_take_def Let_def split: option.split)
qed

lemma confined_shared:
  "confined t (\<lambda>w. case y of Some v \<Rightarrow> (Inr (Some v), w) | None \<Rightarrow> minted_take p n who now w)
    (\<lambda>w. case y of Some v \<Rightarrow> (Inr (Some v), w) | None \<Rightarrow> minted_take p n who now w)"
  by (cases y) (simp_all add: confined_ret confined_taken)

lemma confined_step: "confined t (secrets_step p ad env x) (secrets_step p ad env' x)"
  unfolding confined_def
proof (intro allI impI)
  fix w w' :: "('a, 'm) secrets_world"
  assume same: "same_tenant t w w'"
  note D = same_tenantD [OF same] and del = confined_minted(1) [OF same] and put = confined_minted(2) [OF same]
    and kept = confined_minted(3,4)
  note after = confined_after [OF confined_done same del kept(1)] and store = confined_after [OF confined_store same del kept(1)]
  show "fst (secrets_step p ad env x w) = fst (secrets_step p ad env' x w') \<and>
      same_tenant t (snd (secrets_step p ad env x w)) (snd (secrets_step p ad env' x w')) \<and>
      others_kept t w (snd (secrets_step p ad env x w))"
  proof (cases x)
    case (GetOp n who now)
    then show ?thesis using D same del kept
      by (auto simp: secrets_get_def Let_def resolveCredentialRef_def split: option.split)
  next
    case (SetOp n v ttl who now)
    then show ?thesis using D del put kept by (auto simp: secrets_set_def Let_def)
  next
    case (RotateOp n v who now)
    then show ?thesis using D same after by (auto simp: secrets_rotate_def split: option.split)
  next
    case (PersistOp n v who lab now)
    then show ?thesis using D same after by (auto simp: secrets_persist_def)
  next
    case (HoldOp n v ttl who now)
    have "sharing_store ad w \<in> {None, Some t}" using D(1) by (auto simp: sharing_store_def)
    moreover have "sharing_store ad w' = sharing_store ad w" by (rule D(7))
    ultimately show ?thesis
      using HoldOp D(1,2) del put kept store [of "holdDerived p ad n v (Fin (now + ttl)) who" "slot p n who"]
      by (auto simp: secrets_hold_def Let_def)
  next
    case (TakeOp n who now)
    note both = confined_sbind [OF confined_store [of t "takeDerived p ad n who (Fin now)"]
        confined_shared [where p = p and n = n and who = who and now = now], unfolded confined_def, rule_format, OF same]
      and taken = confined_taken [where p = p and n = n and who = who and now = now, unfolded confined_def, rule_format, OF same]
    have "sharing_store ad w \<in> {None, Some t}" using D(1) by (auto simp: sharing_store_def)
    moreover have "sharing_store ad w' = sharing_store ad w" by (rule D(7))
    ultimately show ?thesis
      using TakeOp taken both by (auto simp: secrets_take_def)
  next
    case (LabelOp n who)
    then show ?thesis using D same by (simp add: secrets_label_def)
  next
    case DurableOp
    then show ?thesis using D same by (simp add: secrets_durable_def)
  next
    case (ForgetOp n who)
    then show ?thesis using D after by (simp add: secrets_forget_def Let_def)
  qed
qed

lemma confined_run:
  fixes ad :: "('a, 'e) adapter"
  shows "confined t (secrets_run p ad env ops :: ('a, 'm) secrets_world \<Rightarrow> _) (secrets_run p ad env' ops)"
proof (induction ops)
  case Nil
  then show ?case by (simp add: confined_def)
next
  case (Cons x xs)
  show ?case unfolding confined_def
  proof (intro allI impI)
    fix w w' :: "('a, 'm) secrets_world"
    assume same: "same_tenant t w w'"
    note one = confined_step [unfolded confined_def, rule_format, OF same, of p ad env x env']
    note rest = confined_after [OF Cons.IH same conjunct1 [OF conjunct2 [OF one]] conjunct2 [OF conjunct2 [OF one]]]
    show "fst (secrets_run p ad env (x # xs) w) = fst (secrets_run p ad env' (x # xs) w') \<and>
        same_tenant t (snd (secrets_run p ad env (x # xs) w)) (snd (secrets_run p ad env' (x # xs) w')) \<and>
        others_kept t w (snd (secrets_run p ad env (x # xs) w))"
      using one rest by (simp add: split_beta)
  qed
qed

text \<open>
  C24: Tenants are separated: whatever a tenant's code asks of the secrets inside its credential
  scope, the answers depend on the tenant's own store and minted values alone, not on the host's
  environment, the installed store or another tenant, and every other store and cache, the scope
  around it and the mode are afterwards what they were.
\<close>
theorem tenants_separated:
  fixes w w' :: "('a, 'm) secrets_world"
  assumes "sw_stores w t = sw_stores w' t" and "sw_minted w (Some t) = sw_minted w' (Some t)"
    and "runWithCredentialScope t (secrets_run p ad env ops) w = (answers, u)"
    and "runWithCredentialScope t (secrets_run p ad env' ops) w' = (answers', u')"
  shows "answers = answers' \<and> sw_stores u t = sw_stores u' t \<and> sw_minted u (Some t) = sw_minted u' (Some t) \<and>
    (st \<noteq> t \<longrightarrow> sw_stores u st = sw_stores w st) \<and> (c \<noteq> Some t \<longrightarrow> sw_minted u c = sw_minted w c) \<and>
    sw_tenant u = sw_tenant w \<and> sw_installed u = sw_installed w \<and> sw_mode u = sw_mode w"
proof -
  have "same_tenant t (w\<lparr>sw_tenant := Some t\<rparr>) (w'\<lparr>sw_tenant := Some t\<rparr>)"
    using assms(1,2) by (simp add: same_tenant_def)
  note run = confined_run [unfolded confined_def, rule_format, OF this, of p ad env ops env']
  show ?thesis
    using run assms(3,4) by (auto simp: runWithCredentialScope_def same_tenant_def others_kept_def split: prod.splits)
qed

theorem tenants_separated_witness:
  "fst (runWithCredentialScope 1 (secrets_run example_platform (chromeCredentialRows example_platform example_schema) (\<lambda>_. Some ''host'')
      [GetOp ''TOKEN'' None 0])
      \<lparr>sw_stores = \<lambda>_. rotating_store, sw_tenant = None, sw_installed = Some 0, sw_mode = None :: (string \<times> unit) option,
       sw_minted = \<lambda>_. []\<rparr>) =
   fst (runWithCredentialScope 1 (secrets_run example_platform (chromeCredentialRows example_platform example_schema) (\<lambda>_. None)
      [GetOp ''TOKEN'' None 0])
      \<lparr>sw_stores = \<lambda>_. rotating_store, sw_tenant = Some 2, sw_installed = None, sw_mode = None :: (string \<times> unit) option,
       sw_minted = \<lambda>_. []\<rparr>)"
  by (rule conjunct1 [OF tenants_separated [OF _ _ surjective_pairing surjective_pairing]]) simp_all

section \<open>Values with a lifetime\<close>

text \<open>
  A minted value answers until it expires and the durable credential answers afterwards; a
  lifetime of zero forgets it at once; other names are not touched.
\<close>

lemma get_after_set:
  assumes "inj (pl_storageKey p)"
  shows "fst (secrets_get p env n who later (secrets_set p n v ttl who now w)) =
      (if 0 < ttl \<and> later < now + ttl then Some v else resolveCredentialRef p env n who w) \<and>
    ((n', who') \<noteq> (n, who) \<longrightarrow>
      fst (secrets_get p env n' who' later (secrets_set p n v ttl who now w)) = fst (secrets_get p env n' who' later w))"
proof -
  have res: "resolveCredentialRef p env m q (minted_delete c k u) = resolveCredentialRef p env m q u"
    "resolveCredentialRef p env m q (minted_put c k v e u) = resolveCredentialRef p env m q u" for m q c k v e u
    unfolding resolveCredentialRef_def minted_frames by (rule refl)+
  have "slot p n' who' = slot p n who \<longleftrightarrow> n' = n \<and> who' = who"
    using assms by (auto simp: slot_def dest: injD)
  then show ?thesis
    by (auto simp: secrets_get_def secrets_set_def Let_def res split: option.split)
qed

section \<open>What seeding copies\<close>

lemma set_memory:
  assumes "cr_warmed s" and "set_credential p ad now service envVar v who lab s = (Inr out, s')"
  shows "cr_warmed s' \<and> enabled s' = enabled s \<and>
    (\<exists>e. cr_byIdentity s' = AList.update (pl_storageKey p \<lparr>id_name = envVar, id_principal = who\<rparr>) e (cr_byIdentity s) \<and> sc_value e = v)"
  using assms
  by (auto simp: set_credential_def sbind_def warm_once_def encrypt_def on_adapter_def Let_def notify_def enabled_def
      split: if_splits option.splits prod.splits sum.splits)

lemma set_resolves:
  assumes "inj (pl_storageKey p)" and "cr_warmed s" and "set_credential p ad now service envVar v who lab s = (Inr out, s')"
  shows "resolve p s' w q = (if w = envVar \<and> q = who then Some v else resolve p s w q)"
proof -
  have "pl_storageKey p \<lparr>id_name = w, id_principal = q\<rparr> = pl_storageKey p \<lparr>id_name = envVar, id_principal = who\<rparr> \<longleftrightarrow> w = envVar \<and> q = who"
    using assms(1) by (auto dest: injD)
  then show ?thesis using set_memory [OF assms(2,3)] by (auto simp: resolve_def lookup_def)
qed

lemma seed_rows_resolve:
  assumes "inj (pl_storageKey p)" and "cr_warmed s" and "seed_rows p ad now env plan s = (Inr (), s')"
  shows "resolve p s' w None = (if w \<in> dc_envVar ` set plan then env w else resolve p s w None) \<and>
    (\<forall>q. resolve p s' w (Some q) = resolve p s w (Some q))"
  using assms(2,3)
proof (induction plan arbitrary: s)
  case (Cons d ds)
  obtain v out s1 where v: "env (dc_envVar d) = Some v"
    and set: "set_credential p ad now (dc_service d) (dc_envVar d) v None None s = (Inr out, s1)"
    and rest: "seed_rows p ad now env ds s1 = (Inr (), s')"
    using Cons.prems(2) by (auto split: option.splits prod.splits sum.splits)
  show ?case
    using Cons.IH [OF _ rest] set_memory [OF Cons.prems(1) set] set_resolves [OF assms(1) Cons.prems(1) set] v by auto
qed simp

text \<open>
  Seeding copies what the plan names and nothing else: when it returns, it returns the number
  of rows of the kernel's plan, every name of the plan resolves to what the environment holds for
  it, and every other name, and every user's credential, to what it resolved to before; so with a
  plan that avoids the held names no held row is overwritten. Without a master key nothing happens.
\<close>
theorem seeding_copies_plan:
  fixes ad :: "('a, 'e) adapter"
  assumes "inj (pl_storageKey p)" and "cr_warmed s"
    and "seedCredentialStore p ad now seedPlan declared env s = (Inr n, s')"
  shows "if enabled s
    then \<exists>plan. planRows (seedPlan declared (filter (\<lambda>n. resolve p s n None \<noteq> None) (distinct_names declared))
             (filter (\<lambda>n. env n \<noteq> None \<and> env n \<noteq> Some '''') (distinct_names declared))) = (Inr plan :: 'e seed_error + _) \<and>
           n = length plan \<and>
           resolve p s' w None = (if w \<in> dc_envVar ` set plan then env w else resolve p s w None) \<and>
           resolve p s' w (Some q) = resolve p s w (Some q)
    else n = 0 \<and> s' = s"
proof (cases "enabled s")
  case True
  let ?plan = "planRows (seedPlan declared (filter (\<lambda>n. resolve p s n None \<noteq> None) (distinct_names declared))
             (filter (\<lambda>n. env n \<noteq> None \<and> env n \<noteq> Some '''') (distinct_names declared))) :: 'e seed_error + _"
  obtain plan where plan: "?plan = Inr plan" "seed_rows p ad now env plan s = (Inr (), s')" "n = length plan"
    using assms(3) True by (auto simp: seedCredentialStore_def Let_def split: sum.splits prod.splits)
  then show ?thesis using True seed_rows_resolve [OF assms(1,2) plan(2)] by auto
qed (use assms(3) in \<open>simp add: seedCredentialStore_def\<close>)

theorem seeding_copies_plan_witness:
  "\<exists>s'. seedCredentialStore example_platform (chromeCredentialRows example_platform example_schema) (Fin 3)
      (\<lambda>_ _ _. JArr [JObj [(''service'', JStr ''mail''), (''envVar'', JStr ''NEW'')]])
      [\<lparr>dc_service = ''mail'', dc_envVar = ''NEW''\<rparr>] (\<lambda>_. Some ''fresh'') (rotating_store\<lparr>cr_warmed := True\<rparr>) = (Inr 1, s') \<and>
    resolve example_platform s' ''NEW'' None = Some ''fresh''"
proof -
  let ?s = "rotating_store\<lparr>cr_warmed := True\<rparr>" and ?ad = "chromeCredentialRows example_platform example_schema"
  let ?plan = "\<lambda>_ _ _. JArr [JObj [(''service'', JStr ''mail''), (''envVar'', JStr ''NEW'')]]"
    and ?declared = "[\<lparr>dc_service = ''mail'', dc_envVar = ''NEW''\<rparr>]"
  have p: "planRows (?plan () () ()) = (Inr ?declared :: unit seed_error + _)"
    by (simp add: planRows_def plan_row_def obj_get_def)
  have s: "cr_master ?s = Some new_key" "cr_warmed ?s" "enabled ?s" by (simp_all add: rotating_store_def enabled_def)
  obtain out s' where "set_credential example_platform ?ad (Fin 3) ''mail'' ''NEW'' ''fresh'' None None ?s = (Inr out, s')"
    using chrome_set_succeeds [of ?s None None example_platform example_schema] s by fastforce
  then have run: "seedCredentialStore example_platform ?ad (Fin 3) ?plan ?declared (\<lambda>_. Some ''fresh'') ?s = (Inr 1, s')"
    using p s(3) by (simp add: seedCredentialStore_def Let_def)
  have "inj (pl_storageKey example_platform)" using example_ok by (simp add: platform_ok_def)
  from seeding_copies_plan [OF this s(2) run, of "''NEW''" "''ann''"] p s(3)
  have "resolve example_platform s' ''NEW'' None = Some ''fresh''" by auto
  with run show ?thesis by blast
qed

end
