(* ===== verification/Base64.thy ===== *)
theory Base64
  imports Hex
begin

text \<open>
  Base64 as the HTTP exchange uses it (\<open>kernel/http-exchange.ts\<close>): the library's \<open>btoa\<close> and \<open>atob\<close>
  over byte lists, \<open>base64Standard\<close>, \<open>base64Url\<close> and the \<open>random-bytes\<close> payload.
\<close>

section \<open>The library\<close>

definition b64_alphabet :: string where
  "b64_alphabet = ''ABCDEFGHIJKLMNOPQRSTUVWXYZabcdefghijklmnopqrstuvwxyz0123456789+/''"

definition b64_char :: "nat \<Rightarrow> char" where
  "b64_char n = b64_alphabet ! n"

definition b64_digit :: "char \<Rightarrow> nat option" where
  "b64_digit c = map_of (zip b64_alphabet [0..<64]) c"

fun btoa :: "bytes \<Rightarrow> string" where
  "btoa [] = []"
| "btoa [a] = [b64_char (unat a div 4), b64_char (unat a mod 4 * 16), CHR ''='', CHR ''='']"
| "btoa [a, b] =
     [b64_char (unat a div 4), b64_char (unat a mod 4 * 16 + unat b div 16), b64_char (unat b mod 16 * 4), CHR ''='']"
| "btoa (a # b # c # r) =
     b64_char (unat a div 4) # b64_char (unat a mod 4 * 16 + unat b div 16) #
     b64_char (unat b mod 16 * 4 + unat c div 64) # b64_char (unat c mod 64) # btoa r"

text \<open>\<open>atob\<close>: white space is dropped, padding may be missing, a lone last digit is refused.\<close>

fun b64_bytes :: "nat list \<Rightarrow> bytes option" where
  "b64_bytes [] = Some []"
| "b64_bytes [w] = None"
| "b64_bytes [w, x] = Some [of_nat (w * 4 + x div 16)]"
| "b64_bytes [w, x, y] = Some [of_nat (w * 4 + x div 16), of_nat (x mod 16 * 16 + y div 4)]"
| "b64_bytes (w # x # y # z # r) =
     map_option (\<lambda>bs. of_nat (w * 4 + x div 16) # of_nat (x mod 16 * 16 + y div 4) # of_nat (y mod 4 * 64 + z) # bs)
       (b64_bytes r)"

definition strip_padding :: "string \<Rightarrow> string" where
  "strip_padding s =
     (if length s mod 4 = 0
      then let n = length s in
           if 2 \<le> n \<and> drop (n - 2) s = ''=='' then take (n - 2) s
           else if 1 \<le> n \<and> drop (n - 1) s = ''='' then take (n - 1) s
           else s
      else s)"

definition atob :: "string \<Rightarrow> bytes option" where
  "atob s = Option.bind (those (map b64_digit (strip_padding (filter (\<lambda>c. \<not> is_space c) s)))) b64_bytes"

section \<open>The source's functions\<close>

definition base64Standard :: "bytes \<Rightarrow> string" where
  "base64Standard bytes = btoa bytes"

definition base64Url :: "bytes \<Rightarrow> string" where
  "base64Url bytes = filter (\<lambda>c. c \<noteq> CHR ''='')
     (map (\<lambda>c. if c = CHR ''/'' then CHR ''_'' else c) (map (\<lambda>c. if c = CHR ''+'' then CHR ''-'' else c) (base64Standard bytes)))"

definition RANDOM_BYTES_MAX :: int where
  "RANDOM_BYTES_MAX = 1024"

datatype random_failure = BadKey | BadCount

definition randomBytesPayload :: "(nat \<Rightarrow> bytes) \<Rightarrow> jval option \<Rightarrow> jval option \<Rightarrow> random_failure + jobj" where
  "randomBytesPayload random count key =
     (if key \<noteq> None \<and> (\<forall>k. key = Some (JStr k) \<longrightarrow> k = '''') then Inl BadKey
      else case count of
        Some (JNum x) \<Rightarrow>
          (if \<not> isInteger x \<or> int_of_num x < 1 \<or> int_of_num x > RANDOM_BYTES_MAX then Inl BadCount
           else let value = base64Url (random (nat (int_of_num x)))
                in Inr ((''value'', JStr value) # (case key of None \<Rightarrow> [] | Some k \<Rightarrow> [(''key'', k)])))
      | _ \<Rightarrow> Inl BadCount)"

section \<open>Round trip\<close>

lemma b64_alphabet_facts: "length b64_alphabet = 64" "distinct b64_alphabet"
  "list_all (\<lambda>c. c \<noteq> CHR ''='' \<and> \<not> is_space c) b64_alphabet"
  by (simp_all add: b64_alphabet_def is_space_def)

lemma b64_char_facts:
  assumes "n < 64"
  shows "b64_digit (b64_char n) = Some n" "b64_char n \<noteq> CHR ''=''" "\<not> is_space (b64_char n)"
proof -
  have n: "n < length b64_alphabet" using assms b64_alphabet_facts(1) by simp
  then have "b64_char n \<in> set b64_alphabet" by (simp add: b64_char_def)
  then show "b64_char n \<noteq> CHR ''=''" "\<not> is_space (b64_char n)"
    using b64_alphabet_facts(3) by (auto simp: list_all_iff)
  show "b64_digit (b64_char n) = Some n"
    using map_of_zip_nth [of b64_alphabet "[0..<64]" n] b64_alphabet_facts assms by (simp add: b64_digit_def b64_char_def)
qed

lemma byte_bounds:
  "unat (a :: 8 word) div 4 < 64" "unat a mod 4 * 16 < 64" "unat a mod 16 * 4 < 64" "unat a mod 64 < 64"
  "unat a div 16 < 16" "unat a div 64 < 4" "unat a mod 4 * 16 + unat (b :: 8 word) div 16 < 64"
  "unat b mod 16 * 4 + unat a div 64 < 64"
proof -
  have "unat a < 2 ^ LENGTH(8)" "unat b < 2 ^ LENGTH(8)" by (rule unsigned_less)+
  then have a: "unat a < 256" and b: "unat b < 256" by simp_all
  show "unat a div 4 < 64" "unat a mod 4 * 16 < 64" "unat a mod 16 * 4 < 64" "unat a mod 64 < 64"
    "unat a div 16 < 16" "unat a div 64 < 4"
    using a by simp_all
  have "unat b div 16 < 16" "unat a div 64 < 4" "unat a mod 4 < 4" "unat b mod 16 < 16" using a b by simp_all
  then show "unat a mod 4 * 16 + unat b div 16 < 64" "unat b mod 16 * 4 + unat a div 64 < 64"
    by linarith+
qed

text \<open>The digits of a text, before padding.\<close>

fun b64_digits :: "bytes \<Rightarrow> nat list" where
  "b64_digits [] = []"
| "b64_digits [a] = [unat a div 4, unat a mod 4 * 16]"
| "b64_digits [a, b] = [unat a div 4, unat a mod 4 * 16 + unat b div 16, unat b mod 16 * 4]"
| "b64_digits (a # b # c # r) =
     unat a div 4 # (unat a mod 4 * 16 + unat b div 16) # (unat b mod 16 * 4 + unat c div 64) # unat c mod 64 # b64_digits r"

fun b64_padding :: "bytes \<Rightarrow> string" where
  "b64_padding [] = []"
| "b64_padding [a] = ''==''"
| "b64_padding [a, b] = ''=''"
| "b64_padding (a # b # c # r) = b64_padding r"

lemma btoa_digits: "btoa bs = map b64_char (b64_digits bs) @ b64_padding bs"
  by (induction bs rule: btoa.induct) auto

lemma b64_digits_small: "n \<in> set (b64_digits bs) \<Longrightarrow> n < 64"
  by (induction bs rule: btoa.induct) (auto simp: byte_bounds)

lemma b64_bytes_digits: "b64_bytes (b64_digits bs) = Some bs"
proof -
  have w [simp]: "(of_nat (unat a) :: 8 word) = a" for a by simp
  have hi: "unat a div 16 div 16 = 0" "unat a div 64 div 4 = 0" "unat a div 16 mod 16 = unat a div 16"
    "unat a div 64 mod 4 = unat a div 64" for a :: "8 word"
    using byte_bounds(5,6) [of a] by simp_all
  have lo: "unat a div 16 * 16 + unat a mod 16 = unat a" "unat a div 64 * 64 + unat a mod 64 = unat a" for a :: "8 word"
    by simp_all
  show ?thesis
    by (induction bs rule: btoa.induct) (simp_all add: hi lo del: of_nat_unat of_nat_add of_nat_mult)
qed

lemma b64_length: "length (b64_digits bs) + length (b64_padding bs) = 4 * ((length bs + 2) div 3)"
proof (induction bs rule: btoa.induct)
  case (4 a b c r)
  have "length (a # b # c # r) + 2 = (length r + 2) + 3" by simp
  then show ?case using 4 by (simp only: div_add_self2) simp
qed auto

lemma b64_padding_cases: "b64_padding bs \<in> {'''', ''='', ''==''}"
  by (induction bs rule: btoa.induct) auto

lemma those_digits:
  assumes "\<And>n. n \<in> set ds \<Longrightarrow> n < 64"
  shows "those (map b64_digit (map b64_char ds)) = Some ds"
  using assms by (induction ds) (simp_all add: b64_char_facts(1))

lemma strip_padded:
  assumes "pad \<in> {'''', ''='', ''==''}" and "(length d + length pad) mod 4 = 0" and "d = [] \<or> last d \<noteq> CHR ''=''"
  shows "strip_padding (d @ pad) = d"
proof (cases d rule: rev_cases)
  case Nil
  then show ?thesis using assms by (auto simp: strip_padding_def)
next
  case (snoc e c)
  then show ?thesis using assms by (cases e rule: rev_cases) (auto simp: strip_padding_def Let_def)
qed

lemma atob_btoa: "atob (btoa bs) = Some bs"
proof -
  let ?d = "map b64_char (b64_digits bs)"
  have nsp: "filter (\<lambda>c. \<not> is_space c) (btoa bs) = btoa bs"
    using b64_padding_cases [of bs] b64_char_facts(3) b64_digits_small
    by (auto simp: btoa_digits filter_id_conv is_space_def)
  have "length (btoa bs) mod 4 = 0" using b64_length [of bs] by (simp add: btoa_digits)
  moreover have "c \<noteq> CHR ''=''" if "c \<in> set ?d" for c
    using that b64_char_facts(2) b64_digits_small by auto
  then have "?d = [] \<or> last ?d \<noteq> CHR ''=''" by (metis last_in_set)
  ultimately have "strip_padding (btoa bs) = ?d"
    using b64_padding_cases [of bs] strip_padded [of "b64_padding bs" ?d] by (simp add: btoa_digits)
  moreover have "those (map b64_digit ?d) = Some (b64_digits bs)"
    using those_digits b64_digits_small by blast
  ultimately show ?thesis by (simp add: atob_def nsp b64_bytes_digits)
qed

section \<open>\<open>random-bytes\<close>\<close>

definition url_char :: "char \<Rightarrow> char" where
  "url_char c = (if c = CHR ''+'' then CHR ''-'' else if c = CHR ''/'' then CHR ''_'' else c)"

definition plain_char :: "char \<Rightarrow> char" where
  "plain_char c = (if c = CHR ''-'' then CHR ''+'' else if c = CHR ''_'' then CHR ''/'' else c)"

definition url_safe :: "char \<Rightarrow> bool" where
  "url_safe c \<longleftrightarrow> c \<in> set ''ABCDEFGHIJKLMNOPQRSTUVWXYZabcdefghijklmnopqrstuvwxyz0123456789-_''"

lemma url_chars: "list_all (\<lambda>c. url_safe (url_char c) \<and> plain_char (url_char c) = c \<and> url_char c \<noteq> CHR ''='') b64_alphabet"
  by (simp add: b64_alphabet_def url_char_def url_safe_def plain_char_def)

lemma url_char_facts:
  assumes "n < 64"
  shows "url_safe (url_char (b64_char n))" "plain_char (url_char (b64_char n)) = b64_char n" "url_char (b64_char n) \<noteq> CHR ''=''"
proof -
  have "b64_char n \<in> set b64_alphabet" using assms b64_alphabet_facts(1) by (simp add: b64_char_def)
  with url_chars show "url_safe (url_char (b64_char n))" "plain_char (url_char (b64_char n)) = b64_char n"
    "url_char (b64_char n) \<noteq> CHR ''=''"
    unfolding list_all_iff by blast+
qed

lemma base64Url_digits: "base64Url bs = map (url_char \<circ> b64_char) (b64_digits bs)"
proof -
  have "filter (\<lambda>c. c \<noteq> CHR ''='') (map url_char (btoa bs)) = map url_char (map b64_char (b64_digits bs))"
    using b64_padding_cases [of bs] url_char_facts(3) b64_digits_small
    by (auto simp: btoa_digits filter_id_conv url_char_def [of "CHR ''=''"])
  moreover have "map (\<lambda>c. if c = CHR ''/'' then CHR ''_'' else c) (map (\<lambda>c. if c = CHR ''+'' then CHR ''-'' else c) s) = map url_char s" for s
    by (simp add: url_char_def)
  ultimately show ?thesis by (simp only: base64Url_def base64Standard_def map_map)
qed

lemma b64_digits_length: "length (b64_digits bs) = (4 * length bs + 2) div 3"
proof (induction bs rule: btoa.induct)
  case (4 a b c r)
  have "4 * length (a # b # c # r) + 2 = (4 * length r + 2) + 4 * 3" by simp
  then show ?case using 4 by (simp only: div_mult_self3) simp
qed auto

lemma atob_digits:
  assumes "\<And>n. n \<in> set ds \<Longrightarrow> n < 64"
  shows "atob (map b64_char ds) = b64_bytes ds"
proof -
  have "filter (\<lambda>c. \<not> is_space c) (map b64_char ds) = map b64_char ds"
    using assms b64_char_facts(3) by (auto simp: filter_id_conv)
  moreover have "c \<noteq> CHR ''=''" if "c \<in> set (map b64_char ds)" for c
    using that b64_char_facts(2) assms by auto
  then have "strip_padding (map b64_char ds) = map b64_char ds"
    by (cases "map b64_char ds" rule: rev_cases) (auto simp: strip_padding_def Let_def)
  ultimately show ?thesis by (simp add: atob_def those_digits [OF assms, simplified])
qed

text \<open>
  \<open>random-bytes\<close> hands out exactly the bytes it drew: a whole count from 1 to 1024 gives a
  value of \<open>ceil(4n/3)\<close> URL-safe characters without padding that decodes to the bytes drawn, with
  the call's key beside it; any other count fails, and so does an empty key or one that is no text.
\<close>
theorem random_bytes_value:
  assumes "length (random (nat n)) = nat n"
  shows "(if 1 \<le> n \<and> n \<le> 1024
    then \<exists>v. randomBytesPayload random (Some (JInt n)) None = Inr [(''value'', JStr v)] \<and>
       randomBytesPayload random (Some (JInt n)) (Some (JStr (c # k))) = Inr [(''value'', JStr v), (''key'', JStr (c # k))] \<and>
       length v = (4 * nat n + 2) div 3 \<and> list_all url_safe v \<and> atob (map plain_char v) = Some (random (nat n))
    else randomBytesPayload random (Some (JInt n)) None = Inl BadCount) \<and>
    randomBytesPayload random (Some (JInt n)) (Some (JStr '''')) = Inl BadKey"
proof -
  let ?b = "random (nat n)"
  have "map plain_char (base64Url ?b) = map b64_char (b64_digits ?b)"
    using url_char_facts(2) b64_digits_small by (simp add: base64Url_digits)
  then have "atob (map plain_char (base64Url ?b)) = Some ?b"
    using atob_digits b64_digits_small b64_bytes_digits by simp
  moreover have "length (base64Url ?b) = (4 * nat n + 2) div 3" "list_all url_safe (base64Url ?b)"
    using assms b64_digits_length [of ?b] url_char_facts(1) b64_digits_small by (auto simp: base64Url_digits list_all_iff)
  ultimately show ?thesis
    by (simp add: randomBytesPayload_def JInt_def RANDOM_BYTES_MAX_def Let_def)
qed

theorem random_bytes_value_witness:
  "\<exists>v. randomBytesPayload (\<lambda>n. replicate n 255) (Some (JInt 4)) None = Inr [(''value'', JStr v)] \<and>
    length v = 6 \<and> list_all url_safe v \<and> atob (map plain_char v) = Some [255, 255, 255, 255]"
proof -
  have "length ((\<lambda>n. replicate n (255 :: 8 word)) (nat 4)) = nat 4" by simp
  note random_bytes_value [where random = "\<lambda>n. replicate n (255 :: 8 word)" and n = 4 and c = "CHR ''k''" and k = "''''", OF this]
  moreover have "replicate (nat 4) (255 :: 8 word) = [255, 255, 255, 255]" by (simp add: numeral_eq_Suc)
  ultimately show ?thesis by auto
qed

end
