(* ===== verification/HttpExchange.thy ===== *)
theory HttpExchange
  imports Base64 Decode
begin

text \<open>
  The host side of the \<open>http\<close> effect (\<open>kernel/http-exchange.ts\<close>): the public-address check, one
  exchange with its cancel and timeout, the retry delay, whole and streamed replies, beacons
  (\<open>kernel/beacon-port.ts\<close>), the answers to the driver's asks and the loop that runs a call.

  Everything outside (the network, the secrets, the clock, the signals, the kernel) is a state
  \<open>'s\<close> of the world: a port is a function of it, and whether a signal has aborted is read off it,
  so every point at which the source looks at a signal is a point of the model. An \<open>Error\<close> is its
  message; the reason a signal aborts with is \<open>Aborted\<close>.
\<close>

datatype js_error = Aborted | Raised string

fun message_of :: "js_error \<Rightarrow> string" where
  "message_of Aborted = ''This operation was aborted''"
| "message_of (Raised m) = m"

section \<open>The ports\<close>

record url =
  u_hostname :: string
  u_origin :: string
  u_href :: string

record resolved_host =
  rh_literal :: bool
  rh_addresses :: "string list"

record pinned_response =
  ps_status :: int
  ps_headers :: "(string \<times> string) list"
  ps_body :: "js_error + bytes"
  ps_reads :: "(js_error + bytes) list option"

record 's http_world =
  hw_parse_url :: "string \<Rightarrow> url option"
  hw_encode :: "string \<Rightarrow> bytes"
  hw_decode :: "bytes \<Rightarrow> string option"
  hw_isPublic :: "string \<Rightarrow> bool"
  hw_egress :: "string list"
  hw_resolve :: "(string \<Rightarrow> 's \<Rightarrow> (js_error + resolved_host) \<times> 's) option"
  hw_fetch :: "url \<Rightarrow> http_request \<Rightarrow> bytes option \<Rightarrow> string \<Rightarrow> 's \<Rightarrow> (js_error + pinned_response) \<times> 's"
  hw_cancelled :: "'s \<Rightarrow> bool"
  hw_timed_out :: "int \<Rightarrow> 's \<Rightarrow> 's \<Rightarrow> bool"
  hw_sleep :: "int \<Rightarrow> 's \<Rightarrow> 's"

datatype http_failure = TimedOut | Failed string | RefusedBy string

datatype exchange = Reply http_response | Failure http_failure

definition refusal :: "string \<Rightarrow> exchange" where
  "refusal m = Failure (RefusedBy m)"

section \<open>Bodies\<close>

text \<open>\<open>bodyBytes\<close>: \<open>atob\<close> throws on text that is no base64.\<close>

fun bodyBytes :: "(string \<Rightarrow> bytes) \<Rightarrow> http_body \<Rightarrow> js_error + bytes option" where
  "bodyBytes encode EmptyBody = Inr None"
| "bodyBytes encode (TextBody t) = Inr (Some (encode t))"
| "bodyBytes encode (Base64Body d) =
     (case atob d of None \<Rightarrow> Inl (Raised ''The string to be decoded is not correctly encoded.'') | Some b \<Rightarrow> Inr (Some b))"

definition wireBody :: "(bytes \<Rightarrow> string option) \<Rightarrow> bytes \<Rightarrow> http_body" where
  "wireBody decode b =
     (if b = [] then EmptyBody
      else case decode b of Some t \<Rightarrow> TextBody t | None \<Rightarrow> Base64Body (btoa b))"

section \<open>The address check\<close>

definition bare_host :: "url \<Rightarrow> string" where
  "bare_host u =
     (if starts_with ''['' (u_hostname u) then take (length (u_hostname u) - 2) (drop 1 (u_hostname u)) else u_hostname u)"

definition address_of :: "'s http_world \<Rightarrow> url \<Rightarrow> resolved_host \<Rightarrow> string + string" where
  "address_of w u resolved =
     (case rh_addresses resolved of
        [] \<Rightarrow> Inl (bare_host u @ '' resolves to no address'')
      | first # _ \<Rightarrow>
          if rh_literal resolved \<and> u_origin u \<in> set (hw_egress w) then Inr first
          else case find (\<lambda>a. \<not> hw_isPublic w a) (rh_addresses resolved) of
              Some inner \<Rightarrow> Inl (bare_host u @ '' resolves to '' @ inner @ '', which is not a public address'')
            | None \<Rightarrow> Inr first)"

text \<open>\<open>Inl\<close> inside the result is a refusal.\<close>

definition checkedAddress :: "'s http_world \<Rightarrow> url \<Rightarrow> 's \<Rightarrow> (js_error + (string + string)) \<times> 's" where
  "checkedAddress w u =
     (case hw_resolve w of
        None \<Rightarrow> (\<lambda>s. (Inr (Inr (bare_host u)), s))
      | Some lookup \<Rightarrow> sbind (lookup (bare_host u)) (\<lambda>resolved s. (Inr (address_of w u resolved), s)))"

section \<open>One exchange\<close>

text \<open>\<open>throwIfAborted\<close> on the operation's signal, the caller's or the timeout's.\<close>

definition op_aborted :: "'s http_world \<Rightarrow> http_request \<Rightarrow> 's \<Rightarrow> 's \<Rightarrow> bool" where
  "op_aborted w req s0 s \<longleftrightarrow> hw_cancelled w s \<or> (\<exists>t. rq_timeoutMs req = Some t \<and> hw_timed_out w t s0 s)"

definition look :: "('s \<Rightarrow> bool) \<Rightarrow> 's \<Rightarrow> (js_error + unit) \<times> 's" where
  "look ab s = (if ab s then Inl Aborted else Inr (), s)"

definition attempt :: "'s http_world \<Rightarrow> http_request \<Rightarrow> url \<Rightarrow> bytes option \<Rightarrow>
    (pinned_response \<Rightarrow> ('s \<Rightarrow> bool) \<Rightarrow> 's \<Rightarrow> (js_error + exchange) \<times> 's) \<Rightarrow> ('s \<Rightarrow> bool) \<Rightarrow> 's \<Rightarrow> (js_error + exchange) \<times> 's" where
  "attempt w req u body read ab =
     sbind (checkedAddress w u) (\<lambda>checked.
     sbind (look ab) (\<lambda>_.
       case checked of
         Inl refused \<Rightarrow> (\<lambda>s. (Inr (refusal refused), s))
       | Inr address \<Rightarrow>
           sbind (hw_fetch w u req body address) (\<lambda>response.
           sbind (look ab) (\<lambda>_. read response ab))))"

definition dispatch_http :: "'s http_world \<Rightarrow> http_request \<Rightarrow>
    (pinned_response \<Rightarrow> ('s \<Rightarrow> bool) \<Rightarrow> 's \<Rightarrow> (js_error + exchange) \<times> 's) \<Rightarrow> 's \<Rightarrow> (js_error + exchange) \<times> 's" where
  "dispatch_http w req read s0 =
     (if hw_cancelled w s0 then (Inl Aborted, s0)
      else case hw_parse_url w (rq_url req) of
        None \<Rightarrow> (Inr (refusal (rq_url req @ '' is not a URL'')), s0)
      | Some u \<Rightarrow>
          (case bodyBytes (hw_encode w) (rq_body req) of
             Inl e \<Rightarrow> (Inl e, s0)
           | Inr body \<Rightarrow>
               (case attempt w req u body read (op_aborted w req s0) s0 of
                  (Inr x, s) \<Rightarrow> (Inr x, s)
                | (Inl e, s) \<Rightarrow>
                    if hw_cancelled w s then (Inl e, s)
                    else if \<exists>t. rq_timeoutMs req = Some t \<and> hw_timed_out w t s0 s then (Inr (Failure TimedOut), s)
                    else (Inr (Failure (Failed (message_of e))), s))))"

section \<open>The retry delay\<close>

definition MAX_TIMER :: int where
  "MAX_TIMER = 2147483647"

function wait_loop :: "'s http_world \<Rightarrow> int \<Rightarrow> 's \<Rightarrow> (js_error + int list) \<times> 's" where
  "wait_loop w remaining s =
     (if 0 < remaining then
        (if hw_cancelled w s then (Inl Aborted, s)
         else let duration = min remaining MAX_TIMER; s1 = hw_sleep w duration s
              in if hw_cancelled w s1 then (Inl Aborted, s1)
                 else case wait_loop w (remaining - duration) s1 of
                        (Inl e, s2) \<Rightarrow> (Inl e, s2)
                      | (Inr ds, s2) \<Rightarrow> (Inr (duration # ds), s2))
      else (Inr [], s))"
  by pat_completeness auto

termination
  by (relation "measure (\<lambda>(w, remaining, s). nat remaining)") (auto simp: MAX_TIMER_def)

declare wait_loop.simps [simp del]

text \<open>The result lists the timers set, for the statements about them.\<close>

definition waitForHttpDelay :: "'s http_world \<Rightarrow> js_number \<Rightarrow> 's \<Rightarrow> (js_error + int list) \<times> 's" where
  "waitForHttpDelay w delayMs s =
     (if \<not> isInteger delayMs \<or> num_less delayMs (Fin 0) then (Inl (Raised ''http delayMs must be a nonnegative whole number''), s)
      else if hw_cancelled w s then (Inl Aborted, s)
      else wait_loop w (int_of_num delayMs) s)"

definition read_whole :: "'s http_world \<Rightarrow> pinned_response \<Rightarrow> ('s \<Rightarrow> bool) \<Rightarrow> 's \<Rightarrow> (js_error + exchange) \<times> 's" where
  "read_whole w response ab s =
     (rbind (ps_body response) (\<lambda>b. Inr (Reply \<lparr>rs_status = ps_status response, rs_headers = ps_headers response,
        rs_body = wireBody (hw_decode w) b\<rparr>)), s)"

definition sendHttp :: "'s http_world \<Rightarrow> http_request \<Rightarrow> js_number \<Rightarrow> 's \<Rightarrow> (js_error + exchange) \<times> 's" where
  "sendHttp w req delayMs = sbind (waitForHttpDelay w delayMs) (\<lambda>_. dispatch_http w req (read_whole w))"

section \<open>Streams\<close>

record stream_event =
  se_data :: string
  se_event :: "string option"
  se_id :: "string option"
  se_key :: "string option"

fun nullable_text :: "jval option \<Rightarrow> string option option" where
  "nullable_text (Some JNull) = Some None"
| "nullable_text (Some (JStr t)) = Some (Some t)"
| "nullable_text _ = None"

definition streamEvent :: "jval \<Rightarrow> js_error + stream_event" where
  "streamEvent value =
     (case value of
        JObj kvs \<Rightarrow>
          (case (obj_get kvs ''data'', nullable_text (obj_get kvs ''event''), nullable_text (obj_get kvs ''id''),
                 nullable_text (obj_get kvs ''key'')) of
             (Some (JStr d), Some e, Some i, Some k) \<Rightarrow> Inr \<lparr>se_data = d, se_event = e, se_id = i, se_key = k\<rparr>
           | _ \<Rightarrow> Inl (Raised ''a stream event is malformed''))
      | _ \<Rightarrow> Inl (Raised ''a stream event is not an object''))"

text \<open>
  The kernel's framing of a chunk and of the tail, the \<open>TextDecoder\<close> as a state machine, and what
  the caller does with an event.
\<close>

record ('s, 'd) stream_world =
  st_frame :: "string \<Rightarrow> string \<Rightarrow> jval"
  st_finish :: "string \<Rightarrow> jval"
  st_decoder :: 'd
  st_decode :: "bytes \<Rightarrow> 'd \<Rightarrow> string \<times> 'd"
  st_flush :: "'d \<Rightarrow> string"
  st_onEvent :: "stream_event \<Rightarrow> 's \<Rightarrow> (js_error + unit) \<times> 's"

fun emit_events :: "('s, 'd) stream_world \<Rightarrow> ('s \<Rightarrow> bool) \<Rightarrow> jval list \<Rightarrow> 's \<Rightarrow> (js_error + unit) \<times> 's" where
  "emit_events sw ab [] s = (Inr (), s)"
| "emit_events sw ab (v # vs) s =
     sbind (look ab) (\<lambda>_ s.
       case streamEvent v of
         Inl e \<Rightarrow> (Inl e, s)
       | Inr ev \<Rightarrow> sbind (st_onEvent sw ev) (\<lambda>_. emit_events sw ab vs) s) s"

definition framed_parts :: "jval \<Rightarrow> js_error + (jval list \<times> string)" where
  "framed_parts v =
     (case v of
        JObj kvs \<Rightarrow>
          (case (obj_get kvs ''events'', obj_get kvs ''carry'') of
             (Some (JArr es), Some (JStr c)) \<Rightarrow> Inr (es, c)
           | _ \<Rightarrow> Inl (Raised ''frameStream result is malformed''))
      | _ \<Rightarrow> Inl (Raised ''frameStream result is not an object''))"

definition publish :: "('s, 'd) stream_world \<Rightarrow> ('s \<Rightarrow> bool) \<Rightarrow> string \<Rightarrow> string \<Rightarrow> 's \<Rightarrow> (js_error + string) \<times> 's" where
  "publish sw ab chunk carry =
     sbind (look ab) (\<lambda>_ s.
       case framed_parts (st_frame sw chunk carry) of
         Inl e \<Rightarrow> (Inl e, s)
       | Inr (events, rest) \<Rightarrow> sbind (emit_events sw ab events) (\<lambda>_ s. (Inr rest, s)) s)"

text \<open>The loop over the reader; a read that fails, by an abort or in transport, ends it.\<close>

fun read_chunks :: "('s, 'd) stream_world \<Rightarrow> ('s \<Rightarrow> bool) \<Rightarrow> (js_error + bytes) list \<Rightarrow> 'd \<Rightarrow> string \<Rightarrow> 's \<Rightarrow>
    (js_error + ('d \<times> string)) \<times> 's" where
  "read_chunks sw ab [] d carry s = sbind (look ab) (\<lambda>_ s. (Inr (d, carry), s)) s"
| "read_chunks sw ab (Inl e # rs) d carry s = (Inl e, s)"
| "read_chunks sw ab (Inr b # rs) d carry s =
     sbind (look ab) (\<lambda>_.
       let (chunk, d') = st_decode sw b d
       in sbind (publish sw ab chunk carry) (read_chunks sw ab rs d')) s"

definition read_stream :: "('s, 'd) stream_world \<Rightarrow> pinned_response \<Rightarrow> ('s \<Rightarrow> bool) \<Rightarrow> 's \<Rightarrow> (js_error + exchange) \<times> 's" where
  "read_stream sw response ab =
     sbind (look ab) (\<lambda>_.
     sbind (case ps_reads response of None \<Rightarrow> (\<lambda>s. (Inr (st_decoder sw, ''''), s))
            | Some rs \<Rightarrow> read_chunks sw ab rs (st_decoder sw) '''') (\<lambda>(d, carry).
     sbind (let tail = st_flush sw d in if tail \<noteq> '''' then publish sw ab tail carry else (\<lambda>s. (Inr carry, s))) (\<lambda>carry.
     sbind (look ab) (\<lambda>_.
     sbind (case st_finish sw carry of JArr es \<Rightarrow> emit_events sw ab es
            | _ \<Rightarrow> (\<lambda>s. (Inl (Raised ''frameStreamFinish result is malformed''), s))) (\<lambda>_.
     sbind (look ab) (\<lambda>_ s.
       (Inr (Reply \<lparr>rs_status = ps_status response, rs_headers = ps_headers response, rs_body = EmptyBody\<rparr>), s)))))))"

definition streamHttp :: "'s http_world \<Rightarrow> ('s, 'd) stream_world \<Rightarrow> http_request \<Rightarrow> 's \<Rightarrow> (js_error + exchange) \<times> 's" where
  "streamHttp w sw req = dispatch_http w req (read_stream sw)"

section \<open>Beacons\<close>

record 's beacon_ports =
  bp_queue :: "(string \<Rightarrow> string \<Rightarrow> 's \<Rightarrow> (js_error + bool) \<times> 's) option"
  bp_fetch :: "string \<Rightarrow> string \<Rightarrow> 's \<Rightarrow> (js_error + int) \<times> 's"

datatype beacon_delivery = ViaQueue | ViaFetch "int option"

definition beacon_fetch :: "'s beacon_ports \<Rightarrow> string \<Rightarrow> string \<Rightarrow> 's \<Rightarrow> beacon_delivery \<times> 's" where
  "beacon_fetch ports u t s =
     (case bp_fetch ports u t s of (Inr status, s') \<Rightarrow> (ViaFetch (Some status), s') | (Inl _, s') \<Rightarrow> (ViaFetch None, s'))"

definition deliverBeacon :: "string \<Rightarrow> string \<Rightarrow> 's beacon_ports \<Rightarrow> 's \<Rightarrow> beacon_delivery \<times> 's" where
  "deliverBeacon u t ports s =
     (case bp_queue ports of
        None \<Rightarrow> beacon_fetch ports u t s
      | Some queue \<Rightarrow>
          (case queue u t s of
             (Inr taken, s1) \<Rightarrow> if taken then (ViaQueue, s1) else beacon_fetch ports u t s1
           | (Inl _, s1) \<Rightarrow> beacon_fetch ports u t s1))"

datatype beacon_settled = TakenByQueue | TakenByFetch int | BeaconUnavailable string | BeaconFailed string

definition BEACON_UNAVAILABLE :: string where
  "BEACON_UNAVAILABLE = ''browser/beacon: this host has no beacon port''"

fun settle_beacon :: "beacon_delivery \<Rightarrow> beacon_settled" where
  "settle_beacon ViaQueue = TakenByQueue"
| "settle_beacon (ViaFetch (Some status)) = TakenByFetch status"
| "settle_beacon (ViaFetch None) = BeaconFailed ''the beacon fetch failed''"

text \<open>The wait ends when the signal aborts; the delivery that has begun is not undone.\<close>

definition sendBeaconRequest :: "'s http_world \<Rightarrow> 's beacon_ports option \<Rightarrow> http_request \<Rightarrow> 's \<Rightarrow> (js_error + beacon_settled) \<times> 's" where
  "sendBeaconRequest w beacon req s =
     (case beacon of
        None \<Rightarrow> (Inr (BeaconUnavailable BEACON_UNAVAILABLE), s)
      | Some ports \<Rightarrow>
          (case rq_body req of
             TextBody t \<Rightarrow>
               (if hw_cancelled w s then (Inl Aborted, s)
                else let (taken, s1) = deliverBeacon (rq_url req) t ports s
                     in (if hw_cancelled w s1 then Inl Aborted else Inr (settle_beacon taken), s1))
           | _ \<Rightarrow> (Inl (Raised ''a beacon request carries a text body''), s)))"

section \<open>Answering the driver\<close>

text \<open>The raw credential store and mode flag of the host (\<open>CredentialAdminPort\<close>), its values as JSON.\<close>

record 's credential_admin =
  ap_list :: "'s \<Rightarrow> (js_error + jval) \<times> 's"
  ap_read :: "string \<Rightarrow> 's \<Rightarrow> (js_error + jval) \<times> 's"
  ap_write :: "string \<Rightarrow> string \<Rightarrow> string \<Rightarrow> 's \<Rightarrow> (js_error + unit) \<times> 's"
  ap_remove :: "string \<Rightarrow> 's \<Rightarrow> (js_error + jval) \<times> 's"
  ap_rotate :: "'s \<Rightarrow> (js_error + jval) \<times> 's"
  ap_mode :: "'s \<Rightarrow> (js_error + jval) \<times> 's"
  ap_setMode :: "string \<Rightarrow> 's \<Rightarrow> (js_error + jval) \<times> 's"

record 's call_ports =
  cp_secret_get :: "string \<Rightarrow> string option \<Rightarrow> 's \<Rightarrow> (js_error + string option) \<times> 's"
  cp_secret_set :: "string \<Rightarrow> string \<Rightarrow> js_number \<Rightarrow> string option \<Rightarrow> 's \<Rightarrow> (js_error + unit) \<times> 's"
  cp_secret_rotate :: "(string \<Rightarrow> string \<Rightarrow> string option \<Rightarrow> 's \<Rightarrow> (js_error + unit) \<times> 's) option"
  cp_secret_forget :: "string \<Rightarrow> string option \<Rightarrow> 's \<Rightarrow> (js_error + unit) \<times> 's"
  cp_secret_label :: "(string \<Rightarrow> string option \<Rightarrow> 's \<Rightarrow> (js_error + string option) \<times> 's) option"
  cp_credentials :: "'s credential_admin option"
  cp_oauth :: "(oauth_ask \<Rightarrow> string option \<Rightarrow> 's \<Rightarrow> (js_error + jobj) \<times> 's) option"
  cp_narrow :: "jval \<Rightarrow> jobj option"
  cp_show :: "js_number \<Rightarrow> string"
  cp_random :: "int \<Rightarrow> 's \<Rightarrow> (js_error + bytes) \<times> 's"
  cp_beacon :: "'s beacon_ports option"

definition OAUTH_CODES :: "string list" where
  "OAUTH_CODES = [''AUTH_ERROR'', ''VALIDATION_ERROR'', ''NOT_CONFIGURED'', ''SERVICE_ERROR'', ''NETWORK_ERROR'']"

definition OAUTH_REASONS :: "string list" where
  "OAUTH_REASONS = [''state-unknown'', ''state-expired'', ''subject-mismatch'', ''provider-mismatch'', ''not-signed-in'',
     ''store-unavailable'', ''metadata-invalid'', ''response-invalid'', ''token-rejected'', ''userinfo-mismatch'',
     ''unconfigured-client'']"

definition one_of :: "string list \<Rightarrow> jval option \<Rightarrow> bool" where
  "one_of names v = (case v of Some (JStr t) \<Rightarrow> t \<in> set names | _ \<Rightarrow> False)"

definition isOAuthCode :: "jval option \<Rightarrow> bool" where
  "isOAuthCode = one_of OAUTH_CODES"

definition isOAuthReason :: "jval option \<Rightarrow> bool" where
  "isOAuthReason = one_of OAUTH_REASONS"

definition unavailableFailure :: "string \<Rightarrow> string option \<Rightarrow> jobj" where
  "unavailableFailure e key =
     [(''error'', JStr e), (''kind'', JStr ''unavailable''), (''key'', nullable JStr key), (''credential'', JNull),
      (''phase'', JNull), (''grantStatus'', JNull), (''grantBody'', JNull), (''code'', JNull), (''reason'', JNull)]"

definition is_text :: "jval option \<Rightarrow> bool" where
  "is_text v = (case v of Some (JStr _) \<Rightarrow> True | _ \<Rightarrow> False)"

definition is_number :: "jval option \<Rightarrow> bool" where
  "is_number v = (case v of Some (JNum _) \<Rightarrow> True | _ \<Rightarrow> False)"

abbreviation is_null :: "jval option \<Rightarrow> bool" where
  "is_null v \<equiv> v = Some JNull"

definition decodeFailurePayload :: "jval \<Rightarrow> js_error + jobj" where
  "decodeFailurePayload value =
     (case value of
        JObj p \<Rightarrow>
          (let get = obj_get p; malformed = Inl (Raised ''a failure payload is malformed'') in
           if \<not> is_text (get ''error'') \<or> \<not> (is_null (get ''key'') \<or> is_text (get ''key'')) then malformed
           else if \<not> (is_null (get ''phase'') \<or> get ''phase'' = Some (JStr ''grant'') \<or> get ''phase'' = Some (JStr ''request'')) then malformed
           else if \<not> (is_null (get ''grantStatus'') \<or> is_number (get ''grantStatus'')) then malformed
           else if \<not> (is_null (get ''grantBody'') \<or> is_text (get ''grantBody'')) then malformed
           else if get ''kind'' = Some (JStr ''oauth'') then
             (if \<not> (is_null (get ''credential'') \<and> is_null (get ''phase'') \<and> is_null (get ''grantStatus'') \<and> is_null (get ''grantBody''))
              then malformed
              else if \<not> isOAuthCode (get ''code'') \<or> \<not> isOAuthReason (get ''reason'') then malformed
              else Inr p)
           else if \<not> (is_null (get ''code'') \<and> is_null (get ''reason'')) then malformed
           else if get ''kind'' = Some (JStr ''unconfigured'') \<and> is_text (get ''credential'') then Inr p
           else if one_of [''timeout'', ''failed'', ''refused'', ''unavailable''] (get ''kind'') \<and> is_null (get ''credential'') then Inr p
           else malformed)
      | _ \<Rightarrow> Inl (Raised ''a failure payload is not an object''))"

fun failureAnswer :: "http_failure \<Rightarrow> jval" where
  "failureAnswer TimedOut = JObj [(''kind'', JStr ''timedOut'')]"
| "failureAnswer (Failed m) = JObj [(''kind'', JStr ''failed''), (''message'', JStr m)]"
| "failureAnswer (RefusedBy m) = JObj [(''kind'', JStr ''refused''), (''message'', JStr m)]"

definition answer :: "string \<Rightarrow> jval \<Rightarrow> jval" where
  "answer kind result = JObj [(''kind'', JStr kind), (''result'', result)]"

fun exchangeAnswer :: "exchange \<Rightarrow> jval" where
  "exchangeAnswer (Reply r) = answer ''http'' (JObj [(''ok'', encodeHttpResponse r)])"
| "exchangeAnswer (Failure f) = answer ''http'' (JObj [(''error'', failureAnswer f)])"

definition settledAnswer :: "string \<Rightarrow> string + jval \<Rightarrow> jval" where
  "settledAnswer kind outcome =
     answer kind (JObj [case outcome of Inl e \<Rightarrow> (''error'', JStr e) | Inr v \<Rightarrow> (''ok'', v)])"

fun beaconAnswer :: "beacon_settled \<Rightarrow> jval" where
  "beaconAnswer TakenByQueue = answer ''beacon'' (JObj [(''ok'', JObj [(''via'', JStr ''queue'')])])"
| "beaconAnswer (TakenByFetch n) = answer ''beacon'' (JObj [(''ok'', JObj [(''via'', JStr ''fetch''), (''status'', JInt n)])])"
| "beaconAnswer (BeaconUnavailable m) =
     answer ''beacon'' (JObj [(''ok'', JObj [(''via'', JStr ''unavailable''), (''message'', JStr m)])])"
| "beaconAnswer (BeaconFailed m) =
     answer ''beacon'' (JObj [(''error'', JObj [(''kind'', JStr ''failed''), (''message'', JStr m)])])"

definition OAUTH_REPLIES :: "string list" where
  "OAUTH_REPLIES = [''done'', ''flag'', ''taken'', ''row'', ''subject'', ''metadata'', ''millis'', ''mockToken'', ''code'']"

text \<open>\<open>checkOAuthReply\<close> gives \<open>undefined\<close> for any other reply, which leaves \<open>ok\<close> out of the JSON.\<close>

definition checkOAuthReply :: "jobj \<Rightarrow> jobj option" where
  "checkOAuthReply reply = (if one_of OAUTH_REPLIES (obj_get reply ''reply'') then Some reply else None)"

definition oauthAnswer :: "'s call_ports \<Rightarrow> oauth_ask \<Rightarrow> string option \<Rightarrow> 's \<Rightarrow> jval \<times> 's" where
  "oauthAnswer cp ask who s =
     (case cp_oauth cp of
        None \<Rightarrow> (answer ''oauth'' (JObj [(''error'', JStr ''this host keeps no OAuth state'')]), s)
      | Some port \<Rightarrow>
          (case port ask who s of
             (Inr reply, s') \<Rightarrow>
               (answer ''oauth'' (JObj (case checkOAuthReply reply of None \<Rightarrow> [] | Some r \<Rightarrow> [(''ok'', JObj r)])), s')
           | (Inl e, s') \<Rightarrow> (answer ''oauth'' (JObj [(''error'', JStr (message_of e))]), s')))"

definition quoted :: "string \<Rightarrow> string" where
  "quoted t = CHR 0x22 # t @ [CHR 0x22]"

definition askOwner :: "string \<Rightarrow> jobj \<Rightarrow> string option \<Rightarrow> js_error + (string + string option)" where
  "askOwner kind ask who =
     (let scope = obj_get ask ''scope'' in
      if scope = None \<or> scope = Some (JStr ''app'') then Inr (Inr None)
      else if scope \<noteq> Some (JStr ''user'') then Inl (Raised (''driver ask '' @ quoted kind @ '' has an unknown scope''))
      else case who of None \<Rightarrow> Inr (Inl ''nobody is signed in'') | Some w \<Rightarrow> Inr (Inr (Some w)))"

text \<open>A \<open>try\<close> around one port call: its result or its message, as the settled answer of the kind.\<close>

definition settle :: "string \<Rightarrow> ('r \<Rightarrow> jval) \<Rightarrow> ('s \<Rightarrow> (js_error + 'r) \<times> 's) \<Rightarrow> 's \<Rightarrow> (js_error + jval) \<times> 's" where
  "settle kind ok f s =
     (case f s of (Inr r, s') \<Rightarrow> (Inr (settledAnswer kind (Inr (ok r))), s')
      | (Inl e, s') \<Rightarrow> (Inr (settledAnswer kind (Inl (message_of e))), s'))"

definition owned :: "string \<Rightarrow> jobj \<Rightarrow> string option \<Rightarrow> (string option \<Rightarrow> 's \<Rightarrow> (js_error + jval) \<times> 's) \<Rightarrow> 's \<Rightarrow> (js_error + jval) \<times> 's" where
  "owned kind ask who f s =
     (case askOwner kind ask who of
        Inl e \<Rightarrow> (Inl e, s)
      | Inr (Inl m) \<Rightarrow> (Inr (settledAnswer kind (Inl m)), s)
      | Inr (Inr owner) \<Rightarrow> f owner s)"

text \<open>The texts of the two readers' errors (\<open>kernel/decode.ts\<close>).\<close>

definition with_article :: "string \<Rightarrow> string" where
  "with_article t = (if t \<in> {''integer'', ''event response''} then ''an '' @ t
     else if t \<in> {''text'', ''google, github or auth0''} then t else ''a '' @ t)"

fun wire_message :: "wire_error \<Rightarrow> string" where
  "wire_message (Missing n) = ''kernel wire: '' @ quoted n @ '' is missing''"
| "wire_message (WrongType n t) = ''kernel wire: '' @ quoted n @ '' is not '' @ with_article t"
| "wire_message (NotAnObject n) = ''kernel wire: '' @ n @ '' is not an object''"
| "wire_message (BadHeader n) = ''kernel wire: '' @ quoted n @ '' holds a header that is not a [name, value] pair''"
| "wire_message (UnknownValue n v) = ''kernel wire: unknown '' @ n @ '' '' @ quoted v"
| "wire_message (Refused m) = m"

fun oauth_message :: "wire_error \<Rightarrow> string" where
  "oauth_message (WrongType n t) = ''driver oauth ask: `'' @ n @ ''` is not '' @ with_article t"
| "oauth_message (NotAnObject n) = n @ '' is not an object''"
| "oauth_message (UnknownValue n v) =
     (if n = ''provider'' then ''driver oauth ask: `provider` is not google, github or auth0''
      else n @ '' '' @ quoted v @ '' is unknown'')"
| "oauth_message e = wire_message e"

definition lift_wire :: "(wire_error \<Rightarrow> string) \<Rightarrow> 'r wire_result \<Rightarrow> 's \<Rightarrow> (js_error + 'r) \<times> 's" where
  "lift_wire msg r s = (map_sum (\<lambda>e. Raised (msg e)) id r, s)"

text \<open>\<open>String(value)\<close>; the text of a number is the language's.\<close>

fun js_String :: "(js_number \<Rightarrow> string) \<Rightarrow> jval option \<Rightarrow> string" where
  "js_String show None = ''undefined''"
| "js_String show (Some JNull) = ''null''"
| "js_String show (Some (JBool b)) = (if b then ''true'' else ''false'')"
| "js_String show (Some (JNum n)) = show n"
| "js_String show (Some (JStr t)) = t"
| "js_String show (Some (JArr xs)) =
     join_with '','' (map (\<lambda>x. if x = JNull then [] else js_String show (Some x)) xs)"
| "js_String show (Some (JObj _)) = ''[object Object]''"

definition ask_request :: "string \<Rightarrow> jobj \<Rightarrow> 's \<Rightarrow> (js_error + http_request) \<times> 's" where
  "ask_request kind ask s =
     (case obj_get ask ''request'' of
        None \<Rightarrow> (Inl (Raised (''driver ask '' @ quoted kind @ '' has no request'')), s)
      | Some v \<Rightarrow> lift_wire wire_message (decodeHttpRequest v) s)"

definition malformed_ask :: "string \<Rightarrow> string \<Rightarrow> 's \<Rightarrow> (js_error + 'r) \<times> 's" where
  "malformed_ask kind what s = (Inl (Raised (''driver ask '' @ quoted kind @ '' '' @ what)), s)"

definition answerAsk :: "'s http_world \<Rightarrow> 's call_ports \<Rightarrow> (framing \<Rightarrow> string option \<Rightarrow> ('s, 'd) stream_world) \<Rightarrow>
    jobj \<Rightarrow> string option \<Rightarrow> string option \<Rightarrow> 's \<Rightarrow> (js_error + jval) \<times> 's" where
  "answerAsk w cp streams ask key who =
     (case obj_get ask ''kind'' of
        Some (JStr kind) \<Rightarrow>
          (if kind = ''secret'' then
             (case obj_get ask ''name'' of
                Some (JStr name) \<Rightarrow> owned kind ask who (\<lambda>owner. settle kind (nullable JStr) (cp_secret_get cp name owner))
              | _ \<Rightarrow> malformed_ask kind ''has no name'')
           else if kind = ''secretSet'' then
             (case (obj_get ask ''name'', obj_get ask ''value'', obj_get ask ''ttlMs'') of
                (Some (JStr name), Some (JStr v), Some (JNum ttl)) \<Rightarrow>
                  owned kind ask who (\<lambda>owner. settle kind (\<lambda>_. JNull) (cp_secret_set cp name v ttl owner))
              | _ \<Rightarrow> malformed_ask kind ''is malformed'')
           else if kind = ''secretRotate'' then
             (case (obj_get ask ''name'', obj_get ask ''value'') of
                (Some (JStr name), Some (JStr v)) \<Rightarrow>
                  owned kind ask who (\<lambda>owner. settle kind (\<lambda>_. JNull)
                    (case cp_secret_rotate cp of
                       None \<Rightarrow> (\<lambda>s. (Inl (Raised ''this host keeps no rotatable credentials''), s))
                     | Some turn \<Rightarrow> turn name v owner))
              | _ \<Rightarrow> malformed_ask kind ''is malformed'')
           else if kind = ''oauth'' then
             sbind (lift_wire oauth_message (decodeOAuthAsk (cp_narrow cp) (obj_get ask ''ask''))) (\<lambda>a s.
               let (r, s') = oauthAnswer cp a who s in (Inr r, s'))
           else if kind = ''random'' then
             (case obj_get ask ''bytes'' of
                Some (JNum n) \<Rightarrow>
                  if \<not> isInteger n \<or> int_of_num n < 0 then malformed_ask kind ''is malformed''
                  else settle kind (\<lambda>b. JStr (base64Standard b)) (cp_random cp (int_of_num n))
              | _ \<Rightarrow> malformed_ask kind ''is malformed'')
           else if kind = ''http'' then
             (case obj_get ask ''delayMs'' of
                None \<Rightarrow> sbind (ask_request kind ask) (\<lambda>req. sbind (sendHttp w req (Fin 0)) (\<lambda>x s. (Inr (exchangeAnswer x), s)))
              | Some (JNum d) \<Rightarrow> sbind (ask_request kind ask) (\<lambda>req. sbind (sendHttp w req d) (\<lambda>x s. (Inr (exchangeAnswer x), s)))
              | _ \<Rightarrow> malformed_ask kind ''has a malformed delayMs'')
           else if kind = ''beacon'' then
             sbind (ask_request kind ask) (\<lambda>req. sbind (sendBeaconRequest w (cp_beacon cp) req) (\<lambda>x s. (Inr (beaconAnswer x), s)))
           else if kind = ''httpStream'' then
             (case obj_get ask ''framing'' of
                Some (JStr f) \<Rightarrow>
                  (case framing_of f of
                     Inl _ \<Rightarrow> malformed_ask kind ''has an unknown framing''
                   | Inr fr \<Rightarrow> sbind (ask_request kind ask) (\<lambda>req.
                       sbind (streamHttp w (streams fr key) req) (\<lambda>x s. (Inr (exchangeAnswer x), s))))
              | _ \<Rightarrow> malformed_ask kind ''has an unknown framing'')
           else (\<lambda>s. (Inl (Raised (''driver asked for unknown '' @ quoted kind)), s)))
      | other \<Rightarrow> (\<lambda>s. (Inl (Raised (''driver asked for unknown '' @ quoted (js_String (cp_show cp) other))), s)))"

section \<open>Running a call\<close>

record 's http_kernel =
  hk_start :: "jval \<Rightarrow> 's \<Rightarrow> (js_error + jval) \<times> 's"
  hk_resume :: "jval \<Rightarrow> jval \<Rightarrow> 's \<Rightarrow> (js_error + jval) \<times> 's"
  hk_drop :: "jval \<Rightarrow> 's \<Rightarrow> 's"

datatype http_outcome = OkOutcome jval | ErrorOutcome jobj

definition as_obj :: "string \<Rightarrow> jval option \<Rightarrow> js_error + jobj" where
  "as_obj what v = (case v of Some (JObj kvs) \<Rightarrow> Inr kvs | _ \<Rightarrow> Inl (Raised (what @ '' is not an object'')))"

definition finish_call :: "jobj \<Rightarrow> js_error + http_outcome" where
  "finish_call step =
     rbind (as_obj ''the driver result'' (obj_get step ''result'')) (\<lambda>result.
       case (obj_get result ''ok'', obj_get result ''error'') of
         (Some v, _) \<Rightarrow> Inr (OkOutcome v)
       | (None, Some e) \<Rightarrow> rbind (decodeFailurePayload e) (\<lambda>p. Inr (ErrorOutcome p))
       | (None, None) \<Rightarrow> Inl (Raised ''the driver finished with neither ok nor error''))"

definition driver_of :: "jobj \<Rightarrow> jval" where
  "driver_of progress = (case obj_get progress ''driver'' of Some d \<Rightarrow> d | None \<Rightarrow> JNull)"

text \<open>The body of the \<open>try\<close>: the ask answered and the driver resumed with the answer.\<close>

definition advance_call :: "'s http_kernel \<Rightarrow> (jobj \<Rightarrow> 's \<Rightarrow> (js_error + jval) \<times> 's) \<Rightarrow> jobj \<Rightarrow> jobj \<Rightarrow> 's \<Rightarrow> (js_error + jobj) \<times> 's" where
  "advance_call hk ans progress step s =
     (case as_obj ''the driver ask'' (obj_get step ''ask'') of
        Inl e \<Rightarrow> (Inl e, s)
      | Inr ask \<Rightarrow>
          sbind (ans ask) (\<lambda>a. sbind (hk_resume hk (driver_of progress) a) (\<lambda>v s.
            (as_obj ''httpDriverResume result'' (Some v), s))) s)"

partial_function (option) run_driver ::
  "(js_number \<Rightarrow> string) \<Rightarrow> 's http_kernel \<Rightarrow> (jobj \<Rightarrow> 's \<Rightarrow> (js_error + jval) \<times> 's) \<Rightarrow> jobj \<Rightarrow> 's \<Rightarrow> ((js_error + http_outcome) \<times> 's) option" where
  "run_driver show hk ans progress s =
     (case as_obj ''the driver step'' (obj_get progress ''step'') of
        Inl e \<Rightarrow> Some (Inl e, s)
      | Inr step \<Rightarrow>
          if obj_get step ''kind'' = Some (JStr ''done'') then Some (finish_call step, s)
          else if obj_get step ''kind'' \<noteq> Some (JStr ''ask'') then Some (Inl (Raised (''the driver step '' @ quoted (js_String show (obj_get step ''kind'')) @ '' is unknown'')), s)
          else (case advance_call hk ans progress step s of
                  (Inl e, s') \<Rightarrow> Some (Inl e, hk_drop hk (driver_of progress) s')
                | (Inr progress', s') \<Rightarrow> run_driver show hk ans progress' s'))"

definition call_key :: "jobj \<Rightarrow> string option" where
  "call_key call = (case obj_get call ''key'' of Some (JStr k) \<Rightarrow> Some k | _ \<Rightarrow> None)"

definition runHttpCall :: "'s http_world \<Rightarrow> 's call_ports \<Rightarrow> (framing \<Rightarrow> string option \<Rightarrow> ('s, 'd) stream_world) \<Rightarrow> 's http_kernel \<Rightarrow>
    jobj \<Rightarrow> string option \<Rightarrow> 's \<Rightarrow> ((js_error + http_outcome) \<times> 's) option" where
  "runHttpCall w cp streams hk call who s =
     (let key = call_key call in
      if obj_get call ''delivery'' = Some (JStr ''beacon'') \<and> cp_beacon cp = None
      then Some (Inr (ErrorOutcome (unavailableFailure BEACON_UNAVAILABLE key)), s)
      else let started = (case who of None \<Rightarrow> call | Some p \<Rightarrow> AList.update ''principal'' (JStr p) call)
           in case sbind (hk_start hk (JObj started)) (\<lambda>v s. (as_obj ''httpDriverStart result'' (Some v), s)) s of
                (Inl e, s') \<Rightarrow> Some (Inl e, s')
              | (Inr progress, s') \<Rightarrow> run_driver (cp_show cp) hk (\<lambda>ask. answerAsk w cp streams ask key who) progress s')"

section \<open>Properties\<close>






lemma wait_loop_uncancelled:
  assumes "\<And>s. \<not> hw_cancelled w s"
  shows "\<exists>ds s'. wait_loop w n s = (Inr ds, s') \<and> sum_list ds = max 0 n \<and> list_all (\<lambda>d. 0 < d \<and> d \<le> MAX_TIMER) ds"
proof (induction "nat n" arbitrary: n s rule: less_induct)
  case less
  show ?case
  proof (cases "0 < n")
    case True
    let ?d = "min n MAX_TIMER"
    have "nat (n - ?d) < nat n" using True by (simp add: MAX_TIMER_def min_def)
    from less [OF this, of "hw_sleep w ?d s"] obtain ds s' where
      rest: "wait_loop w (n - ?d) (hw_sleep w ?d s) = (Inr ds, s')" "sum_list ds = max 0 (n - ?d)"
      "list_all (\<lambda>d. 0 < d \<and> d \<le> MAX_TIMER) ds" by auto
    have "wait_loop w n s = (Inr (?d # ds), s')"
      using True assms rest(1) by (subst wait_loop.simps) (simp add: Let_def)
    then show ?thesis using rest True by (auto simp: MAX_TIMER_def min_def)
  next
    case False
    then show ?thesis by (simp add: wait_loop.simps)
  qed
qed

text \<open>
  C32: The retry delay is waited out in full: uncancelled, a whole number of milliseconds is cut
  into timers none of which is longer than a signed 32-bit timer can hold, and which add up to the
  delay; anything but a non-negative whole number is refused.
\<close>
theorem delay_fits_timers:
  assumes "\<And>s. \<not> hw_cancelled w s"
  shows "if isInteger d \<and> \<not> num_less d (Fin 0)
    then \<exists>ds s'. waitForHttpDelay w d s = (Inr ds, s') \<and> sum_list ds = int_of_num d \<and> list_all (\<lambda>t. 0 < t \<and> t < 2 ^ 31) ds
    else fst (waitForHttpDelay w d s) = Inl (Raised ''http delayMs must be a nonnegative whole number'')"
proof (cases "isInteger d \<and> \<not> num_less d (Fin 0)")
  case True
  then have d: "d = Fin (of_int (int_of_num d))" using isInteger_Fin by blast
  have "0 \<le> int_of_num d" using True by (subst (asm) (2) d) simp
  moreover obtain ds s' where "wait_loop w (int_of_num d) s = (Inr ds, s')" "sum_list ds = max 0 (int_of_num d)"
    "list_all (\<lambda>t. 0 < t \<and> t \<le> MAX_TIMER) ds" using wait_loop_uncancelled [OF assms] by blast
  ultimately show ?thesis
    using True assms by (auto simp: waitForHttpDelay_def MAX_TIMER_def list_all_iff)
qed (auto simp: waitForHttpDelay_def)

definition quiet_world :: "unit http_world" where
  "quiet_world = \<lparr>hw_parse_url = \<lambda>_. None, hw_encode = \<lambda>_. [], hw_decode = \<lambda>_. None, hw_isPublic = \<lambda>_. False, hw_egress = [],
     hw_resolve = None, hw_fetch = \<lambda>_ _ _ _ s. (Inl Aborted, s), hw_cancelled = \<lambda>_. False, hw_timed_out = \<lambda>_ _ _. False,
     hw_sleep = \<lambda>_ s. s\<rparr>"

theorem delay_fits_timers_witness:
  "\<exists>ds. waitForHttpDelay quiet_world (Fin 3000000000) () = (Inr ds, ()) \<and> sum_list ds = 3000000000"
  using delay_fits_timers [of quiet_world "Fin 3000000000" "()"] by (auto simp: quiet_world_def)

text \<open>
  A body survives the wire: sent as text when it decodes and as base64 when it does not, the
  bytes read back are the bytes read (given that encoding undoes a decoding that succeeds, which
  for the platform's decoder means a body without a byte order mark).
\<close>
theorem body_roundtrip:
  assumes "\<And>t. decode b = Some t \<Longrightarrow> encode t = b"
  shows "bodyBytes encode (wireBody decode b) = Inr (if b = [] then None else Some b)"
  using assms atob_btoa [of b] by (auto simp: wireBody_def split: option.split)

theorem body_roundtrip_witness:
  "bodyBytes (\<lambda>_. []) (wireBody (\<lambda>_. None) [255, 254]) = Inr (Some [255, 254])"
  using body_roundtrip [of "\<lambda>_. None" "[255, 254]" "\<lambda>_. []"] by simp

section \<open>Streams and their chunks\<close>











end
