(* ===== verification/HttpCalls.thy ===== *)
theory HttpCalls
  imports HttpExchange
begin

text \<open>
  What the answers and the call loop of \<open>kernel/http-exchange.ts\<close> keep, whatever the ports do: an
  ask is answered under its own kind, and a driver the kernel started is done or dropped when the
  call ends.
\<close>

section \<open>Answers\<close>

definition answers :: "string \<Rightarrow> ('s \<Rightarrow> (js_error + jval) \<times> 's) \<Rightarrow> bool" where
  "answers k m \<longleftrightarrow> (\<forall>s a s'. m s = (Inr a, s') \<longrightarrow> (\<exists>result. a = answer k result))"

named_theorems answers_intro \<open>what answers under a kind\<close>

lemma answers_settle [answers_intro]: "answers k (settle k ok f)"
  by (auto simp: answers_def settle_def settledAnswer_def split: prod.splits sum.splits)

lemma answers_owned [answers_intro]: "(\<And>w. answers k (f w)) \<Longrightarrow> answers k (owned k ask who f)"
  unfolding answers_def owned_def by (fastforce simp: settledAnswer_def split: sum.splits)

lemma answers_malformed [answers_intro]: "answers k (malformed_ask kind what)"
  by (simp add: answers_def malformed_ask_def)

lemma answers_throw [answers_intro]: "answers k (\<lambda>s. (Inl e, s))"
  by (simp add: answers_def)

lemma answers_sbind [answers_intro]:
  assumes "\<And>x. answers k (f x)"
  shows "answers k (sbind m f)"
  unfolding answers_def
proof (intro allI impI)
  fix s a s' assume "sbind m f s = (Inr a, s')"
  then obtain x t where "f x t = (Inr a, s')" unfolding sbind_Inr by blast
  then show "\<exists>result. a = answer k result" using assms [of x] unfolding answers_def by blast
qed

lemma answers_exchange [answers_intro]: "answers ''http'' (\<lambda>s. (Inr (exchangeAnswer x), s))"
  by (cases x) (auto simp: answers_def)

lemma answers_beacon [answers_intro]: "answers ''beacon'' (\<lambda>s. (Inr (beaconAnswer x), s))"
  by (cases x rule: beaconAnswer.cases) (auto simp: answers_def)

lemma answers_oauth [answers_intro]: "answers ''oauth'' (\<lambda>s. let (r, s') = oauthAnswer cp a who s in (Inr r, s'))"
  by (auto simp: answers_def oauthAnswer_def split: option.splits prod.splits sum.splits)

lemma answers_oauth_case [answers_intro]: "answers ''oauth'' (\<lambda>s. case oauthAnswer cp a who s of (r, s') \<Rightarrow> (Inr r, s'))"
  using answers_oauth by (simp add: Let_def)

lemma answers_option [answers_intro]: "answers k f \<Longrightarrow> (\<And>x. answers k (g x)) \<Longrightarrow> answers k (case v of None \<Rightarrow> f | Some x \<Rightarrow> g x)"
  by (cases v) auto

lemma answers_jval [answers_intro]:
  "answers k f1 \<Longrightarrow> (\<And>b. answers k (f2 b)) \<Longrightarrow> (\<And>n. answers k (f3 n)) \<Longrightarrow> (\<And>t. answers k (f4 t)) \<Longrightarrow>
   (\<And>xs. answers k (f5 xs)) \<Longrightarrow> (\<And>kvs. answers k (f6 kvs)) \<Longrightarrow>
   answers k (case v of JNull \<Rightarrow> f1 | JBool b \<Rightarrow> f2 b | JNum n \<Rightarrow> f3 n | JStr t \<Rightarrow> f4 t | JArr xs \<Rightarrow> f5 xs | JObj kvs \<Rightarrow> f6 kvs)"
  by (cases v) auto

lemma answers_sum [answers_intro]: "(\<And>x. answers k (f x)) \<Longrightarrow> (\<And>x. answers k (g x)) \<Longrightarrow> answers k (case v of Inl x \<Rightarrow> f x | Inr x \<Rightarrow> g x)"
  by (cases v) auto

lemma answers_if [answers_intro]: "answers k f \<Longrightarrow> answers k g \<Longrightarrow> answers k (if b then f else g)"
  by simp

text \<open>
  An answered ask is answered under its own kind (a stream ask under \<open>http\<close>), whatever the
  ports reply or throw: the driver is never resumed with the answer of another ask.
\<close>
theorem answer_kinds:
  assumes "obj_get ask ''kind'' = Some (JStr kind)" and "answerAsk w cp streams ask key who s = (Inr a, s')"
  shows "\<exists>result. a = answer (if kind = ''httpStream'' then ''http'' else kind) result"
proof -
  have "answers (if kind = ''httpStream'' then ''http'' else kind) (answerAsk w cp streams ask key who)"
  proof (cases "kind \<in> {''secret'', ''secretSet'', ''secretRotate'', ''oauth'', ''random'', ''http'', ''beacon'', ''httpStream''}")
    case False
    then show ?thesis by (auto simp: answerAsk_def assms(1) intro: answers_throw)
  next
    case True
    then show ?thesis
      by (elim insertE emptyE; simp add: answerAsk_def assms(1) cong: option.case_cong jval.case_cong)
        (intro answers_intro)+
  qed
  then show ?thesis using assms(2) unfolding answers_def by blast
qed

section \<open>Ports that leave something alone\<close>

text \<open>\<open>keeps h m\<close>: what \<open>h\<close> reads off the world is the same after \<open>m\<close>.\<close>

definition keeps :: "('s \<Rightarrow> 'h) \<Rightarrow> ('s \<Rightarrow> 'r \<times> 's) \<Rightarrow> bool" where
  "keeps h m \<longleftrightarrow> (\<forall>s. h (snd (m s)) = h s)"

named_theorems keeps_intro \<open>what keeps a reading of the world\<close>

lemma keepsD: "keeps h m \<Longrightarrow> m s = (r, s') \<Longrightarrow> h s' = h s"
  unfolding keeps_def by (metis snd_conv)

lemma keeps_ret [keeps_intro]: "keeps h (\<lambda>s. (r, s))"
  by (simp add: keeps_def)

lemma keeps_read [keeps_intro]: "keeps h (\<lambda>s. (r s, s))"
  by (simp add: keeps_def)

lemma keeps_sbind [keeps_intro]:
  assumes "keeps h m" and "\<And>x. keeps h (f x)"
  shows "keeps h (sbind m f)"
  using assms by (auto simp: keeps_def sbind_def split: prod.splits sum.splits) (metis snd_conv)+

lemma keeps_option [keeps_intro]: "keeps h f \<Longrightarrow> (\<And>x. v = Some x \<Longrightarrow> keeps h (g x)) \<Longrightarrow> keeps h (case v of None \<Rightarrow> f | Some x \<Rightarrow> g x)"
  by (cases v) auto

lemma keeps_sum [keeps_intro]: "(\<And>x. keeps h (f x)) \<Longrightarrow> (\<And>x. keeps h (g x)) \<Longrightarrow> keeps h (case v of Inl x \<Rightarrow> f x | Inr x \<Rightarrow> g x)"
  by (cases v) auto

lemma keeps_prod [keeps_intro]: "(\<And>x y. keeps h (f x y)) \<Longrightarrow> keeps h (case v of (x, y) \<Rightarrow> f x y)"
  by (cases v) auto

lemma keeps_jval [keeps_intro]:
  "keeps h f1 \<Longrightarrow> (\<And>b. keeps h (f2 b)) \<Longrightarrow> (\<And>n. keeps h (f3 n)) \<Longrightarrow> (\<And>t. keeps h (f4 t)) \<Longrightarrow>
   (\<And>xs. keeps h (f5 xs)) \<Longrightarrow> (\<And>kvs. keeps h (f6 kvs)) \<Longrightarrow>
   keeps h (case v of JNull \<Rightarrow> f1 | JBool b \<Rightarrow> f2 b | JNum n \<Rightarrow> f3 n | JStr t \<Rightarrow> f4 t | JArr xs \<Rightarrow> f5 xs | JObj kvs \<Rightarrow> f6 kvs)"
  by (cases v) auto

lemma keeps_if [keeps_intro]: "keeps h f \<Longrightarrow> keeps h g \<Longrightarrow> keeps h (if b then f else g)"
  by simp

lemma keeps_settle [keeps_intro]: "keeps h f \<Longrightarrow> keeps h (settle k ok f)"
  by (auto simp: keeps_def settle_def split: prod.splits sum.splits) (metis snd_conv)+

lemma keeps_owned [keeps_intro]: "(\<And>w. keeps h (f w)) \<Longrightarrow> keeps h (owned k ask who f)"
  by (auto simp: keeps_def owned_def split: sum.splits)

lemma keeps_malformed [keeps_intro]: "keeps h (malformed_ask kind what)"
  by (simp add: keeps_def malformed_ask_def)

lemma keeps_lift_wire [keeps_intro]: "keeps h (lift_wire msg r)"
  by (simp add: keeps_def lift_wire_def)

lemma keeps_ask_request [keeps_intro]: "keeps h (ask_request kind ask)"
  by (auto simp: keeps_def ask_request_def lift_wire_def split: option.split)

lemma keeps_look [keeps_intro]: "keeps h (look ab)"
  by (simp add: keeps_def look_def)

definition network_keeps :: "('s \<Rightarrow> 'h) \<Rightarrow> 's http_world \<Rightarrow> bool" where
  "network_keeps h w \<longleftrightarrow> (\<forall>f host. hw_resolve w = Some f \<longrightarrow> keeps h (f host)) \<and>
     (\<forall>u req body a. keeps h (hw_fetch w u req body a)) \<and> (\<forall>d s. h (hw_sleep w d s) = h s)"

definition ports_keep :: "('s \<Rightarrow> 'h) \<Rightarrow> 's call_ports \<Rightarrow> bool" where
  "ports_keep h cp \<longleftrightarrow> (\<forall>n who. keeps h (cp_secret_get cp n who)) \<and> (\<forall>n v ttl who. keeps h (cp_secret_set cp n v ttl who)) \<and>
     (\<forall>f n v who. cp_secret_rotate cp = Some f \<longrightarrow> keeps h (f n v who)) \<and>
     (\<forall>f a who. cp_oauth cp = Some f \<longrightarrow> keeps h (f a who)) \<and> (\<forall>n. keeps h (cp_random cp n)) \<and>
     (\<forall>bp. cp_beacon cp = Some bp \<longrightarrow> (\<forall>u t. keeps h (bp_fetch bp u t)) \<and>
        (\<forall>f u t. bp_queue bp = Some f \<longrightarrow> keeps h (f u t)))"

lemma keeps_dispatch [keeps_intro]:
  assumes "network_keeps h w" and "\<And>r ab. keeps h (read r ab)"
  shows "keeps h (dispatch_http w req read)"
proof -
  have check: "keeps h (checkedAddress w u)" for u
    using assms(1) unfolding checkedAddress_def network_keeps_def by (auto intro!: keeps_intro)
  have "keeps h (attempt w req u b read ab)" for u b ab
    unfolding attempt_def using assms(1) by (intro keeps_intro check assms(2)) (simp add: network_keeps_def)
  then have tried: "h (snd (attempt w req u b read ab s)) = h s" for u b ab s
    by (simp add: keeps_def)
  show ?thesis
    unfolding keeps_def
  proof
    fix s
    show "h (snd (dispatch_http w req read s)) = h s"
    proof (cases "hw_parse_url w (rq_url req)")
      case None
      then show ?thesis by (simp add: dispatch_http_def)
    next
      case (Some u)
      then show ?thesis
      proof (cases "bodyBytes (hw_encode w) (rq_body req)")
        case (Inr b)
        obtain r s1 where "attempt w req u b read (op_aborted w req s) s = (r, s1)" by fastforce
        moreover from this have "h s1 = h s" using tried [of u b "op_aborted w req s" s] by simp
        ultimately show ?thesis using Some Inr by (cases r) (auto simp: dispatch_http_def)
      qed (auto simp: dispatch_http_def)
    qed
  qed
qed

lemma keeps_wait_loop:
  assumes "network_keeps h w"
  shows "h (snd (wait_loop w n s)) = h s"
proof (induction "nat n" arbitrary: n s rule: less_induct)
  case less
  have sleep: "h (hw_sleep w d s) = h s" for d s using assms by (simp add: network_keeps_def)
  show ?case
  proof (cases "0 < n")
    case True
    let ?d = "min n MAX_TIMER"
    have "nat (n - ?d) < nat n" using True by (simp add: MAX_TIMER_def min_def)
    from less [OF this, of "hw_sleep w ?d s"]
    have ih: "h (snd (wait_loop w (n - ?d) (hw_sleep w ?d s))) = h s" by (simp add: sleep)
    obtain r s1 where rest: "wait_loop w (n - ?d) (hw_sleep w ?d s) = (r, s1)" by fastforce
    then show ?thesis
      using ih True by (subst wait_loop.simps) (cases r; simp add: Let_def sleep)
  qed (simp add: wait_loop.simps)
qed

lemma keeps_sendHttp [keeps_intro]:
  assumes "network_keeps h w"
  shows "keeps h (sendHttp w req d)"
proof -
  have "keeps h (waitForHttpDelay w d)"
    by (simp add: keeps_def waitForHttpDelay_def keeps_wait_loop [OF assms])
  moreover have "keeps h (read_whole w r ab)" for r ab
    by (simp add: keeps_def read_whole_def)
  ultimately show ?thesis unfolding sendHttp_def using assms by (intro keeps_intro)
qed

lemma keeps_emit [keeps_intro]:
  assumes "\<And>ev. keeps h (st_onEvent sw ev)"
  shows "keeps h (emit_events sw ab vs)"
proof (induction vs)
  case (Cons v vs)
  have "keeps h (\<lambda>s. case streamEvent v of Inl e \<Rightarrow> (Inl e, s) | Inr ev \<Rightarrow> sbind (st_onEvent sw ev) (\<lambda>_. emit_events sw ab vs) s)"
    using Cons assms by (cases "streamEvent v") (auto intro!: keeps_intro)
  then show ?case unfolding emit_events.simps by (intro keeps_intro)
qed (simp add: keeps_def)

lemma keeps_publish [keeps_intro]:
  assumes "\<And>ev. keeps h (st_onEvent sw ev)"
  shows "keeps h (publish sw ab chunk carry)"
proof -
  have "keeps h (\<lambda>s. case framed_parts (st_frame sw chunk carry) of Inl e \<Rightarrow> (Inl e, s)
      | Inr (events, rest) \<Rightarrow> sbind (emit_events sw ab events) (\<lambda>_ s. (Inr rest, s)) s)"
    using assms by (cases "framed_parts (st_frame sw chunk carry)") (auto intro!: keeps_intro)
  then show ?thesis unfolding publish_def by (intro keeps_intro)
qed

lemma keeps_chunks [keeps_intro]:
  assumes "\<And>ev. keeps h (st_onEvent sw ev)"
  shows "keeps h (read_chunks sw ab rs d carry)"
proof (induction rs arbitrary: d carry)
  case Nil
  show ?case unfolding read_chunks.simps by (intro keeps_intro)
next
  case (Cons r rs)
  show ?case
  proof (cases r)
    case (Inl e)
    then show ?thesis by (simp add: keeps_def)
  next
    case (Inr b)
    then show ?thesis unfolding Inr read_chunks.simps Let_def by (intro keeps_intro assms Cons)
  qed
qed

lemma keeps_read_stream [keeps_intro]:
  assumes "\<And>ev. keeps h (st_onEvent sw ev)"
  shows "keeps h (read_stream sw r ab)"
  unfolding read_stream_def Let_def by (intro keeps_intro assms)

lemma keeps_beacon [keeps_intro]:
  assumes "ports_keep h cp"
  shows "keeps h (sendBeaconRequest w (cp_beacon cp) req)"
proof (cases "cp_beacon cp")
  case (Some bp)
  have fetched: "h (snd (bp_fetch bp u t s)) = h s" for u t s
    using assms Some by (simp add: ports_keep_def keeps_def)
  have queued: "h (snd (f u t s)) = h s" if "bp_queue bp = Some f" for f u t s
    using assms Some that by (simp add: ports_keep_def keeps_def)
  have fetch: "h (snd (beacon_fetch bp u t s)) = h s" for u t s
    using fetched [of u t s] by (auto simp: beacon_fetch_def split: prod.splits sum.splits)
  have "h (snd (deliverBeacon u t bp s)) = h s" for u t s
  proof (cases "bp_queue bp")
    case (Some f)
    obtain r s1 where q: "f u t s = (r, s1)" by fastforce
    then have "h s1 = h s" using queued [OF Some, of u t s] by simp
    then show ?thesis using fetch [of u t s1] by (cases r) (auto simp: deliverBeacon_def Some q)
  qed (simp add: deliverBeacon_def fetch)
  then show ?thesis
    unfolding keeps_def sendBeaconRequest_def Some
    by (auto simp: Let_def split: http_body.split prod.split) (metis snd_conv)+
qed (simp add: keeps_def sendBeaconRequest_def)

lemma keeps_oauth [keeps_intro]:
  assumes "ports_keep h cp"
  shows "keeps h (\<lambda>s. case oauthAnswer cp a who s of (r, s') \<Rightarrow> (Inr r, s'))"
proof (cases "cp_oauth cp")
  case (Some f)
  have "h (snd (f a who s)) = h s" for s using assms Some by (simp add: ports_keep_def keeps_def)
  then show ?thesis
    unfolding keeps_def oauthAnswer_def Some
    by (auto split: prod.split sum.split) (metis snd_conv)+
qed (simp add: keeps_def oauthAnswer_def)

lemma keeps_answerAsk:
  assumes net: "network_keeps h w" and ports: "ports_keep h cp" and events: "\<And>fr ev. keeps h (st_onEvent (streams fr key) ev)"
  shows "keeps h (answerAsk w cp streams ask key who)"
proof -
  have get: "keeps h (cp_secret_get cp n o1)" and set: "keeps h (cp_secret_set cp n v ttl o1)"
    and turn: "cp_secret_rotate cp = Some f \<Longrightarrow> keeps h (f n v o1)" and random: "keeps h (cp_random cp i)" for n v ttl o1 i f
    using ports by (auto simp: ports_keep_def)
  show ?thesis
    unfolding answerAsk_def streamHttp_def Let_def
    apply (intro keeps_option keeps_jval keeps_if)
    apply (simp_all only: keeps_ret keeps_malformed)
            apply (intro keeps_owned keeps_settle get)
           apply (simp only: prod.case, intro keeps_option keeps_jval keeps_malformed keeps_owned keeps_settle set)
          apply (simp only: prod.case, intro keeps_option keeps_jval keeps_malformed keeps_owned keeps_settle keeps_ret, erule turn)
         apply (intro keeps_sbind keeps_lift_wire keeps_oauth [OF ports])
        apply (intro keeps_settle random)
       apply (intro keeps_sbind keeps_ask_request keeps_ret keeps_sendHttp [OF net])
      apply (intro keeps_sbind keeps_ask_request keeps_ret keeps_sendHttp [OF net])
     apply (intro keeps_sbind keeps_ask_request keeps_ret keeps_beacon [OF ports])
    apply (intro keeps_sum keeps_malformed keeps_sbind keeps_ask_request keeps_ret keeps_dispatch [OF net] keeps_read_stream events)
    done
qed

section \<open>Drivers are released\<close>

definition step_is :: "string \<Rightarrow> jobj \<Rightarrow> bool" where
  "step_is k progress \<longleftrightarrow> (\<exists>step. obj_get progress ''step'' = Some (JObj step) \<and> obj_get step ''kind'' = Some (JStr k))"

text \<open>
  A kernel that keeps its drivers: \<open>held\<close> of them are live. A start adds one unless the first step
  is done; a resume gives the done step and releases it, or another ask closer to the end (\<open>rank\<close>);
  a failing start adds none, a failing resume leaves the driver to be dropped; a drop releases it.
\<close>

definition progress_ok :: "('s \<Rightarrow> int) \<Rightarrow> (jobj \<Rightarrow> nat) \<Rightarrow> int \<Rightarrow> int \<Rightarrow> nat option \<Rightarrow> (js_error + jval) \<times> 's \<Rightarrow> bool" where
  "progress_ok held rank released kept bound res =
     (case res of
        (Inr (JObj p), s) \<Rightarrow>
          step_is ''done'' p \<and> held s = released \<or>
          step_is ''ask'' p \<and> held s = kept \<and> (case bound of None \<Rightarrow> True | Some n \<Rightarrow> rank p < n)
      | _ \<Rightarrow> False)"

definition driver_kernel :: "'s http_kernel \<Rightarrow> ('s \<Rightarrow> int) \<Rightarrow> (jobj \<Rightarrow> nat) \<Rightarrow> bool" where
  "driver_kernel hk held rank \<longleftrightarrow>
     (\<forall>c s. case hk_start hk c s of
        (Inl e, s') \<Rightarrow> held s' = held s
      | res \<Rightarrow> progress_ok held rank (held s) (held s + 1) None res) \<and>
     (\<forall>p a s. case hk_resume hk (driver_of p) a s of
        (Inl e, s') \<Rightarrow> held s' = held s
      | res \<Rightarrow> progress_ok held rank (held s - 1) (held s) (Some (rank p)) res) \<and>
     (\<forall>d s. held (hk_drop hk d s) = held s - 1)"

definition answers_keep :: "('s \<Rightarrow> int) \<Rightarrow> (jobj \<Rightarrow> 's \<Rightarrow> (js_error + jval) \<times> 's) \<Rightarrow> bool" where
  "answers_keep held ans \<longleftrightarrow> (\<forall>ask s. held (snd (ans ask s)) = held s)"

lemma resume_keeps:
  assumes "driver_kernel hk held rank" and "hk_resume hk (driver_of p) a s = (r, s')"
  shows "case r of Inl e \<Rightarrow> held s' = held s | Inr v \<Rightarrow> progress_ok held rank (held s - 1) (held s) (Some (rank p)) (Inr v, s')"
proof -
  have "\<forall>p a s. case hk_resume hk (driver_of p) a s of (Inl e, s') \<Rightarrow> held s' = held s
      | res \<Rightarrow> progress_ok held rank (held s - 1) (held s) (Some (rank p)) res"
    using assms(1) unfolding driver_kernel_def by (elim conjE)
  then have "case hk_resume hk (driver_of p) a s of (Inl e, s') \<Rightarrow> held s' = held s
      | res \<Rightarrow> progress_ok held rank (held s - 1) (held s) (Some (rank p)) res"
    by (elim allE)
  then show ?thesis unfolding assms(2) by (cases r) simp_all
qed

lemma start_keeps:
  assumes "driver_kernel hk held rank"
  shows "case hk_start hk c s of (Inl e, s') \<Rightarrow> held s' = held s
    | res \<Rightarrow> progress_ok held rank (held s) (held s + 1) None res"
proof -
  have "\<forall>c s. case hk_start hk c s of (Inl e, s') \<Rightarrow> held s' = held s
      | res \<Rightarrow> progress_ok held rank (held s) (held s + 1) None res"
    using assms unfolding driver_kernel_def by (elim conjE)
  then show ?thesis by (elim allE)
qed

lemma advance_keeps:
  assumes "driver_kernel hk held rank" and "answers_keep held ans" and adv: "advance_call hk ans p step s = (r, s')"
  shows "case r of Inl e \<Rightarrow> held s' = held s | Inr q \<Rightarrow> progress_ok held rank (held s - 1) (held s) (Some (rank p)) (Inr (JObj q), s')"
proof (cases "as_obj ''the driver ask'' (obj_get step ''ask'')")
  case (Inl e)
  have "r = Inl e \<and> s' = s" using adv unfolding advance_call_def Inl by simp
  then show ?thesis by simp
next
  case ask: (Inr ask)
  obtain a s1 where a: "ans ask s = (a, s1)" by fastforce
  have s1: "held s1 = held s" using assms(2) a unfolding answers_keep_def by (metis snd_conv)
  show ?thesis
  proof (cases a)
    case (Inl e)
    then show ?thesis using adv a s1 by (auto simp add: advance_call_def ask sbind_def)
  next
    case v: (Inr v)
    obtain q s2 where q: "hk_resume hk (driver_of p) v s1 = (q, s2)" by fastforce
    note law = resume_keeps [OF assms(1) q]
    show ?thesis
    proof (cases q)
      case (Inl e)
      then show ?thesis using adv law s1 by (auto simp add: advance_call_def ask sbind_def a v q)
    next
      case (Inr u)
      have "(r, s') = (as_obj ''httpDriverResume result'' (Some u), s2)"
        using adv by (simp add: advance_call_def ask sbind_def a v q Inr)
      then show ?thesis using law s1 Inr by (cases u) (auto simp: as_obj_def progress_ok_def)
    qed
  qed
qed

text \<open>From a step on, a call returns and the driver is released if it was held.\<close>

lemma run_driver_done:
  assumes "step_is ''done'' p"
  shows "\<exists>r. run_driver sn hk ans p s = Some (r, s)"
  using assms by (subst run_driver.simps) (auto simp: step_is_def as_obj_def)

lemma run_driver_releases:
  assumes k: "driver_kernel hk held rank" and ans: "answers_keep held ans"
  shows "step_is ''ask'' p \<Longrightarrow> \<exists>r s'. run_driver sn hk ans p s = Some (r, s') \<and> held s' = held s - 1"
proof (induction "rank p" arbitrary: p s rule: less_induct)
  case less
  obtain step where step: "obj_get p ''step'' = Some (JObj step)" "obj_get step ''kind'' = Some (JStr ''ask'')"
    using less.prems by (auto simp: step_is_def)
  obtain r s1 where adv: "advance_call hk ans p step s = (r, s1)" by fastforce
  have unfold: "run_driver sn hk ans p s = (case r of Inl e \<Rightarrow> Some (Inl e, hk_drop hk (driver_of p) s1) | Inr q \<Rightarrow> run_driver sn hk ans q s1)"
    using step by (subst run_driver.simps) (simp add: as_obj_def adv split: sum.split)
  note law = advance_keeps [OF k ans adv]
  show ?case
  proof (cases r)
    case (Inl e)
    then show ?thesis using k law unfold by (auto simp: driver_kernel_def)
  next
    case (Inr q)
    then consider "step_is ''done'' q" "held s1 = held s - 1" | "step_is ''ask'' q" "held s1 = held s" "rank q < rank p"
      using law by (auto simp: progress_ok_def)
    then show ?thesis
    proof cases
      case 1
      then show ?thesis using run_driver_done [of q sn hk ans s1] unfold Inr by auto
    next
      case 2
      then show ?thesis using less.hyps [OF 2(3) 2(1), of s1] unfold Inr by auto
    qed
  qed
qed

text \<open>
  C21: With a kernel that keeps its drivers and asks finitely often, every call returns, with a
  result or an error, and leaves the kernel with the drivers it had: none leaks, whichever answer,
  decode or resume failed. (The network, the stores and the caller's handler do not touch the
  kernel's drivers.)
\<close>
theorem http_call_releases:
  assumes k: "driver_kernel hk held rank"
    and ports: "network_keeps held w" "ports_keep held cp" "\<And>fr ev. keeps held (st_onEvent (streams fr (call_key call)) ev)"
  shows "\<exists>r s'. runHttpCall w cp streams hk call who s = Some (r, s') \<and> held s' = held s"
proof -
  define ak where "ak = (\<lambda>ask. answerAsk w cp streams ask (call_key call) who)"
  have keep: "answers_keep held ak"
    using keeps_answerAsk [where streams = streams and key = "call_key call", OF ports]
    by (simp add: answers_keep_def ak_def keeps_def)
  define c where "c = JObj (case who of None \<Rightarrow> call | Some p \<Rightarrow> AList.update ''principal'' (JStr p) call)"
  obtain r s1 where start: "hk_start hk c s = (r, s1)" by fastforce
  have law: "case (r, s1) of (Inl e, s') \<Rightarrow> held s' = held s | res \<Rightarrow> progress_ok held rank (held s) (held s + 1) None res"
    using start_keeps [OF k, where c = c and s = s] unfolding start .
  have "\<exists>r s'. (case sbind (hk_start hk c) (\<lambda>v s. (as_obj ''httpDriverStart result'' (Some v), s)) s of
      (Inl e, s') \<Rightarrow> Some (Inl e, s') | (Inr progress, s') \<Rightarrow> run_driver (cp_show cp) hk ak progress s') = Some (r, s') \<and> held s' = held s"
  proof (cases r)
    case (Inl e)
    then show ?thesis using law by (simp add: sbind_def start)
  next
    case (Inr v)
    then obtain p where p: "v = JObj p" using law by (cases v) (auto simp: progress_ok_def)
    then consider "step_is ''done'' p" "held s1 = held s" | "step_is ''ask'' p" "held s1 = held s + 1"
      using law Inr by (auto simp: progress_ok_def)
    then show ?thesis
    proof cases
      case 1
      then show ?thesis using run_driver_done [of p "cp_show cp" hk ak s1] by (auto simp: sbind_def start Inr p as_obj_def)
    next
      case 2
      then show ?thesis using run_driver_releases [OF k keep 2(1), of "cp_show cp" s1] by (auto simp: sbind_def start Inr p as_obj_def)
    qed
  qed
  then show ?thesis unfolding runHttpCall_def Let_def ak_def c_def call_key_def by auto
qed

text \<open>A kernel whose drivers ask for random bytes once; the state counts the live drivers.\<close>

definition one_ask :: jobj where
  "one_ask = [(''driver'', JStr ''d1''), (''step'', JObj [(''kind'', JStr ''ask''), (''ask'', JObj [(''kind'', JStr ''random''), (''bytes'', JInt 2)])])]"

definition one_ask_kernel :: "int http_kernel" where
  "one_ask_kernel = \<lparr>hk_start = \<lambda>_ s. (Inr (JObj one_ask), s + 1),
     hk_resume = \<lambda>_ a s. (Inr (JObj [(''step'', JObj [(''kind'', JStr ''done''), (''result'', JObj [(''ok'', a)])])]), s - 1),
     hk_drop = \<lambda>_ s. s - 1\<rparr>"

definition still_world :: "int http_world" where
  "still_world = \<lparr>hw_parse_url = \<lambda>_. None, hw_encode = \<lambda>_. [], hw_decode = \<lambda>_. None, hw_isPublic = \<lambda>_. False, hw_egress = [],
     hw_resolve = None, hw_fetch = \<lambda>_ _ _ _ s. (Inl Aborted, s), hw_cancelled = \<lambda>_. False, hw_timed_out = \<lambda>_ _ _. False,
     hw_sleep = \<lambda>_ s. s\<rparr>"

definition still_ports :: "int call_ports" where
  "still_ports = \<lparr>cp_secret_get = \<lambda>_ _ s. (Inr None, s), cp_secret_set = \<lambda>_ _ _ _ s. (Inr (), s), cp_secret_rotate = None,
     cp_secret_forget = \<lambda>_ _ s. (Inr (), s), cp_secret_label = None, cp_credentials = None, cp_oauth = None, cp_narrow = \<lambda>_. None, cp_show = \<lambda>_. [], cp_random = \<lambda>n s. (Inr (replicate (nat n) 255), s), cp_beacon = None\<rparr>"

definition still_stream :: "(int, unit) stream_world" where
  "still_stream = \<lparr>st_frame = \<lambda>_ _. JNull, st_finish = \<lambda>_. JNull, st_decoder = (), st_decode = \<lambda>_ d. ([], d), st_flush = \<lambda>_. [],
     st_onEvent = \<lambda>_ s. (Inr (), s)\<rparr>"

theorem http_call_releases_witness:
  "\<exists>r. runHttpCall still_world still_ports (\<lambda>_ _. still_stream) one_ask_kernel [] None 3 = Some (r, 3)"
proof -
  have "driver_kernel one_ask_kernel (\<lambda>s. s) (\<lambda>_. 0)" 
    by (simp add: driver_kernel_def one_ask_kernel_def progress_ok_def step_is_def one_ask_def obj_get_def)
  moreover have "network_keeps (\<lambda>s. s) still_world" "ports_keep (\<lambda>s. s) still_ports" "\<And>ev. keeps (\<lambda>s. s) (st_onEvent still_stream ev)"
    by (simp_all add: network_keeps_def still_world_def ports_keep_def still_ports_def still_stream_def keeps_def)
  ultimately have "\<exists>r s'. runHttpCall still_world still_ports (\<lambda>_ _. still_stream) one_ask_kernel [] None 3 = Some (r, s') \<and> s' = 3"
    by (rule http_call_releases)
  then show ?thesis by simp
qed

theorem answer_kinds_witness:
  "\<exists>a result. fst (answerAsk still_world still_ports (\<lambda>_ _. still_stream) [(''kind'', JStr ''random''), (''bytes'', JInt 2)] None None 0) = Inr a
     \<and> a = answer ''random'' result"
proof -
  let ?ask = "[(''kind'', JStr ''random''), (''bytes'', JInt 2)]"
  have kind: "obj_get ?ask ''kind'' = Some (JStr ''random'')" by (simp add: obj_get_def)
  have "\<exists>a. answerAsk still_world still_ports (\<lambda>_ _. still_stream) ?ask None None 0 = (Inr a, 0)"
    by (simp add: answerAsk_def obj_get_def settle_def still_ports_def JInt_def)
  then obtain a where "answerAsk still_world still_ports (\<lambda>_ _. still_stream) ?ask None None 0 = (Inr a, 0)" ..
  with answer_kinds [OF kind this] show ?thesis by auto
qed

end
