(* ===== verification/RowAnswers.thy ===== *)
theory RowAnswers
  imports HttpCalls
begin

text \<open>
  The host's persistence: the rows part of \<open>answerRequest\<close> (\<open>kernel/host.ts\<close>), the declaration of what
  an adapter pushes down, and one persistence over two stores (\<open>evaluation/routed-persistence.ts\<close>).
  The adapter (\<open>PersistenceAdapter\<close> of \<open>@almadar/core\<close>) is a record of functions of the world
  \<open>'s\<close>; an optional method is an option. \<open>keeps_rows\<close> is its contract against the rows a store
  holds, entity type by entity type and id by id.
\<close>

section \<open>The adapter\<close>

text \<open>What a pushed-down call throws: a \<open>QueryDeclinedError\<close> or \<open>WriteDeclinedError\<close> with its reason, or any other error.\<close>

datatype push_error = Declined string | PushFailed js_error

record ('s, 'q, 'b, 'w) persistence =
  pa_create :: "string \<Rightarrow> jobj \<Rightarrow> 's \<Rightarrow> (js_error + string) \<times> 's"
  pa_update :: "string \<Rightarrow> string \<Rightarrow> jobj \<Rightarrow> 's \<Rightarrow> (js_error + unit) \<times> 's"
  pa_delete :: "string \<Rightarrow> string \<Rightarrow> 's \<Rightarrow> (js_error + unit) \<times> 's"
  pa_getById :: "string \<Rightarrow> string \<Rightarrow> 's \<Rightarrow> (js_error + jobj option) \<times> 's"
  pa_list :: "string \<Rightarrow> 's \<Rightarrow> (js_error + jobj list) \<times> 's"
  pa_bindCollection :: "(string \<Rightarrow> string \<Rightarrow> 's \<Rightarrow> 's) option"
  pa_queryPage :: "(string \<Rightarrow> 'q \<Rightarrow> 's \<Rightarrow> (push_error + jval) \<times> 's) option"
  pa_queryIds :: "(string \<Rightarrow> 'q \<Rightarrow> 's \<Rightarrow> (push_error + jval) \<times> 's) option"
  pa_queryCapabilities :: "(string \<Rightarrow> js_error + jval) option"
  pa_writeCapabilities :: "(string \<Rightarrow> js_error + jval) option"
  pa_writeWhere :: "('w \<Rightarrow> 's \<Rightarrow> (push_error + jval) \<times> 's) option"
  pa_writeBatch :: "('b \<Rightarrow> 's \<Rightarrow> (push_error + jval list) \<times> 's) option"

section \<open>One persistence over two stores\<close>

definition not_supported :: "string \<Rightarrow> string \<Rightarrow> js_error" where
  "not_supported name entityType = Raised (name @ '' is not supported by the store that holds '' @ entityType)"

text \<open>\<open>pushedDown\<close>: the method, or a call that throws.\<close>

definition pushed_call :: "('q \<Rightarrow> 's \<Rightarrow> (push_error + 'r) \<times> 's) option \<Rightarrow> string \<Rightarrow> string \<Rightarrow> 'q \<Rightarrow> 's \<Rightarrow> (push_error + 'r) \<times> 's" where
  "pushed_call m name entityType q s =
     (case m of None \<Rightarrow> (Inl (PushFailed (not_supported name entityType)), s) | Some f \<Rightarrow> f q s)"

definition pushed_capability :: "(string \<Rightarrow> js_error + jval) option \<Rightarrow> string \<Rightarrow> string \<Rightarrow> js_error + jval" where
  "pushed_capability m name entityType =
     (case m of None \<Rightarrow> Inl (not_supported name entityType) | Some f \<Rightarrow> f entityType)"

definition two_stores_message :: string where
  "two_stores_message = ''A batch spans the browser store and the in-memory rows; a batch runs in one store''"

text \<open>
  \<open>of\<close> as the choice of the first store; two stores are two objects, so the stores of a batch's
  operations are the values of that choice. \<open>op_entity\<close> and \<open>batch_entities\<close> read the entity types
  of a write and of a batch's operations.
\<close>

definition routed_batch :: "(string \<Rightarrow> bool) \<Rightarrow> ('b \<Rightarrow> string list) \<Rightarrow> ('s, 'q, 'b, 'w) persistence \<Rightarrow>
    ('s, 'q, 'b, 'w) persistence \<Rightarrow> 'b \<Rightarrow> 's \<Rightarrow> (push_error + jval list) \<times> 's" where
  "routed_batch in_stored batch_entities stored other batch s =
     (let homes = remdups (map in_stored (batch_entities batch)) in
      if length homes > 1 then (Inl (PushFailed (Raised two_stores_message)), s)
      else case homes of
          [] \<Rightarrow> (Inr [], s)
        | home # _ \<Rightarrow> pushed_call (pa_writeBatch (if home then stored else other)) ''writeBatch''
            (case batch_entities batch of [] \<Rightarrow> '''' | e # _ \<Rightarrow> e) batch s)"

definition routeByEntity :: "(string \<Rightarrow> bool) \<Rightarrow> ('w \<Rightarrow> string) \<Rightarrow> ('b \<Rightarrow> string list) \<Rightarrow>
    ('s, 'q, 'b, 'w) persistence \<Rightarrow> ('s, 'q, 'b, 'w) persistence \<Rightarrow> ('s, 'q, 'b, 'w) persistence" where
  "routeByEntity storedEntities op_entity batch_entities stored other =
     (let home = (\<lambda>e. if storedEntities e then stored else other) in
      \<lparr>pa_create = (\<lambda>e. pa_create (home e) e),
       pa_update = (\<lambda>e. pa_update (home e) e),
       pa_delete = (\<lambda>e. pa_delete (home e) e),
       pa_getById = (\<lambda>e. pa_getById (home e) e),
       pa_list = (\<lambda>e. pa_list (home e) e),
       pa_bindCollection = Some (\<lambda>e collection s.
         case pa_bindCollection (home e) of None \<Rightarrow> s | Some f \<Rightarrow> f e collection s),
       pa_queryPage = Some (\<lambda>e. pushed_call (map_option (\<lambda>f. f e) (pa_queryPage (home e))) ''queryPage'' e),
       pa_queryIds = Some (\<lambda>e. pushed_call (map_option (\<lambda>f. f e) (pa_queryIds (home e))) ''queryIds'' e),
       pa_queryCapabilities = Some (\<lambda>e. pushed_capability (pa_queryCapabilities (home e)) ''queryCapabilities'' e),
       pa_writeCapabilities = Some (\<lambda>e. pushed_capability (pa_writeCapabilities (home e)) ''writeCapabilities'' e),
       pa_writeWhere = Some (\<lambda>w. pushed_call (pa_writeWhere (home (op_entity w))) ''writeWhere'' (op_entity w) w),
       pa_writeBatch = Some (routed_batch storedEntities batch_entities stored other)\<rparr>)"

section \<open>The answers\<close>

text \<open>
  \<open>IoAnswerWire\<close>, as far as the host answers it: one constructor per kind, \<open>Inl\<close> for
  \<open>{ error }\<close> and \<open>Inr\<close> for \<open>{ ok }\<close>. The pages, outcomes and values the host passes through are JSON.
\<close>

datatype io_answer =
    RowAnswer "string + jobj option"
  | RowsAnswer "string + jobj list"
  | PageAnswer "string + jval"
  | IdPageAnswer "string + jval"
  | QueryUnsupported string
  | Wrote "string + jval list"
  | WriteUnsupported string
  | Deleted "string + unit"
  | ServiceAnswer "string + jval"
  | ServiceDeferred
  | ServiceCancelled
  | CallsCancelled
  | SubstrateAnswer "(string \<times> jval list) + jval"
  | HttpAnswer "http_failure + http_response"
  | BeaconAnswer beacon_settled
  | PageFactsAnswer "string + jobj"
  | PromptAnswer "(string \<times> string) + string"
  | EmbedAnswer "(string \<times> string) + jval"
  | TabAnswer "(string \<times> string) + jval"
  | SecretAnswer "string + string option"
  | SecretSetAnswer "string + unit"
  | SecretRotateAnswer "string + unit"
  | RandomAnswer "string + string"
  | OsAnswer "jval + jval"
  | ClockAnswer js_number
  | DeliverDown string
  | CredentialStatusAnswer "string + (bool \<times> string option)"
  | CredentialForgetAnswer "string + unit"
  | CredentialAdminAnswer string "string + jval"
  | OAuthAnswer "string + jobj option"

text \<open>\<open>settle\<close>: what the work returned, or the message of what it threw.\<close>

definition settle_work :: "('s \<Rightarrow> (js_error + 'r) \<times> 's) \<Rightarrow> 's \<Rightarrow> (string + 'r) \<times> 's" where
  "settle_work f s = (case f s of (Inr r, s') \<Rightarrow> (Inr r, s') | (Inl e, s') \<Rightarrow> (Inl (message_of e), s'))"

definition rowData :: "jval \<Rightarrow> 's \<Rightarrow> (js_error + jobj) \<times> 's" where
  "rowData v s = (case v of JObj kvs \<Rightarrow> Inr kvs | _ \<Rightarrow> Inl (Raised ''persist: the row is not an object''), s)"

definition create_row :: "('s, 'q, 'b, 'w) persistence \<Rightarrow> string \<Rightarrow> jval \<Rightarrow> 's \<Rightarrow> (js_error + jobj option) \<times> 's" where
  "create_row pa e v =
     sbind (rowData v) (\<lambda>data.
     sbind (pa_create pa e data) (\<lambda>i.
     sbind (pa_getById pa e i) (\<lambda>row s.
       (Inr (Some (case row of Some r \<Rightarrow> r | None \<Rightarrow> spread data [(''id'', JStr i)])), s))))"

definition write_row :: "('s, 'q, 'b, 'w) persistence \<Rightarrow> string \<Rightarrow> string \<Rightarrow> jval \<Rightarrow> 's \<Rightarrow> (js_error + jobj option) \<times> 's" where
  "write_row pa e i v =
     sbind (rowData v) (\<lambda>data.
     sbind (pa_getById pa e i) (\<lambda>existing.
       let written = spread data [(''id'', JStr i)] in
       sbind (case existing of
           None \<Rightarrow> sbind (pa_create pa e written) (\<lambda>_ s. (Inr (), s))
         | Some _ \<Rightarrow> pa_update pa e i written) (\<lambda>_.
       sbind (pa_getById pa e i) (\<lambda>row s.
         (Inr (Some (case row of Some r \<Rightarrow> r
            | None \<Rightarrow> spread (spread (case existing of None \<Rightarrow> [] | Some x \<Rightarrow> x) data) [(''id'', JStr i)])), s)))))"

definition queryRows :: "('s, 'q, 'b, 'w) persistence \<Rightarrow> string \<Rightarrow> 'q \<Rightarrow> projection \<Rightarrow> 's \<Rightarrow> io_answer \<times> 's" where
  "queryRows pa e q project s =
     (let wrap = (case project of ProjectIds \<Rightarrow> IdPageAnswer | ProjectRows \<Rightarrow> PageAnswer);
          answered = (\<lambda>m. case m e q s of
              (Inr page, s') \<Rightarrow> (wrap (Inr page), s')
            | (Inl (Declined reason), s') \<Rightarrow> (QueryUnsupported reason, s')
            | (Inl (PushFailed err), s') \<Rightarrow> (wrap (Inl (message_of err)), s'))
      in case project of
           ProjectIds \<Rightarrow> (case pa_queryIds pa of None \<Rightarrow> (QueryUnsupported ''no-ids-capability'', s) | Some m \<Rightarrow> answered m)
         | ProjectRows \<Rightarrow> (case pa_queryPage pa of None \<Rightarrow> (QueryUnsupported ''no-query-capability'', s) | Some m \<Rightarrow> answered m))"

definition writeRows :: "('s, 'q, 'b, 'w) persistence \<Rightarrow> 'b \<Rightarrow> 's \<Rightarrow> io_answer \<times> 's" where
  "writeRows pa batch s =
     (case pa_writeBatch pa of
        None \<Rightarrow> (WriteUnsupported ''no-write-capability'', s)
      | Some m \<Rightarrow>
          (case m batch s of
             (Inr outcomes, s') \<Rightarrow> (Wrote (Inr outcomes), s')
           | (Inl (Declined reason), s') \<Rightarrow> (WriteUnsupported reason, s')
           | (Inl (PushFailed err), s') \<Rightarrow> (Wrote (Inl (message_of err)), s')))"

text \<open>
  \<open>declareCapabilities\<close>: the entity types declared in order, with the query and write capabilities; a
  capability method that throws ends it.
\<close>

definition capability_of :: "bool \<Rightarrow> (string \<Rightarrow> js_error + jval) option \<Rightarrow> string \<Rightarrow> js_error + jval option" where
  "capability_of supported m e =
     (if supported then (case m of None \<Rightarrow> Inr None | Some f \<Rightarrow> rbind (f e) (\<lambda>c. Inr (Some c))) else Inr None)"

fun declareCapabilities :: "('s, 'q, 'b, 'w) persistence \<Rightarrow> string list \<Rightarrow> js_error + (string \<times> jval option \<times> jval option) list" where
  "declareCapabilities pa [] = Inr []"
| "declareCapabilities pa (e # es) =
     rbind (capability_of (pa_queryPage pa \<noteq> None) (pa_queryCapabilities pa) e) (\<lambda>q.
     rbind (capability_of (pa_writeWhere pa \<noteq> None \<or> pa_writeBatch pa \<noteq> None) (pa_writeCapabilities pa) e) (\<lambda>w.
     rbind (declareCapabilities pa es) (\<lambda>rest.
       Inr (if q = None \<and> w = None then rest else (e, q, w) # rest))))"

section \<open>The contract of a store\<close>

definition put_row :: "(string \<Rightarrow> string \<Rightarrow> jobj option) \<Rightarrow> string \<Rightarrow> string \<Rightarrow> jobj option \<Rightarrow> string \<Rightarrow> string \<Rightarrow> jobj option" where
  "put_row rows e i r = rows(e := (rows e)(i := r))"

text \<open>
  \<open>store_ok pa es rows\<close>: for the entity types \<open>es\<close> the adapter keeps the rows \<open>rows\<close> reads off the
  world. A read answers the row and changes nothing; a create adds one row under a fresh id, the
  one its data names if it names one; an update writes its data over the row; what throws changes
  nothing.
\<close>

definition store_ok :: "('s, 'q, 'b, 'w) persistence \<Rightarrow> string set \<Rightarrow> ('s \<Rightarrow> string \<Rightarrow> string \<Rightarrow> jobj option) \<Rightarrow> bool" where
  "store_ok pa es rows \<longleftrightarrow>
     (\<forall>e\<in>es.
       (\<forall>i s r s'. pa_getById pa e i s = (r, s') \<longrightarrow> rows s' = rows s \<and> (case r of Inl _ \<Rightarrow> True | Inr x \<Rightarrow> x = rows s e i)) \<and>
       (\<forall>d s r s'. pa_create pa e d s = (r, s') \<longrightarrow> (case r of Inl _ \<Rightarrow> rows s' = rows s
          | Inr i \<Rightarrow> (\<forall>j. obj_get d ''id'' = Some (JStr j) \<longrightarrow> i = j) \<and> rows s e i = None \<and>
              rows s' = put_row (rows s) e i (Some (spread d [(''id'', JStr i)])))) \<and>
       (\<forall>i d s r s' x. pa_update pa e i d s = (r, s') \<and> rows s e i = Some x \<longrightarrow> (case r of Inl _ \<Rightarrow> rows s' = rows s
          | Inr _ \<Rightarrow> rows s' = put_row (rows s) e i (Some (spread x d)))) \<and>
       (\<forall>i s r s'. pa_delete pa e i s = (r, s') \<longrightarrow> (case r of Inl _ \<Rightarrow> rows s' = rows s
          | Inr _ \<Rightarrow> rows s' = put_row (rows s) e i None)))"

lemma store_okD:
  assumes "store_ok pa es rows" and "e \<in> es"
  shows "pa_getById pa e i s = (r, s') \<Longrightarrow> rows s' = rows s"
    and "pa_getById pa e i s = (Inr x, s') \<Longrightarrow> x = rows s e i"
    and "pa_create pa e d s = (Inl er, s') \<Longrightarrow> rows s' = rows s"
    and "pa_create pa e d s = (Inr i, s') \<Longrightarrow> rows s' = put_row (rows s) e i (Some (spread d [(''id'', JStr i)]))"
    and "pa_create pa e d s = (Inr i, s') \<Longrightarrow> obj_get d ''id'' = Some (JStr j) \<Longrightarrow> i = j"
    and "pa_update pa e i d s = (Inl er, s') \<Longrightarrow> rows s e i = Some y \<Longrightarrow> rows s' = rows s"
    and "pa_update pa e i d s = (Inr u, s') \<Longrightarrow> rows s e i = Some y \<Longrightarrow> rows s' = put_row (rows s) e i (Some (spread y d))"
  using assms unfolding store_ok_def by (fastforce split: sum.splits)+

text \<open>Routing keeps the contract: each store for its own entity types gives one store for all.\<close>

lemma routed_store_ok:
  assumes "store_ok stored {e. is_stored e} rows" and "store_ok other {e. \<not> is_stored e} rows"
  shows "store_ok (routeByEntity is_stored oe be stored other) UNIV rows"
  unfolding store_ok_def
proof
  fix e
  show "(\<forall>i s r s'. pa_getById (routeByEntity is_stored oe be stored other) e i s = (r, s') \<longrightarrow> rows s' = rows s \<and> (case r of Inl _ \<Rightarrow> True | Inr x \<Rightarrow> x = rows s e i)) \<and>
       (\<forall>d s r s'. pa_create (routeByEntity is_stored oe be stored other) e d s = (r, s') \<longrightarrow> (case r of Inl _ \<Rightarrow> rows s' = rows s
          | Inr i \<Rightarrow> (\<forall>j. obj_get d ''id'' = Some (JStr j) \<longrightarrow> i = j) \<and> rows s e i = None \<and>
              rows s' = put_row (rows s) e i (Some (spread d [(''id'', JStr i)])))) \<and>
       (\<forall>i d s r s' x. pa_update (routeByEntity is_stored oe be stored other) e i d s = (r, s') \<and> rows s e i = Some x \<longrightarrow> (case r of Inl _ \<Rightarrow> rows s' = rows s
          | Inr _ \<Rightarrow> rows s' = put_row (rows s) e i (Some (spread x d)))) \<and>
       (\<forall>i s r s'. pa_delete (routeByEntity is_stored oe be stored other) e i s = (r, s') \<longrightarrow> (case r of Inl _ \<Rightarrow> rows s' = rows s
          | Inr _ \<Rightarrow> rows s' = put_row (rows s) e i None))"
  proof (cases "is_stored e")
    case True
    then have "e \<in> {e. is_stored e}" by simp
    from bspec [OF assms(1) [unfolded store_ok_def] this] show ?thesis
      using True by (simp add: routeByEntity_def Let_def)
  next
    case False
    then have "e \<in> {e. \<not> is_stored e}" by simp
    from bspec [OF assms(2) [unfolded store_ok_def] this] show ?thesis
      using False by (simp add: routeByEntity_def Let_def)
  qed
qed

lemma obj_get_spread_id: "obj_get (spread d [(''id'', v)]) ''id'' = Some v"
  by (simp add: spread_def obj_get_def update_conv)

lemma spread_id_again: "spread (spread d [(''id'', v)]) [(''id'', v)] = spread d [(''id'', v)]"
  by (simp add: spread_def update_nonempty)

text \<open>What a write leaves under its id.\<close>

definition written_over :: "jobj option \<Rightarrow> jobj \<Rightarrow> string \<Rightarrow> jobj" where
  "written_over existing data i =
     (let w = spread data [(''id'', JStr i)] in case existing of None \<Rightarrow> w | Some x \<Rightarrow> spread x w)"

lemma write_row_upserts:
  assumes ok: "store_ok pa es rows" and e: "e \<in> es" and run: "write_row pa e i (JObj data) s = (r, s')"
  shows "let row = written_over (rows s e i) data i in
    case r of Inr x \<Rightarrow> x = Some row \<and> rows s' = put_row (rows s) e i (Some row)
      | Inl _ \<Rightarrow> rows s' = rows s \<or> rows s' = put_row (rows s) e i (Some row)"
proof -
  note D = store_okD [OF ok e]
  obtain g s1 where g: "pa_getById pa e i s = (g, s1)" by fastforce
  have s1: "rows s1 = rows s" using D(1) [OF g] .
  show ?thesis
  proof (cases g)
    case (Inl er)
    then have "rows s' = rows s \<and> (\<exists>er. r = Inl er)"
      using run g s1 by (auto simp: write_row_def rowData_def sbind_def)
    then show ?thesis by (auto simp: Let_def)
  next
    case (Inr existing)
    have ex: "existing = rows s e i" using D(2) g Inr by auto
    let ?w = "spread data [(''id'', JStr i)]"
    let ?row = "written_over existing data i"
    define put where "put = (case existing of None \<Rightarrow> sbind (pa_create pa e ?w) (\<lambda>_ s. (Inr (), s)) | Some _ \<Rightarrow> pa_update pa e i ?w)"
    obtain u s2 where u: "put s1 = (u, s2)" by fastforce
    have put_ok: "case u of Inl _ \<Rightarrow> rows s2 = rows s | Inr _ \<Rightarrow> rows s2 = put_row (rows s) e i (Some ?row)"
    proof (cases existing)
      case None
      obtain c s3 where c: "pa_create pa e ?w s1 = (c, s3)" by fastforce
      have s2: "s2 = s3" "u = map_sum id (\<lambda>_. ()) c" using u c None by (auto simp: put_def sbind_def split: sum.splits)
      show ?thesis
      proof (cases c)
        case (Inl er)
        then show ?thesis using D(3) c s1 s2 by auto
      next
        case (Inr j)
        have "j = i" using D(5) [OF c [unfolded Inr] obj_get_spread_id] .
        then show ?thesis using D(4) [OF c [unfolded Inr]] s1 s2 Inr None by (simp add: written_over_def spread_id_again Let_def)
      qed
    next
      case (Some x)
      then have x: "rows s1 e i = Some x" using ex s1 by simp
      have "pa_update pa e i ?w s1 = (u, s2)" using u Some by (simp add: put_def)
      then show ?thesis using D(6,7) x s1 Some by (cases u) (auto simp: written_over_def Let_def)
    qed
    have eq: "write_row pa e i (JObj data) s = sbind put (\<lambda>_. sbind (pa_getById pa e i) (\<lambda>row s.
         (Inr (Some (case row of Some r \<Rightarrow> r
            | None \<Rightarrow> spread (spread (case existing of None \<Rightarrow> [] | Some x \<Rightarrow> x) data) [(''id'', JStr i)])), s))) s1"
      by (simp add: write_row_def rowData_def sbind_def g Inr put_def Let_def)
    show ?thesis
    proof (cases u)
      case (Inl er)
      then show ?thesis using run put_ok u unfolding eq by (auto simp: sbind_def Let_def)
    next
      case (Inr v)
      then have s2: "rows s2 = put_row (rows s) e i (Some ?row)" using put_ok by simp
      obtain b s3 where b: "pa_getById pa e i s2 = (b, s3)" by fastforce
      have s3: "rows s3 = rows s2" using D(1) [OF b] .
      have "y = Some ?row" if y: "b = Inr y" for y
        using D(2) [OF b [unfolded y]] s2 by (simp add: put_row_def)
      then show ?thesis
        using run u Inr b s2 s3 ex unfolding eq by (cases b) (auto simp: sbind_def Let_def)
    qed
  qed
qed

text \<open>
  A row written through two routed stores is upserted: when the write is answered, the row
  answered is the one now held under its id, the new fields over the old row with the id it was
  written to, and no other row of either store has changed. A write that fails, even at the read
  after it, leaves the rows as they were or written, nothing else.
\<close>
theorem routed_write_upserts:
  fixes stored other :: "('s, 'q, 'b, 'w) persistence"
  assumes "store_ok stored {e. is_stored e} rows" and "store_ok other {e. \<not> is_stored e} rows"
    and "write_row (routeByEntity is_stored oe be stored other) e i (JObj data) s = (r, s')"
  shows "let row = written_over (rows s e i) data i in
    case r of Inr x \<Rightarrow> x = Some row \<and> rows s' = put_row (rows s) e i (Some row)
      | Inl _ \<Rightarrow> rows s' = rows s \<or> rows s' = put_row (rows s) e i (Some row)"
  using write_row_upserts [OF routed_store_ok [OF assms(1,2)] UNIV_I assms(3)] .

text \<open>Two in-memory stores, their rows two maps of the world; an id not given is the count of rows made.\<close>

record two_maps =
  tm_first :: "(string \<times> string) \<Rightarrow> jobj option"
  tm_second :: "(string \<times> string) \<Rightarrow> jobj option"

definition map_store :: "((string \<times> string \<Rightarrow> jobj option) \<Rightarrow> two_maps \<Rightarrow> two_maps) \<Rightarrow> (two_maps \<Rightarrow> string \<times> string \<Rightarrow> jobj option) \<Rightarrow>
    (two_maps, unit, unit, unit) persistence" where
  "map_store set_map get_map = \<lparr>
     pa_create = (\<lambda>e d s. case obj_get d ''id'' of
         Some (JStr i) \<Rightarrow> if get_map s (e, i) = None
           then (Inr i, set_map ((get_map s)((e, i) \<mapsto> spread d [(''id'', JStr i)])) s) else (Inl (Raised ''taken''), s)
       | _ \<Rightarrow> (Inl (Raised ''no id''), s)),
     pa_update = (\<lambda>e i d s. case get_map s (e, i) of None \<Rightarrow> (Inl (Raised ''no row''), s)
       | Some x \<Rightarrow> (Inr (), set_map ((get_map s)((e, i) \<mapsto> spread x d)) s)),
     pa_delete = (\<lambda>e i s. (Inr (), set_map ((get_map s)((e, i) := None)) s)),
     pa_getById = (\<lambda>e i s. (Inr (get_map s (e, i)), s)),
     pa_list = (\<lambda>e s. (Inr [], s)),
     pa_bindCollection = None, pa_queryPage = None, pa_queryIds = None, pa_queryCapabilities = None,
     pa_writeCapabilities = None, pa_writeWhere = None, pa_writeBatch = None\<rparr>"

definition first_store :: "(two_maps, unit, unit, unit) persistence" where
  "first_store = map_store (\<lambda>m. tm_first_update (\<lambda>_. m)) tm_first"

definition second_store :: "(two_maps, unit, unit, unit) persistence" where
  "second_store = map_store (\<lambda>m. tm_second_update (\<lambda>_. m)) tm_second"

definition two_rows :: "(string \<Rightarrow> bool) \<Rightarrow> two_maps \<Rightarrow> string \<Rightarrow> string \<Rightarrow> jobj option" where
  "two_rows is_stored s e i = (if is_stored e then tm_first s (e, i) else tm_second s (e, i))"

lemma map_stores_ok:
  "store_ok first_store {e. is_stored e} (two_rows is_stored)" "store_ok second_store {e. \<not> is_stored e} (two_rows is_stored)"
  by (auto simp: store_ok_def first_store_def second_store_def map_store_def two_rows_def put_row_def fun_eq_iff
      split: option.splits jval.splits if_splits)

theorem routed_write_upserts_witness:
  "let shop = routeByEntity (\<lambda>e. e = ''Cart'') (\<lambda>_. []) (\<lambda>_. []) first_store second_store;
       s = \<lparr>tm_first = (\<lambda>_. None)((''Cart'', ''c1'') \<mapsto> [(''id'', JStr ''c1''), (''n'', JInt 1), (''note'', JNull)]), tm_second = \<lambda>_. None\<rparr>
   in \<exists>s'. write_row shop ''Cart'' ''c1'' (JObj [(''n'', JInt 2)]) s = (Inr (Some [(''id'', JStr ''c1''), (''n'', JInt 2), (''note'', JNull)]), s')
     \<and> tm_second s' = (\<lambda>_. None)"
proof -
  let ?st = "\<lambda>e. e = ''Cart''"
  let ?shop = "routeByEntity ?st (\<lambda>_. []) (\<lambda>_. []) first_store second_store"
  let ?s = "\<lparr>tm_first = (\<lambda>_. None)((''Cart'', ''c1'') \<mapsto> [(''id'', JStr ''c1''), (''n'', JInt 1), (''note'', JNull)]), tm_second = \<lambda>_. None\<rparr>"
  obtain r s' where run: "write_row ?shop ''Cart'' ''c1'' (JObj [(''n'', JInt 2)]) ?s = (r, s')" by fastforce
  have ok: "\<exists>x. r = Inr x"
    using run by (auto simp: write_row_def rowData_def sbind_def routeByEntity_def first_store_def map_store_def Let_def)
  have second: "tm_second s' = (\<lambda>_. None)"
    using run by (auto simp: write_row_def rowData_def sbind_def routeByEntity_def first_store_def map_store_def Let_def)
  have row: "written_over (two_rows ?st ?s ''Cart'' ''c1'') [(''n'', JInt 2)] ''c1'' = [(''id'', JStr ''c1''), (''n'', JInt 2), (''note'', JNull)]"
    by (simp add: written_over_def two_rows_def spread_def)
  have "r = Inr (Some [(''id'', JStr ''c1''), (''n'', JInt 2), (''note'', JNull)])"
    using routed_write_upserts [OF map_stores_ok run] ok unfolding row by (auto simp: Let_def)
  then show ?thesis using run second by (auto simp: Let_def)
qed

text \<open>
  Routing hides what a store cannot do: a store without queries makes the host answer that
  queries are not supported, which the kernel can fall back from; the same store behind the routing
  answers an error, and declaring its capabilities throws.
\<close>
theorem routed_capabilities_throw:
  assumes "pa_queryPage pa = None" and "pa_queryCapabilities pa = None"
  shows "queryRows pa e q ProjectRows s = (QueryUnsupported ''no-query-capability'', s) \<and>
    (\<exists>m. queryRows (routeByEntity is_stored oe be pa pa) e q ProjectRows s = (PageAnswer (Inl m), s)) \<and>
    capability_of (pa_queryPage pa \<noteq> None) (pa_queryCapabilities pa) e = Inr None \<and>
    declareCapabilities (routeByEntity is_stored oe be pa pa) (e # es) = Inl (not_supported ''queryCapabilities'' e)"
  using assms by (simp add: queryRows_def routeByEntity_def pushed_call_def pushed_capability_def capability_of_def Let_def)

theorem routed_capabilities_throw_witness:
  "declareCapabilities (routeByEntity (\<lambda>_. True) (\<lambda>_. []) (\<lambda>_. []) first_store first_store) [''Cart''] =
     Inl (not_supported ''queryCapabilities'' ''Cart'')"
  using routed_capabilities_throw [of first_store "''Cart''" "()" "\<lparr>tm_first = \<lambda>_. None, tm_second = \<lambda>_. None\<rparr>" "\<lambda>_. True" "\<lambda>_. []" "\<lambda>_. []" "[]"]
  by (simp add: first_store_def map_store_def)

end
