(* ===== verification/HostEffects.thy ===== *)
theory HostEffects
  imports RowAnswers
begin

text \<open>
  The effect services a host answers with: the on-device model and embedder
  (\<open>effects/on-device-model.ts\<close>), the facts of the page (\<open>effects/page-facts.ts\<close>), the collector of
  delegated effects (\<open>effects/server-leg.ts\<close>) and the resolve of a row-set reference
  (\<open>effects/row-set-resolve.ts\<close>). The model, the embedder, the page and the row predicates of
  \<open>@almadar/core\<close> are parameters.
\<close>

section \<open>The on-device model\<close>

datatype device_failure_kind = Unconfigured | Unavailable | DeviceFailed

text \<open>\<open>OnDeviceModelFailure\<close> with its kind, message and key, or any other error.\<close>

datatype device_error = DeviceFailure device_failure_kind string "string option" | DeviceThrew js_error

fun device_message :: "device_error \<Rightarrow> string" where
  "device_message (DeviceFailure kind m key) = m"
| "device_message (DeviceThrew e) = message_of e"

record 's device_ports =
  dp_availability :: "('s \<Rightarrow> (device_error + string) \<times> 's) option"
  dp_prompt :: "string \<Rightarrow> jobj \<Rightarrow> nat option \<Rightarrow> 's \<Rightarrow> (device_error + string) \<times> 's"
  dp_embed :: "(string list \<Rightarrow> nat option \<Rightarrow> 's \<Rightarrow> (device_error + jval) \<times> 's) option"
  dp_parse :: "string \<Rightarrow> jval option"

definition NO_ON_DEVICE_MODEL :: string where
  "NO_ON_DEVICE_MODEL = ''browser/prompt: no on-device model is wired into this host''"

definition NO_ON_DEVICE_EMBEDDER :: string where
  "NO_ON_DEVICE_EMBEDDER = ''browser/embed: no on-device embedder is wired into this host''"

definition bad_schema :: string where
  "bad_schema = ''browser/prompt: the response schema must be JSON Schema text: a JSON object''"

text \<open>The \<open>catch\<close> of both calls: a failure that is one already is kept.\<close>

definition as_device_failure :: "string option \<Rightarrow> device_error \<Rightarrow> device_error" where
  "as_device_failure key e =
     (case e of DeviceFailure _ _ _ \<Rightarrow> e | DeviceThrew err \<Rightarrow> DeviceFailure DeviceFailed (message_of err) key)"

definition sfail :: "('e \<Rightarrow> 'f) \<Rightarrow> ('s \<Rightarrow> ('e + 'r) \<times> 's) \<Rightarrow> 's \<Rightarrow> ('f + 'r) \<times> 's" where
  "sfail h m s = (case m s of (Inl e, s') \<Rightarrow> (Inl (h e), s') | (Inr r, s') \<Rightarrow> (Inr r, s'))"

definition promptOnDevice :: "'s device_ports option \<Rightarrow> string \<Rightarrow> string \<Rightarrow> string option \<Rightarrow> nat option \<Rightarrow> 's \<Rightarrow>
    (device_error + string) \<times> 's" where
  "promptOnDevice ports asked schemaText key signal s =
     (case Option.bind ports (\<lambda>p. map_option (\<lambda>f. (p, f)) (dp_availability p)) of
        None \<Rightarrow> (Inl (DeviceFailure Unconfigured NO_ON_DEVICE_MODEL key), s)
      | Some (p, availability) \<Rightarrow>
          (case dp_parse p schemaText of
             Some (JObj schema) \<Rightarrow>
               sfail (as_device_failure key) (sbind availability (\<lambda>state.
                 if state \<noteq> ''available''
                 then (\<lambda>s. (Inl (DeviceFailure Unavailable (''The on-device model is '' @ state) key), s))
                 else dp_prompt p asked schema signal)) s
           | _ \<Rightarrow> (Inl (DeviceFailure DeviceFailed bad_schema key), s)))"

definition embedOnDevice :: "'s device_ports option \<Rightarrow> string list \<Rightarrow> string option \<Rightarrow> nat option \<Rightarrow> 's \<Rightarrow>
    (device_error + jval) \<times> 's" where
  "embedOnDevice ports texts key signal s =
     (if texts = [] then (Inr (JArr []), s)
      else case Option.bind ports dp_embed of
          None \<Rightarrow> (Inl (DeviceFailure Unconfigured NO_ON_DEVICE_EMBEDDER key), s)
        | Some embedding \<Rightarrow> sfail (\<lambda>e. DeviceFailure DeviceFailed (device_message e) key) (embedding texts signal) s)"

section \<open>Page facts\<close>

record page =
  pg_hostname :: "js_error + string"
  pg_referrer :: "js_error + string"
  pg_screenWidth :: "js_error + js_number option"

record page_facts =
  pf_available :: bool
  pf_hostname :: string
  pf_referrer :: string
  pf_screenWidth :: "js_number option"

definition PAGE_FACT_FIELDS :: "page_fact list" where
  "PAGE_FACT_FIELDS = [Hostname, Referrer, ScreenWidth]"

definition page_fields_message :: string where
  "page_fields_message = ''browser/page-facts: the fields must be a non-empty list of hostname, referrer, screenWidth''"

definition known_fact :: "jval \<Rightarrow> page_fact option" where
  "known_fact entry = find (\<lambda>known. JStr (fact_text known) = entry) PAGE_FACT_FIELDS"

fun parse_facts :: "(js_number \<Rightarrow> string) \<Rightarrow> page_fact list \<Rightarrow> jval list \<Rightarrow> string + page_fact list" where
  "parse_facts sn facts [] = Inr facts"
| "parse_facts sn facts (entry # entries) =
     (case known_fact entry of
        None \<Rightarrow> Inl (''browser/page-facts: '' @ js_String sn (Some entry) @ '' is not one of '' @
                  join_with '', '' (map fact_text PAGE_FACT_FIELDS))
      | Some known \<Rightarrow>
          if known \<in> set facts then Inl (''browser/page-facts: '' @ fact_text known @ '' is listed twice'')
          else parse_facts sn (facts @ [known]) entries)"

definition parsePageFactFields :: "(js_number \<Rightarrow> string) \<Rightarrow> jval option \<Rightarrow> string + page_fact list" where
  "parsePageFactFields sn value =
     (case value of
        Some (JArr (entry # entries)) \<Rightarrow> parse_facts sn [] (entry # entries)
      | _ \<Rightarrow> Inl page_fields_message)"

definition read_fact :: "page \<Rightarrow> page_fact \<Rightarrow> page_facts \<Rightarrow> js_error + page_facts" where
  "read_fact page asked facts =
     (case asked of
        Hostname \<Rightarrow> rbind (pg_hostname page) (\<lambda>h. Inr (facts\<lparr>pf_hostname := h\<rparr>))
      | Referrer \<Rightarrow> rbind (pg_referrer page) (\<lambda>r. Inr (facts\<lparr>pf_referrer := r\<rparr>))
      | ScreenWidth \<Rightarrow> rbind (pg_screenWidth page) (\<lambda>w. Inr (facts\<lparr>pf_screenWidth := w\<rparr>)))"

fun read_facts :: "page \<Rightarrow> page_fact list \<Rightarrow> page_facts \<Rightarrow> js_error + page_facts" where
  "read_facts page [] facts = Inr facts"
| "read_facts page (f # fs) facts = rbind (read_fact page f facts) (read_facts page fs)"

definition no_facts :: page_facts where
  "no_facts = \<lparr>pf_available = False, pf_hostname = '''', pf_referrer = '''', pf_screenWidth = None\<rparr>"

definition readPageFacts :: "page option \<Rightarrow> page_fact list \<Rightarrow> js_error + page_facts" where
  "readPageFacts page fs =
     (case page of None \<Rightarrow> Inr no_facts | Some p \<Rightarrow> read_facts p fs (no_facts\<lparr>pf_available := True\<rparr>))"

section \<open>Delegated effects\<close>

datatype delegate_target = ToServer | ToClient

record 'f leg_collector =
  lc_effects :: "'f list"
  lc_source :: "string option"
  lc_sources :: "string list"

definition new_leg_collector :: "'f leg_collector" where
  "new_leg_collector = \<lparr>lc_effects = [], lc_source = None, lc_sources = []\<rparr>"

definition delegate :: "'f \<Rightarrow> delegate_target \<Rightarrow> 'f leg_collector \<Rightarrow> 'f leg_collector" where
  "delegate effect target c =
     (if target = ToServer
      then c\<lparr>lc_effects := lc_effects c @ [effect],
             lc_sources := (case lc_source c of None \<Rightarrow> lc_sources c | Some t \<Rightarrow> set_add t (lc_sources c))\<rparr>
      else c)"

text \<open>\<open>run\<close> may throw; the source is restored by the \<open>finally\<close> either way.\<close>

definition attribute :: "string \<Rightarrow> ('f leg_collector \<Rightarrow> (js_error + unit) \<times> 'f leg_collector) \<Rightarrow>
    'f leg_collector \<Rightarrow> (js_error + unit) \<times> 'f leg_collector" where
  "attribute t run c = (let (r, c') = run (c\<lparr>lc_source := Some t\<rparr>) in (r, c'\<lparr>lc_source := lc_source c\<rparr>))"

definition delegatingTraits :: "'f leg_collector \<Rightarrow> string list" where
  "delegatingTraits c = lc_sources c"

definition drain :: "'f leg_collector \<Rightarrow> 'f list \<times> 'f leg_collector" where
  "drain c = (lc_effects c, c\<lparr>lc_effects := []\<rparr>)"

section \<open>Row sets\<close>

datatype 'p row_predicate = CorePredicate 'p | AllOf "'p row_predicate list" | MemberOf string "string list"

record 'p row_query =
  qy_filter :: "'p row_predicate option"
  qy_policy :: "'p row_predicate option"
  qy_limit :: "int option"
  qy_total :: "string option"

record 'p row_set_ref =
  rr_entityType :: string
  rr_ids :: "string list"
  rr_query :: "'p row_query"

record row_page =
  rg_rows :: "jobj list"
  rg_total :: int

definition withPolicy :: "'p row_predicate option \<Rightarrow> 'p row_query \<Rightarrow> 'p row_query" where
  "withPolicy policy query =
     (case policy of
        None \<Rightarrow> query
      | Some p \<Rightarrow> query\<lparr>qy_policy := Some (case qy_policy query of None \<Rightarrow> p | Some q \<Rightarrow> AllOf [q, p])\<rparr>)"

text \<open>
  Both queries are issued before either is awaited; \<open>Promise.all\<close> rejects with the first that
  fails. \<open>resolve\<close> is \<open>resolveRowSet\<close> of \<open>@almadar/core\<close>.
\<close>

definition ids_query :: "'p row_predicate option \<Rightarrow> 'p row_set_ref \<Rightarrow> 'p row_query" where
  "ids_query policy ref = withPolicy policy
     \<lparr>qy_filter = Some (MemberOf ''id'' (rr_ids ref)), qy_policy = None, qy_limit = None, qy_total = Some ''none''\<rparr>"

definition count_query :: "'p row_predicate option \<Rightarrow> 'p row_set_ref \<Rightarrow> 'p row_query" where
  "count_query policy ref = withPolicy policy
     \<lparr>qy_filter = qy_filter (rr_query ref), qy_policy = qy_policy (rr_query ref), qy_limit = Some 0, qy_total = Some ''exact''\<rparr>"

definition resolveRowSetFromStore :: "(jobj list \<Rightarrow> 'p row_set_ref \<Rightarrow> 'p row_predicate option \<Rightarrow> row_page) \<Rightarrow>
    (string \<Rightarrow> 'p row_query \<Rightarrow> 's \<Rightarrow> (js_error + row_page) \<times> 's) \<Rightarrow> 'p row_set_ref \<Rightarrow> 'p row_predicate option \<Rightarrow>
    's \<Rightarrow> (js_error + row_page) \<times> 's" where
  "resolveRowSetFromStore resolve queryPage ref policy s =
     (let (byId, s1) = queryPage (rr_entityType ref) (ids_query policy ref) s;
          (counted, s2) = (if qy_total (rr_query ref) = Some ''none'' then (Inr None, s1)
             else let (c, s') = queryPage (rr_entityType ref) (count_query policy ref) s1 in (map_sum id Some c, s'))
      in (rbind byId (\<lambda>page. rbind counted (\<lambda>c.
            let checked = resolve (rg_rows page) ref policy
            in Inr \<lparr>rg_rows = rg_rows checked,
                    rg_total = (case c of None \<Rightarrow> int (length (rg_rows checked)) | Some p \<Rightarrow> rg_total p)\<rparr>)), s2))"

definition resolveRowSetFromRows :: "(jobj list \<Rightarrow> 'p row_set_ref \<Rightarrow> 'p row_predicate option \<Rightarrow> row_page) \<Rightarrow>
    jobj list \<Rightarrow> 'p row_set_ref \<Rightarrow> row_page" where
  "resolveRowSetFromRows resolve rows ref =
     (let page = resolve rows ref None
      in if qy_total (rr_query ref) = Some ''none'' then \<lparr>rg_rows = rg_rows page, rg_total = int (length (rg_rows page))\<rparr>
         else page)"

section \<open>What they keep\<close>

lemma known_fact_iff: "known_fact v = Some f \<longleftrightarrow> v = JStr (fact_text f)"
  by (cases f) (auto simp: known_fact_def PAGE_FACT_FIELDS_def)

lemma parse_facts_iff:
  "parse_facts sn facts vs = Inr fs \<longleftrightarrow>
     (\<exists>gs. fs = facts @ gs \<and> vs = map (\<lambda>f. JStr (fact_text f)) gs \<and> distinct gs \<and> set gs \<inter> set facts = {})"
proof (induction vs arbitrary: facts)
  case (Cons v vs)
  show ?case
  proof (cases "known_fact v")
    case None
    then have "v \<noteq> JStr (fact_text f)" for f using known_fact_iff by (metis option.distinct(1))
    then show ?thesis using None by (auto simp: Cons_eq_map_conv)
  next
    case (Some f)
    then have v: "v = JStr (fact_text f)" by (simp add: known_fact_iff)
    have inj: "fact_text f = fact_text g \<longleftrightarrow> f = g" for g by (cases f; cases g) auto
    show ?thesis
      using Some by (auto simp: Cons.IH v Cons_eq_map_conv inj)
  qed
qed auto

text \<open>Exactly the non-empty lists of distinct facts parse, to the facts in order.\<close>

lemma page_fields_parse:
  "parsePageFactFields sn v = Inr fs \<longleftrightarrow>
     fs \<noteq> [] \<and> distinct fs \<and> v = Some (JArr (map (\<lambda>f. JStr (fact_text f)) fs))"
proof (cases "\<exists>w ws. v = Some (JArr (w # ws))")
  case True
  then obtain w ws where v: "v = Some (JArr (w # ws))" by blast
  show ?thesis unfolding v parsePageFactFields_def by (simp only: option.case jval.case list.case parse_facts_iff) auto
next
  case False
  then have "parsePageFactFields sn v = Inl page_fields_message"
    by (auto simp: parsePageFactFields_def split: option.split jval.split list.split)
  then show ?thesis using False by (auto simp: neq_Nil_conv)
qed

text \<open>A fact that was not asked for is not read: its getter may throw.\<close>

lemma unasked_facts_unread:
  "Hostname \<notin> set fs \<Longrightarrow> readPageFacts (Some (p\<lparr>pg_hostname := h\<rparr>)) fs = readPageFacts (Some p) fs"
  "Referrer \<notin> set fs \<Longrightarrow> readPageFacts (Some (p\<lparr>pg_referrer := r\<rparr>)) fs = readPageFacts (Some p) fs"
  "ScreenWidth \<notin> set fs \<Longrightarrow> readPageFacts (Some (p\<lparr>pg_screenWidth := sw\<rparr>)) fs = readPageFacts (Some p) fs"
proof -
  have one: "f \<noteq> Hostname \<Longrightarrow> read_fact (p\<lparr>pg_hostname := h\<rparr>) f = read_fact p f"
    "f \<noteq> Referrer \<Longrightarrow> read_fact (p\<lparr>pg_referrer := r\<rparr>) f = read_fact p f"
    "f \<noteq> ScreenWidth \<Longrightarrow> read_fact (p\<lparr>pg_screenWidth := sw\<rparr>) f = read_fact p f" for f
    by (cases f; auto simp: read_fact_def fun_eq_iff)+
  have "Hostname \<notin> set fs \<Longrightarrow> read_facts (p\<lparr>pg_hostname := h\<rparr>) fs = read_facts p fs"
    "Referrer \<notin> set fs \<Longrightarrow> read_facts (p\<lparr>pg_referrer := r\<rparr>) fs = read_facts p fs"
    "ScreenWidth \<notin> set fs \<Longrightarrow> read_facts (p\<lparr>pg_screenWidth := sw\<rparr>) fs = read_facts p fs"
    by (induction fs) (auto simp: one intro!: ext)
  then show "Hostname \<notin> set fs \<Longrightarrow> readPageFacts (Some (p\<lparr>pg_hostname := h\<rparr>)) fs = readPageFacts (Some p) fs"
    "Referrer \<notin> set fs \<Longrightarrow> readPageFacts (Some (p\<lparr>pg_referrer := r\<rparr>)) fs = readPageFacts (Some p) fs"
    "ScreenWidth \<notin> set fs \<Longrightarrow> readPageFacts (Some (p\<lparr>pg_screenWidth := sw\<rparr>)) fs = readPageFacts (Some p) fs"
    by (simp_all add: readPageFacts_def)
qed

text \<open>Every failure of the embedder carries the key of the call.\<close>

lemma device_failures_keyed:
  "embedOnDevice ports texts key signal s = (Inl e, s') \<Longrightarrow> \<exists>k m. e = DeviceFailure k m key"
  by (auto simp: embedOnDevice_def sfail_def split: if_splits option.splits prod.splits sum.splits)

text \<open>What was delegated to the server since the last drain comes out of it once, in order.\<close>

fun delegate_all :: "('f \<times> delegate_target) list \<Rightarrow> 'f leg_collector \<Rightarrow> 'f leg_collector" where
  "delegate_all [] c = c"
| "delegate_all ((f, t) # fs) c = delegate_all fs (delegate f t c)"

lemma drain_collects:
  assumes "lc_effects c = []"
  shows "drain (delegate_all fs c) = (map fst (filter (\<lambda>(f, t). t = ToServer) fs), d) \<longleftrightarrow>
    d = (delegate_all fs c)\<lparr>lc_effects := []\<rparr>"
proof -
  have "lc_effects (delegate_all fs c) = lc_effects c @ map fst (filter (\<lambda>(f, t). t = ToServer) fs)" for c :: "'a leg_collector"
    by (induction fs c rule: delegate_all.induct) (auto simp: delegate_def)
  then show ?thesis using assms by (auto simp: drain_def)
qed

text \<open>A delegated effect is attributed to the trait that runs, also after a nested run or a throw.\<close>

lemma attribute_restores: "lc_source (snd (attribute t run c)) = lc_source c"
  by (simp add: attribute_def split_beta)

end
