(* ===== verification/KernelHost.thy ===== *)
theory KernelHost
  imports HostEffects InFlight
begin

text \<open>
  The host half of the kernel path (\<open>kernel/host.ts\<close>): \<open>answerRequest\<close> and the handlers it
  dispatches to, one definition each. A host is a record of ports, functions of the state
  \<open>'x host\<close>: the registry of keyed calls and the world the ports act on. What the source starts
  and does not await is handed to \<open>hp_spawn\<close>, the runtime's scheduler of jobs. The providers, the
  program host and the operators of \<open>@almadar/core\<close> are ports.

  \<open>untilAborted\<close> is read at the time the work has come to its end: when the call's controller
  was aborted by then, the work's own result is dropped.
\<close>

section \<open>The host\<close>

record 'x host =
  ho_calls :: registry
  ho_world :: 'x

record user_context =
  uc_id :: string
  uc_role :: "string option"

record live_site =
  ls_orbital :: string
  ls_trait :: string
  ls_event :: string

record deferred_call =
  dc_orbital :: string
  dc_traitName :: string
  dc_event :: string
  dc_payload :: "jobj option"
  dc_entityId :: "string option"
  dc_originClientId :: "string option"
  dc_user :: "user_context option"
  dc_locale :: "string option"

text \<open>A \<open>ServiceCallContext\<close>; \<open>'h\<close> is the host lent to a provider (\<open>ServiceHostPorts\<close>).\<close>

record 'h service_context =
  sx_principal :: "string option"
  sx_role :: "string option"
  sx_host :: "'h option"
  sx_signal :: "controller option"
  sx_outsideRequest :: bool

record program_issue =
  is_code :: string
  is_message :: string
  is_path :: "jval option"
  is_line :: "jval option"
  is_column :: "jval option"

datatype program_outcome = ProgramOk jval | ProgramFailed string "program_issue list"

datatype tab_error = TabFailure string string | TabThrew js_error

text \<open>A deferred \<open>os\<close> call's outcome as the event it fires: its name and payload.\<close>

type_synonym os_event = "(string \<times> jval) option"

record 's os_host =
  os_answer :: "string \<Rightarrow> jval list \<Rightarrow> 's \<Rightarrow> (js_error + (jval + jval)) \<times> 's"
  os_defer :: "(string \<Rightarrow> jval list \<Rightarrow> string \<Rightarrow> (jval + jval \<Rightarrow> 's \<Rightarrow> 's) \<Rightarrow> 's \<Rightarrow> (jval + unit) \<times> 's) option"
  os_cancel :: "(string \<Rightarrow> 's \<Rightarrow> 's) option"

record os_completions =
  oc_defers :: "string \<Rightarrow> bool"
  oc_event :: "call_site \<Rightarrow> string \<Rightarrow> jval + jval \<Rightarrow> os_event"

record ('s, 'd) http_host =
  hh_world :: "'s http_world"
  hh_calls :: "'s call_ports"
  hh_streams :: "framing \<Rightarrow> string option \<Rightarrow> (stream_event \<Rightarrow> 's \<Rightarrow> (js_error + unit) \<times> 's) \<Rightarrow> ('s, 'd) stream_world"

record ('s, 'q, 'b, 'w, 'h, 'd) host_ports =
  hp_persistence :: "('s, 'q, 'b, 'w) persistence"
  hp_callService :: "string \<Rightarrow> string \<Rightarrow> jobj option \<Rightarrow> 'h service_context option \<Rightarrow> 's \<Rightarrow> (js_error + jobj option) \<times> 's"
  hp_programEffect :: "'s \<Rightarrow> (string \<Rightarrow> jval list \<Rightarrow> (string \<times> string option) option \<Rightarrow> 's \<Rightarrow> (js_error + program_outcome) \<times> 's) option"
  hp_servicePorts :: "string \<Rightarrow> string \<Rightarrow> user_context option \<Rightarrow> (jobj \<Rightarrow> 's \<Rightarrow> 's) \<Rightarrow> 'h"
  hp_dispatchInput :: "'h \<Rightarrow> string \<Rightarrow> string \<Rightarrow> string \<Rightarrow> jobj \<Rightarrow> 's \<Rightarrow> 's"
  hp_deliverLive :: "live_site \<Rightarrow> jobj \<Rightarrow> string option \<Rightarrow> 's \<Rightarrow> 's"
  hp_deferCallOutcome :: "'s \<Rightarrow> (deferred_call \<Rightarrow> 's \<Rightarrow> 's) option"
  hp_http :: "('s, 'd) http_host option"
  hp_onDevice :: "'s device_ports option"
  hp_tabs :: "(tab_ask \<Rightarrow> controller option \<Rightarrow> (jobj \<Rightarrow> 's \<Rightarrow> 's) \<Rightarrow> 's \<Rightarrow> (tab_error + jval) \<times> 's) option"
  hp_os :: "'s os_host option"
  hp_osCompletions :: "os_completions option"
  hp_now :: "'s \<Rightarrow> js_number"
  hp_page :: "'s \<Rightarrow> page option"
  hp_systemRandom :: "int \<Rightarrow> 's \<Rightarrow> (js_error + bytes) \<times> 's"
  hp_isAgentPort :: "string \<Rightarrow> bool"
  hp_runAgentPort :: "string \<Rightarrow> jval list \<Rightarrow> 'h \<Rightarrow> 's \<Rightarrow> (js_error + program_outcome) \<times> 's"
  hp_statusConnected :: "string option \<Rightarrow> string option \<Rightarrow> bool"
  hp_spawn :: "('s \<Rightarrow> 's) \<Rightarrow> 's \<Rightarrow> 's"

record 's answer_scope =
  sc_orbital :: string
  sc_user :: "user_context option"
  sc_originClientId :: "string option"
  sc_locale :: "string option"
  sc_entityId :: "string option"
  sc_outside :: "(('s \<Rightarrow> (js_error + io_answer) \<times> 's) \<Rightarrow> 's \<Rightarrow> (js_error + io_answer) \<times> 's) option"

section \<open>Keyed calls\<close>

text \<open>\<open>inFlightCalls.run(key, (signal) => untilAborted(signal, work(signal)))\<close>.\<close>

definition call_aborted :: "controller \<Rightarrow> 'x host \<Rightarrow> bool" where
  "call_aborted c s \<longleftrightarrow> c \<in> set (aborted (ho_calls s))"

definition start_keyed :: "string \<Rightarrow> 'x host \<Rightarrow> run_frame \<times> 'x host" where
  "start_keyed key s = (let (f, reg) = run_start key (ho_calls s) in (f, s\<lparr>ho_calls := reg\<rparr>))"

definition finish_keyed :: "'e \<Rightarrow> run_frame \<Rightarrow> (controller \<Rightarrow> 'x host \<Rightarrow> ('e + 'v) \<times> 'x host) \<Rightarrow> 'x host \<Rightarrow>
    ('e + 'v outcome) \<times> 'x host" where
  "finish_keyed cancelled f work s =
     (let (r, s1) = work (rf_controller f) s;
          settled = (if call_aborted (rf_controller f) s1 then Inl cancelled else r);
          (res, reg) = run_settle f settled (ho_calls s1)
      in (res, s1\<lparr>ho_calls := reg\<rparr>))"

definition run_keyed :: "'e \<Rightarrow> string \<Rightarrow> (controller \<Rightarrow> 'x host \<Rightarrow> ('e + 'v) \<times> 'x host) \<Rightarrow> 'x host \<Rightarrow>
    ('e + 'v outcome) \<times> 'x host" where
  "run_keyed cancelled key work s = (let (f, s0) = start_keyed key s in finish_keyed cancelled f work s0)"

definition the_call_was_cancelled :: js_error where
  "the_call_was_cancelled = Raised ''The call was cancelled''"

text \<open>The \<open>run\<close> of every handler: unkeyed the work itself, keyed its outcome in the registry.\<close>

definition run_call :: "'e \<Rightarrow> string option \<Rightarrow> (controller option \<Rightarrow> 'x host \<Rightarrow> ('e + io_answer) \<times> 'x host) \<Rightarrow>
    'x host \<Rightarrow> ('e + io_answer) \<times> 'x host" where
  "run_call cancelled key work s =
     (case key of
        None \<Rightarrow> work None s
      | Some k \<Rightarrow>
          (case run_keyed cancelled k (\<lambda>c. work (Some c)) s of
             (Inl e, s') \<Rightarrow> (Inl e, s')
           | (Inr Cancelled, s') \<Rightarrow> (Inr ServiceCancelled, s')
           | (Inr (Finished a), s') \<Rightarrow> (Inr a, s')))"

text \<open>The \<open>try\<close> around it: outside the event queue when the host gave one, what it throws as the failure answer.\<close>

definition caught :: "(js_error \<Rightarrow> io_answer) \<Rightarrow> (js_error + io_answer) \<times> 's \<Rightarrow> (js_error + io_answer) \<times> 's" where
  "caught failed rs = (case rs of (Inr a, s) \<Rightarrow> (Inr a, s) | (Inl e, s) \<Rightarrow> (Inr (failed e), s))"

definition outside_queue :: "'s answer_scope \<Rightarrow> ('s \<Rightarrow> (js_error + io_answer) \<times> 's) \<Rightarrow> 's \<Rightarrow> (js_error + io_answer) \<times> 's" where
  "outside_queue scope run s = (case sc_outside scope of None \<Rightarrow> run s | Some f \<Rightarrow> f run s)"

section \<open>Service calls\<close>

definition serviceParams :: "jval \<Rightarrow> js_error + jobj option" where
  "serviceParams args =
     (case args of JNull \<Rightarrow> Inr None | JObj kvs \<Rightarrow> Inr (Some kvs)
      | _ \<Rightarrow> Inl (Raised ''call-service: the arguments are not an object''))"

definition site_orbital :: "call_site option \<Rightarrow> 's answer_scope \<Rightarrow> string" where
  "site_orbital site scope = (case Option.bind site cs_orbital of Some ob \<Rightarrow> ob | None \<Rightarrow> sc_orbital scope)"

text \<open>A live message: to the requesting tab, under the site's own trait and event, or nothing.\<close>

definition live_message :: "('x host, 'q, 'b, 'w, 'h, 'd) host_ports \<Rightarrow> call_site option \<Rightarrow> 'x host answer_scope \<Rightarrow> jobj \<Rightarrow> 'x host \<Rightarrow> 'x host" where
  "live_message ports site scope payload s =
     (case site of
        None \<Rightarrow> s
      | Some st \<Rightarrow>
          (case er_onMessage (cs_emit st) of
             None \<Rightarrow> s
           | Some event \<Rightarrow>
               hp_deliverLive ports \<lparr>ls_orbital = site_orbital site scope, ls_trait = cs_trait st, ls_event = event\<rparr>
                 payload (sc_originClientId scope) s))"

definition lent_host :: "('x host, 'q, 'b, 'w, 'h, 'd) host_ports \<Rightarrow> call_site option \<Rightarrow> 'x host answer_scope \<Rightarrow> 'h option" where
  "lent_host ports site scope =
     map_option (\<lambda>st. hp_servicePorts ports (site_orbital site scope) (cs_trait st) (sc_user scope) (live_message ports site scope)) site"

definition service_context_of :: "caller option \<Rightarrow> 'h option \<Rightarrow> controller option \<Rightarrow> bool \<Rightarrow> 'h service_context option" where
  "service_context_of who lent signal outsideRequest =
     (if who \<noteq> None \<or> signal \<noteq> None \<or> lent \<noteq> None \<or> outsideRequest
      then Some \<lparr>sx_principal = map_option ca_principal who, sx_role = Option.bind who ca_role, sx_host = lent,
             sx_signal = signal, sx_outsideRequest = outsideRequest\<rparr>
      else None)"

definition call_provider :: "('x host, 'q, 'b, 'w, 'h, 'd) host_ports \<Rightarrow> service_call \<Rightarrow> 'x host answer_scope \<Rightarrow> bool \<Rightarrow>
    controller option \<Rightarrow> 'x host \<Rightarrow> (js_error + jval) \<times> 'x host" where
  "call_provider ports request scope outsideRequest signal =
     sbind (\<lambda>s. (serviceParams (sv_args request), s)) (\<lambda>params.
     sbind (hp_callService ports (sv_service request) (sv_method request) params
         (service_context_of (sv_caller request) (lent_host ports (sv_site request) scope) signal outsideRequest))
       (\<lambda>result s. (Inr (case result of None \<Rightarrow> JNull | Some kvs \<Rightarrow> JObj kvs), s)))"

definition deferred_outcome :: "call_site \<Rightarrow> 'x host answer_scope \<Rightarrow> string \<Rightarrow> jobj option \<Rightarrow> deferred_call" where
  "deferred_outcome site scope event payload =
     \<lparr>dc_orbital = site_orbital (Some site) scope, dc_traitName = cs_trait site, dc_event = event, dc_payload = payload,
      dc_entityId = sc_entityId scope, dc_originClientId = sc_originClientId scope, dc_user = sc_user scope,
      dc_locale = sc_locale scope\<rparr>"

text \<open>The outcome of a follow-on call as the one event its routes name for it, or none.\<close>

definition outcome_event :: "call_site \<Rightarrow> string option \<Rightarrow> js_error + jval outcome \<Rightarrow> (string \<times> jobj option) option" where
  "outcome_event site key settled =
     (case settled of
        Inl e \<Rightarrow> map_option (\<lambda>ev. (ev, Some [(''error'', JStr (message_of e))])) (er_failure (cs_emit site))
      | Inr Cancelled \<Rightarrow>
          (case (er_cancelled (cs_emit site), key) of
             (Some ev, Some k) \<Rightarrow> Some (ev, Some [(''key'', JStr k)])
           | _ \<Rightarrow> None)
      | Inr (Finished v) \<Rightarrow>
          map_option (\<lambda>ev. (ev, case v of JObj kvs \<Rightarrow> Some kvs | _ \<Rightarrow> None)) (er_success (cs_emit site)))"

definition deliver_outcome :: "(deferred_call \<Rightarrow> 'x host \<Rightarrow> 'x host) \<Rightarrow> call_site \<Rightarrow> string option \<Rightarrow> 'x host answer_scope \<Rightarrow>
    (js_error + jval outcome) \<times> 'x host \<Rightarrow> 'x host" where
  "deliver_outcome defer site key scope res =
     (let (settled, s) = res in
      case outcome_event site key settled of
        None \<Rightarrow> s
      | Some (event, payload) \<Rightarrow> defer (deferred_outcome site scope event payload) s)"

text \<open>A keyed call is registered before it is left to itself.\<close>

definition startDeferredCall :: "(('x host \<Rightarrow> 'x host) \<Rightarrow> 'x host \<Rightarrow> 'x host) \<Rightarrow> (deferred_call \<Rightarrow> 'x host \<Rightarrow> 'x host) \<Rightarrow>
    call_site \<Rightarrow> string option \<Rightarrow> 'x host answer_scope \<Rightarrow> (controller option \<Rightarrow> 'x host \<Rightarrow> (js_error + jval) \<times> 'x host) \<Rightarrow>
    'x host \<Rightarrow> 'x host" where
  "startDeferredCall spawn defer site key scope call s =
     (case key of
        None \<Rightarrow> spawn (\<lambda>s. deliver_outcome defer site key scope (let (r, s') = call None s in (map_sum id Finished r, s'))) s
      | Some k \<Rightarrow>
          (let (f, s0) = start_keyed k s
           in spawn (\<lambda>s. deliver_outcome defer site key scope (finish_keyed the_call_was_cancelled f (\<lambda>c. call (Some c)) s)) s0))"

definition callService :: "('x host, 'q, 'b, 'w, 'h, 'd) host_ports \<Rightarrow> service_call \<Rightarrow> 'x host answer_scope \<Rightarrow> 'x host \<Rightarrow>
    (js_error + io_answer) \<times> 'x host" where
  "callService ports request scope s =
     (let deferring = (case sv_site request of
            Some site \<Rightarrow> if cs_followOn site then map_option (Pair site) (hp_deferCallOutcome ports s) else None
          | None \<Rightarrow> None)
      in case deferring of
           Some (site, defer) \<Rightarrow>
             (Inr ServiceDeferred, startDeferredCall (hp_spawn ports) defer site (sv_key request) scope (call_provider ports request scope True) s)
         | None \<Rightarrow>
             caught (\<lambda>e. ServiceAnswer (Inl (message_of e)))
               (outside_queue scope (run_call the_call_was_cancelled (sv_key request) (\<lambda>signal.
                 sbind (call_provider ports request scope False signal) (\<lambda>v s. (Inr (ServiceAnswer (Inr v)), s)))) s))"

section \<open>Substrate operators\<close>

definition PROGRAM_EFFECTS :: "string list" where
  "PROGRAM_EFFECTS = [''behavior/catalog'', ''behavior/describe'', ''behavior/source'', ''behavior/resolve'',
     ''behavior/dependencies'', ''program/read'', ''program/print'', ''program/eval'', ''program/validate'',
     ''program/compose'', ''program/step'']"

definition isProgramEffect :: "string \<Rightarrow> bool" where
  "isProgramEffect name \<longleftrightarrow> name \<in> set PROGRAM_EFFECTS"

definition opt_pair :: "string \<Rightarrow> jval option \<Rightarrow> jobj" where
  "opt_pair k v = (case v of None \<Rightarrow> [] | Some x \<Rightarrow> [(k, x)])"

definition issuePayload :: "program_issue \<Rightarrow> jobj" where
  "issuePayload i = [(''code'', JStr (is_code i)), (''message'', JStr (is_message i))] @
     opt_pair ''path'' (is_path i) @ opt_pair ''line'' (is_line i) @ opt_pair ''column'' (is_column i)"

definition substrate_failure :: "string \<Rightarrow> jval list \<Rightarrow> io_answer" where
  "substrate_failure m errors = SubstrateAnswer (Inl (m, errors))"

definition substrate_answer :: "(program_issue \<Rightarrow> jobj) \<Rightarrow> (js_error + program_outcome) \<times> 's \<Rightarrow> (js_error + io_answer) \<times> 's" where
  "substrate_answer show_issue rs =
     (case rs of
        (Inr (ProgramOk v), s) \<Rightarrow> (Inr (SubstrateAnswer (Inr v)), s)
      | (Inr (ProgramFailed m issues), s) \<Rightarrow> (Inr (substrate_failure m (map (\<lambda>i. JObj (show_issue i)) issues)), s)
      | (Inl e, s) \<Rightarrow> (Inr (substrate_failure (message_of e) []), s))"

definition substrate :: "('x host, 'q, 'b, 'w, 'h, 'd) host_ports \<Rightarrow> string \<Rightarrow> jval list \<Rightarrow> 'x host answer_scope \<Rightarrow> 'x host \<Rightarrow>
    (js_error + io_answer) \<times> 'x host" where
  "substrate ports op args scope s =
     (if hp_isAgentPort ports op
      then substrate_answer (\<lambda>i. [(''code'', JStr (is_code i)), (''message'', JStr (is_message i))])
             (hp_runAgentPort ports op args (hp_servicePorts ports (sc_orbital scope) '''' (sc_user scope) (\<lambda>_ s. s)) s)
      else case hp_programEffect ports s of
          None \<Rightarrow> (Inr (substrate_failure (''no program host configured for '' @ op) []), s)
        | Some handler \<Rightarrow>
            if \<not> isProgramEffect op then (Inr (substrate_failure (''no program host configured for '' @ op) []), s)
            else substrate_answer issuePayload (handler op args (map_option (\<lambda>u. (uc_id u, uc_role u)) (sc_user scope)) s))"

section \<open>HTTP\<close>

definition HTTP_UNAVAILABLE :: string where
  "HTTP_UNAVAILABLE = ''HTTP_KERNEL_UNAVAILABLE: this host was given no http ports''"

definition httpAnswer :: "exchange \<Rightarrow> io_answer" where
  "httpAnswer x = HttpAnswer (case x of Reply r \<Rightarrow> Inr r | Failure f \<Rightarrow> Inl f)"

definition event_payload :: "stream_event \<Rightarrow> jobj" where
  "event_payload ev = [(''data'', JStr (se_data ev)), (''event'', nullable JStr (se_event ev)), (''id'', nullable JStr (se_id ev)),
     (''key'', nullable JStr (se_key ev))]"

text \<open>The world of a call under a signal: cancelled when its controller is aborted.\<close>

definition under_signal :: "controller option \<Rightarrow> 'x host http_world \<Rightarrow> 'x host http_world" where
  "under_signal signal w = w\<lparr>hw_cancelled := (\<lambda>s. case signal of None \<Rightarrow> False | Some c \<Rightarrow> call_aborted c s)\<rparr>"

datatype http_ask = WholeAsk "int option" | StreamAsk framing

definition send_ask :: "('x host, 'q, 'b, 'w, 'h, 'd) host_ports \<Rightarrow> ('x host, 'd) http_host \<Rightarrow> http_ask \<Rightarrow> http_request \<Rightarrow>
    string option \<Rightarrow> call_site option \<Rightarrow> 'x host answer_scope \<Rightarrow> controller option \<Rightarrow> 'x host \<Rightarrow> (js_error + exchange) \<times> 'x host" where
  "send_ask ports hh ask req key site scope signal =
     (case ask of
        StreamAsk fr \<Rightarrow>
          streamHttp (under_signal signal (hh_world hh))
            (hh_streams hh fr key (\<lambda>ev s. (Inr (), live_message ports site scope (event_payload ev) s))) req
      | WholeAsk delay \<Rightarrow>
          sendHttp (under_signal signal (hh_world hh)) req (case delay of None \<Rightarrow> Fin 0 | Some d \<Rightarrow> Fin (of_int d)))"

definition host_http :: "('x host, 'q, 'b, 'w, 'h, 'd) host_ports \<Rightarrow> http_ask \<Rightarrow> http_request \<Rightarrow> string option \<Rightarrow>
    call_site option \<Rightarrow> 'x host answer_scope \<Rightarrow> 'x host \<Rightarrow> (js_error + io_answer) \<times> 'x host" where
  "host_http ports ask req key site scope s =
     (case hp_http ports of
        None \<Rightarrow> (Inr (HttpAnswer (Inl (Failed HTTP_UNAVAILABLE))), s)
      | Some hh \<Rightarrow>
          caught (\<lambda>e. HttpAnswer (Inl (Failed (message_of e))))
            (outside_queue scope (run_call the_call_was_cancelled key (\<lambda>signal.
              sbind (send_ask ports hh ask req key site scope signal) (\<lambda>x s. (Inr (httpAnswer x), s)))) s))"

definition httpBeacon :: "('x host, 'q, 'b, 'w, 'h, 'd) host_ports \<Rightarrow> http_request \<Rightarrow> string option \<Rightarrow> 'x host answer_scope \<Rightarrow>
    'x host \<Rightarrow> (js_error + io_answer) \<times> 'x host" where
  "httpBeacon ports req key scope s =
     (case hp_http ports of
        None \<Rightarrow> (Inr (BeaconAnswer (BeaconUnavailable HTTP_UNAVAILABLE)), s)
      | Some hh \<Rightarrow>
          caught (\<lambda>e. BeaconAnswer (BeaconFailed (message_of e)))
            (outside_queue scope (run_call the_call_was_cancelled key (\<lambda>signal.
              sbind (sendBeaconRequest (under_signal signal (hh_world hh)) (cp_beacon (hh_calls hh)) req)
                (\<lambda>x s. (Inr (BeaconAnswer x), s)))) s))"

section \<open>The device, the tabs and the page\<close>

fun failure_kind_text :: "device_failure_kind \<Rightarrow> string" where
  "failure_kind_text Unconfigured = ''unconfigured''"
| "failure_kind_text Unavailable = ''unavailable''"
| "failure_kind_text DeviceFailed = ''failed''"

fun device_failure :: "device_error \<Rightarrow> string \<times> string" where
  "device_failure (DeviceFailure kind m key) = (failure_kind_text kind, m)"
| "device_failure (DeviceThrew e) = (''failed'', message_of e)"

datatype device_ask = PromptAsk string string | EmbedAsk "string list"

definition ask_device :: "'x host device_ports option \<Rightarrow> device_ask \<Rightarrow> string option \<Rightarrow> controller option \<Rightarrow> 'x host \<Rightarrow>
    (device_error + io_answer) \<times> 'x host" where
  "ask_device ports ask key signal =
     (case ask of
        PromptAsk asked schema \<Rightarrow> sbind (promptOnDevice ports asked schema key signal) (\<lambda>r s. (Inr (PromptAnswer (Inr r)), s))
      | EmbedAsk texts \<Rightarrow> sbind (embedOnDevice ports texts key signal) (\<lambda>r s. (Inr (EmbedAnswer (Inr r)), s)))"

definition device_failed :: "device_ask \<Rightarrow> string \<times> string \<Rightarrow> io_answer" where
  "device_failed ask f = (case ask of PromptAsk _ _ \<Rightarrow> PromptAnswer (Inl f) | EmbedAsk _ \<Rightarrow> EmbedAnswer (Inl f))"

text \<open>
  The scope's queue runs work whose errors are \<open>js_error\<close>, so the failure of the device is
  turned into its answer inside the queue, by the code's \<open>catch\<close> around it.
\<close>

definition onDeviceModel :: "('x host, 'q, 'b, 'w, 'h, 'd) host_ports \<Rightarrow> device_ask \<Rightarrow> string option \<Rightarrow> 'x host answer_scope \<Rightarrow>
    'x host \<Rightarrow> (js_error + io_answer) \<times> 'x host" where
  "onDeviceModel ports ask key scope s =
     caught (\<lambda>e. device_failed ask (''failed'', message_of e))
       (outside_queue scope (\<lambda>s.
          case run_call (DeviceThrew the_call_was_cancelled) key (ask_device (hp_onDevice ports) ask key) s of
            (Inr a, s') \<Rightarrow> (Inr a, s')
          | (Inl e, s') \<Rightarrow> (Inr (device_failed ask (device_failure e)), s')) s)"

definition NO_TAB_HOST :: string where
  "NO_TAB_HOST = ''browser/tab: no host answers browser tabs''"

text \<open>What a watch reports goes to the input its ask names, as the user it was started by.\<close>

definition tab_deliver :: "('x host, 'q, 'b, 'w, 'h, 'd) host_ports \<Rightarrow> tab_ask \<Rightarrow> 'x host answer_scope \<Rightarrow> jobj \<Rightarrow> 'x host \<Rightarrow> 'x host" where
  "tab_deliver ports ask scope payload s =
     (case ask of
        WatchTabs _ _ _ _ orbital trait event \<Rightarrow>
          hp_dispatchInput ports (hp_servicePorts ports orbital trait (sc_user scope) (\<lambda>_ s. s)) orbital trait event payload s
      | _ \<Rightarrow> s)"

definition perform_tab :: "('x host, 'q, 'b, 'w, 'h, 'd) host_ports \<Rightarrow>
    (tab_ask \<Rightarrow> controller option \<Rightarrow> (jobj \<Rightarrow> 'x host \<Rightarrow> 'x host) \<Rightarrow> 'x host \<Rightarrow> (tab_error + jval) \<times> 'x host) \<Rightarrow>
    tab_ask \<Rightarrow> 'x host answer_scope \<Rightarrow> controller option \<Rightarrow> 'x host \<Rightarrow> (js_error + io_answer) \<times> 'x host" where
  "perform_tab ports perform ask scope signal s =
     (case perform ask signal (tab_deliver ports ask scope) s of
        (Inr v, s') \<Rightarrow> (Inr (TabAnswer (Inr v)), s')
      | (Inl (TabFailure kind m), s') \<Rightarrow> (Inr (TabAnswer (Inl (kind, m))), s')
      | (Inl (TabThrew e), s') \<Rightarrow> (Inr (TabAnswer (Inl (''failed'', message_of e))), s'))"

definition host_tab :: "('x host, 'q, 'b, 'w, 'h, 'd) host_ports \<Rightarrow> tab_ask \<Rightarrow> string option \<Rightarrow> 'x host answer_scope \<Rightarrow>
    'x host \<Rightarrow> (js_error + io_answer) \<times> 'x host" where
  "host_tab ports ask key scope s =
     (case hp_tabs ports of
        None \<Rightarrow> (Inr (TabAnswer (Inl (''unavailable'', NO_TAB_HOST))), s)
      | Some perform \<Rightarrow> outside_queue scope (run_call the_call_was_cancelled key (perform_tab ports perform ask scope)) s)"

definition facts_json :: "page_facts \<Rightarrow> jobj" where
  "facts_json f = [(''available'', JBool (pf_available f)), (''hostname'', JStr (pf_hostname f)),
     (''referrer'', JStr (pf_referrer f)), (''screenWidth'', nullable JNum (pf_screenWidth f))]"

definition host_pageFacts :: "('x host, 'q, 'b, 'w, 'h, 'd) host_ports \<Rightarrow> page_fact list \<Rightarrow> 'x host \<Rightarrow> (js_error + io_answer) \<times> 'x host" where
  "host_pageFacts ports fs s =
     (Inr (PageFactsAnswer (map_sum message_of facts_json (readPageFacts (hp_page ports s) fs))), s)"

section \<open>Operating system calls\<close>

definition os_denied :: "string \<Rightarrow> jval" where
  "os_denied op = JObj [(''kind'', JStr ''denied''), (''message'', JStr (op @ '': no os host configured''))]"

text \<open>
  The completion of a deferred call: the event the kernel names for it, as a dispatch of its own.
  The row the effect ran on is \<open>site.entityId\<close>, which no decoded site carries.
\<close>

definition os_completion :: "os_completions \<Rightarrow> (deferred_call \<Rightarrow> 's \<Rightarrow> 's) \<Rightarrow> call_site \<Rightarrow> string \<Rightarrow> 's answer_scope \<Rightarrow>
    jval + jval \<Rightarrow> 's \<Rightarrow> 's" where
  "os_completion completions sink site key scope res s =
     (case oc_event completions site key res of
        None \<Rightarrow> s
      | Some (event, payload) \<Rightarrow>
          sink \<lparr>dc_orbital = (case cs_orbital site of Some ob \<Rightarrow> ob | None \<Rightarrow> sc_orbital scope), dc_traitName = cs_trait site,
              dc_event = event, dc_payload = (case payload of JObj kvs \<Rightarrow> Some kvs | _ \<Rightarrow> None), dc_entityId = None,
              dc_originClientId = sc_originClientId scope, dc_user = sc_user scope, dc_locale = sc_locale scope\<rparr> s)"

definition os_in_place :: "'s os_host \<Rightarrow> string \<Rightarrow> jval list \<Rightarrow> 's \<Rightarrow> (js_error + io_answer) \<times> 's" where
  "os_in_place os op args = sbind (os_answer os op args) (\<lambda>settled s. (Inr (OsAnswer settled), s))"

definition osAnswer :: "('x host, 'q, 'b, 'w, 'h, 'd) host_ports \<Rightarrow> string \<Rightarrow> jval list \<Rightarrow> string option \<Rightarrow> call_site option \<Rightarrow>
    'x host answer_scope \<Rightarrow> 'x host \<Rightarrow> (js_error + io_answer) \<times> 'x host" where
  "osAnswer ports op args key site scope s =
     (case hp_os ports of
        None \<Rightarrow> (Inr (OsAnswer (Inl (os_denied op))), s)
      | Some os \<Rightarrow>
          (case (key, site, hp_osCompletions ports, hp_deferCallOutcome ports s, os_defer os) of
             (Some k, Some st, Some completions, Some sink, Some defer) \<Rightarrow>
               if oc_defers completions op
               then (case defer op args k (os_completion completions sink st k scope) s of
                   (Inl e, s') \<Rightarrow> (Inr (OsAnswer (Inl e)), s')
                 | (Inr _, s') \<Rightarrow> (Inr ServiceDeferred, s'))
               else os_in_place os op args s
           | _ \<Rightarrow> os_in_place os op args s))"

section \<open>Secrets and credentials\<close>

text \<open>The secrets of the HTTP ports, or the answer of a host that has none.\<close>

definition with_secrets :: "('x host, 'q, 'b, 'w, 'h, 'd) host_ports \<Rightarrow> (string + 'r \<Rightarrow> io_answer) \<Rightarrow>
    ('x host call_ports \<Rightarrow> 'x host \<Rightarrow> (string + 'r) \<times> 'x host) \<Rightarrow> 'x host \<Rightarrow> io_answer \<times> 'x host" where
  "with_secrets ports wrap work s =
     (case hp_http ports of
        None \<Rightarrow> (wrap (Inl HTTP_UNAVAILABLE), s)
      | Some hh \<Rightarrow> (let (r, s') = work (hh_calls hh) s in (wrap r, s')))"

definition host_secret :: "('x host, 'q, 'b, 'w, 'h, 'd) host_ports \<Rightarrow> string \<Rightarrow> string option \<Rightarrow> 'x host \<Rightarrow> io_answer \<times> 'x host" where
  "host_secret ports name who = with_secrets ports SecretAnswer (\<lambda>cp. settle_work (cp_secret_get cp name who))"

definition host_secretSet :: "('x host, 'q, 'b, 'w, 'h, 'd) host_ports \<Rightarrow> string \<Rightarrow> string \<Rightarrow> int \<Rightarrow> string option \<Rightarrow> 'x host \<Rightarrow>
    io_answer \<times> 'x host" where
  "host_secretSet ports name v ttl who =
     with_secrets ports SecretSetAnswer (\<lambda>cp. settle_work (cp_secret_set cp name v (Fin (of_int ttl)) who))"

definition host_secretRotate :: "('x host, 'q, 'b, 'w, 'h, 'd) host_ports \<Rightarrow> string \<Rightarrow> string \<Rightarrow> string option \<Rightarrow> 'x host \<Rightarrow>
    io_answer \<times> 'x host" where
  "host_secretRotate ports name v who =
     with_secrets ports SecretRotateAnswer (\<lambda>cp s.
       case cp_secret_rotate cp of
         None \<Rightarrow> (Inl ''this host keeps no rotatable credentials'', s)
       | Some turn \<Rightarrow> settle_work (turn name v who) s)"

definition host_random :: "('x host, 'q, 'b, 'w, 'h, 'd) host_ports \<Rightarrow> int \<Rightarrow> 'x host \<Rightarrow> io_answer \<times> 'x host" where
  "host_random ports n s =
     (let source = (case hp_http ports of Some hh \<Rightarrow> cp_random (hh_calls hh) | None \<Rightarrow> hp_systemRandom ports)
      in case source n s of
           (Inr b, s') \<Rightarrow> (RandomAnswer (Inr (base64Standard b)), s')
         | (Inl e, s') \<Rightarrow> (RandomAnswer (Inl (message_of e)), s'))"

definition host_credentialStatus :: "('x host, 'q, 'b, 'w, 'h, 'd) host_ports \<Rightarrow> string \<Rightarrow> string option \<Rightarrow> 'x host \<Rightarrow>
    io_answer \<times> 'x host" where
  "host_credentialStatus ports name who =
     with_secrets ports CredentialStatusAnswer (\<lambda>cp. settle_work (
       sbind (cp_secret_get cp name who) (\<lambda>v.
         let connected = hp_statusConnected ports v who in
         sbind (if connected
             then (case cp_secret_label cp of None \<Rightarrow> (\<lambda>s. (Inr None, s)) | Some label_of \<Rightarrow> label_of name who)
             else (\<lambda>s. (Inr None, s)))
           (\<lambda>lab s. (Inr (connected, lab), s)))))"

definition host_credentialForget :: "('x host, 'q, 'b, 'w, 'h, 'd) host_ports \<Rightarrow> string \<Rightarrow> string option \<Rightarrow> 'x host \<Rightarrow>
    io_answer \<times> 'x host" where
  "host_credentialForget ports name who =
     with_secrets ports CredentialForgetAnswer (\<lambda>cp. settle_work (cp_secret_forget cp name who))"

definition credentialAdmin :: "('x host, 'q, 'b, 'w, 'h, 'd) host_ports \<Rightarrow>
    ('x host credential_admin \<Rightarrow> 'x host \<Rightarrow> (js_error + jval) \<times> 'x host) \<Rightarrow> 'x host \<Rightarrow> (string + jval) \<times> 'x host" where
  "credentialAdmin ports work s =
     (case Option.bind (hp_http ports) (\<lambda>hh. cp_credentials (hh_calls hh)) of
        None \<Rightarrow> (Inl HTTP_UNAVAILABLE, s)
      | Some port \<Rightarrow> settle_work (work port) s)"

definition host_oauth :: "('x host, 'q, 'b, 'w, 'h, 'd) host_ports \<Rightarrow> oauth_ask \<Rightarrow> string option \<Rightarrow> 'x host \<Rightarrow> io_answer \<times> 'x host" where
  "host_oauth ports ask who s =
     (case Option.bind (hp_http ports) (\<lambda>hh. cp_oauth (hh_calls hh)) of
        None \<Rightarrow> (OAuthAnswer (Inl ''this host keeps no OAuth state''), s)
      | Some port \<Rightarrow>
          (let (r, s') = settle_work (port ask who) s in (OAuthAnswer (map_sum id checkOAuthReply r), s')))"

section \<open>Answering a request\<close>

definition wrapped :: "('r \<Rightarrow> io_answer) \<Rightarrow> 'r \<times> 's \<Rightarrow> (js_error + io_answer) \<times> 's" where
  "wrapped wrap rs = (Inr (wrap (fst rs)), snd rs)"

definition answered :: "io_answer \<times> 's \<Rightarrow> (js_error + io_answer) \<times> 's" where
  "answered rs = (Inr (fst rs), snd rs)"

definition cancel_call :: "('x host, 'q, 'b, 'w, 'h, 'd) host_ports \<Rightarrow> string \<Rightarrow> 'x host \<Rightarrow> io_answer \<times> 'x host" where
  "cancel_call ports key s =
     (let s1 = s\<lparr>ho_calls := snd (cancel key (ho_calls s))\<rparr>
      in (CallsCancelled, case Option.bind (hp_os ports) os_cancel of None \<Rightarrow> s1 | Some f \<Rightarrow> f key s1))"

fun answer_row_ask :: "('x host, 'q, 'b, 'w, 'h, 'd) host_ports \<Rightarrow> ('q, 'b) io_request \<Rightarrow> 'x host \<Rightarrow>
    ((js_error + io_answer) \<times> 'x host) option" where
  "answer_row_ask ports (ReadRow e i) s = Some (wrapped RowAnswer (settle_work (pa_getById (hp_persistence ports) e i) s))"
| "answer_row_ask ports (ListRows e) s = Some (wrapped RowsAnswer (settle_work (pa_list (hp_persistence ports) e) s))"
| "answer_row_ask ports (QueryRows e q project) s = Some (answered (queryRows (hp_persistence ports) e q project s))"
| "answer_row_ask ports (WriteRows batch) s = Some (answered (writeRows (hp_persistence ports) batch s))"
| "answer_row_ask ports (CreateRow e v) s = Some (wrapped RowAnswer (settle_work (create_row (hp_persistence ports) e v) s))"
| "answer_row_ask ports (WriteRow e i v) s = Some (wrapped RowAnswer (settle_work (write_row (hp_persistence ports) e i v) s))"
| "answer_row_ask ports (DeleteRow e i) s = Some (wrapped Deleted (settle_work (pa_delete (hp_persistence ports) e i) s))"
| "answer_row_ask ports _ s = None"

fun answer_credential_ask :: "('x host, 'q, 'b, 'w, 'h, 'd) host_ports \<Rightarrow> ('q, 'b) io_request \<Rightarrow> 'x host \<Rightarrow>
    ((js_error + io_answer) \<times> 'x host) option" where
  "answer_credential_ask ports (Secret name who) s = Some (answered (host_secret ports name who s))"
| "answer_credential_ask ports (SecretSet name v ttl who) s = Some (answered (host_secretSet ports name v ttl who s))"
| "answer_credential_ask ports (SecretRotate name v who) s = Some (answered (host_secretRotate ports name v who s))"
| "answer_credential_ask ports (Random n) s = Some (answered (host_random ports n s))"
| "answer_credential_ask ports (CredentialStatus name who) s = Some (answered (host_credentialStatus ports name who s))"
| "answer_credential_ask ports (CredentialForget name who) s = Some (answered (host_credentialForget ports name who s))"
| "answer_credential_ask ports CredentialStoreList s =
     Some (wrapped (CredentialAdminAnswer ''credentialStoreList'') (credentialAdmin ports ap_list s))"
| "answer_credential_ask ports (CredentialStoreRead name) s =
     Some (wrapped (CredentialAdminAnswer ''credentialStoreRead'') (credentialAdmin ports (\<lambda>p. ap_read p name) s))"
| "answer_credential_ask ports (CredentialStoreWrite service name v) s =
     Some (wrapped (CredentialAdminAnswer ''credentialStoreWrite'') (credentialAdmin ports (\<lambda>p.
       sbind (ap_write p service name v) (\<lambda>_ s. (Inr JNull, s))) s))"
| "answer_credential_ask ports (CredentialStoreRemove name) s =
     Some (wrapped (CredentialAdminAnswer ''credentialStoreRemove'') (credentialAdmin ports (\<lambda>p. ap_remove p name) s))"
| "answer_credential_ask ports CredentialStoreRotate s =
     Some (wrapped (CredentialAdminAnswer ''credentialStoreRotate'') (credentialAdmin ports ap_rotate s))"
| "answer_credential_ask ports CredentialModeRead s =
     Some (wrapped (CredentialAdminAnswer ''credentialModeRead'') (credentialAdmin ports ap_mode s))"
| "answer_credential_ask ports (CredentialModeWrite m) s =
     Some (wrapped (CredentialAdminAnswer ''credentialModeWrite'') (credentialAdmin ports (\<lambda>p. ap_setMode p m) s))"
| "answer_credential_ask ports (OAuth ask who) s = Some (answered (host_oauth ports ask who s))"
| "answer_credential_ask ports _ s = None"

fun answer_host_ask :: "('x host, 'q, 'b, 'w, 'h, 'd) host_ports \<Rightarrow> ('q, 'b) io_request \<Rightarrow> 'x host answer_scope \<Rightarrow> 'x host \<Rightarrow>
    ((js_error + io_answer) \<times> 'x host) option" where
  "answer_host_ask ports (CallService call) scope s = Some (callService ports call scope s)"
| "answer_host_ask ports (CancelCall key) scope s = Some (answered (cancel_call ports key s))"
| "answer_host_ask ports (Substrate op args) scope s = Some (substrate ports op args scope s)"
| "answer_host_ask ports (Http req delay key site) scope s = Some (host_http ports (WholeAsk delay) req key site scope s)"
| "answer_host_ask ports (HttpStream req fr key site) scope s = Some (host_http ports (StreamAsk fr) req key site scope s)"
| "answer_host_ask ports (HttpBeacon req key site) scope s = Some (httpBeacon ports req key scope s)"
| "answer_host_ask ports (PageFacts fs) scope s = Some (host_pageFacts ports fs s)"
| "answer_host_ask ports (Prompt asked schema key) scope s = Some (onDeviceModel ports (PromptAsk asked schema) key scope s)"
| "answer_host_ask ports (Embed texts key) scope s = Some (onDeviceModel ports (EmbedAsk texts) key scope s)"
| "answer_host_ask ports (Tab ask key) scope s = Some (host_tab ports ask key scope s)"
| "answer_host_ask ports (Os op args key site) scope s = Some (osAnswer ports op args key site scope s)"
| "answer_host_ask ports Clock scope s = Some (Inr (ClockAnswer (hp_now ports s)), s)"
| "answer_host_ask ports (Deliver envelope key site) scope s = Some (Inr (DeliverDown (en_id envelope)), s)"
| "answer_host_ask ports _ scope s = None"

text \<open>The \<open>switch\<close> of \<open>answerRequest\<close>, its cases in three groups; every kind is in one of them.\<close>

definition answerRequest :: "('x host, 'q, 'b, 'w, 'h, 'd) host_ports \<Rightarrow> ('q, 'b) io_request \<Rightarrow> 'x host answer_scope \<Rightarrow> 'x host \<Rightarrow>
    (js_error + io_answer) \<times> 'x host" where
  "answerRequest ports request scope s =
     (case answer_row_ask ports request s of
        Some r \<Rightarrow> r
      | None \<Rightarrow>
          (case answer_credential_ask ports request s of
             Some r \<Rightarrow> r
           | None \<Rightarrow> (case answer_host_ask ports request scope s of Some r \<Rightarrow> r | None \<Rightarrow> (Inl Aborted, s))))"

end
