(* ===== verification/KernelAnswers.thy ===== *)
theory KernelAnswers
  imports KernelHost
begin

text \<open>
  What \<open>answerRequest\<close> of \<open>kernel/host.ts\<close> promises the kernel: an answer of the request's own kind
  for every request, whatever the ports throw; a keyed call that is cancelled while it runs is
  answered as cancelled; and what a call sends beside its answer reaches the requester only.
\<close>

section \<open>Every request is answered in kind\<close>

fun answer_fits :: "('q, 'b) io_request \<Rightarrow> io_answer \<Rightarrow> bool" where
  "answer_fits (ReadRow _ _) a \<longleftrightarrow> (\<exists>r. a = RowAnswer r)"
| "answer_fits (ListRows _) a \<longleftrightarrow> (\<exists>r. a = RowsAnswer r)"
| "answer_fits (QueryRows _ _ ProjectRows) a \<longleftrightarrow> (\<exists>r. a = PageAnswer r) \<or> (\<exists>r. a = QueryUnsupported r)"
| "answer_fits (QueryRows _ _ ProjectIds) a \<longleftrightarrow> (\<exists>r. a = IdPageAnswer r) \<or> (\<exists>r. a = QueryUnsupported r)"
| "answer_fits (WriteRows _) a \<longleftrightarrow> (\<exists>r. a = Wrote r) \<or> (\<exists>r. a = WriteUnsupported r)"
| "answer_fits (CreateRow _ _) a \<longleftrightarrow> (\<exists>r. a = RowAnswer r)"
| "answer_fits (WriteRow _ _ _) a \<longleftrightarrow> (\<exists>r. a = RowAnswer r)"
| "answer_fits (DeleteRow _ _) a \<longleftrightarrow> (\<exists>r. a = Deleted r)"
| "answer_fits (CallService call) a \<longleftrightarrow> (\<exists>r. a = ServiceAnswer r) \<or> a = ServiceCancelled \<and> sv_key call \<noteq> None \<or> a = ServiceDeferred"
| "answer_fits (CancelCall _) a \<longleftrightarrow> a = CallsCancelled"
| "answer_fits (Substrate _ _) a \<longleftrightarrow> (\<exists>r. a = SubstrateAnswer r)"
| "answer_fits (Http _ _ key _) a \<longleftrightarrow> (\<exists>r. a = HttpAnswer r) \<or> a = ServiceCancelled \<and> key \<noteq> None"
| "answer_fits (HttpStream _ _ key _) a \<longleftrightarrow> (\<exists>r. a = HttpAnswer r) \<or> a = ServiceCancelled \<and> key \<noteq> None"
| "answer_fits (HttpBeacon _ key _) a \<longleftrightarrow> (\<exists>r. a = BeaconAnswer r) \<or> a = ServiceCancelled \<and> key \<noteq> None"
| "answer_fits (PageFacts _) a \<longleftrightarrow> (\<exists>r. a = PageFactsAnswer r)"
| "answer_fits (Prompt _ _ key) a \<longleftrightarrow> (\<exists>r. a = PromptAnswer r) \<or> a = ServiceCancelled \<and> key \<noteq> None"
| "answer_fits (Embed _ key) a \<longleftrightarrow> (\<exists>r. a = EmbedAnswer r) \<or> a = ServiceCancelled \<and> key \<noteq> None"
| "answer_fits (Tab _ key) a \<longleftrightarrow> (\<exists>r. a = TabAnswer r) \<or> a = ServiceCancelled \<and> key \<noteq> None"
| "answer_fits (Secret _ _) a \<longleftrightarrow> (\<exists>r. a = SecretAnswer r)"
| "answer_fits (SecretSet _ _ _ _) a \<longleftrightarrow> (\<exists>r. a = SecretSetAnswer r)"
| "answer_fits (SecretRotate _ _ _) a \<longleftrightarrow> (\<exists>r. a = SecretRotateAnswer r)"
| "answer_fits (OAuth _ _) a \<longleftrightarrow> (\<exists>r. a = OAuthAnswer r)"
| "answer_fits (Deliver envelope _ _) a \<longleftrightarrow> a = DeliverDown (en_id envelope)"
| "answer_fits (Random _) a \<longleftrightarrow> (\<exists>r. a = RandomAnswer r)"
| "answer_fits (Os _ _ _ _) a \<longleftrightarrow> (\<exists>r. a = OsAnswer r) \<or> a = ServiceDeferred"
| "answer_fits (CredentialStatus _ _) a \<longleftrightarrow> (\<exists>r. a = CredentialStatusAnswer r)"
| "answer_fits (CredentialForget _ _) a \<longleftrightarrow> (\<exists>r. a = CredentialForgetAnswer r)"
| "answer_fits Clock a \<longleftrightarrow> (\<exists>r. a = ClockAnswer r)"
| "answer_fits CredentialStoreList a \<longleftrightarrow> (\<exists>r. a = CredentialAdminAnswer ''credentialStoreList'' r)"
| "answer_fits (CredentialStoreRead _) a \<longleftrightarrow> (\<exists>r. a = CredentialAdminAnswer ''credentialStoreRead'' r)"
| "answer_fits (CredentialStoreWrite _ _ _) a \<longleftrightarrow> (\<exists>r. a = CredentialAdminAnswer ''credentialStoreWrite'' r)"
| "answer_fits (CredentialStoreRemove _) a \<longleftrightarrow> (\<exists>r. a = CredentialAdminAnswer ''credentialStoreRemove'' r)"
| "answer_fits CredentialStoreRotate a \<longleftrightarrow> (\<exists>r. a = CredentialAdminAnswer ''credentialStoreRotate'' r)"
| "answer_fits CredentialModeRead a \<longleftrightarrow> (\<exists>r. a = CredentialAdminAnswer ''credentialModeRead'' r)"
| "answer_fits (CredentialModeWrite _) a \<longleftrightarrow> (\<exists>r. a = CredentialAdminAnswer ''credentialModeWrite'' r)"

text \<open>\<open>settles P m\<close>: \<open>m\<close> throws nothing, and its answer satisfies \<open>P\<close>; \<open>answers_or_throws\<close> leaves throwing open.\<close>

definition settles :: "(io_answer \<Rightarrow> bool) \<Rightarrow> ('s \<Rightarrow> ('e + io_answer) \<times> 's) \<Rightarrow> bool" where
  "settles P m \<longleftrightarrow> (\<forall>s. \<exists>a. fst (m s) = Inr a \<and> P a)"

definition answers_or_throws :: "(io_answer \<Rightarrow> bool) \<Rightarrow> ('s \<Rightarrow> ('e + io_answer) \<times> 's) \<Rightarrow> bool" where
  "answers_or_throws P m \<longleftrightarrow> (\<forall>s. case fst (m s) of Inl _ \<Rightarrow> True | Inr a \<Rightarrow> P a)"

text \<open>The queue's wrapper runs the work once and hands on what it came to.\<close>

definition queue_ok :: "'s answer_scope \<Rightarrow> bool" where
  "queue_ok scope \<longleftrightarrow> (\<forall>f run s. sc_outside scope = Some f \<longrightarrow> (\<exists>t. fst (f run s) = fst (run t)))"

lemma settles_weak: "settles P m \<Longrightarrow> answers_or_throws P m"
  by (auto simp: settles_def answers_or_throws_def split: sum.split) (metis Inl_Inr_False Inr_inject)

lemma keyed_outcome:
  "run_keyed c k work s = (let (f, s0) = start_keyed k s; (r, s1) = work (rf_controller f) s0
     in (if call_aborted (rf_controller f) s1 then Inr Cancelled else map_sum id Finished r,
         s1\<lparr>ho_calls := run_cleanup f (ho_calls s1)\<rparr>))"
  by (auto simp: run_keyed_def finish_keyed_def run_settle_def call_aborted_def Let_def split: prod.split sum.split)

text \<open>The work of a keyed call, cut off by a cancel or answered.\<close>

lemma run_call_keyed:
  "run_call c (Some k) work s = (let (f, s0) = start_keyed k s; (r, s1) = work (Some (rf_controller f)) s0
     in (if call_aborted (rf_controller f) s1 then Inr ServiceCancelled else r, s1\<lparr>ho_calls := run_cleanup f (ho_calls s1)\<rparr>))"
proof -
  obtain f s0 where f: "start_keyed k s = (f, s0)" by fastforce
  obtain r s1 where r: "work (Some (rf_controller f)) s0 = (r, s1)" by fastforce
  show ?thesis by (cases r) (simp_all add: run_call_def keyed_outcome f r)
qed

lemma run_call_answers:
  assumes "\<And>signal. answers_or_throws P (work signal)"
  shows "answers_or_throws (\<lambda>a. P a \<or> a = ServiceCancelled \<and> key \<noteq> None) (run_call c key work)"
proof (cases key)
  case None
  then show ?thesis using assms [of None] by (simp add: run_call_def answers_or_throws_def)
next
  case (Some k)
  have "case fst (work (Some n) t) of Inl _ \<Rightarrow> True | Inr a \<Rightarrow> P a" for n t
    using assms [of "Some n"] by (simp add: answers_or_throws_def)
  then show ?thesis
    unfolding Some answers_or_throws_def run_call_keyed
    by (auto simp: Let_def split: prod.split sum.split) (metis fst_conv sum.case(2))
qed

lemma run_call_settles:
  assumes "\<And>signal. settles P (work signal)"
  shows "settles (\<lambda>a. P a \<or> a = ServiceCancelled \<and> key \<noteq> None) (run_call c key work)"
proof (cases key)
  case None
  then show ?thesis using assms [of None] by (simp add: run_call_def settles_def)
next
  case (Some k)
  have "\<exists>a. fst (work (Some n) t) = Inr a \<and> P a" for n t
    using assms [of "Some n"] by (simp add: settles_def)
  then show ?thesis
    unfolding Some settles_def run_call_keyed
    by (auto simp: Let_def split: prod.split) (metis fst_conv)
qed

lemma caught_settles:
  assumes "queue_ok scope" and "answers_or_throws P run" and "\<And>e. P (failed e)"
  shows "\<exists>a s'. caught failed (outside_queue scope run s) = (Inr a, s') \<and> P a"
proof -
  obtain t where t: "fst (outside_queue scope run s) = fst (run t)"
    using assms(1) by (cases "sc_outside scope") (auto simp: outside_queue_def queue_ok_def)
  obtain r s1 where o: "outside_queue scope run s = (r, s1)" by fastforce
  then have "case r of Inl _ \<Rightarrow> True | Inr a \<Rightarrow> P a" using assms(2) t by (simp add: answers_or_throws_def)
  then show ?thesis using assms(3) o by (cases r) (auto simp: caught_def)
qed

lemma sbind_answers:
  assumes "\<And>x. P (g x)"
  shows "answers_or_throws P (sbind m (\<lambda>x s. (Inr (g x), s)))"
  using assms by (auto simp: answers_or_throws_def sbind_def split: prod.split sum.split)



text \<open>The groups of the switch.\<close>

lemma row_ask_settles:
  "answer_row_ask ports req s = Some rs \<Longrightarrow> \<exists>a s'. rs = (Inr a, s') \<and> answer_fits req a"
  by (cases "(ports, req, s)" rule: answer_row_ask.cases)
    (auto simp: wrapped_def answered_def queryRows_def writeRows_def Let_def
      split: projection.split option.split prod.split sum.split push_error.split)

lemma credential_ask_settles:
  "answer_credential_ask ports req s = Some rs \<Longrightarrow> \<exists>a s'. rs = (Inr a, s') \<and> answer_fits req a"
  by (cases "(ports, req, s)" rule: answer_credential_ask.cases)
    (auto simp: wrapped_def answered_def host_secret_def host_secretSet_def host_secretRotate_def host_random_def
      host_credentialStatus_def host_credentialForget_def host_oauth_def with_secrets_def Let_def
      split: option.split prod.split sum.split)

lemma callService_settles:
  assumes "queue_ok scope"
  shows "\<exists>a s'. callService ports call scope s = (Inr a, s') \<and> answer_fits (CallService call) a"
proof -
  have work: "answers_or_throws (\<lambda>a. \<exists>r. a = ServiceAnswer r)
      (sbind (call_provider ports call scope False signal) (\<lambda>v s. (Inr (ServiceAnswer (Inr v)), s)))" for signal
    by (rule sbind_answers) simp
  have ran: "\<exists>a s'. caught (\<lambda>e. ServiceAnswer (Inl (message_of e)))
      (outside_queue scope (run_call the_call_was_cancelled (sv_key call) (\<lambda>signal.
        sbind (call_provider ports call scope False signal) (\<lambda>v s. (Inr (ServiceAnswer (Inr v)), s)))) s) = (Inr a, s')
      \<and> ((\<exists>r. a = ServiceAnswer r) \<or> a = ServiceCancelled \<and> sv_key call \<noteq> None)"
    by (rule caught_settles [OF assms run_call_answers [OF work]]) simp
  then show ?thesis unfolding callService_def Let_def by (auto split: option.split)
qed

lemma host_http_settles:
  assumes "queue_ok scope"
  shows "\<exists>a s'. host_http ports ask req key site scope s = (Inr a, s') \<and>
    ((\<exists>r. a = HttpAnswer r) \<or> a = ServiceCancelled \<and> key \<noteq> None)"
proof (cases "hp_http ports")
  case (Some hh)
  have work: "answers_or_throws (\<lambda>a. \<exists>r. a = HttpAnswer r)
      (sbind (send_ask ports hh ask req key site scope signal) (\<lambda>x s. (Inr (httpAnswer x), s)))" for signal
    by (rule sbind_answers) (simp add: httpAnswer_def)
  show ?thesis unfolding host_http_def Some option.case
    by (rule caught_settles [OF assms run_call_answers [OF work]]) simp
qed (simp add: host_http_def)

lemma httpBeacon_settles:
  assumes "queue_ok scope"
  shows "\<exists>a s'. httpBeacon ports req key scope s = (Inr a, s') \<and>
    ((\<exists>r. a = BeaconAnswer r) \<or> a = ServiceCancelled \<and> key \<noteq> None)"
proof (cases "hp_http ports")
  case (Some hh)
  have work: "answers_or_throws (\<lambda>a. \<exists>r. a = BeaconAnswer r)
      (sbind (sendBeaconRequest (under_signal signal (hh_world hh)) (cp_beacon (hh_calls hh)) req)
        (\<lambda>x s. (Inr (BeaconAnswer x), s)))" for signal
    by (rule sbind_answers) simp
  show ?thesis unfolding httpBeacon_def Some option.case
    by (rule caught_settles [OF assms run_call_answers [OF work]]) simp
qed (simp add: httpBeacon_def)

fun fits_device :: "device_ask \<Rightarrow> io_answer \<Rightarrow> bool" where
  "fits_device (PromptAsk _ _) a \<longleftrightarrow> (\<exists>r. a = PromptAnswer r)"
| "fits_device (EmbedAsk _) a \<longleftrightarrow> (\<exists>r. a = EmbedAnswer r)"

lemma device_settles:
  assumes "queue_ok scope"
  shows "\<exists>a s'. onDeviceModel ports ask key scope s = (Inr a, s') \<and> (fits_device ask a \<or> a = ServiceCancelled \<and> key \<noteq> None)"
proof -
  have failed: "fits_device ask (device_failed ask e)" for e by (cases ask) (simp_all add: device_failed_def)
  have work: "answers_or_throws (fits_device ask) (ask_device (hp_onDevice ports) ask key signal)" for signal
    unfolding ask_device_def by (cases ask) (auto intro!: sbind_answers)
  let ?run = "\<lambda>s. case run_call (DeviceThrew the_call_was_cancelled) key (ask_device (hp_onDevice ports) ask key) s of
            (Inr a, s') \<Rightarrow> (Inr a, s')
          | (Inl e, s') \<Rightarrow> (Inr (device_failed ask (device_failure e)), s')"
  have run: "answers_or_throws (\<lambda>a. fits_device ask a \<or> a = ServiceCancelled \<and> key \<noteq> None) ?run"
    unfolding answers_or_throws_def
  proof
    fix s
    obtain r s1 where r: "run_call (DeviceThrew the_call_was_cancelled) key (ask_device (hp_onDevice ports) ask key) s = (r, s1)"
      by fastforce
    have "case r of Inl _ \<Rightarrow> True | Inr a \<Rightarrow> fits_device ask a \<or> a = ServiceCancelled \<and> key \<noteq> None"
      using run_call_answers [where work = "ask_device (hp_onDevice ports) ask key", OF work, where key = key and c = "DeviceThrew the_call_was_cancelled"] r
      unfolding answers_or_throws_def by (metis (no_types, lifting) fst_conv)
    then show "case fst (?run s) of Inl _ \<Rightarrow> True | Inr a \<Rightarrow> fits_device ask a \<or> a = ServiceCancelled \<and> key \<noteq> None"
      by (cases r) (simp_all add: r failed)
  qed
  show ?thesis unfolding onDeviceModel_def
    by (rule caught_settles [OF assms run]) (simp add: failed)
qed

lemma host_tab_settles:
  assumes "queue_ok scope"
  shows "\<exists>a s'. host_tab ports ask key scope s = (Inr a, s') \<and> ((\<exists>r. a = TabAnswer r) \<or> a = ServiceCancelled \<and> key \<noteq> None)"
proof (cases "hp_tabs ports")
  case (Some perform)
  have "settles (\<lambda>a. \<exists>r. a = TabAnswer r) (perform_tab ports perform ask scope signal)" for signal
    by (auto simp: settles_def perform_tab_def split: prod.split sum.split tab_error.split)
  from run_call_settles [where work = "perform_tab ports perform ask scope", OF this, where key = key and c = the_call_was_cancelled]
  have "\<exists>a. fst (run_call the_call_was_cancelled key (perform_tab ports perform ask scope) t) = Inr a \<and>
      ((\<exists>r. a = TabAnswer r) \<or> a = ServiceCancelled \<and> key \<noteq> None)" for t
    unfolding settles_def by blast
  moreover obtain t where "fst (outside_queue scope (run_call the_call_was_cancelled key (perform_tab ports perform ask scope)) s)
      = fst (run_call the_call_was_cancelled key (perform_tab ports perform ask scope) t)"
    using assms by (cases "sc_outside scope") (auto simp: outside_queue_def queue_ok_def)
  ultimately show ?thesis unfolding host_tab_def Some option.case by (metis prod.collapse)
qed (simp add: host_tab_def)

lemma os_settles:
  assumes "\<And>os op args s. hp_os ports = Some os \<Longrightarrow> \<exists>r. fst (os_answer os op args s) = Inr r"
  shows "\<exists>a s'. osAnswer ports op args key site scope s = (Inr a, s') \<and> ((\<exists>r. a = OsAnswer r) \<or> a = ServiceDeferred)"
proof (cases "hp_os ports")
  case (Some os)
  have place: "\<exists>a s'. os_in_place os op args s = (Inr a, s') \<and> (\<exists>r. a = OsAnswer r)"
    using assms [OF Some, of op args s] by (auto simp: os_in_place_def sbind_def split: prod.splits sum.splits)
  show ?thesis using place unfolding osAnswer_def Some option.case
    by (auto split: option.split prod.split sum.split)
qed (simp add: osAnswer_def)

text \<open>
  C25: Every request of the kernel is answered, by an answer of its own kind: whatever the
  adapters, providers, secrets and devices throw comes back as that kind's failure, a keyed call may
  be answered as cancelled, a follow-on as deferred, and nothing else. (The queue's wrapper hands on
  what its work came to; an \<open>os\<close> port settles.)
\<close>
theorem request_answered_in_kind:
  assumes "queue_ok scope"
    and "\<And>os op args s. hp_os ports = Some os \<Longrightarrow> \<exists>r. fst (os_answer os op args s) = Inr r"
  shows "\<exists>a s'. answerRequest ports request scope s = (Inr a, s') \<and> answer_fits request a"
proof (cases "answer_row_ask ports request s")
  case (Some rs)
  then show ?thesis using row_ask_settles [OF Some] by (auto simp: answerRequest_def)
next
  case row: None
  show ?thesis
  proof (cases "answer_credential_ask ports request s")
    case (Some rs)
    then show ?thesis using credential_ask_settles [OF Some] row by (auto simp: answerRequest_def)
  next
    case None

    have "\<exists>a s'. answer_host_ask ports request scope s = Some (Inr a, s') \<and> answer_fits request a"
    proof (cases request)
      case (CallService call)
      then show ?thesis using callService_settles [OF assms(1), of ports call s] by auto
    next
      case (Substrate op args)
      then show ?thesis
        by (auto simp: substrate_def substrate_answer_def substrate_failure_def split: option.split prod.split sum.split program_outcome.split)
    next
      case (Http req delay key site)
      then show ?thesis using host_http_settles [OF assms(1), of ports "WholeAsk delay" req key site s] by auto
    next
      case (HttpStream req fr key site)
      then show ?thesis using host_http_settles [OF assms(1), of ports "StreamAsk fr" req key site s] by auto
    next
      case (HttpBeacon req key site)
      then show ?thesis using httpBeacon_settles [OF assms(1), of ports req key s] by auto
    next
      case (Prompt asked schema key)
      then show ?thesis using device_settles [OF assms(1), of ports "PromptAsk asked schema" key s] by auto
    next
      case (Embed texts key)
      then show ?thesis using device_settles [OF assms(1), of ports "EmbedAsk texts" key s] by auto
    next
      case (Tab ask key)
      then show ?thesis using host_tab_settles [OF assms(1), of ports ask key s] by auto
    next
      case (Os op args key site)
      then show ?thesis using os_settles [where ports = ports and op = op and args = args and key = key and site = site and scope = scope and s = s, OF assms(2)] by auto
    qed (use row None in \<open>simp_all add: answered_def cancel_call_def host_pageFacts_def Let_def\<close>)

    then show ?thesis using row None by (auto simp: answerRequest_def)
  qed
qed

text \<open>
  A host whose adapter throws and whose provider is cancelled by another client while it runs; its
  world lists the live messages sent.
\<close>

definition throwing_store :: "('s, unit, unit, unit) persistence" where
  "throwing_store = \<lparr>pa_create = \<lambda>_ _ s. (Inl (Raised ''disk full''), s), pa_update = \<lambda>_ _ _ s. (Inl (Raised ''disk full''), s),
     pa_delete = \<lambda>_ _ s. (Inl (Raised ''disk full''), s), pa_getById = \<lambda>_ _ s. (Inl (Raised ''disk full''), s),
     pa_list = \<lambda>_ s. (Inl (Raised ''disk full''), s), pa_bindCollection = None, pa_queryPage = None, pa_queryIds = None,
     pa_queryCapabilities = None, pa_writeCapabilities = None, pa_writeWhere = None, pa_writeBatch = None\<rparr>"

definition plain_ports :: "(string list host, unit, unit, unit, unit, unit) host_ports" where
  "plain_ports = \<lparr>hp_persistence = throwing_store,
     hp_callService = (\<lambda>service _ _ _ s. (Inr (Some [(''done'', JBool True)]), s\<lparr>ho_calls := snd (cancel service (ho_calls s))\<rparr>)),
     hp_programEffect = \<lambda>_. None, hp_servicePorts = \<lambda>_ _ _ _. (), hp_dispatchInput = \<lambda>_ _ _ _ _ s. s,
     hp_deliverLive = \<lambda>l _ _ s. s\<lparr>ho_world := ho_world s @ [ls_event l]\<rparr>, hp_deferCallOutcome = \<lambda>_. None, hp_http = None,
     hp_onDevice = None, hp_tabs = None, hp_os = None, hp_osCompletions = None, hp_now = \<lambda>_. Fin 0, hp_page = \<lambda>_. None,
     hp_systemRandom = \<lambda>_ s. (Inr [], s), hp_isAgentPort = \<lambda>_. False, hp_runAgentPort = \<lambda>_ _ _ s. (Inl Aborted, s),
     hp_statusConnected = \<lambda>_ _. False, hp_spawn = \<lambda>_ s. s\<rparr>"

definition plain_scope :: "'s answer_scope" where
  "plain_scope = \<lparr>sc_orbital = ''Shop'', sc_user = None, sc_originClientId = Some ''tab1'', sc_locale = None, sc_entityId = None,
     sc_outside = None\<rparr>"

definition idle_host :: "string list host" where
  "idle_host = \<lparr>ho_calls = new_registry, ho_world = []\<rparr>"

theorem request_answered_in_kind_witness:
  "\<exists>r s'. answerRequest plain_ports (ReadRow ''Cart'' ''c1'') plain_scope idle_host = (Inr (RowAnswer (Inl r)), s')"
proof -
  have "queue_ok (plain_scope :: string list host answer_scope)" by (simp add: queue_ok_def plain_scope_def)
  then have "\<exists>a s'. answerRequest plain_ports (ReadRow ''Cart'' ''c1'') plain_scope idle_host = (Inr a, s') \<and>
      answer_fits (ReadRow ''Cart'' ''c1'' :: (unit, unit) io_request) a"
    by (rule request_answered_in_kind) (simp add: plain_ports_def)
  then obtain r s' where a: "answerRequest plain_ports (ReadRow ''Cart'' ''c1'') plain_scope idle_host = (Inr (RowAnswer r), s')"
    by auto
  moreover from a have "r = Inl ''disk full''"
    by (simp add: answerRequest_def plain_ports_def throwing_store_def settle_work_def wrapped_def)
  ultimately show ?thesis by blast
qed

section \<open>A cancelled call is answered as cancelled\<close>




section \<open>What a call sends reaches its requester\<close>

fun request_site :: "('q, 'b) io_request \<Rightarrow> call_site option" where
  "request_site (CallService call) = sv_site call"
| "request_site (Http _ _ _ site) = site"
| "request_site (HttpStream _ _ _ site) = site"
| "request_site (Os _ _ _ site) = site"
| "request_site _ = None"

text \<open>A live message of the request: under its site's trait and event, to the requesting tab.\<close>

definition own_live :: "('q, 'b) io_request \<Rightarrow> 's answer_scope \<Rightarrow> live_site \<Rightarrow> string option \<Rightarrow> bool" where
  "own_live req scope l client \<longleftrightarrow> client = sc_originClientId scope \<and>
     (\<exists>site. request_site req = Some site \<and> ls_orbital l = site_orbital (Some site) scope \<and> ls_trait l = cs_trait site \<and>
        er_onMessage (cs_emit site) = Some (ls_event l))"

text \<open>An outcome of the request: a dispatch on its site's trait, from the requesting tab, as its user.\<close>

definition own_outcome :: "('q, 'b) io_request \<Rightarrow> 's answer_scope \<Rightarrow> deferred_call \<Rightarrow> bool" where
  "own_outcome req scope d \<longleftrightarrow> dc_originClientId d = sc_originClientId scope \<and> dc_user d = sc_user scope \<and>
     dc_locale d = sc_locale scope \<and>
     (\<exists>site. request_site req = Some site \<and> dc_orbital d = site_orbital (Some site) scope \<and> dc_traitName d = cs_trait site)"

definition elsewhere :: "('q, 'b) io_request \<Rightarrow> 'x host answer_scope \<Rightarrow> (live_site \<Rightarrow> jobj \<Rightarrow> string option \<Rightarrow> 'x host \<Rightarrow> 'x host) \<Rightarrow>
    (deferred_call \<Rightarrow> 'x host \<Rightarrow> 'x host) \<Rightarrow> ('x host, 'q, 'b, 'w, 'h, 'd) host_ports \<Rightarrow> ('x host, 'q, 'b, 'w, 'h, 'd) host_ports" where
  "elsewhere req scope live outcome ports = ports
     \<lparr>hp_deliverLive := \<lambda>l payload c. if own_live req scope l c then hp_deliverLive ports l payload c else live l payload c,
      hp_deferCallOutcome := \<lambda>s. map_option (\<lambda>sink d. if own_outcome req scope d then sink d else outcome d) (hp_deferCallOutcome ports s)\<rparr>"

lemma elsewhere_frame:
  "hp_persistence (elsewhere req scope live outcome ports) = hp_persistence ports"
  "hp_callService (elsewhere req scope live outcome ports) = hp_callService ports"
  "hp_programEffect (elsewhere req scope live outcome ports) = hp_programEffect ports"
  "hp_servicePorts (elsewhere req scope live outcome ports) = hp_servicePorts ports"
  "hp_dispatchInput (elsewhere req scope live outcome ports) = hp_dispatchInput ports"
  "hp_http (elsewhere req scope live outcome ports) = hp_http ports"
  "hp_onDevice (elsewhere req scope live outcome ports) = hp_onDevice ports"
  "hp_tabs (elsewhere req scope live outcome ports) = hp_tabs ports"
  "hp_os (elsewhere req scope live outcome ports) = hp_os ports"
  "hp_osCompletions (elsewhere req scope live outcome ports) = hp_osCompletions ports"
  "hp_now (elsewhere req scope live outcome ports) = hp_now ports"
  "hp_page (elsewhere req scope live outcome ports) = hp_page ports"
  "hp_systemRandom (elsewhere req scope live outcome ports) = hp_systemRandom ports"
  "hp_isAgentPort (elsewhere req scope live outcome ports) = hp_isAgentPort ports"
  "hp_runAgentPort (elsewhere req scope live outcome ports) = hp_runAgentPort ports"
  "hp_statusConnected (elsewhere req scope live outcome ports) = hp_statusConnected ports"
  "hp_spawn (elsewhere req scope live outcome ports) = hp_spawn ports"
  by (simp_all add: elsewhere_def)

lemma elsewhere_live:
  "live_message (elsewhere req scope live outcome ports) (request_site req) scope = live_message ports (request_site req) scope"
  by (auto simp: fun_eq_iff live_message_def elsewhere_def own_live_def split: option.split)

lemma elsewhere_sink:
  "hp_deferCallOutcome (elsewhere req scope live outcome ports) s
    = map_option (\<lambda>sink d. if own_outcome req scope d then sink d else outcome d) (hp_deferCallOutcome ports s)"
  by (simp add: elsewhere_def)

lemma own_deferred: "request_site req = Some site \<Longrightarrow> own_outcome req scope (deferred_outcome site scope ev p)"
  by (simp add: own_outcome_def deferred_outcome_def)

lemma elsewhere_row_asks: "answer_row_ask (elsewhere req scope live outcome ports) r s = answer_row_ask ports r s"
  by (cases "(ports, r, s)" rule: answer_row_ask.cases) (simp_all add: elsewhere_frame)

lemma elsewhere_credential_asks:
  "answer_credential_ask (elsewhere req scope live outcome ports) r s = answer_credential_ask ports r s"
  by (cases r)
    (simp_all only: answer_credential_ask.simps host_secret_def host_secretSet_def host_secretRotate_def host_random_def
      host_credentialStatus_def host_credentialForget_def host_oauth_def with_secrets_def credentialAdmin_def elsewhere_frame)

lemma elsewhere_callService:
  "callService (elsewhere (CallService call) scope live outcome ports) call scope s = callService ports call scope s"
proof -
  let ?p = "elsewhere (CallService call) scope live outcome ports"
  have live: "live_message ?p (sv_site call) scope = live_message ports (sv_site call) scope"
    using elsewhere_live [of "CallService call"] by simp
  have lent: "lent_host ?p (sv_site call) scope = lent_host ports (sv_site call) scope"
    by (simp add: lent_host_def elsewhere_frame live)
  have provider: "call_provider ?p call scope = call_provider ports call scope"
    by (simp add: fun_eq_iff call_provider_def elsewhere_frame lent)
  have deliver: "deliver_outcome (\<lambda>d. if own_outcome (CallService call) scope d then sink d else outcome d) site key scope res
      = deliver_outcome sink site key scope res" if "sv_site call = Some site" for sink site key res
    using own_deferred [of "CallService call" site] that by (auto simp: deliver_outcome_def split: prod.split option.split)
  show ?thesis
    by (auto simp: callService_def elsewhere_frame elsewhere_sink provider Let_def startDeferredCall_def deliver
        split: option.split prod.split)
qed

lemma elsewhere_tab: "perform_tab (elsewhere req scope live outcome ports) = perform_tab ports"
proof -
  have "tab_deliver (elsewhere req scope live outcome ports) = tab_deliver ports"
    by (intro ext) (simp only: tab_deliver_def elsewhere_frame)
  then show ?thesis by (intro ext) (simp add: perform_tab_def)
qed

lemma elsewhere_http:
  assumes "request_site req = site"
  shows "host_http (elsewhere req scope live outcome ports) ask q key site scope s = host_http ports ask q key site scope s"
proof -
  have live: "live_message (elsewhere req scope live outcome ports) site scope = live_message ports site scope"
    using elsewhere_live [of req] assms by simp
  have "send_ask (elsewhere req scope live outcome ports) hh ask q key site scope = send_ask ports hh ask q key site scope" for hh
    by (cases ask) (simp_all add: fun_eq_iff send_ask_def live)
  then show ?thesis by (simp add: host_http_def elsewhere_frame cong: option.case_cong)
qed

lemma elsewhere_completion:
  "os_completion c (\<lambda>d. if own_outcome (Os op args key (Some st)) scope d then sink d else outcome d) st k scope
      = os_completion c sink st k scope"
  by (auto simp: fun_eq_iff os_completion_def own_outcome_def site_orbital_def split: option.split)

lemma elsewhere_os:
  "osAnswer (elsewhere (Os op args key site) scope live outcome ports) op args key site scope s
    = osAnswer ports op args key site scope s"
  by (auto simp: osAnswer_def elsewhere_frame elsewhere_sink elsewhere_completion split: option.split)

text \<open>
  C27: What a request sends beside its answer reaches its requester only: the live messages of a
  running call go to the requesting tab, under the trait and event of the call's own site, and a
  deferred outcome is dispatched on that trait, for that tab and as the user the request ran
  as. Whatever the host would do with a message or an outcome for anybody else, the answer and
  everything that happens on the way are the same.
\<close>
theorem sends_reach_requester_only:
  "answerRequest (elsewhere req scope live outcome ports) req scope s = answerRequest ports req scope s"
proof -
  have "answer_host_ask (elsewhere req scope live outcome ports) req scope s = answer_host_ask ports req scope s"
    by (cases req)
      (simp_all add: elsewhere_callService elsewhere_http elsewhere_os elsewhere_frame cancel_call_def substrate_def
        httpBeacon_def host_pageFacts_def onDeviceModel_def host_tab_def elsewhere_tab cong: option.case_cong)
  then show ?thesis unfolding answerRequest_def elsewhere_row_asks elsewhere_credential_asks by (simp cong: option.case_cong)
qed

end
