(* ===== verification/EventQueue.thy ===== *)
theory EventQueue
  imports Prelude
begin

text \<open>
  The event queue of the server runtime (\<open>server/OrbitalServerRuntime.ts\<close>:
  \<open>acquireEventQueue\<close>, \<open>enqueueEvent\<close>, \<open>outsideEventQueue\<close>). The code chains promises: every
  acquisition puts a promise of its own, its gate, at the end of the chain and goes on once every
  gate before it is released. Here the gates are numbered in the order they were made, and the
  dispatches move by steps: a hold that is granted, a call made outside the hold, its end, the end
  of the dispatch. The theory shows that one dispatch holds at a time in the order of arrival, that
  the queue refines a plain FIFO queue and that it never wedges while every dispatch waits for the
  calls it made; and what happens when one does not.
\<close>

section \<open>The chain of gates\<close>

record event_queue =
  q_gates :: nat \<comment> \<open>gates made so far; the promise \<open>eventQueue\<close> is fulfilled when all of them are released\<close>
  q_released :: "nat list"

definition new_queue :: event_queue where
  "new_queue = \<lparr>q_gates = 0, q_released = []\<rparr>"

definition acquireEventQueue :: "event_queue \<Rightarrow> nat \<times> event_queue" where
  "acquireEventQueue q = (q_gates q, q\<lparr>q_gates := q_gates q + 1\<rparr>)"

text \<open>\<open>previous.then(...)\<close>: the acquisition that made gate \<open>g\<close> goes on.\<close>

definition granted :: "event_queue \<Rightarrow> nat \<Rightarrow> bool" where
  "granted q g = list_all (\<lambda>m. m \<in> set (q_released q)) [0..<g]"

definition release_gate :: "nat \<Rightarrow> event_queue \<Rightarrow> event_queue" where
  "release_gate g q = q\<lparr>q_released := g # q_released q\<rparr>"

lemma granted_iff: "granted q g = (\<forall>m<g. m \<in> set (q_released q))"
  by (auto simp: granted_def list_all_iff)

section \<open>Dispatches\<close>

record event_queue_hold =
  h_held :: bool
  h_release :: nat \<comment> \<open>the gate its \<open>release\<close> opens\<close>

text \<open>
  What a call of \<open>outsideEventQueue\<close> that released the hold is doing: its work, or waiting behind the
  gate it queued again with.
\<close>

datatype outside_call = Working | Reacquiring nat

text \<open>
  One call of \<open>enqueueEvent\<close>: waiting for its first hold; running with its hold, with the outside call
  that released it (at most one: the others find the hold released and just run) and the number of
  calls that just run; or settled, where an outside call may still be going on.
\<close>

datatype dispatch = Queued nat | Running event_queue_hold "outside_call option" nat | Settled "outside_call option"

record queue_system =
  sy_queue :: event_queue
  sy_dispatches :: "dispatch list"

definition new_system :: queue_system where
  "new_system = \<lparr>sy_queue = new_queue, sy_dispatches = []\<rparr>"

text \<open>
  What may happen. \<open>CallOutside\<close> is a call of \<open>outsideEventQueue\<close> from the dispatch's run, \<open>WorkEnds\<close>
  and \<open>DirectEnds\<close> the end of its work (whether it returns or throws). \<open>RunSettles\<close> is the end of the
  run, once every call it made has ended; \<open>RunFailsEarly\<close> an end that does not wait for them, as
  \<open>Promise.all\<close> does when one of several answers is rejected.
\<close>

datatype queue_action =
    Arrive | Start nat | CallOutside nat | DirectEnds nat | WorkEnds nat | Reacquired nat | RunSettles nat | RunFailsEarly nat

definition set_dispatch :: "nat \<Rightarrow> dispatch \<Rightarrow> queue_system \<Rightarrow> queue_system" where
  "set_dispatch t d s = s\<lparr>sy_dispatches := (sy_dispatches s)[t := d]\<rparr>"

definition dispatch_at :: "queue_system \<Rightarrow> nat \<Rightarrow> dispatch option" where
  "dispatch_at s t = (if t < length (sy_dispatches s) then Some (sy_dispatches s ! t) else None)"

definition on_queue :: "(event_queue \<Rightarrow> event_queue) \<Rightarrow> queue_system \<Rightarrow> queue_system" where
  "on_queue f s = s\<lparr>sy_queue := f (sy_queue s)\<rparr>"

text \<open>\<open>enqueueEvent\<close>: the acquisition, and the start of the run under a fresh hold.\<close>

definition enqueue_event :: "queue_system \<Rightarrow> queue_system" where
  "enqueue_event s =
     (let (g, q) = acquireEventQueue (sy_queue s)
      in s\<lparr>sy_queue := q, sy_dispatches := sy_dispatches s @ [Queued g]\<rparr>)"

definition start_run :: "nat \<Rightarrow> queue_system \<Rightarrow> queue_system option" where
  "start_run t s = (case dispatch_at s t of
       Some (Queued g) \<Rightarrow>
         if granted (sy_queue s) g
         then Some (set_dispatch t (Running \<lparr>h_held = True, h_release = g\<rparr> None 0) s) else None
     | _ \<Rightarrow> None)"

text \<open>The \<open>finally\<close> of \<open>enqueueEvent\<close>: the hold is released if it is held now.\<close>

definition settle_run :: "bool \<Rightarrow> nat \<Rightarrow> queue_system \<Rightarrow> queue_system option" where
  "settle_run early t s = (case dispatch_at s t of
       Some (Running h out n) \<Rightarrow>
         if \<not> early \<and> (out \<noteq> None \<or> n \<noteq> 0) then None
         else Some (set_dispatch t (Settled out) (if h_held h then on_queue (release_gate (h_release h)) s else s))
     | _ \<Rightarrow> None)"

text \<open>\<open>outsideEventQueue\<close>: releasing before the work, queueing again after it, and the new hold.\<close>

definition call_outside :: "nat \<Rightarrow> queue_system \<Rightarrow> queue_system option" where
  "call_outside t s = (case dispatch_at s t of
       Some (Running h out n) \<Rightarrow>
         if \<not> h_held h then Some (set_dispatch t (Running h out (n + 1)) s)
         else Some (set_dispatch t (Running (h\<lparr>h_held := False\<rparr>) (Some Working) n)
             (on_queue (release_gate (h_release h)) s))
     | _ \<Rightarrow> None)"

definition direct_ends :: "nat \<Rightarrow> queue_system \<Rightarrow> queue_system option" where
  "direct_ends t s = (case dispatch_at s t of
       Some (Running h out n) \<Rightarrow> if n = 0 then None else Some (set_dispatch t (Running h out (n - 1)) s)
     | _ \<Rightarrow> None)"

definition work_ends :: "nat \<Rightarrow> queue_system \<Rightarrow> queue_system option" where
  "work_ends t s =
     (let (g, q) = acquireEventQueue (sy_queue s); s1 = s\<lparr>sy_queue := q\<rparr>
      in case dispatch_at s t of
           Some (Running h (Some Working) n) \<Rightarrow> Some (set_dispatch t (Running h (Some (Reacquiring g)) n) s1)
         | Some (Settled (Some Working)) \<Rightarrow> Some (set_dispatch t (Settled (Some (Reacquiring g))) s1)
         | _ \<Rightarrow> None)"

definition reacquired :: "nat \<Rightarrow> queue_system \<Rightarrow> queue_system option" where
  "reacquired t s = (case dispatch_at s t of
       Some (Running h (Some (Reacquiring g)) n) \<Rightarrow>
         if granted (sy_queue s) g
         then Some (set_dispatch t (Running (h\<lparr>h_release := g, h_held := True\<rparr>) None n) s) else None
     | Some (Settled (Some (Reacquiring g))) \<Rightarrow>
         if granted (sy_queue s) g then Some (set_dispatch t (Settled None) s) else None
     | _ \<Rightarrow> None)"

fun queue_step :: "queue_action \<Rightarrow> queue_system \<Rightarrow> queue_system option" where
  "queue_step Arrive s = Some (enqueue_event s)"
| "queue_step (Start t) s = start_run t s"
| "queue_step (CallOutside t) s = call_outside t s"
| "queue_step (DirectEnds t) s = direct_ends t s"
| "queue_step (WorkEnds t) s = work_ends t s"
| "queue_step (Reacquired t) s = reacquired t s"
| "queue_step (RunSettles t) s = settle_run False t s"
| "queue_step (RunFailsEarly t) s = settle_run True t s"

fun run_queue :: "queue_action list \<Rightarrow> queue_system \<Rightarrow> queue_system option" where
  "run_queue [] s = Some s"
| "run_queue (a # as) s = (case queue_step a s of None \<Rightarrow> None | Some s' \<Rightarrow> run_queue as s')"

text \<open>The states reached, by any steps and by those of dispatches that wait for their calls.\<close>

inductive reached :: "bool \<Rightarrow> queue_system \<Rightarrow> bool" for patient where
  initial: "reached patient new_system"
| step: "reached patient s \<Longrightarrow> queue_step a s = Some s' \<Longrightarrow> patient \<longrightarrow> (\<forall>t. a \<noteq> RunFailsEarly t) \<Longrightarrow> reached patient s'"

inductive_cases queue_reachedE: "reached patient s"

section \<open>Gates and their owners\<close>

text \<open>The gate a dispatch will open: the one it holds, or waits behind.\<close>

fun gate_of :: "dispatch \<Rightarrow> nat option" where
  "gate_of (Queued g) = Some g"
| "gate_of (Running h out n) =
     (if h_held h then Some (h_release h) else (case out of Some (Reacquiring g) \<Rightarrow> Some g | _ \<Rightarrow> None))"
| "gate_of (Settled out) = (case out of Some (Reacquiring g) \<Rightarrow> Some g | _ \<Rightarrow> None)"

fun holds :: "dispatch \<Rightarrow> bool" where
  "holds (Running h out n) = h_held h"
| "holds d = False"

fun calls_held :: "dispatch \<Rightarrow> bool" where
  "calls_held (Running h out n) = (h_held h = (out = None))"
| "calls_held d = True"

definition owns :: "queue_system \<Rightarrow> nat \<Rightarrow> nat \<Rightarrow> bool" where
  "owns s t g = (t < length (sy_dispatches s) \<and> gate_of (sy_dispatches s ! t) = Some g)"

text \<open>
  Every owned gate is unreleased and owned once, a dispatch runs without its hold exactly while one of
  its calls is outside, and the gate of one that holds has been granted.
\<close>

definition dispatch_ok :: "event_queue \<Rightarrow> dispatch \<Rightarrow> bool" where
  "dispatch_ok q d = (calls_held d \<and> (holds d \<longrightarrow> (\<exists>g. gate_of d = Some g \<and> granted q g)))"

definition queue_inv :: "queue_system \<Rightarrow> bool" where
  "queue_inv s =
     ((\<forall>t g. owns s t g \<longrightarrow> g < q_gates (sy_queue s) \<and> g \<notin> set (q_released (sy_queue s))) \<and>
      (\<forall>t t' g. owns s t g \<longrightarrow> owns s t' g \<longrightarrow> t = t') \<and>
      (\<forall>g \<in> set (q_released (sy_queue s)). g < q_gates (sy_queue s)) \<and>
      (\<forall>d \<in> set (sy_dispatches s). dispatch_ok (sy_queue s) d))"

named_theorems queue_steps

lemmas [queue_steps] = set_dispatch_def on_queue_def release_gate_def dispatch_at_def acquireEventQueue_def enqueue_event_def
  start_run_def settle_run_def call_outside_def direct_ends_def work_ends_def reacquired_def Let_def

lemma granted_release: "granted q g \<Longrightarrow> granted (release_gate g' q) g"
  by (auto simp: granted_iff release_gate_def)

lemma granted_acquire [simp]: "granted (q\<lparr>q_gates := n\<rparr>) g = granted q g"
  by (simp add: granted_iff)

lemma dispatch_ok_release: "dispatch_ok q d \<Longrightarrow> dispatch_ok (release_gate g q) d"
  by (auto simp: dispatch_ok_def granted_release)

lemma dispatch_ok_acquire [simp]: "dispatch_ok (q\<lparr>q_gates := n\<rparr>) d = dispatch_ok q d"
  by (simp add: dispatch_ok_def)

lemma ball_update: "\<forall>x \<in> set xs. P x \<Longrightarrow> P d \<Longrightarrow> \<forall>x \<in> set (xs[t := d]). P x"
  by (metis insert_iff set_update_subset_insert subsetD)

lemma queue_invD:
  assumes "queue_inv s"
  shows "owns s t g \<Longrightarrow> g < q_gates (sy_queue s)" and "owns s t g \<Longrightarrow> g \<notin> set (q_released (sy_queue s))"
    and "owns s t g \<Longrightarrow> owns s t' g \<Longrightarrow> t = t'" and "dispatch_at s t = Some d \<Longrightarrow> dispatch_ok (sy_queue s) d"
  using assms by (auto simp: queue_inv_def dispatch_at_def split: if_splits)

lemma owns_at: "dispatch_at s t = Some d \<Longrightarrow> owns s t g = (gate_of d = Some g)"
  by (auto simp: owns_def dispatch_at_def split: if_splits)

lemma owns_set_dispatch:
  "dispatch_at s t = Some d0 \<Longrightarrow> owns (set_dispatch t d s) t' g = (if t' = t then gate_of d = Some g else owns s t' g)"
  by (auto simp: owns_def set_dispatch_def dispatch_at_def split: if_splits)

lemma set_dispatch_parts [simp]:
  "sy_queue (set_dispatch t d s) = sy_queue s" "sy_dispatches (set_dispatch t d s) = (sy_dispatches s)[t := d]"
  by (simp_all add: set_dispatch_def)

lemma on_queue_parts [simp]:
  "sy_queue (on_queue f s) = f (sy_queue s)" "sy_dispatches (on_queue f s) = sy_dispatches s"
  by (simp_all add: on_queue_def)

lemma owns_on_queue [simp]: "owns (on_queue f s) = owns s" "dispatch_at (on_queue f s) = dispatch_at s"
    "owns (s\<lparr>sy_queue := q\<rparr>) = owns s"
  by (auto simp: owns_def on_queue_def dispatch_at_def fun_eq_iff)

text \<open>A step changes one dispatch: its gate stays, is opened, or is a new one at the end of the chain.\<close>

lemma keep_gate_inv:
  assumes "queue_inv s" and "dispatch_at s t = Some d0" and "gate_of d = gate_of d0 \<or> gate_of d = None" and "dispatch_ok (sy_queue s) d"
  shows "queue_inv (set_dispatch t d s)"
proof -
  have own: "owns (set_dispatch t d s) t' g \<Longrightarrow> owns s t' g" for t' g
    using assms(2,3) by (auto simp: owns_set_dispatch owns_at split: if_splits)
  have "\<forall>x \<in> set ((sy_dispatches s)[t := d]). dispatch_ok (sy_queue s) x"
    using assms(1,4) by (intro ball_update) (auto simp: queue_inv_def)
  then show ?thesis using assms(1) unfolding queue_inv_def by (auto dest!: own)
qed

lemma open_gate_inv:
  assumes "queue_inv s" and "dispatch_at s t = Some d0" and "gate_of d0 = Some g" and "gate_of d = None" and "calls_held d"
  shows "queue_inv (set_dispatch t d (on_queue (release_gate g) s))"
proof -
  have own: "owns (set_dispatch t d (on_queue (release_gate g) s)) t' g' = (owns s t' g' \<and> t' \<noteq> t)" for t' g'
    using assms(2,4) by (simp add: owns_set_dispatch)
  have free: "owns s t' g' \<Longrightarrow> t' \<noteq> t \<Longrightarrow> g' \<noteq> g" for t' g'
    using queue_invD(3) [OF assms(1)] assms(2,3) owns_at by metis
  have "\<not> holds d" using assms(4,5) by (cases d) auto
  then have "dispatch_ok (release_gate g (sy_queue s)) d" using assms(5) by (simp add: dispatch_ok_def)
  then have "\<forall>x \<in> set ((sy_dispatches s)[t := d]). dispatch_ok (release_gate g (sy_queue s)) x"
    using assms(1) by (intro ball_update) (auto simp: queue_inv_def intro: dispatch_ok_release)
  moreover have "\<forall>t g'. owns s t g' \<longrightarrow> g' < q_gates (sy_queue s) \<and> g' \<notin> set (q_released (sy_queue s))"
      "\<forall>t t' g. owns s t g \<longrightarrow> owns s t' g \<longrightarrow> t = t'"
    using assms(1) by (simp_all add: queue_inv_def)
  moreover have "\<forall>g' \<in> set (q_released (release_gate g (sy_queue s))). g' < q_gates (sy_queue s)"
    using assms(1) queue_invD(1) [OF assms(1), of t g] assms(2,3) by (auto simp: queue_inv_def release_gate_def owns_at)
  ultimately show ?thesis unfolding queue_inv_def own
    by (auto simp: set_dispatch_def on_queue_def release_gate_def dest: free)
qed

text \<open>Queueing again, with \<open>g\<close> the new gate.\<close>

lemma new_gate_inv:
  assumes "queue_inv s" and "dispatch_at s t = Some d0" and "gate_of d0 = None"
    and "gate_of d = Some (q_gates (sy_queue s))" and "\<not> holds d" and "calls_held d"
  shows "queue_inv (set_dispatch t d (s\<lparr>sy_queue := (sy_queue s)\<lparr>q_gates := q_gates (sy_queue s) + 1\<rparr>\<rparr>))" (is "queue_inv ?s'")
proof -
  have own: "owns ?s' t' g = (if t' = t then g = q_gates (sy_queue s) else owns s t' g)" for t' g
    using assms(2,4) by (auto simp: owns_def set_dispatch_def dispatch_at_def split: if_splits)
  have "dispatch_ok (sy_queue s) d" using assms(5,6) by (simp add: dispatch_ok_def)
  then have "\<forall>x \<in> set ((sy_dispatches s)[t := d]). dispatch_ok (sy_queue s) x"
    using assms(1) by (intro ball_update) (auto simp: queue_inv_def)
  then show ?thesis unfolding queue_inv_def own using assms(1)
    by (auto simp: queue_inv_def set_dispatch_def less_Suc_eq dest: less_imp_neq)
qed

lemma enqueue_event_inv: "queue_inv s \<Longrightarrow> queue_inv (enqueue_event s)"
proof -
  assume inv: "queue_inv s"
  have own: "owns (enqueue_event s) t g =
      (if t = length (sy_dispatches s) then g = q_gates (sy_queue s) else owns s t g)" for t g
    by (auto simp: owns_def enqueue_event_def acquireEventQueue_def nth_append split: if_splits)
  show ?thesis unfolding queue_inv_def own using inv
    by (auto simp: queue_inv_def enqueue_event_def acquireEventQueue_def dispatch_ok_def less_Suc_eq dest: less_imp_neq)
qed

theorem queue_step_inv:
  assumes "queue_inv s" and "queue_step a s = Some s'"
  shows "queue_inv s'"
proof -
  note ok = queue_invD(4) [OF assms(1)]
  note splits = option.splits dispatch.splits outside_call.splits if_splits
  show ?thesis
  proof (cases a)
    case Arrive
    then show ?thesis using assms enqueue_event_inv by auto
  next
    case (Start t)
    then show ?thesis using assms by (auto simp: start_run_def dispatch_ok_def split: splits intro!: keep_gate_inv)
  next
    case (CallOutside t)
    then show ?thesis using assms ok [of t]
      by (auto simp: call_outside_def dispatch_ok_def split: splits intro: keep_gate_inv open_gate_inv)
  next
    case (DirectEnds t)
    then show ?thesis using assms ok [of t] by (auto simp: direct_ends_def dispatch_ok_def split: splits intro!: keep_gate_inv)
  next
    case (WorkEnds t)
    then show ?thesis using assms ok [of t]
      by (auto simp: work_ends_def dispatch_ok_def acquireEventQueue_def Let_def split: splits intro!: new_gate_inv [simplified])
  next
    case (Reacquired t)
    then show ?thesis using assms ok [of t]
      by (auto simp: reacquired_def dispatch_ok_def split: splits intro!: keep_gate_inv)
  next
    case (RunSettles t)
    then show ?thesis using assms ok [of t]
      by (auto simp: settle_run_def dispatch_ok_def split: splits intro: keep_gate_inv open_gate_inv)
  next
    case (RunFailsEarly t)
    then show ?thesis using assms ok [of t]
      by (auto simp: settle_run_def dispatch_ok_def split: splits intro: keep_gate_inv open_gate_inv)
  qed
qed

theorem reached_inv: "reached patient s \<Longrightarrow> queue_inv s"
proof (induction rule: reached.induct)
  case initial
  then show ?case by (auto simp: queue_inv_def new_system_def new_queue_def owns_def)
next
  case (step s a s')
  then show ?case using queue_step_inv by blast
qed

section \<open>One holder, in the order of arrival\<close>

definition holding :: "queue_system \<Rightarrow> nat \<Rightarrow> bool" where
  "holding s t = (case dispatch_at s t of Some d \<Rightarrow> holds d | None \<Rightarrow> False)"

lemma holding_gate:
  assumes "queue_inv s" and "holding s t"
  obtains g where "owns s t g" and "granted (sy_queue s) g"
  using assms queue_invD(4) [OF assms(1), of t] owns_at
  by (fastforce simp: holding_def dispatch_ok_def split: option.splits)

lemma granted_unreleased_unique:
  assumes "granted q g" and "granted q g'" and "g \<notin> set (q_released q)" and "g' \<notin> set (q_released q)"
  shows "g = g'"
  using assms by (metis granted_iff linorder_neqE_nat)

text \<open>
  C4: Transitions never overlap: whatever the dispatches do, fail or leave behind, at most one of them
  holds the event queue at a time, and it is the one whose place in the queue comes before every other
  dispatch's.
\<close>
theorem one_dispatch_holds:
  assumes "reached patient s" and "holding s t" and "owns s t g"
  shows "(\<forall>t'. holding s t' \<longrightarrow> t' = t) \<and> (\<forall>t' g'. owns s t' g' \<longrightarrow> g \<le> g')"
proof -
  have inv: "queue_inv s" by (rule reached_inv [OF assms(1)])
  obtain g0 where g0: "owns s t g0" "granted (sy_queue s) g0" using holding_gate [OF inv assms(2)] .
  then have g: "granted (sy_queue s) g" using assms(3) by (simp add: owns_def)
  have "t' = t" if held: "holding s t'" for t'
  proof -
    obtain g' where g': "owns s t' g'" "granted (sy_queue s) g'" using holding_gate [OF inv held] .
    then have "g' = g" using granted_unreleased_unique g queue_invD(2) [OF inv] assms(3) by blast
    then show ?thesis using queue_invD(3) [OF inv] g' assms(3) by blast
  qed
  moreover have "g \<le> g'" if "owns s t' g'" for t' g'
    using g queue_invD(2) [OF inv that] by (meson granted_iff not_le)
  ultimately show ?thesis by blast
qed

section \<open>The queue as a line\<close>

text \<open>The abstract queue: a line of places; the one in front is served, and leaves when it is done.\<close>

datatype line_op = Join nat | Serve nat | Leave nat | Stay

fun line_step :: "line_op \<Rightarrow> nat list \<Rightarrow> nat list option" where
  "line_step (Join g) l = Some (l @ [g])"
| "line_step (Serve g) l = (if l \<noteq> [] \<and> hd l = g then Some l else None)"
| "line_step (Leave g) l = (if l \<noteq> [] \<and> hd l = g then Some (tl l) else None)"
| "line_step Stay l = Some l"

definition line :: "event_queue \<Rightarrow> nat list" where
  "line q = filter (\<lambda>g. g \<notin> set (q_released q)) [0..<q_gates q]"

definition place :: "queue_system \<Rightarrow> nat \<Rightarrow> nat" where
  "place s t = the (Option.bind (dispatch_at s t) gate_of)"

fun op_of :: "queue_action \<Rightarrow> queue_system \<Rightarrow> line_op" where
  "op_of Arrive s = Join (q_gates (sy_queue s))"
| "op_of (WorkEnds t) s = Join (q_gates (sy_queue s))"
| "op_of (Start t) s = Serve (place s t)"
| "op_of (Reacquired t) s = Serve (place s t)"
| "op_of (DirectEnds t) s = Stay"
| "op_of (CallOutside t) s = (if holding s t then Leave (place s t) else Stay)"
| "op_of (RunSettles t) s = (if holding s t then Leave (place s t) else Stay)"
| "op_of (RunFailsEarly t) s = (if holding s t then Leave (place s t) else Stay)"

lemma sorted_filter_upt: "sorted (filter P [0..<n])"
  by (simp add: sorted_wrt_filter)

lemma line_head:
  assumes "granted q g" and "g \<notin> set (q_released q)" and "g < q_gates q"
  shows "line q = g # line (release_gate g q)"
proof -
  obtain k where "q_gates q = g + Suc k" using assms(3) less_imp_Suc_add by fastforce
  then have upt: "[0..<q_gates q] = [0..<g] @ g # [Suc g..<q_gates q]"
    using upt_add_eq_append [of 0 g "Suc k"] by (simp add: upt_conv_Cons)
  have before: "filter (\<lambda>m. m \<notin> set (q_released q)) [0..<g] = []"
    using assms(1) by (auto simp: granted_iff filter_empty_conv)
  have before': "filter (\<lambda>m. m \<noteq> g \<and> m \<notin> set (q_released q)) [0..<g] = []"
    using assms(1) by (auto simp: granted_iff filter_empty_conv)
  have after: "filter (\<lambda>m. m \<noteq> g \<and> m \<notin> set (q_released q)) [Suc g..<q_gates q] = filter (\<lambda>m. m \<notin> set (q_released q)) [Suc g..<q_gates q]"
    by (rule filter_cong) auto
  show ?thesis using assms(2) by (simp add: line_def release_gate_def upt before before' after)
qed

lemma line_acquire:
  assumes "\<forall>g \<in> set (q_released q). g < q_gates q"
  shows "line (q\<lparr>q_gates := Suc (q_gates q)\<rparr>) = line q @ [q_gates q]"
  using assms by (auto simp: line_def)

lemma line_serve:
  assumes "queue_inv s" and "owns s t g" and "granted (sy_queue s) g"
  shows "line (sy_queue s) = g # line (release_gate g (sy_queue s))"
  using line_head assms(3) queue_invD(1,2) [OF assms(1,2)] by blast


text \<open>
  C6: The chain of promises is a FIFO queue: every step of every dispatch is a step of a plain line,
  where an acquisition joins at the back, a hold is granted to the front only, and the front leaves
  when its hold is released; every other step leaves the line as it is.
\<close>
theorem queue_refines_line:
  assumes "reached patient s" and "queue_step a s = Some s'"
  shows "line_step (op_of a s) (line (sy_queue s)) = Some (line (sy_queue s'))"
proof -
  have inv: "queue_inv s" by (rule reached_inv [OF assms(1)])
  have known: "\<forall>g \<in> set (q_released (sy_queue s)). g < q_gates (sy_queue s)" using inv by (simp add: queue_inv_def)
  note ok = queue_invD(4) [OF inv]
  note serve = line_serve [OF inv]
  note splits = option.splits dispatch.splits outside_call.splits if_splits
  show ?thesis
  proof (cases a)
    case Arrive
    then show ?thesis using assms(2) line_acquire [OF known] by (auto simp: enqueue_event_def acquireEventQueue_def)
  next
    case (Start t)
    then show ?thesis using assms(2) serve [of t]
      by (auto simp: start_run_def place_def owns_at split: splits)
  next
    case (CallOutside t)
    then show ?thesis using assms(2) ok [of t] serve [of t]
      by (auto simp: call_outside_def place_def holding_def owns_at dispatch_ok_def on_queue_def split: splits)
  next
    case (DirectEnds t)
    then show ?thesis using assms(2) by (auto simp: direct_ends_def split: splits)
  next
    case (WorkEnds t)
    then show ?thesis using assms(2) line_acquire [OF known]
      by (auto simp: work_ends_def acquireEventQueue_def Let_def split: splits)
  next
    case (Reacquired t)
    then show ?thesis using assms(2) ok [of t] serve [of t]
      by (auto simp: reacquired_def place_def owns_at dispatch_ok_def split: splits)
  next
    case (RunSettles t)
    then show ?thesis using assms(2) ok [of t] serve [of t]
      by (auto simp: settle_run_def place_def holding_def owns_at dispatch_ok_def on_queue_def split: splits)
  next
    case (RunFailsEarly t)
    then show ?thesis using assms(2) ok [of t] serve [of t]
      by (auto simp: settle_run_def place_def holding_def owns_at dispatch_ok_def on_queue_def split: splits)
  qed
qed

section \<open>The queue keeps moving\<close>

text \<open>What a dispatch still has to do by itself, and the actions that do it: all but arrivals and new calls.\<close>

fun left_to_do :: "dispatch \<Rightarrow> nat" where
  "left_to_do (Queued g) = 2"
| "left_to_do (Running h out n) = 1 + n + (case out of None \<Rightarrow> 0 | Some Working \<Rightarrow> 2 | Some (Reacquiring g) \<Rightarrow> 1)"
| "left_to_do (Settled out) = 0"

definition pending :: "queue_system \<Rightarrow> nat" where
  "pending s = sum_list (map left_to_do (sy_dispatches s))"

fun progress :: "queue_action \<Rightarrow> bool" where
  "progress Arrive = False"
| "progress (CallOutside t) = False"
| "progress (RunFailsEarly t) = False"
| "progress a = True"

fun settled :: "dispatch \<Rightarrow> bool" where
  "settled (Settled out) = True"
| "settled d = False"

text \<open>While every dispatch waits for its calls, no gate is left without an owner.\<close>

definition patient_inv :: "queue_system \<Rightarrow> bool" where
  "patient_inv s =
     ((\<forall>g < q_gates (sy_queue s). g \<in> set (q_released (sy_queue s)) \<or> (\<exists>t. owns s t g)) \<and>
      (\<forall>out. Settled out \<in> set (sy_dispatches s) \<longrightarrow> out = None))"

lemma settled_update:
  assumes "Settled out \<in> set (xs[t := d])" and "\<forall>out. Settled out \<in> set xs \<longrightarrow> out = None" and "\<forall>out. d = Settled out \<longrightarrow> out = None"
  shows "out = None"
  using assms set_update_subset_insert [of xs t d] by blast

lemma patient_change:
  assumes "patient_inv s" and "dispatch_at s t = Some d0" and "\<forall>out. d = Settled out \<longrightarrow> out = None"
    and "\<And>g. g < q_gates q \<Longrightarrow> g \<in> set (q_released q) \<or> gate_of d = Some g \<or> (\<exists>t'. t' \<noteq> t \<and> owns s t' g)"
  shows "patient_inv (set_dispatch t d (s\<lparr>sy_queue := q\<rparr>))"
proof -
  have own: "owns (set_dispatch t d (s\<lparr>sy_queue := q\<rparr>)) t' g = (if t' = t then gate_of d = Some g else owns s t' g)" for t' g
    using assms(2) by (auto simp: owns_def set_dispatch_def dispatch_at_def split: if_splits)
  show ?thesis unfolding patient_inv_def own using assms(1,3,4) settled_update
    by (auto simp: patient_inv_def) blast+
qed

lemma patient_elsewhere:
  assumes "patient_inv s" and "g < q_gates (sy_queue s)" and "\<not> owns s t g"
  shows "g \<in> set (q_released (sy_queue s)) \<or> (\<exists>t'. t' \<noteq> t \<and> owns s t' g)"
  using assms by (auto simp: patient_inv_def)

lemma dispatch_at_mem: "dispatch_at s t = Some d \<Longrightarrow> d \<in> set (sy_dispatches s)"
  by (auto simp: dispatch_at_def split: if_splits)

lemma patient_waits: "patient_inv s \<Longrightarrow> dispatch_at s t = Some (Settled out) \<Longrightarrow> out = None"
  using dispatch_at_mem by (auto simp: patient_inv_def)

lemma patient_step:
  assumes "queue_inv s" and "patient_inv s" and "queue_step a s = Some s'" and "\<forall>t. a \<noteq> RunFailsEarly t"
  shows "patient_inv s'"
proof -
  note ok = queue_invD(4) [OF assms(1)]
  note splits = option.splits dispatch.splits outside_call.splits if_splits
  have keep: "dispatch_at s t = Some d0 \<Longrightarrow> gate_of d = gate_of d0 \<Longrightarrow> \<forall>out. d = Settled out \<longrightarrow> out = None \<Longrightarrow>
      patient_inv (set_dispatch t d s)" for t d d0
    using patient_change [OF assms(2), of t d0 d "sy_queue s"] patient_elsewhere [OF assms(2), of _ t] by (auto simp: owns_at)
  have opened: "dispatch_at s t = Some d0 \<Longrightarrow> gate_of d0 = Some g \<Longrightarrow> \<forall>out. d = Settled out \<longrightarrow> out = None \<Longrightarrow>
      patient_inv (set_dispatch t d (on_queue (release_gate g) s))" for t d d0 g
    using patient_change [OF assms(2), of t d0 d "release_gate g (sy_queue s)"] patient_elsewhere [OF assms(2), of _ t]
    by (auto simp: owns_at on_queue_def release_gate_def)
  have joined: "dispatch_at s t = Some d0 \<Longrightarrow> gate_of d0 = None \<Longrightarrow> gate_of d = Some (q_gates (sy_queue s)) \<Longrightarrow> \<forall>out. d \<noteq> Settled out \<Longrightarrow>
      patient_inv (set_dispatch t d (s\<lparr>sy_queue := (sy_queue s)\<lparr>q_gates := Suc (q_gates (sy_queue s))\<rparr>\<rparr>))" for t d d0
    using patient_change [OF assms(2), of t d0 d "(sy_queue s)\<lparr>q_gates := Suc (q_gates (sy_queue s))\<rparr>"] patient_elsewhere [OF assms(2), of _ t]
    by (auto simp: owns_at less_Suc_eq)
  note waits = patient_waits [OF assms(2)]
  show ?thesis
  proof (cases a)
    case Arrive
    have own: "owns (enqueue_event s) t g =
        (if t = length (sy_dispatches s) then g = q_gates (sy_queue s) else owns s t g)" for t g
      by (auto simp: owns_def enqueue_event_def acquireEventQueue_def nth_append split: if_splits)
    have "patient_inv (enqueue_event s)" unfolding patient_inv_def own using assms(2)
      by (auto simp: patient_inv_def enqueue_event_def acquireEventQueue_def less_Suc_eq owns_def) (metis less_irrefl)
    then show ?thesis using Arrive assms(3) by simp
  next
    case (Start t)
    then show ?thesis using assms(3) by (auto simp: start_run_def split: splits intro!: keep)
  next
    case (CallOutside t)
    then show ?thesis using assms(3) ok [of t]
      by (auto simp: call_outside_def dispatch_ok_def split: splits intro: keep opened)
  next
    case (DirectEnds t)
    then show ?thesis using assms(3) by (auto simp: direct_ends_def split: splits intro!: keep)
  next
    case (WorkEnds t)
    then show ?thesis using assms(3) ok [of t] waits [of t]
      by (auto simp: work_ends_def dispatch_ok_def acquireEventQueue_def Let_def split: splits intro!: joined)
  next
    case (Reacquired t)
    then show ?thesis using assms(3) ok [of t] waits [of t]
      by (auto simp: reacquired_def dispatch_ok_def split: splits intro!: keep)
  next
    case (RunSettles t)
    then show ?thesis using assms(3) ok [of t]
      by (auto simp: settle_run_def dispatch_ok_def split: splits intro: keep opened)
  next
    case (RunFailsEarly t)
    then show ?thesis using assms(4) by blast
  qed
qed

lemma reached_patient: "reached True s \<Longrightarrow> patient_inv s"
proof (induction rule: reached.induct)
  case initial
  then show ?case by (auto simp: patient_inv_def new_system_def new_queue_def)
next
  case (step s a s')
  then show ?case using patient_step reached_inv by blast
qed


lemma pending_set_dispatch:
  assumes "dispatch_at s t = Some d0"
  shows "pending (set_dispatch t d s) + left_to_do d0 = pending s + left_to_do d"
proof -
  have t: "t < length (sy_dispatches s)" and d0: "d0 = sy_dispatches s ! t"
    using assms by (auto simp: dispatch_at_def split: if_splits)
  have "left_to_do d0 \<le> pending s" unfolding pending_def d0 using t elem_le_sum_list [of t "map left_to_do (sy_dispatches s)"] by simp
  then show ?thesis using t d0 by (simp add: pending_def map_update sum_list_update)
qed

lemma pending_queue [simp]: "pending (s\<lparr>sy_queue := q\<rparr>) = pending s" "pending (on_queue f s) = pending s"
  by (simp_all add: pending_def on_queue_def)

lemma dispatch_at_queue [simp]: "dispatch_at (s\<lparr>sy_queue := q\<rparr>) = dispatch_at s"
  by (auto simp: dispatch_at_def fun_eq_iff)

lemma move_less:
  assumes "dispatch_at s t = Some d0" and "left_to_do d < left_to_do d0"
  shows "pending (set_dispatch t d s) < pending s" "pending (set_dispatch t d (s\<lparr>sy_queue := q\<rparr>)) < pending s"
    "pending (set_dispatch t d (on_queue f s)) < pending s"
  using pending_set_dispatch [of s t d0 d] pending_set_dispatch [of "s\<lparr>sy_queue := q\<rparr>" t d0 d]
    pending_set_dispatch [of "on_queue f s" t d0 d] assms by auto

lemma progress_decreases:
  assumes "queue_step a s = Some s'" and "progress a" and "patient_inv s"
  shows "pending s' < pending s"
proof -
  note splits = option.splits dispatch.splits outside_call.splits if_splits
  note waits = patient_waits [OF assms(3)]
  show ?thesis
  proof (cases a)
    case (Start t)
    then show ?thesis using assms(1) by (auto simp: start_run_def split: splits intro!: move_less)
  next
    case (DirectEnds t)
    then show ?thesis using assms(1) by (auto simp: direct_ends_def split: splits intro!: move_less)
  next
    case (WorkEnds t)
    then show ?thesis using assms(1) waits [of t]
      by (auto simp: work_ends_def acquireEventQueue_def Let_def split: splits intro!: move_less)
  next
    case (Reacquired t)
    then show ?thesis using assms(1) waits [of t] by (auto simp: reacquired_def split: splits intro!: move_less)
  next
    case (RunSettles t)
    then show ?thesis using assms(1) by (auto simp: settle_run_def split: splits intro!: move_less)
  qed (use assms(2) in auto)
qed

lemma first_in_line:
  assumes "queue_inv s" and "patient_inv s" and "owns s t g"
  obtains t0 g0 where "owns s t0 g0" and "granted (sy_queue s) g0"
proof -
  define g0 where "g0 = (LEAST g. g \<notin> set (q_released (sy_queue s)))"
  have free: "g \<notin> set (q_released (sy_queue s))" "g < q_gates (sy_queue s)" using queue_invD(1,2) [OF assms(1,3)] by auto
  have g0: "g0 \<notin> set (q_released (sy_queue s))" unfolding g0_def by (rule LeastI) (rule free(1))
  have "g0 \<le> g" unfolding g0_def by (rule Least_le) (rule free(1))
  then have "g0 < q_gates (sy_queue s)" using free(2) by simp
  then obtain t0 where "owns s t0 g0" using assms(2) g0 unfolding patient_inv_def by blast
  moreover have "granted (sy_queue s) g0" using not_less_Least unfolding granted_iff g0_def by blast
  ultimately show thesis using that by blast
qed

lemma progress_possible:
  assumes "queue_inv s" and "patient_inv s" and "\<not> (\<forall>d \<in> set (sy_dispatches s). settled d)"
  shows "\<exists>a s'. progress a \<and> queue_step a s = Some s'"
proof -
  have own_move: "\<exists>a s'. progress a \<and> queue_step a s = Some s'"
    if d: "dispatch_at s t = Some d" and free: "\<And>g. owns s t g \<Longrightarrow> granted (sy_queue s) g" and "\<not> settled d" for t d
  proof (cases d)
    case (Queued g)
    then have "queue_step (Start t) s \<noteq> None" using d free by (simp add: start_run_def owns_at)
    then show ?thesis by (meson not_Some_eq progress.simps)
  next
    case (Running h out n)
    have held: "h_held h = (out = None)" using queue_invD(4) [OF assms(1) d] Running by (simp add: dispatch_ok_def)
    consider "n \<noteq> 0" | "n = 0" "out = None" | "out = Some Working" | g where "out = Some (Reacquiring g)"
      by (metis option.exhaust outside_call.exhaust)
    then have "queue_step (DirectEnds t) s \<noteq> None \<or> queue_step (RunSettles t) s \<noteq> None \<or>
        queue_step (WorkEnds t) s \<noteq> None \<or> queue_step (Reacquired t) s \<noteq> None"
      using d Running held free
      by cases (simp_all add: direct_ends_def settle_run_def work_ends_def reacquired_def acquireEventQueue_def owns_at)
    then show ?thesis by (meson not_Some_eq progress.simps)
  next
    case (Settled out)
    then show ?thesis using that(3) by simp
  qed
  obtain t d where d: "dispatch_at s t = Some d" "\<not> settled d"
    using assms(3) by (metis dispatch_at_def in_set_conv_nth)
  show ?thesis
  proof (cases "\<exists>g. owns s t g")
    case False
    then show ?thesis using own_move [OF d(1) _ d(2)] by blast
  next
    case True
    then obtain t0 g0 where first: "owns s t0 g0" "granted (sy_queue s) g0" using first_in_line [OF assms(1,2)] by blast
    then obtain d0 where d0: "dispatch_at s t0 = Some d0" "gate_of d0 = Some g0" by (auto simp: owns_def dispatch_at_def)
    then have "\<not> settled d0" using patient_waits [OF assms(2), of t0] by (cases d0) fastforce+
    moreover have "\<And>g. owns s t0 g \<Longrightarrow> granted (sy_queue s) g" using first by (simp add: owns_def)
    ultimately show ?thesis using own_move d0(1) by blast
  qed
qed

text \<open>
  C5: The queue never wedges: as long as every dispatch waits for the calls it made, then from any state
  reached and under any order of steps, with no new dispatches and calls, the dispatches make at most
  as many steps as they have pending, and while one of them is not settled some dispatch can go on.
\<close>
theorem queue_never_wedges:
  assumes "reached True s" and "run_queue as s = Some s'" and "\<forall>a \<in> set as. progress a"
  shows "length as + pending s' \<le> pending s \<and>
    ((\<forall>d \<in> set (sy_dispatches s'). settled d) \<or> (\<exists>a s''. progress a \<and> queue_step a s' = Some s''))"
  using assms
proof (induction as arbitrary: s)
  case Nil
  then show ?case using progress_possible [OF reached_inv reached_patient] by auto
next
  case (Cons a as)
  then obtain s1 where s1: "queue_step a s = Some s1" "run_queue as s1 = Some s'" by (auto split: option.splits)
  have "progress a" using Cons.prems(3) by simp
  then have "reached True s1" using reached.step [OF Cons.prems(1) s1(1)] by (cases a) auto
  moreover have "pending s1 < pending s"
    using progress_decreases [OF s1(1) \<open>progress a\<close> reached_patient [OF Cons.prems(1)]] .
  ultimately show ?case using Cons.IH s1(2) Cons.prems(3) by fastforce
qed

text \<open>One dispatch running and one behind it.\<close>

definition two_dispatches :: queue_system where
  "two_dispatches = \<lparr>sy_queue = \<lparr>q_gates = 2, q_released = []\<rparr>,
     sy_dispatches = [Running \<lparr>h_held = True, h_release = 0\<rparr> None 0, Queued 1]\<rparr>"

lemma reached_run:
  "run_queue as s = Some s' \<Longrightarrow> reached patient s \<Longrightarrow> patient \<longrightarrow> (\<forall>t. RunFailsEarly t \<notin> set as) \<Longrightarrow> reached patient s'"
proof (induction as arbitrary: s)
  case (Cons a as)
  then obtain s1 where s1: "queue_step a s = Some s1" "run_queue as s1 = Some s'" by (auto split: option.splits)
  then show ?case using Cons.IH [OF s1(2)] reached.step [OF Cons.prems(2) s1(1)] Cons.prems(3) by auto
qed simp

lemma reached_two: "reached patient two_dispatches"
proof (rule reached_run)
  show "run_queue [Arrive, Start 0, Arrive] new_system = Some two_dispatches"
    by code_simp
qed (auto intro: reached.initial)

theorem one_dispatch_holds_witness:
  "holding two_dispatches 0 \<and> {t. holding two_dispatches t} = {0}"
proof -
  have "holding two_dispatches 0" "owns two_dispatches 0 0"
    by (simp_all add: holding_def two_dispatches_def dispatch_at_def owns_def)
  then show ?thesis using one_dispatch_holds [OF reached_two] by blast
qed

theorem queue_refines_line_witness:
  "line_step (Leave 0) (line (sy_queue two_dispatches)) = Some [1]"
proof -
  have "queue_step (RunSettles 0) two_dispatches =
      Some \<lparr>sy_queue = \<lparr>q_gates = 2, q_released = [0]\<rparr>, sy_dispatches = [Settled None, Queued 1]\<rparr>" (is "_ = Some ?s'")
    by code_simp
  moreover have "op_of (RunSettles 0) two_dispatches = Leave 0" "line (sy_queue ?s') = [1]" by code_simp+
  ultimately show ?thesis using queue_refines_line [OF reached_two] by fastforce
qed

lemma code_run_two:
  "run_queue [RunSettles 0, Start 1, RunSettles 1] two_dispatches =
     Some \<lparr>sy_queue = \<lparr>q_gates = 2, q_released = [1, 0]\<rparr>, sy_dispatches = [Settled None, Settled None]\<rparr>"
  by code_simp

theorem queue_never_wedges_witness:
  "3 + pending (the (run_queue [RunSettles 0, Start 1, RunSettles 1] two_dispatches)) \<le> pending two_dispatches"
proof -
  have "\<exists>s'. run_queue [RunSettles 0, Start 1, RunSettles 1] two_dispatches = Some s'"
    using code_run_two by blast
  then show ?thesis using queue_never_wedges [OF reached_two] by fastforce
qed

section \<open>A run that ends before its calls\<close>

text \<open>
  The second hold of a run that has ended meanwhile is never released: from then on the gate
  stands in front of every later dispatch.
\<close>

definition wedged :: "nat \<Rightarrow> queue_system \<Rightarrow> bool" where
  "wedged g s = (g \<notin> set (q_released (sy_queue s)) \<and> g < q_gates (sy_queue s) \<and> (\<forall>t. \<not> owns s t g))"

lemma step_gates:
  assumes "queue_inv s" and "queue_step a s = Some s'"
  shows "(owns s' t g \<longrightarrow> owns s t g \<or> g = q_gates (sy_queue s)) \<and> q_gates (sy_queue s) \<le> q_gates (sy_queue s') \<and>
    (g \<in> set (q_released (sy_queue s')) \<longrightarrow> g \<in> set (q_released (sy_queue s)) \<or> (\<exists>t. owns s t g))"
proof -
  note splits = option.splits dispatch.splits outside_call.splits if_splits
  note own = owns_set_dispatch owns_at
  have opens: "dispatch_at s t = Some (Running h out n) \<Longrightarrow> h_held h \<Longrightarrow> \<exists>t. owns s t (h_release h)" for t h out n
    by (rule exI [of _ t]) (simp add: owns_at)
  show ?thesis
  proof (cases a)
    case Arrive
    then show ?thesis using assms(2)
      by (auto simp: owns_def enqueue_event_def acquireEventQueue_def nth_append split: if_splits)
  next
    case (Start i)
    then show ?thesis using assms(2) by (auto simp: start_run_def own split: splits)
  next
    case (CallOutside i)
    then show ?thesis using assms(2)
      by (auto simp: call_outside_def own release_gate_def split: splits) (use opens in blast)
  next
    case (DirectEnds i)
    then show ?thesis using assms(2) by (auto simp: direct_ends_def own split: splits)
  next
    case (WorkEnds i)
    then show ?thesis using assms(2) by (auto simp: work_ends_def acquireEventQueue_def Let_def own split: splits)
  next
    case (Reacquired i)
    then show ?thesis using assms(2) queue_invD(4) [OF assms(1), of i] by (auto simp: reacquired_def own dispatch_ok_def split: splits)
  next
    case (RunSettles i)
    then show ?thesis using assms(2)
      by (auto simp: settle_run_def own release_gate_def split: splits) (use opens in blast)+
  next
    case (RunFailsEarly i)
    then show ?thesis using assms(2) queue_invD(4) [OF assms(1), of i]
      by (auto simp: settle_run_def own dispatch_ok_def release_gate_def split: splits) (use opens in blast)+
  qed
qed

lemma wedged_step:
  assumes "wedged g s" and "queue_inv s" and "queue_step a s = Some s'"
  shows "wedged g s'"
  using assms(1) step_gates [OF assms(2,3)] unfolding wedged_def by (metis less_irrefl order_less_le_trans)

lemma wedged_run: "run_queue as s = Some s' \<Longrightarrow> wedged g s \<Longrightarrow> queue_inv s \<Longrightarrow> wedged g s'"
proof (induction as arbitrary: s)
  case (Cons a as)
  then obtain s1 where s1: "queue_step a s = Some s1" "run_queue as s1 = Some s'" by (auto split: option.splits)
  then show ?case using Cons.IH wedged_step queue_step_inv Cons.prems by blast
qed simp

text \<open>The dispatches from the \<open>n\<close>-th on wait behind gate \<open>g\<close>.\<close>

definition stuck_from :: "nat \<Rightarrow> nat \<Rightarrow> queue_system \<Rightarrow> bool" where
  "stuck_from n g s = (n \<le> length (sy_dispatches s) \<and>
     (\<forall>t d. n \<le> t \<longrightarrow> dispatch_at s t = Some d \<longrightarrow> (\<exists>g'. d = Queued g' \<and> g < g')))"

lemma dispatch_at_set:
  "dispatch_at s t = Some d0 \<Longrightarrow> dispatch_at (set_dispatch t d s) t' = (if t' = t then Some d else dispatch_at s t')"
  by (auto simp: dispatch_at_def split: if_splits)

lemma stuck_step:
  assumes "stuck_from n g s" and "wedged g s" and "queue_step a s = Some s'"
  shows "stuck_from n g s'"
proof -
  note splits = option.splits dispatch.splits outside_call.splits if_splits
  have stays: "stuck_from n g (set_dispatch t d s1)"
    if "dispatch_at s1 t = Some d0" "stuck_from n g s1" "t < n" for t d d0 s1
    using that dispatch_at_set [OF that(1)] by (auto simp: stuck_from_def)
  have before: "t < n" if at_t: "dispatch_at s t = Some d" and go: "\<And>g'. d = Queued g' \<Longrightarrow> granted (sy_queue s) g'" for t d
  proof (rule ccontr)
    assume "\<not> t < n"
    then have "n \<le> t" by simp
    then obtain g' where "d = Queued g'" "g < g'" using assms(1) at_t unfolding stuck_from_def by blast
    then show False using go assms(2) by (auto simp: granted_iff wedged_def)
  qed
  have queue: "stuck_from n g (s\<lparr>sy_queue := q\<rparr>)" "stuck_from n g (on_queue f s)" for q f
    using assms(1) by (simp_all add: stuck_from_def)
  show ?thesis
  proof (cases a)
    case Arrive
    have "dispatch_at (enqueue_event s) t =
        (if t = length (sy_dispatches s) then Some (Queued (q_gates (sy_queue s))) else dispatch_at s t)" for t
      by (auto simp: dispatch_at_def enqueue_event_def acquireEventQueue_def nth_append)
    then show ?thesis using Arrive assms
      by (auto simp: stuck_from_def wedged_def enqueue_event_def acquireEventQueue_def)
  qed (use assms(1,3) before in \<open>auto simp: start_run_def call_outside_def direct_ends_def work_ends_def reacquired_def
      settle_run_def acquireEventQueue_def Let_def split: splits intro!: stays queue\<close>)
qed

lemma stuck_run:
  "run_queue as s = Some s' \<Longrightarrow> stuck_from n g s \<Longrightarrow> wedged g s \<Longrightarrow> queue_inv s \<Longrightarrow> stuck_from n g s'"
proof (induction as arbitrary: s)
  case (Cons a as)
  then obtain s1 where s1: "queue_step a s = Some s1" "run_queue as s1 = Some s'" by (auto split: option.splits)
  then show ?case using Cons.IH wedged_step stuck_step queue_step_inv Cons.prems by blast
qed simp

text \<open>
  C38: A run that ends before the call it has outside blocks the runtime: once that call has ended
  and queued again, the hold it is granted is never released, and no dispatch that arrives after it
  ever starts.
\<close>
theorem early_end_wedges:
  assumes "reached patient s" and "dispatch_at s t0 = Some (Settled (Some (Reacquiring g)))"
    and "queue_step (Reacquired t0) s = Some s1" and "run_queue as s1 = Some s2"
    and "length (sy_dispatches s1) \<le> t" and "dispatch_at s2 t = Some d"
  shows "\<exists>g'. d = Queued g'"
proof -
  have inv: "queue_inv s" by (rule reached_inv [OF assms(1)])
  have s1: "s1 = set_dispatch t0 (Settled None) s" using assms(2,3) by (auto simp: reacquired_def split: if_splits)
  have own: "owns s t0 g" using assms(2) by (simp add: owns_at)
  have "t = t0" if "owns s t g" for t by (rule queue_invD(3) [OF inv that own])
  then have "wedged g s1" using queue_invD(1,2) [OF inv own]
    by (auto simp: wedged_def s1 owns_set_dispatch [OF assms(2)])
  moreover have "stuck_from (length (sy_dispatches s1)) g s1" by (auto simp: stuck_from_def dispatch_at_def)
  ultimately have "stuck_from (length (sy_dispatches s1)) g s2"
    using stuck_run [OF assms(4)] queue_step_inv [OF inv assms(3)] by blast
  then show ?thesis using assms(5,6) by (auto simp: stuck_from_def)
qed

text \<open>A call outside whose run failed beside it, and a dispatch that came after.\<close>

definition failed_beside :: queue_system where
  "failed_beside = \<lparr>sy_queue = \<lparr>q_gates = 2, q_released = [0]\<rparr>, sy_dispatches = [Settled (Some (Reacquiring 1))]\<rparr>"

theorem early_end_wedges_witness:
  "\<exists>s1 s2. queue_step (Reacquired 0) failed_beside = Some s1 \<and> run_queue [Arrive, Arrive] s1 = Some s2 \<and>
     (\<exists>g. dispatch_at s2 2 = Some (Queued g))"
proof -
  have "run_queue [Arrive, Start 0, CallOutside 0, RunFailsEarly 0, WorkEnds 0] new_system = Some failed_beside" by code_simp
  then have at: "reached False failed_beside" by (rule reached_run) (auto intro: reached.initial)
  have d: "dispatch_at failed_beside 0 = Some (Settled (Some (Reacquiring 1)))" by code_simp
  have s1: "queue_step (Reacquired 0) failed_beside =
      Some \<lparr>sy_queue = \<lparr>q_gates = 2, q_released = [0]\<rparr>, sy_dispatches = [Settled None]\<rparr>" (is "_ = Some ?s1") by code_simp
  have s2: "run_queue [Arrive, Arrive] ?s1 =
      Some \<lparr>sy_queue = \<lparr>q_gates = 4, q_released = [0]\<rparr>, sy_dispatches = [Settled None, Queued 2, Queued 3]\<rparr>" (is "_ = Some ?s2") by code_simp
  have "dispatch_at ?s2 2 \<noteq> None" by code_simp
  then obtain d where d2: "dispatch_at ?s2 2 = Some d" by blast
  then have "\<exists>g. d = Queued g" using early_end_wedges [OF at d s1 s2 _ d2] by simp
  then show ?thesis using s1 s2 d2 by blast
qed

end
