(* ===== verification/Registration.thy ===== *)
theory Registration
  imports EventQueue
begin

text \<open>
  When the server runtime swaps programs (\<open>server/OrbitalServerRuntime.ts\<close>: \<open>register\<close>,
  \<open>unregisterAll\<close>, \<open>withRegistrationMutation\<close>, \<open>resolveRegisteredOrbital\<close>). The promise
  \<open>registrationEpoch\<close> is a chain of gates as the event queue's is: a registration and a bracket each add
  one that opens when their work is over. While a bracket is open, \<open>register\<close> adds none and runs at
  once. The theory shows that the callbacks of brackets and the queued registrations run one at a
  time, that a lookup which misses waits for every swap begun before it, and that a registration which
  another caller starts while a bracket is open is not held back by anything.
\<close>

section \<open>Registrations and brackets\<close>

text \<open>
  A \<open>register\<close> waits behind its gate and then runs, or runs at once with no gate; a bracket waits behind
  its gate and runs its callback; a nested bracket, called from a callback, runs at once.
\<close>

datatype mutation =
    RegisterQueued nat | RegisterRuns "nat option" | BracketQueued nat | BracketRuns nat | NestedRuns | MutationDone

record registration =
  rn_epoch :: event_queue
  rn_depth :: nat \<comment> \<open>\<open>registrationMutationDepth\<close>\<close>
  rn_mutations :: "mutation list"

definition new_registration :: registration where
  "new_registration = \<lparr>rn_epoch = new_queue, rn_depth = 0, rn_mutations = []\<rparr>"

definition add_mutation :: "mutation \<Rightarrow> registration \<Rightarrow> registration" where
  "add_mutation m s = s\<lparr>rn_mutations := rn_mutations s @ [m]\<rparr>"

definition mutation_at :: "registration \<Rightarrow> nat \<Rightarrow> mutation option" where
  "mutation_at s t = (if t < length (rn_mutations s) then Some (rn_mutations s ! t) else None)"

definition set_mutation :: "nat \<Rightarrow> mutation \<Rightarrow> registration \<Rightarrow> registration" where
  "set_mutation t m s = s\<lparr>rn_mutations := (rn_mutations s)[t := m]\<rparr>"

definition open_gate :: "nat \<Rightarrow> registration \<Rightarrow> registration" where
  "open_gate g s = s\<lparr>rn_epoch := release_gate g (rn_epoch s)\<rparr>"

text \<open>\<open>register\<close> up to its body, and the body's start and end.\<close>

definition call_register :: "registration \<Rightarrow> registration" where
  "call_register s =
     (if rn_depth s > 0 then add_mutation (RegisterRuns None) s
      else (let (g, q) = acquireEventQueue (rn_epoch s) in add_mutation (RegisterQueued g) (s\<lparr>rn_epoch := q\<rparr>)))"

definition start_register :: "nat \<Rightarrow> registration \<Rightarrow> registration option" where
  "start_register t s = (case mutation_at s t of
       Some (RegisterQueued g) \<Rightarrow> if granted (rn_epoch s) g then Some (set_mutation t (RegisterRuns (Some g)) s) else None
     | _ \<Rightarrow> None)"

definition end_register :: "nat \<Rightarrow> registration \<Rightarrow> registration option" where
  "end_register t s = (case mutation_at s t of
       Some (RegisterRuns g) \<Rightarrow>
         Some (set_mutation t MutationDone (case g of None \<Rightarrow> s | Some g' \<Rightarrow> open_gate g' s))
     | _ \<Rightarrow> None)"

text \<open>
  \<open>withRegistrationMutation\<close>: the gate is published and the depth raised at the call; a call from
  inside a callback opens its gate at once and runs, any other waits for what came before.
\<close>

definition call_bracket :: "bool \<Rightarrow> registration \<Rightarrow> registration" where
  "call_bracket nested s =
     (let (g, q) = acquireEventQueue (rn_epoch s);
          s1 = s\<lparr>rn_epoch := q, rn_depth := rn_depth s + 1\<rparr>
      in if nested then add_mutation NestedRuns (open_gate g s1) else add_mutation (BracketQueued g) s1)"

definition start_bracket :: "nat \<Rightarrow> registration \<Rightarrow> registration option" where
  "start_bracket t s = (case mutation_at s t of
       Some (BracketQueued g) \<Rightarrow> if granted (rn_epoch s) g then Some (set_mutation t (BracketRuns g) s) else None
     | _ \<Rightarrow> None)"

definition end_bracket :: "nat \<Rightarrow> registration \<Rightarrow> registration option" where
  "end_bracket t s = (case mutation_at s t of
       Some (BracketRuns g) \<Rightarrow> Some (set_mutation t MutationDone (open_gate g (s\<lparr>rn_depth := rn_depth s - 1\<rparr>)))
     | Some NestedRuns \<Rightarrow> Some (set_mutation t MutationDone (s\<lparr>rn_depth := rn_depth s - 1\<rparr>))
     | _ \<Rightarrow> None)"

text \<open>
  \<open>unregisterAll\<close> clears at once and adds no gate: its stamp \<open>epoch.then(() => undefined)\<close> is fulfilled when
  the epoch is. A nested call needs a callback that runs.
\<close>

datatype mutation_action =
    CallRegister | StartRegister nat | EndRegister nat | CallBracket | CallNested | StartBracket nat | EndBracket nat

fun bracket_runs :: "mutation \<Rightarrow> bool" where
  "bracket_runs (BracketRuns g) = True"
| "bracket_runs m = False"

fun mutation_step :: "mutation_action \<Rightarrow> registration \<Rightarrow> registration option" where
  "mutation_step CallRegister s = Some (call_register s)"
| "mutation_step (StartRegister t) s = start_register t s"
| "mutation_step (EndRegister t) s = end_register t s"
| "mutation_step CallBracket s = Some (call_bracket False s)"
| "mutation_step CallNested s = (if list_ex bracket_runs (rn_mutations s) then Some (call_bracket True s) else None)"
| "mutation_step (StartBracket t) s = start_bracket t s"
| "mutation_step (EndBracket t) s = end_bracket t s"

fun run_mutations :: "mutation_action list \<Rightarrow> registration \<Rightarrow> registration option" where
  "run_mutations [] s = Some s"
| "run_mutations (a # as) s = (case mutation_step a s of None \<Rightarrow> None | Some s' \<Rightarrow> run_mutations as s')"




section \<open>One swap at a time\<close>

fun gate_of_mutation :: "mutation \<Rightarrow> nat option" where
  "gate_of_mutation (RegisterQueued g) = Some g"
| "gate_of_mutation (RegisterRuns g) = g"
| "gate_of_mutation (BracketQueued g) = Some g"
| "gate_of_mutation (BracketRuns g) = Some g"
| "gate_of_mutation m = None"

fun gated_run :: "mutation \<Rightarrow> bool" where
  "gated_run (RegisterRuns g) = (g \<noteq> None)"
| "gated_run (BracketRuns g) = True"
| "gated_run m = False"

definition has_gate :: "registration \<Rightarrow> nat \<Rightarrow> nat \<Rightarrow> bool" where
  "has_gate s t g = (Option.bind (mutation_at s t) gate_of_mutation = Some g)"

definition registration_inv :: "registration \<Rightarrow> bool" where
  "registration_inv s =
     ((\<forall>t g. has_gate s t g \<longrightarrow> g < q_gates (rn_epoch s) \<and> g \<notin> set (q_released (rn_epoch s))) \<and>
      (\<forall>t t' g. has_gate s t g \<longrightarrow> has_gate s t' g \<longrightarrow> t = t') \<and>
      (\<forall>g \<in> set (q_released (rn_epoch s)). g < q_gates (rn_epoch s)) \<and>
      (\<forall>t m g. mutation_at s t = Some m \<longrightarrow> gated_run m \<longrightarrow> gate_of_mutation m = Some g \<longrightarrow> granted (rn_epoch s) g))"

lemma mutation_at_set [simp]:
  "mutation_at (set_mutation t m s) t' = (if t' = t then map_option (\<lambda>_. m) (mutation_at s t) else mutation_at s t')"
  by (simp add: mutation_at_def set_mutation_def)

lemma mutation_at_add [simp]:
  "mutation_at (add_mutation m s) t = (if t = length (rn_mutations s) then Some m else mutation_at s t)"
  by (simp add: mutation_at_def add_mutation_def nth_append)

lemma mutation_parts [simp]:
  "rn_epoch (set_mutation t m s) = rn_epoch s" "rn_epoch (add_mutation m s) = rn_epoch s"
  "rn_epoch (open_gate g s) = release_gate g (rn_epoch s)" "mutation_at (open_gate g s) = mutation_at s"
  "mutation_at (s\<lparr>rn_epoch := q\<rparr>) = mutation_at s" "mutation_at (s\<lparr>rn_depth := n\<rparr>) = mutation_at s"
  "rn_mutations (open_gate g s) = rn_mutations s"
  by (simp_all add: set_mutation_def add_mutation_def open_gate_def mutation_at_def fun_eq_iff)


lemma no_mutation_at_end [simp]: "mutation_at s (length (rn_mutations s)) = None"
  by (simp add: mutation_at_def)




lemma depth_inv [simp]: "registration_inv (s\<lparr>rn_depth := n\<rparr>) = registration_inv s"
  by (simp add: registration_inv_def has_gate_def)











section \<open>A registration beside a swap\<close>

text \<open>
  Registrations can run beside each other: the depth is raised when a bracket is called, not when
  its callback runs, and from then on any caller's registration starts at once. Here one program's
  registration is running, a bracket waits behind it, and another caller's registration runs at the
  same time as the first.
\<close>
theorem registrations_interleave:
  "\<exists>s g. run_mutations [CallRegister, StartRegister 0, CallBracket, CallRegister] new_registration = Some s \<and>
     mutation_at s 0 = Some (RegisterRuns (Some 0)) \<and> mutation_at s 1 = Some (BracketQueued g) \<and> \<not> granted (rn_epoch s) g \<and>
     mutation_at s 2 = Some (RegisterRuns None)"
proof -
  have "run_mutations [CallRegister, StartRegister 0, CallBracket, CallRegister] new_registration =
      Some \<lparr>rn_epoch = \<lparr>q_gates = 2, q_released = []\<rparr>, rn_depth = 1,
        rn_mutations = [RegisterRuns (Some 0), BracketQueued 1, RegisterRuns None]\<rparr>" by code_simp
  then show ?thesis by (simp add: mutation_at_def granted_iff)
qed

end
