(* ===== verification/ServerRegistry.thy ===== *)
theory ServerRegistry
  imports Json JsText
begin

text \<open>
  How the server runtime takes up a program (\<open>server/OrbitalServerRuntime.ts\<close>): whether a program still
  needs its imports resolved, its message catalogs and the files it is registered from
  (\<open>registerFromFile\<close>), the seeding of a mock store at registration and at a reset, and the viewer the
  store's demo rows belong to.
\<close>

section \<open>References still to resolve\<close>

text \<open>
  A trait of an orbital: its name, or an object, with the reference it carries, whether it holds the
  resolved trait (\<open>_resolved\<close>), and whether it has a state machine of its own.
\<close>

datatype trait_entry = TraitNamed string | TraitObject "string option" bool bool

record schema_orbital =
  so_name :: string
  so_traits :: "trait_entry list"

fun unresolved_entry :: "trait_entry \<Rightarrow> bool" where
  "unresolved_entry (TraitObject (Some ref) resolved machine) = (CHR ''.'' \<in> set ref \<and> \<not> resolved)"
| "unresolved_entry t = False"

definition needsResolving :: "schema_orbital list \<Rightarrow> bool" where
  "needsResolving orbitals = list_ex (\<lambda>ob. list_ex unresolved_entry (so_traits ob)) orbitals"

text \<open>\<open>openKernel\<close> refuses the first trait that is still a reference after inlining.\<close>

fun bare_reference :: "trait_entry \<Rightarrow> string option" where
  "bare_reference (TraitObject (Some ref) resolved False) = Some ref"
| "bare_reference t = None"

definition still_reference :: "schema_orbital list \<Rightarrow> (string \<times> string) option" where
  "still_reference orbitals =
     (case concat (map (\<lambda>ob. map (Pair (so_name ob)) (List.map_filter bare_reference (so_traits ob))) orbitals) of
        [] \<Rightarrow> None | (ob, ref) # _ \<Rightarrow> Some (ref, ob))"

section \<open>Catalogs and files\<close>

type_synonym catalog = "(string \<times> string) list"
type_synonym catalogs = "(string \<times> catalog) list"

text \<open>\<open>messages[locale] = {...messages[locale], ...catalog}\<close>.\<close>

definition merge_catalog :: "string \<times> catalog \<Rightarrow> catalogs \<Rightarrow> catalogs" where
  "merge_catalog lc m = AList.update (fst lc) (spread (case map_of m (fst lc) of None \<Rightarrow> [] | Some c \<Rightarrow> c) (snd lc)) m"

definition merge_catalogs :: "catalogs \<Rightarrow> catalogs \<Rightarrow> catalogs" where
  "merge_catalogs new m = fold merge_catalog new m"

definition strip_orb :: "string \<Rightarrow> string" where
  "strip_orb path = (if length path \<ge> 4 \<and> drop (length path - 4) path = ''.orb'' then take (length path - 4) path else path)"

definition catalog_path :: "string \<Rightarrow> string \<Rightarrow> string" where
  "catalog_path orbPath locale = strip_orb orbPath @ ''.'' @ locale @ ''.json''"

text \<open>
  The file system and \<open>JSON.parse\<close> as the code uses them: a text or the message of the error.
\<close>

record 's file_parts =
  fp_read :: "string \<Rightarrow> string + string"
  fp_catalog :: "string \<Rightarrow> string + catalog"
  fp_schema :: "string \<Rightarrow> string + 's"
  fp_locales :: "'s \<Rightarrow> string list"
  fp_lazyPages :: "'s \<Rightarrow> (string \<times> string \<times> string) list" \<comment> \<open>path, \<open>orbRef\<close> and orbital of each lazy page\<close>
  fp_orbitals :: "'s \<Rightarrow> string list"
  fp_beside :: "string \<Rightarrow> string \<Rightarrow> string" \<comment> \<open>\<open>join(dirname(path), ref)\<close>\<close>

definition quote :: "string \<Rightarrow> string" where
  "quote t = CHR 0x22 # t @ [CHR 0x22]"

definition catalog_unreadable :: "string \<Rightarrow> string \<Rightarrow> string \<Rightarrow> string" where
  "catalog_unreadable orbPath locale m = ''registerFromFile: '' @ orbPath @ '' declares locale '' @ quote locale @
     '' but its catalog '' @ catalog_path orbPath locale @ '' could not be read: '' @ m"

definition readSidecarCatalogs :: "'s file_parts \<Rightarrow> string \<Rightarrow> string list \<Rightarrow> string + catalogs" where
  "readSidecarCatalogs fp orbPath locales =
     mapM (\<lambda>locale. case fp_read fp (catalog_path orbPath locale) of
         Inl m \<Rightarrow> Inl (catalog_unreadable orbPath locale m)
       | Inr raw \<Rightarrow> rbind (fp_catalog fp raw) (\<lambda>c. Inr (locale, c))) locales"

definition lazy_page :: "'s file_parts \<Rightarrow> string \<Rightarrow> string list \<Rightarrow> string \<times> string \<times> string \<Rightarrow> string + 's \<times> catalogs" where
  "lazy_page fp path locales page =
     (case page of (pagePath, orbRef, orbital) \<Rightarrow>
       let lazyPath = fp_beside fp path orbRef in
       (case fp_read fp lazyPath of
          Inl m \<Rightarrow> Inl (''registerFromFile: '' @ path @ '' declares lazy page '' @ pagePath @ '' but its behavior '' @ orbRef @
              '' could not be read: '' @ m)
        | Inr raw \<Rightarrow>
            rbind (fp_schema fp raw) (\<lambda>lazySchema.
              if orbital \<notin> set (fp_orbitals fp lazySchema)
              then Inl (''registerFromFile: lazy page '' @ pagePath @ '' expects orbital '' @ quote orbital @ '' in '' @ orbRef @
                '', found: '' @ join_with '', '' (fp_orbitals fp lazySchema))
              else rbind (readSidecarCatalogs fp lazyPath locales) (\<lambda>cs. Inr (lazySchema, cs)))))"

text \<open>What \<open>registerFromFile\<close> hands to \<open>register\<close>: the schema, its catalogs and the lazy schemas.\<close>

definition registerFromFile :: "'s file_parts \<Rightarrow> string \<Rightarrow> string + 's \<times> catalogs \<times> 's list" where
  "registerFromFile fp path =
     rbind (fp_read fp path) (\<lambda>raw.
     case fp_schema fp raw of
       Inl m \<Rightarrow> Inl (''registerFromFile: '' @ path @ '' is not valid JSON: '' @ m)
     | Inr schema \<Rightarrow>
         rbind (readSidecarCatalogs fp path (fp_locales fp schema)) (\<lambda>messages.
         rbind (mapM (lazy_page fp path (fp_locales fp schema)) (fp_lazyPages fp schema)) (\<lambda>lazy.
           Inr (schema, fold (\<lambda>page m. merge_catalogs (snd page) m) lazy messages, map fst lazy))))"

section \<open>Seeding the store\<close>

record 'i seed_entity =
  se_name :: "string option"
  se_fields :: "string option list option" \<comment> \<open>the names of its fields, where they are texts\<close>
  se_instances :: "'i list option"
  se_local :: bool
  se_seedMock :: bool
  se_runtime :: bool \<comment> \<open>\<open>persistence === 'runtime'\<close>\<close>
  se_collection :: "string option"

text \<open>An auxiliary entity is inline, or a name or a call that is skipped.\<close>

datatype 'i aux_entity = AuxReference | AuxInline "'i seed_entity"

record 'i seed_orbital =
  sb_entity :: "'i seed_entity"
  sb_auxiliary :: "'i aux_entity list option"

text \<open>What is asked of the store: a mock entity with its rows, one row of the program, a browser seed, a collection's name.\<close>

datatype 'i store_call =
    RegisterEntity "string" "string list" | CreateRow string 'i | SeedBrowser "'i seed_entity list" | BindCollection string string | ClearAll

definition truthy :: "string option \<Rightarrow> string option" where
  "truthy t = (case t of Some (c # cs) \<Rightarrow> Some (c # cs) | _ \<Rightarrow> None)"

definition field_names :: "string option list \<Rightarrow> string list" where
  "field_names fs = List.map_filter truthy fs"

definition register_entity :: "'i seed_entity \<Rightarrow> 'i store_call list" where
  "register_entity e =
     (case (truthy (se_name e), se_fields e) of
        (Some n, Some fs) \<Rightarrow> [RegisterEntity n (field_names fs)] | _ \<Rightarrow> [])"

definition bindDeclaredCollections :: "'i seed_entity list \<Rightarrow> 'i store_call list" where
  "bindDeclaredCollections es =
     concat (map (\<lambda>e. case (truthy (se_name e), truthy (se_collection e)) of
         (Some n, Some c) \<Rightarrow> if \<not> se_local e \<and> \<not> se_runtime e then [BindCollection n c] else []
       | _ \<Rightarrow> []) es)"

fun inline_aux :: "'i aux_entity \<Rightarrow> 'i seed_entity list" where
  "inline_aux AuxReference = []"
| "inline_aux (AuxInline e) = [e]"

definition inline_auxiliary :: "'i seed_orbital \<Rightarrow> 'i seed_entity list" where
  "inline_auxiliary ob = (case sb_auxiliary ob of None \<Rightarrow> [] | Some refs \<Rightarrow> concat (map inline_aux refs))"

text \<open>The rows of an orbital's entity; \<open>mock\<close> says that the mode is mock and the store a mock store.\<close>

definition seed_primary :: "bool \<Rightarrow> 'i seed_entity \<Rightarrow> 'i store_call list" where
  "seed_primary mock e =
     (if se_local e \<and> \<not> mock then [SeedBrowser [e]]
      else (case (truthy (se_name e), se_instances e) of
          (Some n, Some rows) \<Rightarrow> map (CreateRow n) rows
        | _ \<Rightarrow> if mock \<and> (\<not> se_local e \<or> se_seedMock e) then register_entity e else []))"

definition seed_auxiliary :: "bool \<Rightarrow> 'i seed_orbital \<Rightarrow> 'i store_call list" where
  "seed_auxiliary mock ob =
     (if sb_auxiliary ob = None then []
      else if \<not> mock then [SeedBrowser (filter se_local (inline_auxiliary ob))]
      else concat (map (\<lambda>e. if se_local e \<and> \<not> se_seedMock e then [] else register_entity e) (inline_auxiliary ob)))"

definition registerOrbital :: "bool \<Rightarrow> 'i seed_orbital \<Rightarrow> 'i store_call list" where
  "registerOrbital mock ob =
     bindDeclaredCollections [sb_entity ob] @ seed_primary mock (sb_entity ob) @
     bindDeclaredCollections (inline_auxiliary ob) @ seed_auxiliary mock ob"

text \<open>The identity entity is seeded first, unless it names its own rows.\<close>

definition seedIdentityEntity :: "bool \<Rightarrow> 'i seed_entity option \<Rightarrow> 'i store_call list" where
  "seedIdentityEntity mock identity =
     (case identity of
        None \<Rightarrow> []
      | Some e \<Rightarrow> if mock \<and> \<not> (\<exists>rows. se_instances e = Some rows \<and> rows \<noteq> []) then register_entity e else [])"

definition seed_program :: "bool \<Rightarrow> 'i seed_entity option \<Rightarrow> 'i seed_orbital list \<Rightarrow> 'i store_call list" where
  "seed_program mock identity orbitals = seedIdentityEntity mock identity @ concat (map (registerOrbital mock) orbitals)"

text \<open>\<open>resetMockPersistence\<close> of a mock store; \<open>identity\<close> is the registered program's, if there is one.\<close>

definition reset_orbital :: "'i seed_orbital \<Rightarrow> 'i store_call list" where
  "reset_orbital ob = register_entity (sb_entity ob) @ concat (map register_entity (inline_auxiliary ob))"

definition resetMockPersistence :: "bool \<Rightarrow> 'i seed_entity option \<Rightarrow> 'i seed_orbital list \<Rightarrow> 'i store_call list" where
  "resetMockPersistence mock identity orbitals =
     ClearAll # seedIdentityEntity mock identity @ concat (map reset_orbital orbitals)"

section \<open>What a reset seeds\<close>

definition row_calls :: "'i store_call list \<Rightarrow> 'i store_call list" where
  "row_calls cs = filter (\<lambda>c. case c of RegisterEntity _ _ \<Rightarrow> True | CreateRow _ _ \<Rightarrow> True | _ \<Rightarrow> False) cs"

text \<open>An entity whose rows are the store's to make up: no rows of its own, and served by the store.\<close>

definition made_up :: "'i seed_entity \<Rightarrow> bool" where
  "made_up e = ((\<not> se_local e \<or> se_seedMock e) \<and> se_instances e = None)"

lemma row_calls_append [simp]: "row_calls (as @ bs) = row_calls as @ row_calls bs" "row_calls [] = []"
  by (simp_all add: row_calls_def)

lemma row_calls_bind [simp]: "row_calls (bindDeclaredCollections es) = []"
  by (induction es) (auto simp: bindDeclaredCollections_def row_calls_def split: option.splits)

lemma row_calls_register [simp]: "row_calls (register_entity e) = register_entity e"
  by (simp add: register_entity_def row_calls_def split: option.splits)

lemma row_calls_registers: "row_calls (concat (map register_entity es)) = concat (map register_entity es)"
  by (induction es) auto

lemma reset_orbital_same:
  assumes "made_up (sb_entity ob)" and "\<forall>e \<in> set (inline_auxiliary ob). made_up e"
  shows "row_calls (registerOrbital True ob) = reset_orbital ob"
proof -
  have "concat (map (\<lambda>e. if se_local e \<and> \<not> se_seedMock e then [] else register_entity e) es) = concat (map register_entity es)"
    if "\<forall>e \<in> set es. made_up e" for es :: "'a seed_entity list"
    using that by (induction es) (auto simp: made_up_def)
  then have "seed_auxiliary True ob = concat (map register_entity (inline_auxiliary ob))"
    using assms(2) by (simp add: seed_auxiliary_def inline_auxiliary_def split: option.splits)
  moreover have "seed_primary True (sb_entity ob) = register_entity (sb_entity ob)"
    using assms(1) by (auto simp: seed_primary_def made_up_def split: option.splits)
  ultimately show ?thesis by (simp add: registerOrbital_def reset_orbital_def row_calls_registers)
qed

lemma row_calls_identity [simp]: "row_calls (seedIdentityEntity mock identity) = seedIdentityEntity mock identity"
  by (simp add: seedIdentityEntity_def split: option.splits)

text \<open>
  Where the store makes up every row, a reset of the mock store seeds what registration seeded:
  the same entities with the same fields, the identity entity first, in the same order, so that the
  seeded stream gives the same rows.
\<close>
theorem reset_seeds_as_registration:
  assumes "\<forall>ob \<in> set orbitals. made_up (sb_entity ob) \<and> (\<forall>e \<in> set (inline_auxiliary ob). made_up e)"
  shows "resetMockPersistence True identity orbitals = ClearAll # row_calls (seed_program True identity orbitals)"
proof -
  have "row_calls (concat (map (registerOrbital True) orbitals)) = concat (map reset_orbital orbitals)"
    using assms by (induction orbitals) (auto simp: reset_orbital_same)
  then show ?thesis by (simp add: resetMockPersistence_def seed_program_def)
qed



text \<open>A cart entity with made-up rows, and one with a row of its own.\<close>

definition cart_entity :: "string list option \<Rightarrow> string seed_entity" where
  "cart_entity rows = \<lparr>se_name = Some ''Cart'', se_fields = Some [Some ''title''], se_instances = rows, se_local = False,
     se_seedMock = False, se_runtime = False, se_collection = None\<rparr>"

theorem reset_seeds_as_registration_witness:
  "resetMockPersistence True None [\<lparr>sb_entity = cart_entity None, sb_auxiliary = None\<rparr>] =
     ClearAll # row_calls (seed_program True None [\<lparr>sb_entity = cart_entity None, sb_auxiliary = None\<rparr>])"
  by (rule reset_seeds_as_registration) (simp add: made_up_def cart_entity_def inline_auxiliary_def)


section \<open>Whose rows the demo rows are\<close>

text \<open>
  The viewer the runtime presents the app as, whether the host named it, whether a program is
  resolved, a restamp still to do, and the user the mock store stamps its rows with.
\<close>

record viewer_state =
  vs_user :: "string option option" \<comment> \<open>the default user, by its id; a user may have none\<close>
  vs_named :: bool
  vs_resolved :: bool
  vs_pending :: bool
  vs_stamp :: "string option"

definition user_id :: "string option option \<Rightarrow> string option" where
  "user_id u = Option.bind u id"

definition restampOwnerGated :: "string \<Rightarrow> viewer_state \<Rightarrow> viewer_state" where
  "restampOwnerGated i s = (if \<not> vs_resolved s then s\<lparr>vs_pending := True\<rparr> else s\<lparr>vs_stamp := Some i\<rparr>)"

definition setDefaultUser :: "string option option \<Rightarrow> viewer_state \<Rightarrow> viewer_state" where
  "setDefaultUser u s =
     (let s1 = s\<lparr>vs_user := u, vs_named := True\<rparr>
      in case user_id u of
           Some i \<Rightarrow> if Some i \<noteq> user_id (vs_user s) then restampOwnerGated i s1 else s1
         | None \<Rightarrow> s1)"

definition flushPendingOwnerRestamp :: "viewer_state \<Rightarrow> viewer_state" where
  "flushPendingOwnerRestamp s =
     (if vs_pending s
      then (let s1 = s\<lparr>vs_pending := False\<rparr>
            in case user_id (vs_user s1) of Some i \<Rightarrow> restampOwnerGated i s1 | None \<Rightarrow> s1)
      else s)"

text \<open>\<open>prepareMockSeeding\<close>: a viewer nobody named is the program's first persona, once its roster is seeded.\<close>

definition prepareMockSeeding :: "string \<Rightarrow> viewer_state \<Rightarrow> viewer_state" where
  "prepareMockSeeding persona s = (if vs_named s then s else s\<lparr>vs_user := Some (Some persona), vs_stamp := Some persona\<rparr>)"

text \<open>A registration: the seeding is prepared, the schema resolved, a deferred restamp made.\<close>

definition register_viewer :: "string \<Rightarrow> viewer_state \<Rightarrow> viewer_state" where
  "register_viewer persona s = flushPendingOwnerRestamp ((prepareMockSeeding persona s)\<lparr>vs_resolved := True\<rparr>)"

text \<open>The constructor: the user given, else \<open>DEFAULT_VIEWER\<close>, whose id the store is made with.\<close>

definition new_viewer :: "string option option \<Rightarrow> string option option \<Rightarrow> viewer_state" where
  "new_viewer default_viewer given =
     (let u = (case given of None \<Rightarrow> default_viewer | Some x \<Rightarrow> Some x)
      in \<lparr>vs_user = u, vs_named = (given \<noteq> None), vs_resolved = False, vs_pending = False, vs_stamp = user_id u\<rparr>)"

datatype viewer_op = SetUser "string option option" | RegisterProgram string

fun run_viewer :: "viewer_op \<Rightarrow> viewer_state \<Rightarrow> viewer_state" where
  "run_viewer (SetUser u) s = setDefaultUser u s"
| "run_viewer (RegisterProgram persona) s = register_viewer persona s"

text \<open>
  The demo rows belong to the viewer: after any switches of the default user and registrations, in
  any order, the mock store stamps its rows with the id of the default user, if that has one, except
  between a switch and the first registration, which then makes up for it. A registration leaves
  nothing deferred.
\<close>
theorem stamps_follow_viewer:
  assumes "s = fold run_viewer ops (new_viewer default_viewer given)" and "user_id (vs_user s) = Some i"
  shows "vs_stamp s = Some i \<or> vs_pending s \<and> \<not> vs_resolved s \<and> (\<forall>persona. RegisterProgram persona \<notin> set ops)"
proof -
  have "(\<forall>i. user_id (vs_user s) = Some i \<longrightarrow> vs_stamp s = Some i \<or> vs_pending s) \<and> (vs_pending s \<longrightarrow> \<not> vs_resolved s \<and> vs_named s) \<and>
      (vs_resolved s \<longleftrightarrow> (\<exists>persona. RegisterProgram persona \<in> set ops))"
    if "s = fold run_viewer ops (new_viewer default_viewer given)" for s
    using that
  proof (induction ops arbitrary: s rule: rev_induct)
    case Nil
    then show ?case by (simp add: new_viewer_def Let_def)
  next
    case (snoc op ops)
    then show ?case
      by (cases op)
        (auto simp: setDefaultUser_def restampOwnerGated_def register_viewer_def prepareMockSeeding_def
          flushPendingOwnerRestamp_def user_id_def Let_def split: option.splits if_splits)
  qed
  then show ?thesis using assms by blast
qed

theorem stamps_follow_viewer_witness:
  "vs_stamp (fold run_viewer [SetUser (Some (Some ''ann'')), RegisterProgram ''bob''] (new_viewer None None)) = Some ''ann''"
  using stamps_follow_viewer [OF refl, of "[SetUser (Some (Some ''ann'')), RegisterProgram ''bob'']" None None "''ann''"]
  by (simp add: setDefaultUser_def restampOwnerGated_def register_viewer_def prepareMockSeeding_def
      flushPendingOwnerRestamp_def user_id_def new_viewer_def)

end
