(* ===== verification/ServerSession.thy ===== *)
theory ServerSession
  imports Engine Ticks Routing
begin

text \<open>
  What the server runtime keeps between dispatches (\<open>server/OrbitalServerRuntime.ts\<close>): which clients
  have which traits mounted and what the kernel is told of it, the bindings of the declared ticks on
  the shared scheduler, and the relay of tick-stamped dispatches to the other clients.
\<close>

section \<open>Requests\<close>

record held_trait =
  ht_trait :: string
  ht_rest :: jobj

record server_request = event_request +
  rq_mount :: "held_trait list option"
  rq_traits :: "held_trait list option"
  rq_entityByTrait :: "jobj option"
  rq_tick :: "string option"
  rq_sourceTrait :: "string option"
  rq_runTick :: "(string \<times> string) option"

text \<open>A request that names an event and nothing else.\<close>

definition plain_request :: "string \<Rightarrow> server_request" where
  "plain_request ev = \<lparr>eq_event = ev, eq_payload = None, eq_targetTrait = None, eq_entityId = None, eq_clientId = None,
     eq_user = None, eq_locale = None, rq_mount = None, rq_traits = None, rq_entityByTrait = None, rq_tick = None,
     rq_sourceTrait = None, rq_runTick = None\<rparr>"

section \<open>Mounts\<close>

text \<open>\<open>mountedBy\<close>: the clients that have \<open>orbital::trait\<close> mounted, a Map of Sets.\<close>

type_synonym mounts = "(string \<times> string list) list"

definition ANONYMOUS_CLIENT :: string where
  "ANONYMOUS_CLIENT = CHR 0x00 # ''anonymous''"

definition mount_key :: "string \<Rightarrow> string \<Rightarrow> string" where
  "mount_key orbitalName traitName = orbitalName @ ''::'' @ traitName"

definition clients_of :: "mounts \<Rightarrow> string \<Rightarrow> string list" where
  "clients_of m key = (case map_of m key of None \<Rightarrow> [] | Some cs \<Rightarrow> cs)"

definition set_clients :: "string \<Rightarrow> string list \<Rightarrow> mounts \<Rightarrow> mounts" where
  "set_clients key cs m = (if cs \<noteq> [] then AList.update key cs m else AList.delete key m)"

text \<open>The traits a request mounts or releases.\<close>

definition named_traits :: "server_request \<Rightarrow> string list" where
  "named_traits req =
     (case rq_mount req of
        Some ms \<Rightarrow> map ht_trait ms
      | None \<Rightarrow> (case eq_targetTrait req of
          Some t \<Rightarrow> [t]
        | None \<Rightarrow> (case rq_traits req of None \<Rightarrow> [] | Some ts \<Rightarrow> map ht_trait ts)))"

definition mount_trait :: "string \<Rightarrow> string \<Rightarrow> bool \<Rightarrow> string \<Rightarrow> mounts \<Rightarrow> mounts" where
  "mount_trait orbitalName client mounted traitName m =
     (let key = mount_key orbitalName traitName; cs = clients_of m key
      in set_clients key (if mounted then set_add client cs else removeAll client cs) m)"

definition client_of :: "server_request \<Rightarrow> string" where
  "client_of req = (case eq_clientId req of Some c \<Rightarrow> c | None \<Rightarrow> ANONYMOUS_CLIENT)"

definition recordMount :: "string \<Rightarrow> server_request \<Rightarrow> bool \<Rightarrow> mounts \<Rightarrow> mounts" where
  "recordMount orbitalName req mounted m =
     fold (mount_trait orbitalName (client_of req) mounted) (named_traits req) m"

definition releaseClient :: "string \<Rightarrow> mounts \<Rightarrow> mounts" where
  "releaseClient clientId m = filter (\<lambda>(key, cs). cs \<noteq> []) (map (\<lambda>(key, cs). (key, removeAll clientId cs)) m)"

definition isTraitMounted :: "string \<Rightarrow> string \<Rightarrow> mounts \<Rightarrow> bool" where
  "isTraitMounted orbitalName traitName m = (clients_of m (mount_key orbitalName traitName) \<noteq> [])"

text \<open>\<open>key.split('::')[1] ?? ''\<close>.\<close>

fun split_colons :: "string \<Rightarrow> string list" where
  "split_colons [] = [[]]"
| "split_colons [c] = [[c]]"
| "split_colons (c # d # s) =
     (if c = CHR '':'' \<and> d = CHR '':'' then [] # split_colons s
      else case split_colons (d # s) of [] \<Rightarrow> [[c]] | w # ws \<Rightarrow> (c # w) # ws)"

definition key_trait :: "string \<Rightarrow> string" where
  "key_trait key = (case split_colons key of _ # t # _ \<Rightarrow> t | _ \<Rightarrow> [])"

definition mounted_traits :: "mounts \<Rightarrow> string list" where
  "mounted_traits m = fold (\<lambda>(key, cs). set_add (key_trait key)) m []"

text \<open>The kernel is told the mounted traits; before a program is registered there is no kernel.\<close>

definition syncTickMount :: "('k, 'p) kernel_setup \<Rightarrow> mounts \<Rightarrow> ('k, 'p) engine option \<Rightarrow> ('k, 'p) engine option" where
  "syncTickMount ks m engine = map_option (setTickMount ks (mounted_traits m)) engine"

section \<open>Ticks\<close>

datatype tick_interval = IntervalMs rat | IntervalText string | NoInterval

record server_tick =
  st_name :: string
  st_interval :: tick_interval
  st_hasGuard :: bool

record tick_binding =
  tb_orbital :: string
  tb_trait :: string
  tb_tick :: server_tick
  tb_handle :: nat

record tick_table =
  tt_bindings :: "tick_binding list"
  tt_scheduler :: scheduler

definition bind_tick :: "string \<Rightarrow> string \<Rightarrow> server_tick \<Rightarrow> nat \<times> scheduler \<Rightarrow> tick_table \<Rightarrow> tick_table" where
  "bind_tick orbitalName traitName tick added st =
     st\<lparr>tt_bindings := tt_bindings st @ [\<lparr>tb_orbital = orbitalName, tb_trait = traitName, tb_tick = tick, tb_handle = fst added\<rparr>],
        tt_scheduler := snd added\<rparr>"

text \<open>
  \<open>registerTick\<close>; \<open>onDue\<close> names the callback of a tick, which calls \<open>executeTick\<close>. \<open>None\<close>: the cron
  parser does not return. \<open>Inl\<close>: the text is neither a cron expression nor a duration.
\<close>

definition registerTick :: "(string \<Rightarrow> string \<Rightarrow> server_tick \<Rightarrow> nat) \<Rightarrow> string \<Rightarrow> string \<Rightarrow> server_tick \<Rightarrow> tick_table \<Rightarrow>
    ((string + unit) \<times> tick_table) option" where
  "registerTick onDue orbitalName traitName tick st =
     (let cb = onDue orbitalName traitName tick;
          every = (\<lambda>ms. Some (Inr (), bind_tick orbitalName traitName tick (add_tick ms cb (tt_scheduler st)) st))
      in case st_interval tick of
           IntervalMs ms \<Rightarrow> every ms
         | NoInterval \<Rightarrow> every 1000
         | IntervalText e \<Rightarrow>
             (case isValidCronExpression e of
                None \<Rightarrow> None
              | Some True \<Rightarrow>
                  map_option (\<lambda>r. case r of
                      Inl m \<Rightarrow> (Inl m, st)
                    | Inr added \<Rightarrow> (Inr (), bind_tick orbitalName traitName tick added st)) (addCron e cb (tt_scheduler st))
              | Some False \<Rightarrow>
                  (case parseDurationString e of
                     Inl m \<Rightarrow> Some (Inl m, st)
                   | Inr ms \<Rightarrow> every (of_nat ms))))"

definition cleanupTicks :: "tick_table \<Rightarrow> tick_table" where
  "cleanupTicks st =
     \<lparr>tt_bindings = [], tt_scheduler = fold (\<lambda>b. stop_tick (tb_handle b)) (tt_bindings st) (tt_scheduler st)\<rparr>"

fun register_ticks :: "(string \<Rightarrow> string \<Rightarrow> server_tick \<Rightarrow> nat) \<Rightarrow> (string \<times> string \<times> server_tick) list \<Rightarrow> tick_table \<Rightarrow>
    ((string + unit) \<times> tick_table) option" where
  "register_ticks onDue [] st = Some (Inr (), st)"
| "register_ticks onDue ((orbitalName, traitName, tick) # ticks) st =
     (case registerTick onDue orbitalName traitName tick st of
        None \<Rightarrow> None
      | Some (Inl m, st1) \<Rightarrow> Some (Inl m, st1)
      | Some (Inr _, st1) \<Rightarrow> register_ticks onDue ticks st1)"

text \<open>The declared ticks of the registered orbitals, in the order the loops visit them.\<close>

definition declared_ticks :: "(string \<times> (string \<times> server_tick list) list) list \<Rightarrow> (string \<times> string \<times> server_tick) list" where
  "declared_ticks orbitals =
     concat (map (\<lambda>(orbitalName, traits).
       concat (map (\<lambda>(traitName, ticks). map (\<lambda>tick. (orbitalName, traitName, tick)) ticks) traits)) orbitals)"

definition setupTicks :: "(string \<Rightarrow> string \<Rightarrow> server_tick \<Rightarrow> nat) \<Rightarrow> (string \<times> (string \<times> server_tick list) list) list \<Rightarrow>
    tick_table \<Rightarrow> ((string + unit) \<times> tick_table) option" where
  "setupTicks onDue orbitals st = register_ticks onDue (declared_ticks orbitals) (cleanupTicks st)"

record active_tick =
  at_orbital :: string
  at_trait :: string
  at_tick :: string
  at_interval :: tick_interval
  at_hasGuard :: bool

definition getActiveTicks :: "tick_table \<Rightarrow> active_tick list" where
  "getActiveTicks st =
     map (\<lambda>b. \<lparr>at_orbital = tb_orbital b, at_trait = tb_trait b, at_tick = st_name (tb_tick b),
       at_interval = st_interval (tb_tick b), at_hasGuard = st_hasGuard (tb_tick b)\<rparr>) (tt_bindings st)"

section \<open>The tick relay\<close>

datatype live_target = Peers | Origin

record live_item =
  li_event :: string
  li_payload :: "jobj option"
  li_source :: jobj
  li_originClientId :: "string option"
  li_target :: live_target

record tick_relay =
  tr_pending :: "(string \<times> live_item) list"
  tr_timer :: bool

definition relay_key :: "string \<Rightarrow> server_request \<Rightarrow> string" where
  "relay_key orbitalName req =
     (case eq_clientId req of None \<Rightarrow> [] | Some c \<Rightarrow> c) @ '':'' @ orbitalName @ '':'' @ eq_event req"

definition opt_text :: "string \<Rightarrow> string option \<Rightarrow> jobj" where
  "opt_text k v = (case v of None \<Rightarrow> [] | Some t \<Rightarrow> [(k, JStr t)])"

definition relay_item :: "string \<Rightarrow> server_request \<Rightarrow> live_item" where
  "relay_item orbitalName req =
     \<lparr>li_event = eq_event req, li_payload = eq_payload req,
      li_source = (''orbital'', JStr orbitalName) # opt_text ''trait'' (rq_sourceTrait req) @ opt_text ''tick'' (rq_tick req),
      li_originClientId = eq_clientId req, li_target = Peers\<rparr>"

definition queueTickRelay :: "string \<Rightarrow> server_request \<Rightarrow> tick_relay \<Rightarrow> tick_relay" where
  "queueTickRelay orbitalName req r =
     \<lparr>tr_pending = AList.update (relay_key orbitalName req) (relay_item orbitalName req) (tr_pending r), tr_timer = True\<rparr>"

text \<open>A firing of the relay's timer: the items sent, none when the timer only stops itself.\<close>

definition flushTickRelay :: "tick_relay \<Rightarrow> live_item list \<times> tick_relay" where
  "flushTickRelay r =
     (if tr_pending r = [] then ([], r\<lparr>tr_timer := False\<rparr>)
      else (map snd (tr_pending r), r\<lparr>tr_pending := []\<rparr>))"

section \<open>Mounts follow what the clients said last\<close>

datatype mount_op = MountOp string server_request | UnmountOp string server_request | ReleaseOp string

fun run_mount :: "mount_op \<Rightarrow> mounts \<Rightarrow> mounts" where
  "run_mount (MountOp orbitalName req) m = recordMount orbitalName req True m"
| "run_mount (UnmountOp orbitalName req) m = recordMount orbitalName req False m"
| "run_mount (ReleaseOp clientId) m = releaseClient clientId m"

definition names_key :: "string \<Rightarrow> server_request \<Rightarrow> string \<Rightarrow> bool" where
  "names_key orbitalName req key = (key \<in> mount_key orbitalName ` set (named_traits req))"

text \<open>What an operation says of a client and a trait: mounted, not mounted, or nothing.\<close>

fun says :: "mount_op \<Rightarrow> string \<Rightarrow> string \<Rightarrow> bool option" where
  "says (MountOp orbitalName req) key c = (if c = client_of req \<and> names_key orbitalName req key then Some True else None)"
| "says (UnmountOp orbitalName req) key c = (if c = client_of req \<and> names_key orbitalName req key then Some False else None)"
| "says (ReleaseOp clientId) key c = (if c = clientId then Some False else None)"

definition last_word :: "mount_op list \<Rightarrow> string \<Rightarrow> string \<Rightarrow> bool" where
  "last_word ops key c = fold (\<lambda>op w. case says op key c of None \<Rightarrow> w | Some b \<Rightarrow> b) ops False"

definition mounts_ok :: "mounts \<Rightarrow> bool" where
  "mounts_ok m = (distinct (map fst m) \<and> (\<forall>key. map_of m key \<noteq> Some []))"

lemma clients_of_set [simp]: "clients_of (set_clients key cs m) key' = (if key' = key then cs else clients_of m key')"
  by (simp add: clients_of_def set_clients_def)

lemma mounts_ok_set: "mounts_ok m \<Longrightarrow> mounts_ok (set_clients key cs m)"
  by (simp add: mounts_ok_def set_clients_def distinct_update distinct_delete del: map_of_eq_Some_iff)

lemma mount_trait_clients:
  "c \<in> set (clients_of (mount_trait orb cl b t m) key) \<longleftrightarrow>
     (if key = mount_key orb t \<and> c = cl then b else c \<in> set (clients_of m key))"
  by (simp add: mount_trait_def Let_def)

lemma recordMount_clients:
  "c \<in> set (clients_of (recordMount orb req b m) key) \<longleftrightarrow>
     (if c = client_of req \<and> names_key orb req key then b else c \<in> set (clients_of m key))"
proof -
  have "c \<in> set (clients_of (fold (mount_trait orb cl b) ts m) key) \<longleftrightarrow>
      (if c = cl \<and> key \<in> mount_key orb ` set ts then b else c \<in> set (clients_of m key))" for cl ts
    by (induction ts arbitrary: m) (auto simp: mount_trait_clients)
  then show ?thesis by (simp add: recordMount_def names_key_def)
qed

lemma mounts_ok_record: "mounts_ok m \<Longrightarrow> mounts_ok (recordMount orb req b m)"
proof -
  have "mounts_ok m \<Longrightarrow> mounts_ok (fold (mount_trait orb cl b) ts m)" for cl ts
    by (induction ts arbitrary: m) (auto simp: mount_trait_def Let_def mounts_ok_set)
  then show "mounts_ok m \<Longrightarrow> mounts_ok (recordMount orb req b m)" by (simp add: recordMount_def)
qed

lemma map_of_release:
  assumes "distinct (map fst m)"
  shows "map_of (releaseClient cid m) key =
    (case map_of m key of None \<Rightarrow> None | Some cs \<Rightarrow> if removeAll cid cs = [] then None else Some (removeAll cid cs))"
  using assms unfolding releaseClient_def by (induction m) (auto split: option.splits simp: map_of_eq_None_iff image_iff)

lemma releaseClient_clients:
  assumes "mounts_ok m"
  shows "c \<in> set (clients_of (releaseClient cid m) key) \<longleftrightarrow> c \<noteq> cid \<and> c \<in> set (clients_of m key)"
proof -
  have "clients_of (releaseClient cid m) key = removeAll cid (clients_of m key)"
    using assms by (simp add: clients_of_def map_of_release mounts_ok_def split: option.splits)
  then show ?thesis by auto
qed

lemma mounts_ok_release: "mounts_ok m \<Longrightarrow> mounts_ok (releaseClient cid m)"
proof -
  assume ok: "mounts_ok m"
  have "map fst (map (\<lambda>(key, cs). (key, removeAll cid cs)) m) = map fst m" by (induction m) auto
  then have "distinct (map fst (releaseClient cid m))"
    using ok unfolding mounts_ok_def releaseClient_def by (metis distinct_map_filter)
  then show ?thesis using ok
    by (auto simp: mounts_ok_def map_of_release simp del: map_of_eq_Some_iff split: option.splits if_splits)
qed

lemma run_mount_ok: "mounts_ok m \<Longrightarrow> mounts_ok (run_mount op m)"
  by (cases op) (simp_all add: mounts_ok_record mounts_ok_release)

lemma run_mount_clients:
  "mounts_ok m \<Longrightarrow> c \<in> set (clients_of (run_mount op m) key) \<longleftrightarrow>
     (case says op key c of None \<Rightarrow> c \<in> set (clients_of m key) | Some b \<Rightarrow> b)"
  by (cases op) (auto simp: recordMount_clients releaseClient_clients)

lemma run_mounts:
  "mounts_ok (fold run_mount ops []) \<and> (c \<in> set (clients_of (fold run_mount ops []) key) \<longleftrightarrow> last_word ops key c)"
proof (induction ops rule: rev_induct)
  case Nil
  then show ?case by (simp add: mounts_ok_def clients_of_def last_word_def)
next
  case (snoc op ops)
  then show ?case by (simp add: run_mount_ok run_mount_clients last_word_def cong: option.case_cong)
qed

subsection \<open>What the kernel is told\<close>

lemma split_colons_plain: "CHR '':'' \<notin> set w \<Longrightarrow> split_colons (w @ ''::'' @ s) = w # split_colons s"
proof (induction w)
  case (Cons c w)
  then obtain d ds where "w @ ''::'' @ s = d # ds" by (cases "w @ ''::'' @ s") auto
  then show ?case using Cons by auto
qed simp

lemma split_colons_single: "CHR '':'' \<notin> set w \<Longrightarrow> split_colons w = [w]"
  by (induction w rule: split_colons.induct) auto

lemma key_trait_plain: "CHR '':'' \<notin> set orb \<Longrightarrow> CHR '':'' \<notin> set t \<Longrightarrow> key_trait (mount_key orb t) = t"
  using split_colons_plain [of orb t] by (simp add: key_trait_def mount_key_def split_colons_single)

lemma mounted_traits_set: "set (mounted_traits m) = key_trait ` fst ` set m"
proof -
  have "set (fold (\<lambda>(key, cs). set_add (key_trait key)) m acc) = set acc \<union> key_trait ` fst ` set m" for acc
    by (induction m arbitrary: acc) auto
  then show ?thesis by (simp add: mounted_traits_def)
qed

lemma mount_key_plain:
  assumes "mount_key orb t = mount_key orb' t'" and "CHR '':'' \<notin> set orb'" and "CHR '':'' \<notin> set t'"
  shows "orb = orb' \<and> t = t'"
proof -
  have "count_list (orb @ ''::'' @ t) (CHR '':'') = count_list (orb' @ ''::'' @ t') (CHR '':'')"
    using assms(1) by (simp add: mount_key_def)
  then have "CHR '':'' \<notin> set orb" using assms(2,3) by (simp add: count_list_0_iff)
  then show ?thesis using assms(1) split_colons_plain [of orb t] split_colons_plain [of orb' t'] assms(2)
    by (simp add: mount_key_def)
qed

text \<open>Names without a colon, as the keys of \<open>mountedBy\<close> need them.\<close>

fun plain_op :: "mount_op \<Rightarrow> bool" where
  "plain_op (MountOp orb req) = (CHR '':'' \<notin> set orb \<and> (\<forall>t \<in> set (named_traits req). CHR '':'' \<notin> set t))"
| "plain_op (UnmountOp orb req) = True"
| "plain_op (ReleaseOp c) = True"

lemma last_word_said: "last_word ops key c \<Longrightarrow> \<exists>op \<in> set ops. says op key c = Some True"
  by (induction ops rule: rev_induct) (auto simp: last_word_def split: option.splits)

lemma said_plain:
  assumes "says op key c = Some True" and "plain_op op"
  shows "\<exists>orb t. key = mount_key orb t \<and> CHR '':'' \<notin> set orb \<and> CHR '':'' \<notin> set t"
  using assms by (cases op) (auto simp: names_key_def split: if_splits)

text \<open>
  C30: A trait is mounted exactly while some client's last word on it, counting a disconnect as a release
  of everything, was to mount it; and where names have no colon, the kernel is told of exactly the
  traits that are mounted in some orbital, each once.
\<close>
theorem mounts_follow_clients:
  assumes "m = fold run_mount ops []" and "\<forall>op \<in> set ops. plain_op op"
  shows "(isTraitMounted orb t m \<longleftrightarrow> (\<exists>c. last_word ops (mount_key orb t) c)) \<and>
    (t \<in> set (mounted_traits m) \<longleftrightarrow> (\<exists>orb. isTraitMounted orb t m))"
proof -
  have ok: "mounts_ok m" and said: "\<And>key c. c \<in> set (clients_of m key) \<longleftrightarrow> last_word ops key c"
    using run_mounts [of ops] assms(1) by auto
  have some: "clients_of m key \<noteq> [] \<longleftrightarrow> (\<exists>c. last_word ops key c)" for key
    using said [of _ key] by (cases "clients_of m key") auto
  have key: "key \<in> fst ` set m \<longleftrightarrow> clients_of m key \<noteq> []" for key
    using ok map_of_eq_None_iff [of m key] by (auto simp: mounts_ok_def clients_of_def simp del: map_of_eq_Some_iff split: option.splits)
  have plain: "\<exists>orb t. key = mount_key orb t \<and> CHR '':'' \<notin> set orb \<and> CHR '':'' \<notin> set t" if "clients_of m key \<noteq> []" for key
    using that last_word_said said_plain assms(2) unfolding some by blast
  have told: "mount_key orb t \<in> fst ` set m \<and> key_trait (mount_key orb t) = t" if "isTraitMounted orb t m" for orb t
  proof -
    have mounted: "clients_of m (mount_key orb t) \<noteq> []" using that by (simp add: isTraitMounted_def)
    then obtain orb' t' where eq: "mount_key orb t = mount_key orb' t'" and colon: "CHR '':'' \<notin> set orb'" "CHR '':'' \<notin> set t'"
      using plain by blast
    then have "orb = orb' \<and> t = t'" by (rule mount_key_plain)
    then show ?thesis using mounted key key_trait_plain [OF colon] by simp
  qed
  have held: "\<exists>orb. isTraitMounted orb (key_trait k) m" if "k \<in> fst ` set m" for k
  proof -
    have mounted: "clients_of m k \<noteq> []" using that by (simp add: key)
    then obtain orb t where k: "k = mount_key orb t" and colon: "CHR '':'' \<notin> set orb" "CHR '':'' \<notin> set t" using plain by blast
    then show ?thesis using mounted key_trait_plain [OF colon] by (auto simp: isTraitMounted_def)
  qed
  have "t \<in> key_trait ` fst ` set m \<longleftrightarrow> (\<exists>orb. isTraitMounted orb t m)"
  proof
    assume "t \<in> key_trait ` fst ` set m"
    then obtain k where "k \<in> fst ` set m" "t = key_trait k" by blast
    then show "\<exists>orb. isTraitMounted orb t m" using held by blast
  next
    assume "\<exists>orb. isTraitMounted orb t m"
    then show "t \<in> key_trait ` fst ` set m" using told by (metis imageI)
  qed
  then show ?thesis by (simp add: mounted_traits_set some isTraitMounted_def)
qed

text \<open>Two tabs open the cart, one of them leaves.\<close>

definition cart_tab :: "string \<Rightarrow> server_request" where
  "cart_tab c = (plain_request ''INIT'')\<lparr>eq_targetTrait := Some ''Browse'', eq_clientId := Some c\<rparr>"

theorem mounts_follow_clients_witness:
  "let m = fold run_mount [MountOp ''Cart'' (cart_tab ''a''), MountOp ''Cart'' (cart_tab ''b''), ReleaseOp ''a''] []
   in isTraitMounted ''Cart'' ''Browse'' m \<and> ''Browse'' \<in> set (mounted_traits m)"
proof -
  define ops where "ops = [MountOp ''Cart'' (cart_tab ''a''), MountOp ''Cart'' (cart_tab ''b''), ReleaseOp ''a'']"
  have plain: "\<forall>op \<in> set ops. plain_op op" by (simp add: ops_def cart_tab_def plain_request_def named_traits_def)
  have "last_word ops (mount_key ''Cart'' ''Browse'') ''b''"
    by (simp add: ops_def last_word_def cart_tab_def plain_request_def named_traits_def names_key_def client_of_def)
  then have "isTraitMounted ''Cart'' ''Browse'' (fold run_mount ops [])" using mounts_follow_clients [OF refl plain] by blast
  then show ?thesis using mounts_follow_clients [OF refl plain] unfolding ops_def [symmetric] Let_def by blast
qed

section \<open>The declared ticks are the scheduled ones\<close>

text \<open>What a declared tick is scheduled as; \<open>None\<close> when its text is neither a cron expression nor a duration.\<close>

definition planned :: "(string \<Rightarrow> string \<Rightarrow> server_tick \<Rightarrow> nat) \<Rightarrow> string \<times> string \<times> server_tick \<Rightarrow> tick option" where
  "planned onDue d =
     (let cb = onDue (fst d) (fst (snd d)) (snd (snd d));
          every = (\<lambda>ms. Some (IntervalTick \<lparr>it_interval = max 0 ms, it_accumulated = 0, it_last = None, it_onDue = cb\<rparr>))
      in case st_interval (snd (snd d)) of
           IntervalMs ms \<Rightarrow> every ms
         | NoInterval \<Rightarrow> every 1000
         | IntervalText e \<Rightarrow>
             (case parseCron e of
                Some (Inr flds) \<Rightarrow> Some (CronTick \<lparr>ct_fields = flds, ct_accumulated = CRON_CHECK_INTERVAL_MS,
                    ct_last = None, ct_lastKey = - 1, ct_onDue = cb\<rparr>)
              | _ \<Rightarrow> (case parseDurationString e of Inl m \<Rightarrow> None | Inr ms \<Rightarrow> every (of_nat ms))))"

text \<open>The scheduler is the runtime's own: its ticks are those of the bindings, under fresh ids.\<close>

definition table_ok :: "tick_table \<Rightarrow> bool" where
  "table_ok st = (map fst (sc_ticks (tt_scheduler st)) = map tb_handle (tt_bindings st) \<and>
     distinct (map tb_handle (tt_bindings st)) \<and> (\<forall>b \<in> set (tt_bindings st). tb_handle b < sc_nextId (tt_scheduler st)))"

definition binding_of :: "tick_binding \<Rightarrow> string \<times> string \<times> server_tick" where
  "binding_of b = (tb_orbital b, tb_trait b, tb_tick b)"

lemma stop_all_handles:
  "sc_ticks (fold (\<lambda>b. stop_tick (tb_handle b)) bs sched) = filter (\<lambda>(i, t). i \<notin> tb_handle ` set bs) (sc_ticks sched) \<and>
   sc_nextId (fold (\<lambda>b. stop_tick (tb_handle b)) bs sched) = sc_nextId sched"
  by (induction bs arbitrary: sched) (auto simp: stop_tick_def intro: filter_cong)

lemma cleanup_empties:
  assumes "table_ok st"
  shows "sc_ticks (tt_scheduler (cleanupTicks st)) = []" and "table_ok (cleanupTicks st)"
proof -
  have "tb_handle ` set (tt_bindings st) = fst ` set (sc_ticks (tt_scheduler st))"
    using assms by (metis table_ok_def image_set)
  then show none: "sc_ticks (tt_scheduler (cleanupTicks st)) = []"
    by (auto simp: cleanupTicks_def stop_all_handles filter_empty_conv image_iff)
  show "table_ok (cleanupTicks st)" using none by (simp add: table_ok_def cleanupTicks_def)
qed

definition bound_as :: "string \<times> string \<times> server_tick \<Rightarrow> tick \<Rightarrow> tick_table \<Rightarrow> tick_table \<Rightarrow> bool" where
  "bound_as d t st st' = (table_ok st' \<and> map binding_of (tt_bindings st') = map binding_of (tt_bindings st) @ [d] \<and>
     map snd (sc_ticks (tt_scheduler st')) = map snd (sc_ticks (tt_scheduler st)) @ [t])"

lemma bind_registered:
  assumes "table_ok st"
  shows "bound_as (orb, tr, tick) t st (bind_tick orb tr tick (register t (tt_scheduler st)) st)"
  using assms by (auto simp: bound_as_def table_ok_def bind_tick_def register_def binding_of_def less_Suc_eq)

lemma bind_every:
  assumes "table_ok st"
  shows "bound_as (orb, tr, tick) (IntervalTick \<lparr>it_interval = max 0 ms, it_accumulated = 0, it_last = None, it_onDue = cb\<rparr>) st
    (bind_tick orb tr tick (add_tick ms cb (tt_scheduler st)) st)"
  using bind_registered [OF assms] by (simp add: add_tick_def max_def)

text \<open>One declared tick: bound and scheduled as planned, or refused with nothing changed.\<close>

lemma duration_error: "parseDurationString e = Inl m \<Longrightarrow> m = e"
  by (auto simp: parseDurationString_def split: option.splits)

lemma registerTick_effect:
  assumes "table_ok st" and "registerTick onDue orb tr tick st = Some (r, st')"
  shows "case planned onDue (orb, tr, tick) of
      None \<Rightarrow> st' = st \<and> (\<exists>e. st_interval tick = IntervalText e \<and> r = Inl e)
    | Some t \<Rightarrow> r = Inr () \<and> bound_as (orb, tr, tick) t st st'"
proof (cases "st_interval tick")
  case (IntervalText e)
  show ?thesis
  proof (cases "parseCron e")
    case None
    then show ?thesis using assms(2) IntervalText by (simp add: registerTick_def isValidCronExpression_def)
  next
    case (Some p)
    show ?thesis
    proof (cases p)
      case (Inl m)
      show ?thesis
      proof (cases "parseDurationString e")
        case Inl
        then show ?thesis using assms Some \<open>p = _\<close> IntervalText duration_error [OF Inl]
          by (auto simp: registerTick_def isValidCronExpression_def planned_def)
      next
        case (Inr ms)
        then show ?thesis using assms Some \<open>p = _\<close> IntervalText bind_every [OF assms(1), of orb tr tick "of_nat ms" "onDue orb tr tick"]
          by (auto simp: registerTick_def isValidCronExpression_def planned_def)
      qed
    next
      case (Inr flds)
      then show ?thesis using assms Some IntervalText bind_registered [OF assms(1)]
        by (auto simp: registerTick_def isValidCronExpression_def planned_def addCron_def add_cron_fields_def rbind_def)
    qed
  qed
qed (use assms bind_every [OF assms(1)] bind_every [OF assms(1), of orb tr tick 1000] in \<open>auto simp: registerTick_def planned_def\<close>)

text \<open>Where the setup stopped: at the end, or before a tick that is refused with its text.\<close>

definition stopped_before :: "(string \<Rightarrow> string \<Rightarrow> server_tick \<Rightarrow> nat) \<Rightarrow> string + unit \<Rightarrow> (string \<times> string \<times> server_tick) list \<Rightarrow> bool" where
  "stopped_before onDue r rest = (case r of Inr _ \<Rightarrow> rest = []
     | Inl e \<Rightarrow> (\<exists>d rest'. rest = d # rest' \<and> planned onDue d = None \<and> st_interval (snd (snd d)) = IntervalText e))"

definition set_up :: "(string \<Rightarrow> string \<Rightarrow> server_tick \<Rightarrow> nat) \<Rightarrow> (string \<times> string \<times> server_tick) list \<Rightarrow> tick_table \<Rightarrow> tick_table \<Rightarrow> bool" where
  "set_up onDue bound st st' = (table_ok st' \<and>
     map binding_of (tt_bindings st') = map binding_of (tt_bindings st) @ bound \<and>
     map (Some \<circ> snd) (sc_ticks (tt_scheduler st')) = map (Some \<circ> snd) (sc_ticks (tt_scheduler st)) @ map (planned onDue) bound)"

lemma set_up_one: "planned onDue d = Some t \<Longrightarrow> bound_as d t st st' \<Longrightarrow> set_up onDue [d] st st'"
  unfolding set_up_def bound_as_def by (simp only: map_map [symmetric] map_append) simp

lemma set_up_append: "set_up onDue as st st1 \<Longrightarrow> set_up onDue bs st1 st' \<Longrightarrow> set_up onDue (as @ bs) st st'"
  by (simp add: set_up_def)

lemma register_ticks_effect:
  "register_ticks onDue ds st = Some (r, st') \<Longrightarrow> table_ok st \<Longrightarrow>
     \<exists>bound rest. ds = bound @ rest \<and> set_up onDue bound st st' \<and> stopped_before onDue r rest"
proof (induction ds arbitrary: st)
  case Nil
  then show ?case by (auto simp: set_up_def stopped_before_def)
next
  case (Cons d ds)
  obtain orb tr tick where d: "d = (orb, tr, tick)" by (cases d) auto
  obtain r1 st1 where one: "registerTick onDue orb tr tick st = Some (r1, st1)"
    using Cons.prems(1) d by (auto split: option.splits)
  note effect = registerTick_effect [OF Cons.prems(2) one]
  show ?case
  proof (cases "planned onDue d")
    case None
    then have "set_up onDue [] st st' \<and> stopped_before onDue r (d # ds)"
      using effect Cons.prems d one by (auto simp: set_up_def stopped_before_def)
    then show ?thesis by (metis append_Nil)
  next
    case (Some t)
    then have "r1 = Inr ()" and one_up: "set_up onDue [d] st st1" using effect d set_up_one by auto
    then have "register_ticks onDue ds st1 = Some (r, st')" "table_ok st1"
      using Cons.prems(1) d one by (auto simp: set_up_def)
    then obtain bs rest where "ds = bs @ rest" "set_up onDue bs st1 st'" "stopped_before onDue r rest"
      using Cons.IH by blast
    then show ?thesis using set_up_append [OF one_up] by (metis append_Cons append_Nil)
  qed
qed

text \<open>
  C31: After the ticks are set up, the bindings are the declared ticks, in order, each scheduled as its
  interval says, by calendar, by duration or every second, and nothing else is scheduled: the ticks
  of the program before are gone. A tick whose interval is neither a cron expression nor a duration is
  refused with its text, and the ticks before it, and only those, are bound.
\<close>
theorem ticks_set_up:
  assumes "table_ok st" and "setupTicks onDue orbitals st = Some (r, st')"
  shows "table_ok st' \<and> (\<exists>bound rest. declared_ticks orbitals = bound @ rest \<and> map binding_of (tt_bindings st') = bound \<and>
    map (Some \<circ> snd) (sc_ticks (tt_scheduler st')) = map (planned onDue) bound \<and> stopped_before onDue r rest)"
proof -
  obtain bound rest where "declared_ticks orbitals = bound @ rest" "set_up onDue bound (cleanupTicks st) st'" "stopped_before onDue r rest"
    using register_ticks_effect [OF assms(2) [unfolded setupTicks_def] cleanup_empties(2) [OF assms(1)]] by blast
  then show ?thesis using cleanup_empties(1) [OF assms(1)] by (auto simp: set_up_def cleanupTicks_def)
qed

text \<open>One trait with a tick every second, and one that is refused.\<close>

definition two_ticks :: "(string \<times> (string \<times> server_tick list) list) list" where
  "two_ticks = [(''Cart'', [(''Poll'',
     [\<lparr>st_name = ''beat'', st_interval = NoInterval, st_hasGuard = False\<rparr>,
      \<lparr>st_name = ''odd'', st_interval = IntervalText ''soon'', st_hasGuard = False\<rparr>])])]"

definition no_ticks :: tick_table where
  "no_ticks = \<lparr>tt_bindings = [], tt_scheduler = new_scheduler False\<rparr>"

theorem ticks_set_up_witness:
  "\<exists>st'. setupTicks (\<lambda>_ _ _. 0) two_ticks no_ticks = Some (Inl ''soon'', st') \<and> table_ok st'"
proof -
  have "table_ok no_ticks" by (simp add: table_ok_def no_ticks_def new_scheduler_def)
  moreover have "\<exists>st'. setupTicks (\<lambda>_ _ _. 0) two_ticks no_ticks = Some (Inl ''soon'', st')"
    by (simp add: setupTicks_def declared_ticks_def two_ticks_def registerTick_def isValidCronExpression_def parseCron_def
        words_of_def parseDurationString_def duration_match_def is_digit_def is_space_def)
  ultimately show ?thesis using ticks_set_up by blast
qed

section \<open>The relay sends the newest\<close>

text \<open>The keys queued since the last flush, each once, in the order they came first.\<close>

definition queued_keys :: "(string \<times> server_request) list \<Rightarrow> string list" where
  "queued_keys queued = fold (\<lambda>(orb, req). set_add (relay_key orb req)) queued []"

definition newest :: "(string \<times> server_request) list \<Rightarrow> string \<Rightarrow> live_item option" where
  "newest queued key = map_of (rev (map (\<lambda>(orb, req). (relay_key orb req, relay_item orb req)) queued)) key"

definition queue_all :: "(string \<times> server_request) list \<Rightarrow> tick_relay \<Rightarrow> tick_relay" where
  "queue_all queued r = fold (\<lambda>q. queueTickRelay (fst q) (snd q)) queued r"

definition sending :: "tick_relay \<Rightarrow> live_item list" where
  "sending r = fst (flushTickRelay r)"

text \<open>
  Between two flushes the relay keeps the newest of every client, orbital and event: however many
  tick dispatches are queued after a flush, the next one sends one item per key, in the order the
  keys came first, and it is the last one queued; and while something waits the timer runs, so that
  nothing queued is left unsent.
\<close>
theorem relay_sends_newest:
  assumes "tr_pending r = []"
  shows "map Some (sending (queue_all queued r)) = map (newest queued) (queued_keys queued) \<and>
    distinct (queued_keys queued) \<and> (queued \<noteq> [] \<longrightarrow> tr_timer (queue_all queued r))"
proof -
  have "map fst (tr_pending (queue_all queued r)) = queued_keys queued \<and> distinct (queued_keys queued) \<and>
      map_of (tr_pending (queue_all queued r)) = newest queued \<and> (queued \<noteq> [] \<longrightarrow> tr_timer (queue_all queued r))"
  proof (induction queued rule: rev_induct)
    case Nil
    then show ?case using assms by (simp add: queue_all_def queued_keys_def newest_def fun_eq_iff)
  next
    case (snoc q queued)
    obtain orb req where q: "q = (orb, req)" by (cases q) auto
    have "newest (queued @ [q]) = (newest queued)(relay_key orb req \<mapsto> relay_item orb req)"
      by (auto simp: newest_def q fun_eq_iff)
    then show ?case using snoc.IH
      by (simp add: queue_all_def queued_keys_def q queueTickRelay_def AList.update_keys set_add_def fun_eq_iff)
  qed
  moreover have "sending s = map snd (tr_pending s)" for s by (simp add: sending_def flushTickRelay_def)
  moreover have "map Some (map snd m) = map (map_of m) (map fst m)" if "distinct (map fst m)" for m :: "(string \<times> live_item) list"
    using that by (auto simp: map_of_is_SomeI)
  ultimately show ?thesis by metis
qed

theorem relay_sends_newest_witness:
  "map Some (sending (queue_all [(''Game'', plain_request ''MOVE''), (''Game'', plain_request ''MOVE'')] \<lparr>tr_pending = [], tr_timer = False\<rparr>)) =
     [Some (relay_item ''Game'' (plain_request ''MOVE''))]"
  using relay_sends_newest [of "\<lparr>tr_pending = [], tr_timer = False\<rparr>" "[(''Game'', plain_request ''MOVE''), (''Game'', plain_request ''MOVE'')]"]
  by (simp add: queued_keys_def newest_def set_add_def)

end
