(* ===== verification/ServerDispatch.thy ===== *)
theory ServerDispatch
  imports ServerSession KernelHost
begin

text \<open>
  A dispatch of the server runtime (\<open>server/OrbitalServerRuntime.ts\<close>): \<open>processOrbitalEvent\<close> from the
  lookup of the orbital to the response, the request and the viewer the kernel is run with, what is
  published of its response and to whom, live messages, deferred outcomes, the declared inputs
  (\<open>evaluation/declared-input-dispatch.ts\<close>), inbound hooks (\<open>evaluation/inbound-dispatch.ts\<close>) and the
  event route with its stream of server-sent events (\<open>server/sse.ts\<close>). The kernel, the authentication
  and the program's declarations are parameters.
\<close>

section \<open>The runtime and what it sends\<close>

record emit_contract =
  ev_name :: string
  ev_id :: "string option"

record registered_trait =
  gt_name :: string
  gt_id :: "string option"
  gt_emits :: "emit_contract list"

record registered_orbital =
  ro_name :: string
  ro_id :: "string option"
  ro_traits :: "registered_trait list"

record emitted_event =
  em_event :: string
  em_payload :: "jobj option"
  em_source :: "jobj option"

record rejection =
  rj_code :: string
  rj_trait :: string
  rj_event :: string

record event_response =
  rs_success :: bool
  rs_transitioned :: bool
  rs_states :: jobj
  rs_emitted :: "emitted_event list"
  rs_hops :: "jval list"
  rs_clientEffects :: "jval list"
  rs_error :: "string option"
  rs_rejections :: "rejection list"

datatype push_item = PushEvent emitted_event | PushEffect jval

text \<open>What leaves the runtime: to the observers, the bus, the live sink, the kernel and the host sink.\<close>

datatype server_output =
    HopSeen jval
  | BusEmit string "jobj option" "jobj option" string
  | LiveSent live_item
  | TickMountTold "string list"
  | HostDispatched string server_request event_response

record 'x server =
  sv_orbitals :: "(string \<times> registered_orbital) list"
  sv_mounts :: mounts
  sv_relay :: tick_relay
  sv_defaultUser :: "jval option"
  sv_appLocales :: "string list"
  sv_kernel :: bool
  sv_liveSink :: bool
  sv_hostSink :: bool
  sv_epoch :: bool \<comment> \<open>a registration was made; lookups that miss wait for it\<close>
  sv_out :: "server_output list"
  sv_rest :: 'x

text \<open>
  The parts a dispatch runs on: \<open>@almadar/core\<close>'s lifecycle events and user normalisation, the loading of
  the program handlers, the wait for a registration in flight and for the event queue (what the
  runtime is after the wait), and \<open>evaluateOnKernel\<close>.
\<close>

record 'x server_parts =
  sp_lifecycle :: "string list"
  sp_normalize :: "jval option \<Rightarrow> jval option"
  sp_prepare :: "'x server \<Rightarrow> (string + unit) \<times> 'x server"
  sp_settled :: "'x server \<Rightarrow> 'x server"
  sp_turn :: "'x server \<Rightarrow> 'x server"
  sp_run :: "string \<Rightarrow> server_request \<Rightarrow> jval option \<Rightarrow> string option \<Rightarrow> 'x server \<Rightarrow> (string + event_response) \<times> 'x server"

definition send_out :: "server_output list \<Rightarrow> 'x server \<Rightarrow> 'x server" where
  "send_out outs s = s\<lparr>sv_out := sv_out s @ outs\<rparr>"

section \<open>The request the kernel is run with\<close>

definition isDelegatedLeg :: "server_request \<Rightarrow> bool" where
  "isDelegatedLeg req = ((eq_targetTrait req \<noteq> None \<or> rq_mount req \<noteq> None) \<and>
     (rq_traits req \<noteq> None \<or> rq_entityByTrait req \<noteq> None))"

text \<open>\<open>payload._targetTrait\<close>, which the code takes for the text its type says it is.\<close>

definition sidecar_target :: "server_request \<Rightarrow> string option" where
  "sidecar_target req =
     (case Option.bind (eq_payload req) (\<lambda>p. obj_get p ''_targetTrait'') of Some (JStr t) \<Rightarrow> Some t | _ \<Rightarrow> None)"

definition server_request_of :: "server_request \<Rightarrow> server_request" where
  "server_request_of req =
     (if \<not> isDelegatedLeg req \<and> eq_targetTrait req = None \<and>
         (sidecar_target req \<noteq> None \<or> rq_traits req \<noteq> None \<or> rq_entityByTrait req \<noteq> None)
      then req\<lparr>eq_targetTrait := sidecar_target req, rq_traits := None, rq_entityByTrait := None\<rparr>
      else req)"

definition viewer_of :: "'x server_parts \<Rightarrow> server_request \<Rightarrow> 'x server \<Rightarrow> jval option" where
  "viewer_of sp req s = (case sp_normalize sp (eq_user req) of Some u \<Rightarrow> Some u | None \<Rightarrow> sv_defaultUser s)"

definition locale_message :: "string \<Rightarrow> string list \<Rightarrow> string" where
  "locale_message l locales = ''locale '' @ quoted l @ '' is not one of the program's declared locales ['' @
     join_with '', '' locales @ '']''"

definition undeclared_locale :: "server_request \<Rightarrow> 'x server \<Rightarrow> string option" where
  "undeclared_locale req s =
     (case eq_locale req of
        Some l \<Rightarrow> if sv_appLocales s \<noteq> [] \<and> l \<notin> set (sv_appLocales s) then Some (locale_message l (sv_appLocales s)) else None
      | None \<Rightarrow> None)"

section \<open>Publishing a response\<close>

definition source_text :: "jobj option \<Rightarrow> string \<Rightarrow> string option" where
  "source_text source k = (case Option.bind source (\<lambda>src. obj_get src k) of Some (JStr t) \<Rightarrow> Some t | _ \<Rightarrow> None)"

definition persisted :: "emitted_event \<Rightarrow> bool" where
  "persisted e = (Option.bind (em_source e) (\<lambda>src. obj_get src ''persistSuccess'') = Some (JBool True))"

text \<open>The live item of a persist success: its source without the mark, to every other client.\<close>

definition live_of :: "string option \<Rightarrow> emitted_event \<Rightarrow> live_item" where
  "live_of originClientId e =
     \<lparr>li_event = em_event e, li_payload = em_payload e,
      li_source = filter (\<lambda>(k, v). k \<noteq> ''persistSuccess'') (case em_source e of None \<Rightarrow> [] | Some src \<Rightarrow> src),
      li_originClientId = originClientId, li_target = Peers\<rparr>"

definition publish_emitted :: "bool \<Rightarrow> string option \<Rightarrow> emitted_event \<Rightarrow> server_output list" where
  "publish_emitted liveSink originClientId e =
     BusEmit (em_event e) (em_payload e) (em_source e) (eventRouteKey (em_event e) (source_text (em_source e) ''eventId'')) #
     (if persisted e \<and> liveSink then [LiveSent (live_of originClientId e)] else [])"

definition publishKernelResponse :: "event_response \<Rightarrow> string option \<Rightarrow> 'x server \<Rightarrow> push_item list \<times> 'x server" where
  "publishKernelResponse response originClientId s =
     (map PushEvent (rs_emitted response) @ map PushEffect (rs_clientEffects response),
      send_out (map HopSeen (rs_hops response) @
        concat (map (publish_emitted (sv_liveSink s) originClientId) (rs_emitted response))) s)"

section \<open>A dispatch\<close>

definition NO_KERNEL :: string where
  "NO_KERNEL = ''OrbitalServerRuntime: an os ask arrived with no kernel program registered''"

definition evaluateForOrbital :: "'x server_parts \<Rightarrow> registered_orbital \<Rightarrow> server_request \<Rightarrow> 'x server \<Rightarrow>
    (string + event_response) \<times> push_item list \<times> 'x server" where
  "evaluateForOrbital sp registered req s =
     (case undeclared_locale req s of
        Some m \<Rightarrow> (Inl m, [], s)
      | None \<Rightarrow>
          if \<not> sv_kernel s then (Inl NO_KERNEL, [], s)
          else (case sp_run sp (ro_name registered) (server_request_of req) (viewer_of sp req s) (eq_locale req) s of
              (Inl m, s1) \<Rightarrow> (Inl m, [], s1)
            | (Inr response, s1) \<Rightarrow> (Inr response, publishKernelResponse response (eq_clientId req) s1)))"

definition quiet_response :: event_response where
  "quiet_response = \<lparr>rs_success = True, rs_transitioned = False, rs_states = [], rs_emitted = [], rs_hops = [],
     rs_clientEffects = [], rs_error = None, rs_rejections = []\<rparr>"

definition failed_response :: "string \<Rightarrow> event_response" where
  "failed_response m = quiet_response\<lparr>rs_success := False, rs_error := Some m\<rparr>"

definition UNMOUNT_EVENT :: string where
  "UNMOUNT_EVENT = ''$UNMOUNT''"

definition resolveRegisteredOrbital :: "'x server_parts \<Rightarrow> string \<Rightarrow> 'x server \<Rightarrow> registered_orbital option \<times> 'x server" where
  "resolveRegisteredOrbital sp name s =
     (case map_of (sv_orbitals s) name of
        Some r \<Rightarrow> (Some r, s)
      | None \<Rightarrow> if sv_epoch s then (let s1 = sp_settled sp s in (map_of (sv_orbitals s1) name, s1)) else (None, s))"

definition note_mount :: "string \<Rightarrow> server_request \<Rightarrow> bool \<Rightarrow> 'x server \<Rightarrow> 'x server" where
  "note_mount orbitalName req mounted s =
     (let m = recordMount orbitalName req mounted (sv_mounts s)
      in send_out (if sv_kernel s then [TickMountTold (mounted_traits m)] else []) (s\<lparr>sv_mounts := m\<rparr>))"

text \<open>The client's dispatch in the queue, and the relay of one that a tick stamped.\<close>

definition dispatch_registered :: "'x server_parts \<Rightarrow> string \<Rightarrow> registered_orbital \<Rightarrow> server_request \<Rightarrow> 'x server \<Rightarrow>
    event_response \<times> push_item list \<times> 'x server" where
  "dispatch_registered sp orbitalName registered req s =
     (if eq_event req = UNMOUNT_EVENT then (quiet_response, [], note_mount orbitalName req False s)
      else
        (let s1 = (if rq_mount req \<noteq> None \<or> eq_event req \<in> set (sp_lifecycle sp) then note_mount orbitalName req True s else s)
         in case evaluateForOrbital sp registered req (sp_turn sp s1) of
              (Inl m, ps, s2) \<Rightarrow> (failed_response m, ps, s2)
            | (Inr response, ps, s2) \<Rightarrow>
                (response, ps,
                 if rq_tick req \<noteq> None \<and> sv_liveSink s2 then s2\<lparr>sv_relay := queueTickRelay orbitalName req (sv_relay s2)\<rparr> else s2)))"

definition not_found :: "string \<Rightarrow> string" where
  "not_found orbitalName = ''Orbital not found: '' @ orbitalName"

definition processOrbitalEvent :: "'x server_parts \<Rightarrow> string \<Rightarrow> server_request \<Rightarrow> 'x server \<Rightarrow>
    event_response \<times> push_item list \<times> 'x server" where
  "processOrbitalEvent sp orbitalName req s =
     (case sp_prepare sp s of
        (Inl m, s1) \<Rightarrow> (failed_response m, [], s1)
      | (Inr _, s1) \<Rightarrow>
          (case resolveRegisteredOrbital sp orbitalName s1 of
             (None, s2) \<Rightarrow> (failed_response (not_found orbitalName), [], s2)
           | (Some registered, s2) \<Rightarrow> dispatch_registered sp orbitalName registered req s2))"

text \<open>A tick's firing: \<open>tick_key\<close> is \<open>tickEventKey\<close> of \<open>@almadar/core\<close>; only its failure is logged.\<close>

definition executeTick :: "'x server_parts \<Rightarrow> (string \<Rightarrow> string) \<Rightarrow> string \<Rightarrow> string \<Rightarrow> server_tick \<Rightarrow> 'x server \<Rightarrow> 'x server" where
  "executeTick sp tick_key orbitalName traitName tick s =
     snd (snd (processOrbitalEvent sp orbitalName
       ((plain_request (tick_key (st_name tick)))\<lparr>rq_runTick := Some (traitName, st_name tick), eq_targetTrait := Some traitName\<rparr>) s))"

section \<open>Live messages and deferred outcomes\<close>

text \<open>The stamp as the bus and the sink carry it.\<close>

definition stamp_json :: "bus_source \<Rightarrow> jobj" where
  "stamp_json st = [(''orbital'', JStr (s_orbital st)), (''trait'', JStr (s_trait st))] @
     opt_text ''orbitalId'' (s_orbitalId st) @ opt_text ''traitId'' (s_traitId st) @ opt_text ''eventId'' (s_eventId st) @
     opt_text ''originClientId'' (s_originClientId st)"

definition live_stamp :: "'x server \<Rightarrow> live_site \<Rightarrow> string option \<Rightarrow> bus_source" where
  "live_stamp s site originClientId =
     (let registered = map_of (sv_orbitals s) (ls_orbital site);
          calling = Option.bind registered (\<lambda>r. find (\<lambda>t. gt_name t = ls_trait site) (ro_traits r));
          contract = Option.bind calling (\<lambda>t. find (\<lambda>e. ev_name e = ls_event site) (gt_emits t))
      in stampEmitSource None \<lparr>i_orbitalName = ls_orbital site, i_traitName = ls_trait site,
           i_orbitalId = Option.bind registered ro_id, i_traitId = Option.bind calling gt_id,
           i_emitContractEventId = Option.bind contract ev_id, i_originClientId = originClientId\<rparr>)"

definition deliverLiveMessage :: "live_site \<Rightarrow> jobj \<Rightarrow> string option \<Rightarrow> 'x server \<Rightarrow> 'x server" where
  "deliverLiveMessage site payload originClientId s =
     (let stamp = live_stamp s site originClientId; source = stamp_json stamp
      in send_out (BusEmit (ls_event site) (Some payload) (Some source) (eventRouteKey (ls_event site) (s_eventId stamp)) #
           (if sv_liveSink s
            then [LiveSent \<lparr>li_event = ls_event site, li_payload = Some payload, li_source = source,
                    li_originClientId = originClientId, li_target = Origin\<rparr>]
            else [])) s)"

text \<open>The dispatch a deferred call's outcome is; \<open>user_json\<close> is the user as a request carries it.\<close>

definition deferred_request :: "(user_context \<Rightarrow> jval) \<Rightarrow> deferred_call \<Rightarrow> server_request" where
  "deferred_request user_json call =
     (plain_request (dc_event call))\<lparr>eq_payload := dc_payload call, eq_targetTrait := Some (dc_traitName call),
        eq_entityId := dc_entityId call, eq_clientId := dc_originClientId call,
        eq_user := map_option user_json (dc_user call), eq_locale := dc_locale call\<rparr>"

definition runDeferredOutcome :: "'x server_parts \<Rightarrow> string \<Rightarrow> server_request \<Rightarrow> 'x server \<Rightarrow> 'x server" where
  "runDeferredOutcome sp orbitalName req s =
     (case processOrbitalEvent sp orbitalName req s of
        (response, ps, s1) \<Rightarrow> send_out (if sv_hostSink s1 then [HostDispatched orbitalName req response] else []) s1)"

text \<open>\<open>kernelPorts().deferCallOutcome\<close>: deferring needs somewhere to send the result.\<close>

definition deferCallOutcome :: "'x server_parts \<Rightarrow> (user_context \<Rightarrow> jval) \<Rightarrow> 'x server \<Rightarrow> (deferred_call \<Rightarrow> 'x server \<Rightarrow> 'x server) option" where
  "deferCallOutcome sp user_json s =
     (if sv_hostSink s then Some (\<lambda>call. runDeferredOutcome sp (dc_orbital call) (deferred_request user_json call)) else None)"

text \<open>\<open>kernelPorts().callService\<close>: the host's provider, else mock answers in mock mode, else the defaults.\<close>

definition server_callService :: "(string \<Rightarrow> string \<Rightarrow> 'p \<Rightarrow> 'r) option \<Rightarrow> bool \<Rightarrow> (string \<Rightarrow> string \<Rightarrow> 'r) \<Rightarrow> (string \<Rightarrow> string \<Rightarrow> 'p \<Rightarrow> 'r) \<Rightarrow>
    string \<Rightarrow> string \<Rightarrow> 'p \<Rightarrow> 'r" where
  "server_callService provider mock_mode mockCallService defaultCallService service action params =
     (case provider of
        Some p \<Rightarrow> p service action params
      | None \<Rightarrow> if mock_mode then mockCallService service action else defaultCallService service action params)"

section \<open>Declared inputs and inbound hooks\<close>





record inbound_route =
  ib_orbital :: string
  ib_traitName :: string
  ib_event :: string
  ib_credential :: "string option"

text \<open>\<open>@almadar/core\<close>'s part of an inbound hook: its payload and the answers.\<close>

record ('d, 'a) inbound_core =
  ic_payload :: "inbound_route \<Rightarrow> 'd \<Rightarrow> string option \<Rightarrow> jobj"
  ic_answer :: "inbound_route \<Rightarrow> emitted_event list \<Rightarrow> string option \<Rightarrow> 'a"
  ic_unknown :: "string \<Rightarrow> 'a"
  ic_failed :: "string \<Rightarrow> 'a"

definition inbound_request :: "('d, 'a) inbound_core \<Rightarrow> inbound_route \<Rightarrow> 'd \<Rightarrow> string option \<Rightarrow> server_request" where
  "inbound_request ic route delivery held =
     (plain_request (ib_event route))\<lparr>eq_payload := Some (ic_payload ic route delivery held), eq_targetTrait := Some (ib_traitName route)\<rparr>"

text \<open>\<open>find_route\<close> is \<open>findInbound\<close> of the program's schema, or nothing without one.\<close>

definition dispatchInbound :: "(string \<Rightarrow> inbound_route option) option \<Rightarrow> ('d, 'a) inbound_core \<Rightarrow> string \<Rightarrow> 'd \<Rightarrow>
    (string \<Rightarrow> server_request \<Rightarrow> 's \<Rightarrow> (string + event_response) \<times> 's) \<Rightarrow> (string \<Rightarrow> 's \<Rightarrow> (string + string option) \<times> 's) \<Rightarrow>
    's \<Rightarrow> 'a \<times> 's" where
  "dispatchInbound find_route ic name delivery send credential s =
     (case Option.bind find_route (\<lambda>f. f name) of
        None \<Rightarrow> (ic_unknown ic name, s)
      | Some route \<Rightarrow>
          (case sbind (case ib_credential route of None \<Rightarrow> (\<lambda>s. (Inr None, s)) | Some c \<Rightarrow> credential c)
              (\<lambda>held. send (ib_orbital route) (inbound_request ic route delivery held)) s of
             (Inl m, s1) \<Rightarrow> (ic_failed ic m, s1)
           | (Inr response, s1) \<Rightarrow> (ic_answer ic route (rs_emitted response) (rs_error response), s1)))"


section \<open>The routes\<close>


datatype sse_frame = PushFrame push_item | CompleteFrame event_response | ErrorFrame string | DoneFrame

datatype http_reply = Reply nat event_response | NextError string | Stream "sse_frame list"

text \<open>\<open>POST /:orbital/events\<close>: \<open>viewer\<close> is \<open>viewerOf(req.authUser)\<close>; the user of the body is overwritten by it.\<close>

definition events_route :: "'x server_parts \<Rightarrow> (string \<Rightarrow> server_request \<Rightarrow> event_response option) \<Rightarrow>
    ('x server \<Rightarrow> (string + jval) \<times> 'x server) \<Rightarrow> bool \<Rightarrow> string \<Rightarrow> server_request \<Rightarrow> 'x server \<Rightarrow> http_reply \<times> 'x server" where
  "events_route sp refuse viewer wantsStream orbitalName body s =
     (case refuse orbitalName body of
        Some refused \<Rightarrow> (Reply 403 refused, s)
      | None \<Rightarrow>
          (case viewer s of
             (Inl m, s1) \<Rightarrow> (if wantsStream then Stream [ErrorFrame m, DoneFrame] else NextError m, s1)
           | (Inr user, s1) \<Rightarrow>
               (case processOrbitalEvent sp orbitalName (body\<lparr>eq_user := Some user\<rparr>) s1 of
                  (response, pushed, s2) \<Rightarrow>
                    (if wantsStream then Stream (map PushFrame pushed @ [CompleteFrame response, DoneFrame]) else Reply 200 response, s2))))"


section \<open>What a client cannot decide\<close>







text \<open>A program with one orbital, whose kernel answers every request.\<close>

definition one_orbital :: "unit server" where
  "one_orbital = \<lparr>sv_orbitals = [(''Cart'', \<lparr>ro_name = ''Cart'', ro_id = None, ro_traits = []\<rparr>)], sv_mounts = [],
     sv_relay = \<lparr>tr_pending = [], tr_timer = False\<rparr>, sv_defaultUser = None, sv_appLocales = [], sv_kernel = True,
     sv_liveSink = True, sv_hostSink = False, sv_epoch = True, sv_out = [], sv_rest = ()\<rparr>"

definition saved_event :: emitted_event where
  "saved_event = \<lparr>em_event = ''SAVED'', em_payload = None, em_source = Some [(''trait'', JStr ''Browse''), (''persistSuccess'', JBool True)]\<rparr>"

definition saving :: "unit server_parts" where
  "saving = \<lparr>sp_lifecycle = [''INIT''], sp_normalize = id, sp_prepare = Pair (Inr ()), sp_settled = id, sp_turn = id,
     sp_run = (\<lambda>orb req user locale s. (Inr (quiet_response\<lparr>rs_emitted := [saved_event]\<rparr>), s))\<rparr>"


section \<open>What is published\<close>

definition bus_emits :: "server_output list \<Rightarrow> (string \<times> jobj option \<times> jobj option) list" where
  "bus_emits outs = concat (map (\<lambda>out. case out of BusEmit ev payload source key \<Rightarrow> [(ev, payload, source)] | _ \<Rightarrow> []) outs)"

definition live_items :: "server_output list \<Rightarrow> live_item list" where
  "live_items outs = concat (map (\<lambda>out. case out of LiveSent li \<Rightarrow> [li] | _ \<Rightarrow> []) outs)"

lemma output_parts [simp]:
  "bus_emits (as @ bs) = bus_emits as @ bus_emits bs" "live_items (as @ bs) = live_items as @ live_items bs"
  "bus_emits [] = []" "live_items [] = []"
  "bus_emits (map HopSeen hs) = []" "live_items (map HopSeen hs) = []"
  by (auto simp: bus_emits_def live_items_def)

lemma publish_emitted_parts:
  "bus_emits (concat (map (publish_emitted sink c) es)) = map (\<lambda>e. (em_event e, em_payload e, em_source e)) es"
  "live_items (concat (map (publish_emitted sink c) es)) = (if sink then map (live_of c) (filter persisted es) else [])"
  by (induction es) (auto simp: publish_emitted_def bus_emits_def live_items_def)

text \<open>
  C29: What the kernel's response emits is published once each, in the order of the response: every emit
  to the event bus and to the requester's stream, then its client effects; and to the other clients,
  as peers of the requester, exactly the emits that report a persisted change, without the mark that
  says so.
\<close>
theorem published_as_answered:
  assumes "undeclared_locale req s = None" and "sv_kernel s"
    and "sp_run sp (ro_name reg) (server_request_of req) (viewer_of sp req s) (eq_locale req) s = (Inr r, s1)"
  shows "\<exists>outs s'. evaluateForOrbital sp reg req s = (Inr r, map PushEvent (rs_emitted r) @ map PushEffect (rs_clientEffects r), s') \<and>
    s' = s1\<lparr>sv_out := sv_out s1 @ outs\<rparr> \<and>
    bus_emits outs = map (\<lambda>e. (em_event e, em_payload e, em_source e)) (rs_emitted r) \<and>
    live_items outs = (if sv_liveSink s1 then map (live_of (eq_clientId req)) (filter persisted (rs_emitted r)) else []) \<and>
    (\<forall>li \<in> set (live_items outs). li_target li = Peers \<and> obj_get (li_source li) ''persistSuccess'' = None)"
proof -
  have unmarked: "map_of (filter (\<lambda>(k, v). k \<noteq> ''persistSuccess'') src) ''persistSuccess'' = None" for src :: jobj
    by (auto simp: map_of_eq_None_iff)
  define outs where "outs = map HopSeen (rs_hops r) @ concat (map (publish_emitted (sv_liveSink s1) (eq_clientId req)) (rs_emitted r))"
  have "evaluateForOrbital sp reg req s = (Inr r, map PushEvent (rs_emitted r) @ map PushEffect (rs_clientEffects r), s1\<lparr>sv_out := sv_out s1 @ outs\<rparr>)"
    using assms by (simp add: evaluateForOrbital_def publishKernelResponse_def send_out_def outs_def)
  moreover have "live_items outs = (if sv_liveSink s1 then map (live_of (eq_clientId req)) (filter persisted (rs_emitted r)) else [])"
    "bus_emits outs = map (\<lambda>e. (em_event e, em_payload e, em_source e)) (rs_emitted r)"
    by (simp_all add: outs_def publish_emitted_parts)
  ultimately show ?thesis by (auto simp: live_of_def obj_get_def unmarked intro!: exI [of _ outs])
qed

theorem published_as_answered_witness:
  "\<exists>outs s'. evaluateForOrbital saving \<lparr>ro_name = ''Cart'', ro_id = None, ro_traits = []\<rparr> (plain_request ''SAVE'') one_orbital =
      (Inr (quiet_response\<lparr>rs_emitted := [saved_event]\<rparr>), [PushEvent saved_event], s') \<and>
    live_items outs = [live_of None saved_event]"
  using published_as_answered [of "plain_request ''SAVE''" one_orbital saving "\<lparr>ro_name = ''Cart'', ro_id = None, ro_traits = []\<rparr>"
      "quiet_response\<lparr>rs_emitted := [saved_event]\<rparr>" one_orbital]
  by (auto simp: undeclared_locale_def plain_request_def one_orbital_def saving_def quiet_response_def persisted_def saved_event_def obj_get_def)

section \<open>The stream\<close>

text \<open>
  Asking for a stream changes how the answer travels and nothing else: the runtime ends in the same
  state; a refusal is the same reply; a stream always ends with its last frame, after either the
  response the plain reply carries or the error the plain route passes on, and what it pushed before
  is what that dispatch, run as the authenticated viewer, published.
\<close>
theorem stream_carries_reply:
  assumes "events_route sp refuse viewer False orb body s = (plain, s1)"
    and "events_route sp refuse viewer True orb body s = (streamed, s2)"
  shows "s1 = s2 \<and> (case plain of
      Reply code r \<Rightarrow> (if code = 403 then refuse orb body = Some r \<and> streamed = plain
        else code = 200 \<and> (\<exists>user s0 ps. viewer s = (Inr user, s0) \<and>
          processOrbitalEvent sp orb (body\<lparr>eq_user := Some user\<rparr>) s0 = (r, ps, s1) \<and>
          streamed = Stream (map PushFrame ps @ [CompleteFrame r, DoneFrame])))
    | NextError m \<Rightarrow> streamed = Stream [ErrorFrame m, DoneFrame]
    | Stream fs \<Rightarrow> False)"
  using assms by (auto simp: events_route_def split: option.splits sum.splits prod.splits)

theorem stream_carries_reply_witness:
  "\<exists>streamed s'. events_route saving (\<lambda>_ _. None) (Pair (Inl ''no token'')) True ''Cart'' (plain_request ''SAVE'') one_orbital = (streamed, s') \<and>
     streamed = Stream [ErrorFrame ''no token'', DoneFrame]"
proof -
  have "events_route saving (\<lambda>_ _. None) (Pair (Inl ''no token'')) False ''Cart'' (plain_request ''SAVE'') one_orbital = (NextError ''no token'', one_orbital)"
    by (simp add: events_route_def)
  moreover obtain streamed s' where
    e: "events_route saving (\<lambda>_ _. None) (Pair (Inl ''no token'')) True ''Cart'' (plain_request ''SAVE'') one_orbital = (streamed, s')"
    by fastforce
  ultimately have "streamed = Stream [ErrorFrame ''no token'', DoneFrame]" using stream_carries_reply [OF _ e] by fastforce
  then show ?thesis using e by blast
qed

end
