(* ===== verification/ChannelTransport.thy ===== *)
theory ChannelTransport
  imports ServerDispatch "HOL-Library.Multiset"
begin

text \<open>
  The event transport over a message channel (\<open>server/channel-transport.ts\<close>): the view half, the host
  half and the channel that holds early messages. Both halves run over two in-order queues of messages;
  the theory follows every request through them.
\<close>

section \<open>Messages\<close>

datatype push_target = ToPeers | ToOrigin

datatype channel_message =
    MRegister nat string
  | MRegistered nat bool
  | MSend nat string server_request
  | MReply nat event_response
  | MPush emitted_event push_target
  | MDispatched string server_request event_response

definition CLOSED :: string where
  "CLOSED = ''The host closed the channel before answering''"

definition closedReply :: "nat \<Rightarrow> channel_message" where
  "closedReply i = MReply i (failed_response CLOSED)"

section \<open>The view half\<close>

text \<open>\<open>vw_settled\<close> is what the promises made so far were resolved with, by the id of their request.\<close>

record view_half =
  vw_next :: nat
  vw_pending :: "nat list"
  vw_closed :: bool
  vw_settled :: "(nat \<times> channel_message) list"

definition new_view :: view_half where
  "new_view = \<lparr>vw_next = 1, vw_pending = [], vw_closed = False, vw_settled = []\<rparr>"

definition settle_view :: "nat \<Rightarrow> channel_message \<Rightarrow> view_half \<Rightarrow> view_half" where
  "settle_view i m v = v\<lparr>vw_pending := removeAll i (vw_pending v), vw_settled := vw_settled v @ [(i, m)]\<rparr>"

definition view_receive :: "channel_message \<Rightarrow> view_half \<Rightarrow> view_half" where
  "view_receive m v =
     (case m of
        MRegistered i held \<Rightarrow> if i \<in> set (vw_pending v) then settle_view i m v else v
      | MReply i response \<Rightarrow> if i \<in> set (vw_pending v) then settle_view i m v else v
      | _ \<Rightarrow> v)"

definition view_close :: "view_half \<Rightarrow> view_half" where
  "view_close v = v\<lparr>vw_closed := True, vw_pending := [],
     vw_settled := vw_settled v @ map (\<lambda>i. (i, closedReply i)) (vw_pending v)\<rparr>"

definition view_request :: "(nat \<Rightarrow> channel_message) \<Rightarrow> view_half \<Rightarrow> channel_message list \<times> view_half" where
  "view_request build v =
     (let i = vw_next v; v1 = v\<lparr>vw_next := i + 1\<rparr>
      in if vw_closed v then ([], v1\<lparr>vw_settled := vw_settled v1 @ [(i, closedReply i)]\<rparr>)
         else ([build i], v1\<lparr>vw_pending := vw_pending v1 @ [i]\<rparr>))"

definition view_unregister :: "view_half \<Rightarrow> view_half" where
  "view_unregister v = v\<lparr>vw_pending := []\<rparr>"

text \<open>What the promises of \<open>register\<close> and \<open>send\<close> make of the reply.\<close>

fun register_success :: "channel_message \<Rightarrow> bool" where
  "register_success (MRegistered i held) = held"
| "register_success m = False"

fun send_result :: "channel_message \<Rightarrow> event_response" where
  "send_result (MReply i response) = response"
| "send_result m = failed_response ''The host answered out of protocol''"

text \<open>The subscriptions: what a message pushes to \<open>subscribe\<close> and \<open>subscribeHostDispatches\<close>.\<close>

fun pushed_event :: "channel_message \<Rightarrow> (emitted_event \<times> push_target) option" where
  "pushed_event (MPush e target) = Some (e, target)"
| "pushed_event m = None"

fun pushed_dispatch :: "channel_message \<Rightarrow> (string \<times> server_request \<times> event_response) option" where
  "pushed_dispatch (MDispatched ob req response) = Some (ob, req, response)"
| "pushed_dispatch m = None"

section \<open>The host half\<close>

text \<open>
  \<open>serveChannel\<close>: a registration is answered at once, a dispatch is started on the transport; its
  end, a response or the message of an error, is the reply.
\<close>

datatype host_action = HostPost channel_message | HostDispatch nat string server_request

definition serve_message :: "string \<Rightarrow> channel_message \<Rightarrow> host_action list" where
  "serve_message schemaName m =
     (case m of
        MRegister i name \<Rightarrow> [HostPost (MRegistered i (name = schemaName))]
      | MSend i ob req \<Rightarrow> [HostDispatch i ob req]
      | _ \<Rightarrow> [])"

definition host_reply :: "nat \<Rightarrow> string + event_response \<Rightarrow> channel_message" where
  "host_reply i outcome = MReply i (case outcome of Inl m \<Rightarrow> failed_response m | Inr response \<Rightarrow> response)"

section \<open>Early messages are held\<close>

record held_channel =
  hc_held :: "channel_message list option"
  hc_delivered :: "channel_message list" \<comment> \<open>what the first listener got\<close>
  hc_listening :: bool

definition holdUntilServed :: held_channel where
  "holdUntilServed = \<lparr>hc_held = Some [], hc_delivered = [], hc_listening = False\<rparr>"

definition held_receive :: "channel_message \<Rightarrow> held_channel \<Rightarrow> held_channel" where
  "held_receive m h =
     (case hc_held h of
        Some early \<Rightarrow> h\<lparr>hc_held := Some (early @ [m])\<rparr>
      | None \<Rightarrow> if hc_listening h then h\<lparr>hc_delivered := hc_delivered h @ [m]\<rparr> else h)"

text \<open>The first \<open>onMessage\<close>: what was held is handed over in order.\<close>

definition held_listen :: "held_channel \<Rightarrow> held_channel" where
  "held_listen h =
     (case hc_held h of
        Some early \<Rightarrow> h\<lparr>hc_held := None, hc_listening := True, hc_delivered := hc_delivered h @ early\<rparr>
      | None \<Rightarrow> h\<lparr>hc_listening := True\<rparr>)"

section \<open>The two halves over a channel\<close>

text \<open>
  \<open>cn_asked\<close>, \<open>cn_sent\<close> and \<open>cn_answers\<close> record what was asked under which id and what the host's
  transport made of it; \<open>cn_dropped\<close> the ids that \<open>unregister\<close> forgot.
\<close>

record channel_net =
  cn_view :: view_half
  cn_toHost :: "channel_message list"
  cn_toView :: "channel_message list"
  cn_running :: "(nat \<times> string \<times> server_request) list"
  cn_asked :: "(nat \<times> string) list"
  cn_sent :: "(nat \<times> string \<times> server_request) list"
  cn_answers :: "(nat \<times> string \<times> server_request \<times> (string + event_response)) list"
  cn_dropped :: "nat list"

definition new_net :: channel_net where
  "new_net = \<lparr>cn_view = new_view, cn_toHost = [], cn_toView = [], cn_running = [], cn_asked = [], cn_sent = [], cn_answers = [], cn_dropped = []\<rparr>"

datatype net_action =
    ViewRegisters string | ViewSends string server_request | ViewUnregisters | HostReads | HostAnswers nat "string + event_response"
  | HostPushes emitted_event push_target | ViewReads | ChannelCloses

definition host_acts :: "host_action list \<Rightarrow> channel_net \<Rightarrow> channel_net" where
  "host_acts acts n = fold (\<lambda>act n. case act of
       HostPost m \<Rightarrow> n\<lparr>cn_toView := cn_toView n @ [m]\<rparr>
     | HostDispatch i ob req \<Rightarrow> n\<lparr>cn_running := cn_running n @ [(i, ob, req)]\<rparr>) acts n"

definition view_asks :: "(nat \<Rightarrow> channel_message) \<Rightarrow> channel_net \<Rightarrow> channel_net" where
  "view_asks build n = (let (ms, v) = view_request build (cn_view n) in n\<lparr>cn_view := v, cn_toHost := cn_toHost n @ ms\<rparr>)"

fun net_step :: "string \<Rightarrow> net_action \<Rightarrow> channel_net \<Rightarrow> channel_net option" where
  "net_step name (ViewRegisters asked) n = 
     Some (view_asks (\<lambda>i. MRegister i asked) (n\<lparr>cn_asked := cn_asked n @ [(vw_next (cn_view n), asked)]\<rparr>))"
| "net_step name (ViewSends ob req) n =
     Some (view_asks (\<lambda>i. MSend i ob req) (n\<lparr>cn_sent := cn_sent n @ [(vw_next (cn_view n), ob, req)]\<rparr>))"
| "net_step name ViewUnregisters n =
     Some (n\<lparr>cn_view := view_unregister (cn_view n), cn_dropped := cn_dropped n @ vw_pending (cn_view n)\<rparr>)"
| "net_step name HostReads n =
     (case cn_toHost n of [] \<Rightarrow> None | m # ms \<Rightarrow> Some (host_acts (serve_message name m) (n\<lparr>cn_toHost := ms\<rparr>)))"
| "net_step name (HostAnswers k outcome) n =
     (if k < length (cn_running n)
      then (case cn_running n ! k of (i, ob, req) \<Rightarrow>
          Some (n\<lparr>cn_running := take k (cn_running n) @ drop (Suc k) (cn_running n),
            cn_answers := cn_answers n @ [(i, ob, req, outcome)], cn_toView := cn_toView n @ [host_reply i outcome]\<rparr>))
      else None)"
| "net_step name (HostPushes e target) n = Some (n\<lparr>cn_toView := cn_toView n @ [MPush e target]\<rparr>)"
| "net_step name ViewReads n =
     (case cn_toView n of [] \<Rightarrow> None | m # ms \<Rightarrow> Some (n\<lparr>cn_toView := ms, cn_view := view_receive m (cn_view n)\<rparr>))"
| "net_step name ChannelCloses n = Some (n\<lparr>cn_view := view_close (cn_view n)\<rparr>)"

inductive net_reached :: "string \<Rightarrow> channel_net \<Rightarrow> bool" for name where
  initial: "net_reached name new_net"
| step: "net_reached name n \<Longrightarrow> net_step name a n = Some n' \<Longrightarrow> net_reached name n'"

section \<open>Every request is accounted for once\<close>

text \<open>A message travels in kind: what reaches the view answers what was asked under its id.\<close>

definition answers_request :: "string \<Rightarrow> channel_net \<Rightarrow> nat \<Rightarrow> channel_message \<Rightarrow> bool" where
  "answers_request name n i m \<longleftrightarrow>
     (\<exists>asked. (i, asked) \<in> set (cn_asked n) \<and> m = MRegistered i (asked = name))
     \<or> (\<exists>ob req outcome. (i, ob, req) \<in> set (cn_sent n) \<and> (i, ob, req, outcome) \<in> set (cn_answers n) \<and> m = host_reply i outcome)"

fun travels_to_host :: "channel_net \<Rightarrow> channel_message \<Rightarrow> bool" where
  "travels_to_host n (MRegister i asked) = ((i, asked) \<in> set (cn_asked n))"
| "travels_to_host n (MSend i ob req) = ((i, ob, req) \<in> set (cn_sent n))"
| "travels_to_host n m = False"

fun travels_to_view :: "string \<Rightarrow> channel_net \<Rightarrow> channel_message \<Rightarrow> bool" where
  "travels_to_view name n (MRegistered i held) = answers_request name n i (MRegistered i held)"
| "travels_to_view name n (MReply i r) = answers_request name n i (MReply i r)"
| "travels_to_view name n (MPush e target) = True"
| "travels_to_view name n m = False"

definition net_ok :: "string \<Rightarrow> channel_net \<Rightarrow> bool" where
  "net_ok name n \<longleftrightarrow>
     (\<forall>m\<in>set (cn_toHost n). travels_to_host n m)
     \<and> (\<forall>m\<in>set (cn_toView n). travels_to_view name n m)
     \<and> set (cn_running n) \<subseteq> set (cn_sent n)
     \<and> (\<forall>(i, m)\<in>set (vw_settled (cn_view n)). m = closedReply i \<or> answers_request name n i m)"

definition view_accounted :: "view_half \<Rightarrow> nat list \<Rightarrow> bool" where
  "view_accounted v dropped \<longleftrightarrow>
     0 < vw_next v
     \<and> mset (vw_pending v) + mset (map fst (vw_settled v)) + mset dropped = mset [1..<vw_next v]
     \<and> (vw_closed v \<longrightarrow> vw_pending v = [])"

lemma view_accountedD:
  assumes "view_accounted v dropped"
  shows "distinct (vw_pending v @ map fst (vw_settled v) @ dropped)"
proof -
  have "mset (vw_pending v @ map fst (vw_settled v) @ dropped) = mset [1..<vw_next v]"
    using assms by (simp add: view_accounted_def ac_simps)
  then show ?thesis using distinct_upt mset_eq_imp_distinct_iff by blast
qed

lemma mset_settled:
  assumes "distinct p" "i \<in> set p"
  shows "add_mset i (mset (removeAll i p)) = mset p"
  using assms by (simp add: distinct_remove1_removeAll [symmetric])

lemma settle_accounted:
  assumes "view_accounted v dropped" "i \<in> set (vw_pending v)"
  shows "view_accounted (settle_view i m v) dropped"
proof -
  have "add_mset i (mset (removeAll i (vw_pending v))) = mset (vw_pending v)"
    using view_accountedD [OF assms(1)] assms(2) by (intro mset_settled) auto
  then show ?thesis
    using assms(1) by (simp add: view_accounted_def settle_view_def flip: union_mset_add_mset_left)
qed

lemma receive_accounted: "view_accounted v dropped \<Longrightarrow> view_accounted (view_receive m v) dropped"
  by (auto simp: view_receive_def settle_accounted split: channel_message.split)

lemma close_accounted: "view_accounted v dropped \<Longrightarrow> view_accounted (view_close v) dropped"
  by (simp add: view_accounted_def view_close_def comp_def ac_simps)

lemma unregister_accounted: "view_accounted v dropped \<Longrightarrow> view_accounted (view_unregister v) (dropped @ vw_pending v)"
  by (simp add: view_accounted_def view_unregister_def ac_simps)

lemma request_accounted: "view_accounted v dropped \<Longrightarrow> view_accounted (snd (view_request build v)) dropped"
  by (auto simp: view_accounted_def view_request_def Let_def ac_simps atLeastLessThanSuc)

lemma host_acts_serve [simp]:
  "cn_view (host_acts (serve_message name m) n) = cn_view n"
  "cn_dropped (host_acts (serve_message name m) n) = cn_dropped n"
  "cn_toHost (host_acts (serve_message name m) n) = cn_toHost n"
  "cn_sent (host_acts (serve_message name m) n) = cn_sent n"
  "cn_asked (host_acts (serve_message name m) n) = cn_asked n"
  "cn_answers (host_acts (serve_message name m) n) = cn_answers n"
  by (cases m; simp add: host_acts_def serve_message_def)+

lemma net_accounted: "net_reached name n \<Longrightarrow> view_accounted (cn_view n) (cn_dropped n)"
proof (induction rule: net_reached.induct)
  case initial
  show ?case by (simp add: new_net_def new_view_def view_accounted_def)
next
  case (step n a n')
  then show ?case
    by (cases a) (auto simp: view_asks_def split_beta request_accounted unregister_accounted receive_accounted close_accounted
        split: list.splits if_splits prod.splits)
qed

section \<open>Every answer is to its question\<close>

lemma answers_request_mono:
  assumes "answers_request name n i m"
    "set (cn_asked n) \<subseteq> set (cn_asked n')" "set (cn_sent n) \<subseteq> set (cn_sent n')" "set (cn_answers n) \<subseteq> set (cn_answers n')"
  shows "answers_request name n' i m"
  using assms unfolding answers_request_def by blast

lemma travels_to_host_mono:
  assumes "travels_to_host n m" "set (cn_asked n) \<subseteq> set (cn_asked n')" "set (cn_sent n) \<subseteq> set (cn_sent n')"
  shows "travels_to_host n' m"
  using assms by (cases m) auto

lemma travels_to_view_mono:
  assumes "travels_to_view name n m"
    "set (cn_asked n) \<subseteq> set (cn_asked n')" "set (cn_sent n) \<subseteq> set (cn_sent n')" "set (cn_answers n) \<subseteq> set (cn_answers n')"
  shows "travels_to_view name n' m"
  using assms by (cases m) (auto intro: answers_request_mono)

text \<open>A step that only extends the record keeps what was there; it has to answer for what it adds.\<close>

lemma net_okI:
  assumes "net_ok name n"
    and grows: "set (cn_asked n) \<subseteq> set (cn_asked n')" "set (cn_sent n) \<subseteq> set (cn_sent n')" "set (cn_answers n) \<subseteq> set (cn_answers n')"
    and host: "\<And>m. m \<in> set (cn_toHost n') \<Longrightarrow> m \<in> set (cn_toHost n) \<or> travels_to_host n' m"
    and view: "\<And>m. m \<in> set (cn_toView n') \<Longrightarrow> m \<in> set (cn_toView n) \<or> travels_to_view name n' m"
    and running: "set (cn_running n') \<subseteq> set (cn_running n) \<union> set (cn_sent n')"
    and settled: "\<And>i m. (i, m) \<in> set (vw_settled (cn_view n')) \<Longrightarrow>
        (i, m) \<in> set (vw_settled (cn_view n)) \<or> m = closedReply i \<or> answers_request name n' i m"
  shows "net_ok name n'"
  unfolding net_ok_def
proof (intro conjI ballI)
  fix m assume "m \<in> set (cn_toHost n')"
  then show "travels_to_host n' m"
    using host assms(1) travels_to_host_mono [OF _ grows(1,2)] unfolding net_ok_def by blast
next
  fix m assume "m \<in> set (cn_toView n')"
  then show "travels_to_view name n' m"
    using view assms(1) travels_to_view_mono [OF _ grows] unfolding net_ok_def by blast
next
  show "set (cn_running n') \<subseteq> set (cn_sent n')"
    using running assms(1) grows(2) unfolding net_ok_def by blast
next
  fix x assume "x \<in> set (vw_settled (cn_view n'))"
  then obtain i m where x: "x = (i, m)" "(i, m) \<in> set (vw_settled (cn_view n'))" by (metis surj_pair)
  have "(i, m) \<in> set (vw_settled (cn_view n)) \<Longrightarrow> m = closedReply i \<or> answers_request name n' i m"
    using assms(1) answers_request_mono [OF _ grows] unfolding net_ok_def by blast
  then show "case x of (i, m) \<Rightarrow> m = closedReply i \<or> answers_request name n' i m"
    using settled [OF x(2)] x(1) by auto
qed

lemma net_ok_asks:
  assumes "net_ok name n" "cn_view n' = cn_view n" "cn_toHost n' = cn_toHost n" "cn_toView n' = cn_toView n"
    "cn_running n' = cn_running n" "cn_answers n' = cn_answers n"
    "set (cn_asked n) \<subseteq> set (cn_asked n')" "set (cn_sent n) \<subseteq> set (cn_sent n')"
    "travels_to_host n' (build (vw_next (cn_view n)))"
  shows "net_ok name (view_asks build n')"
proof -
  let ?n = "view_asks build n'"
  have same: "cn_toView ?n = cn_toView n" "cn_running ?n = cn_running n" "cn_answers ?n = cn_answers n"
    "cn_asked ?n = cn_asked n'" "cn_sent ?n = cn_sent n'"
    using assms by (simp_all add: view_asks_def split_beta)
  have "travels_to_host ?n (build (vw_next (cn_view n)))"
    by (rule travels_to_host_mono [OF assms(9)]) (simp_all add: same)
  then show ?thesis
    using assms by (intro net_okI [OF assms(1)])
      (auto simp: same, auto simp: view_asks_def view_request_def Let_def split: if_splits)
qed

lemma net_ok_reads:
  assumes "net_ok name n" "cn_toHost n = m # ms"
  shows "net_ok name (host_acts (serve_message name m) (n\<lparr>cn_toHost := ms\<rparr>))"
proof -
  have travels: "travels_to_host n m" using assms by (simp add: net_ok_def)
  have sub: "set ms \<subseteq> set (cn_toHost n)" using assms(2) by auto
  show ?thesis
  proof (cases m)
    case (MRegister i asked)
    let ?n = "n\<lparr>cn_toHost := ms, cn_toView := cn_toView n @ [MRegistered i (asked = name)]\<rparr>"
    have "answers_request name ?n i (MRegistered i (asked = name))"
      using travels MRegister by (auto simp: answers_request_def)
    then have "net_ok name ?n" using sub by (intro net_okI [OF assms(1)]) auto
    then show ?thesis by (simp add: MRegister host_acts_def serve_message_def)
  next
    case (MSend i ob req)
    have "net_ok name (n\<lparr>cn_toHost := ms, cn_running := cn_running n @ [(i, ob, req)]\<rparr>)"
      using travels MSend sub by (intro net_okI [OF assms(1)]) auto
    then show ?thesis by (simp add: MSend host_acts_def serve_message_def)
  qed (use travels in auto)
qed

lemma view_receive_settled:
  "(i, m') \<in> set (vw_settled (view_receive m v)) \<Longrightarrow>
     (i, m') \<in> set (vw_settled v) \<or> (m' = m \<and> (case m of MRegistered j h \<Rightarrow> i = j | MReply j r \<Rightarrow> i = j | _ \<Rightarrow> False))"
  by (auto simp: view_receive_def settle_view_def split: channel_message.splits if_splits)

lemma net_step_ok:
  assumes "net_ok name n" "net_step name a n = Some n'"
  shows "net_ok name n'"
proof (cases a)
  case HostReads
  then show ?thesis using assms net_ok_reads by (auto split: list.splits)
next
  case ViewReads
  then obtain m ms where q: "cn_toView n = m # ms" and n': "n' = n\<lparr>cn_toView := ms, cn_view := view_receive m (cn_view n)\<rparr>"
    using assms by (auto split: list.splits)
  have "travels_to_view name n m" using assms(1) q by (simp add: net_ok_def)
  moreover have "answers_request name n' = answers_request name n"
    by (simp add: n' answers_request_def fun_eq_iff)
  ultimately show ?thesis
    using q by (intro net_okI [OF assms(1)])
      (auto simp: n' dest!: view_receive_settled split: channel_message.splits)
next
  case (HostAnswers k outcome)
  obtain i ob req where r: "cn_running n ! k = (i, ob, req)" by (cases "cn_running n ! k")
  have k: "k < length (cn_running n)" using assms(2) HostAnswers by (auto split: if_splits)
  then have "(i, ob, req) \<in> set (cn_sent n)" using assms(1) r nth_mem [OF k] by (auto simp: net_ok_def)
  moreover have n': "n' = n\<lparr>cn_running := take k (cn_running n) @ drop (Suc k) (cn_running n),
      cn_answers := cn_answers n @ [(i, ob, req, outcome)], cn_toView := cn_toView n @ [host_reply i outcome]\<rparr>"
    using assms(2) HostAnswers r k by simp
  ultimately have "answers_request name n' i (host_reply i outcome)"
    unfolding answers_request_def by (intro disjI2 exI [of _ ob] exI [of _ req] exI [of _ outcome]) simp
  then have "travels_to_view name n' (host_reply i outcome)" by (simp add: host_reply_def)
  then show ?thesis
    by (intro net_okI [OF assms(1)]) (auto simp: n' dest: in_set_takeD in_set_dropD)
next
  case (ViewRegisters asked)
  then show ?thesis using assms by (auto intro!: net_ok_asks [OF assms(1)])
next
  case (ViewSends ob req)
  then show ?thesis using assms by (auto intro!: net_ok_asks [OF assms(1)])
next
  case ViewUnregisters
  then have n': "n' = n\<lparr>cn_view := view_unregister (cn_view n), cn_dropped := cn_dropped n @ vw_pending (cn_view n)\<rparr>"
    using assms(2) by simp
  show ?thesis unfolding n' by (intro net_okI [OF assms(1)]) (auto simp: view_unregister_def)
next
  case (HostPushes e target)
  then show ?thesis using assms by (auto intro!: net_okI [OF assms(1)])
next
  case ChannelCloses
  then have n': "n' = n\<lparr>cn_view := view_close (cn_view n)\<rparr>" using assms(2) by simp
  show ?thesis unfolding n' by (intro net_okI [OF assms(1)]) (auto simp: view_close_def)
qed

lemma net_reached_ok: "net_reached name n \<Longrightarrow> net_ok name n"
proof (induction rule: net_reached.induct)
  case initial
  show ?case by (simp add: new_net_def new_view_def net_ok_def)
next
  case (step n a n')
  then show ?case by (blast intro: net_step_ok)
qed

text \<open>
  C13: however the messages of the two halves interleave, every request the view made is in exactly one
  place: waiting, settled once, or forgotten by \<open>unregister\<close>; after the channel closed none waits. What a
  request was settled with is the reply of a closed channel or what the host made of that very request.
\<close>
theorem channel_answers_its_question:
  assumes "net_reached name n"
  shows "mset (vw_pending (cn_view n)) + mset (map fst (vw_settled (cn_view n))) + mset (cn_dropped n)
           = mset [1..<vw_next (cn_view n)]
    \<and> (vw_closed (cn_view n) \<longrightarrow> vw_pending (cn_view n) = [])
    \<and> (\<forall>(i, m)\<in>set (vw_settled (cn_view n)). m = closedReply i
       \<or> (\<exists>asked. (i, asked) \<in> set (cn_asked n) \<and> m = MRegistered i (asked = name))
       \<or> (\<exists>ob req outcome. (i, ob, req) \<in> set (cn_sent n) \<and> (i, ob, req, outcome) \<in> set (cn_answers n) \<and> m = host_reply i outcome))"
  using net_accounted [OF assms] net_reached_ok [OF assms]
  unfolding view_accounted_def net_ok_def answers_request_def by blast

fun run_net :: "string \<Rightarrow> net_action list \<Rightarrow> channel_net \<Rightarrow> channel_net option" where
  "run_net name [] n = Some n"
| "run_net name (a # as) n = Option.bind (net_step name a n) (run_net name as)"

lemma run_net_reached: "net_reached name n \<Longrightarrow> run_net name acts n = Some n' \<Longrightarrow> net_reached name n'"
  by (induction acts arbitrary: n) (auto split: Option.bind_splits intro: net_reached.step)

definition sample_run :: "net_action list" where
  "sample_run = [ViewRegisters ''shop'', ViewSends ''Cart'' (plain_request ''ADD''), HostReads, HostReads, ViewSends ''Cart'' (plain_request ''PAY''),
     HostAnswers 0 (Inl ''no stock''), ViewReads, ViewReads, ViewUnregisters, ViewSends ''Cart'' (plain_request ''LEAVE''), ChannelCloses]"

theorem channel_answers_its_question_witness:
  "map_option (\<lambda>n. (vw_pending (cn_view n), vw_settled (cn_view n), cn_dropped n)) (run_net ''shop'' sample_run new_net)
     = Some ([], [(1, MRegistered 1 True), (2, MReply 2 (failed_response ''no stock'')), (4, closedReply 4)], [3])
   \<and> mset [1::nat, 2, 4] + mset [3] = mset [1..<5]"
proof -
  define n where "n = the (run_net ''shop'' sample_run new_net)"
  have run: "run_net ''shop'' sample_run new_net = Some n" unfolding n_def by code_simp
  have n: "vw_pending (cn_view n) = []" "cn_dropped n = [3]" "vw_next (cn_view n) = 5"
    "vw_settled (cn_view n) = [(1, MRegistered 1 True), (2, MReply 2 (failed_response ''no stock'')), (4, closedReply 4)]"
    unfolding n_def by code_simp+
  have "net_reached ''shop'' n" by (rule run_net_reached [OF net_reached.initial run])
  from channel_answers_its_question [OF this] show ?thesis
    unfolding run by (simp add: n)
qed

text \<open>
  What \<open>unregister\<close> forgot is never settled, whatever happens later: its promise never ends.
\<close>

lemma dropped_stays:
  assumes "net_step name a n = Some n'" shows "set (cn_dropped n) \<subseteq> set (cn_dropped n')"
  using assms by (cases a) (auto simp: view_asks_def split: list.splits if_splits prod.splits)

theorem unregister_strands_requests:
  assumes "net_reached name n" "i \<in> set (cn_dropped n)" "run_net name acts n = Some n'"
  shows "i \<notin> fst ` set (vw_settled (cn_view n'))"
proof -
  have "i \<in> set (cn_dropped n')"
    using assms(2,3)
  proof (induction acts arbitrary: n)
    case (Cons a as)
    then show ?case by (auto split: Option.bind_splits dest: dropped_stays)
  qed simp
  then show ?thesis
    using view_accountedD [OF net_accounted [OF run_net_reached [OF assms(1,3)]]] by auto
qed

section \<open>Held messages\<close>

text \<open>A served channel hands over every message, in the order they came, whenever it is first listened to.\<close>

theorem held_channel_loses_nothing:
  "hc_delivered (fold held_receive later (held_listen (fold held_receive early holdUntilServed))) = early @ later"
proof -
  have "fold held_receive ms h = h\<lparr>hc_held := Some (e @ ms)\<rparr>" if "hc_held h = Some e" for ms h e
    using that by (induction ms arbitrary: h e) (auto simp: held_receive_def)
  then have early: "fold held_receive early holdUntilServed = holdUntilServed\<lparr>hc_held := Some early\<rparr>"
    by (simp add: holdUntilServed_def)
  have "hc_delivered (fold held_receive ms h) = hc_delivered h @ ms" if "hc_held h = None" "hc_listening h" for ms h
    using that by (induction ms arbitrary: h) (auto simp: held_receive_def)
  then show ?thesis unfolding early by (simp add: held_listen_def holdUntilServed_def)
qed

end
