(* ===== verification/NodePath.thy ===== *)
theory NodePath
  imports Prelude
begin

text \<open>
  The functions of Node's \<open>path\<close> module (POSIX) that the loaders call: \<open>normalize\<close>, \<open>join\<close>,
  \<open>resolve\<close>, \<open>dirname\<close>, \<open>basename\<close> and \<open>isAbsolute\<close>, as the language's library defines them on
  strings, and what the loaders need of them: a resolved path is made of plain segments, and a
  path that starts with a directory's name and slash lies below that directory.
\<close>

section \<open>Strings\<close>

definition ends_with :: "string \<Rightarrow> string \<Rightarrow> bool" where
  "ends_with suffix s \<longleftrightarrow> starts_with (rev suffix) (rev s)"

lemma ends_with_iff: "ends_with suffix s \<longleftrightarrow> (\<exists>t. s = t @ suffix)"
proof
  assume "ends_with suffix s"
  then obtain t where "rev s = rev suffix @ t" by (auto simp: ends_with_def starts_with_iff)
  then have "s = rev t @ suffix" by (metis rev_append rev_rev_ident)
  then show "\<exists>t. s = t @ suffix" ..
next
  assume "\<exists>t. s = t @ suffix"
  then show "ends_with suffix s" by (auto simp: ends_with_def)
qed

text \<open>\<open>s.slice(s.lastIndexOf(c) + 1)\<close>, the part before the last \<open>c\<close>, and \<open>s.slice(0, s.indexOf(c))\<close>.\<close>

definition after_last :: "char \<Rightarrow> string \<Rightarrow> string" where
  "after_last c s = rev (takeWhile (\<lambda>x. x \<noteq> c) (rev s))"

definition before_last :: "char \<Rightarrow> string \<Rightarrow> string" where
  "before_last c s = rev (drop 1 (dropWhile (\<lambda>x. x \<noteq> c) (rev s)))"

definition before_first :: "char \<Rightarrow> string \<Rightarrow> string" where
  "before_first c s = takeWhile (\<lambda>x. x \<noteq> c) s"

lemma split_on_append:
  "split_on c (s @ c # t) = split_on c s @ split_on c t"
  by (induction s) (auto split: list.splits)

lemma after_last_no_sep: "c \<notin> set (after_last c s)"
  by (auto simp: after_last_def dest: set_takeWhileD)

section \<open>The path functions\<close>

type_synonym segments = "string list"

definition isAbsolute :: "string \<Rightarrow> bool" where
  "isAbsolute p \<longleftrightarrow> starts_with ''/'' p"

text \<open>
  \<open>normalizeString\<close>: the kept segments, last one first. \<open>..\<close> drops the last kept segment unless that
  is itself a \<open>..\<close>, and stays only where a relative path may climb.
\<close>

fun normal_step :: "bool \<Rightarrow> segments \<Rightarrow> string \<Rightarrow> segments" where
  "normal_step climb kept seg =
     (if seg = [] \<or> seg = ''.'' then kept
      else if seg = ''..'' then
        (case kept of
           k # ks \<Rightarrow> if k \<noteq> ''..'' then ks else if climb then seg # kept else kept
         | [] \<Rightarrow> if climb then [seg] else [])
      else seg # kept)"

definition normal_segments :: "bool \<Rightarrow> string \<Rightarrow> segments" where
  "normal_segments climb p = rev (foldl (normal_step climb) [] (split_on CHR ''/'' p))"

definition path_normalize :: "string \<Rightarrow> string" where
  "path_normalize p =
     (if p = [] then ''.''
      else let absolute = isAbsolute p; trailing = ends_with ''/'' p;
               body = join_with ''/'' (normal_segments (\<not> absolute) p)
           in if body = [] then (if absolute then ''/'' else if trailing then ''./'' else ''.'')
              else (if absolute then ''/'' else []) @ body @ (if trailing then ''/'' else []))"

definition path_join :: "string list \<Rightarrow> string" where
  "path_join parts =
     (let given = filter (\<lambda>p. p \<noteq> []) parts
      in if given = [] then ''.'' else path_normalize (join_with ''/'' given))"

text \<open>\<open>path.resolve(base, p)\<close> in the working directory \<open>cwd\<close>, which is absolute.\<close>

definition path_resolve :: "string \<Rightarrow> string \<Rightarrow> string \<Rightarrow> string" where
  "path_resolve cwd base p =
     (let joined = (if isAbsolute p then p
                    else if isAbsolute base then base @ ''/'' @ p
                    else cwd @ ''/'' @ base @ ''/'' @ p)
      in ''/'' @ join_with ''/'' (normal_segments False joined))"

definition strip_slashes :: "string \<Rightarrow> string" where
  "strip_slashes p = rev (dropWhile (\<lambda>c. c = CHR ''/'') (rev p))"

definition path_dirname :: "string \<Rightarrow> string" where
  "path_dirname p =
     (if p = [] then ''.''
      else let inner = strip_slashes (drop 1 p); parent = before_last CHR ''/'' inner
           in if CHR ''/'' \<in> set inner then
                (if isAbsolute p \<and> parent = [] then ''//'' else hd p # parent)
              else if isAbsolute p then ''/'' else ''.'')"

definition path_basename :: "string \<Rightarrow> string" where
  "path_basename p = after_last CHR ''/'' (strip_slashes p)"

section \<open>Plain segments\<close>

definition plain :: "string \<Rightarrow> bool" where
  "plain s \<longleftrightarrow> s \<noteq> [] \<and> s \<noteq> ''.'' \<and> s \<noteq> ''..'' \<and> CHR ''/'' \<notin> set s"

text \<open>\<open>inside dir p\<close>: \<open>p\<close> is a way down from the directory whose text, with its slash, is \<open>dir\<close>.\<close>

definition inside :: "string \<Rightarrow> string \<Rightarrow> bool" where
  "inside dir p \<longleftrightarrow> (\<exists>segs. segs \<noteq> [] \<and> (\<forall>s\<in>set segs. plain s) \<and> p = dir @ join_with ''/'' segs)"

lemma join_with_snoc: "ws \<noteq> [] \<Longrightarrow> join_with c (ws @ [w]) = join_with c ws @ c @ w"
  by (induction c ws rule: join_with.induct) auto

lemma normal_fold_plain:
  assumes "\<forall>s\<in>set kept. plain s" "\<forall>s\<in>set segs. CHR ''/'' \<notin> set s"
  shows "\<forall>s\<in>set (foldl (normal_step False) kept segs). plain s"
  using assms
proof (induction segs arbitrary: kept)
  case (Cons seg segs)
  have "\<forall>s\<in>set (normal_step False kept seg). plain s"
    using Cons.prems by (cases kept) (auto simp: plain_def)
  then show ?case using Cons by simp
qed simp

lemma normal_segments_plain: "s \<in> set (normal_segments False p) \<Longrightarrow> plain s"
  using normal_fold_plain [of "[]" "split_on CHR ''/'' p"] split_on_segment_no_sep
  by (auto simp: normal_segments_def)

lemma normal_fold_of_plain:
  "\<forall>s\<in>set segs. plain s \<Longrightarrow> foldl (normal_step climb) kept segs = rev segs @ kept"
  by (induction segs arbitrary: kept) (auto simp: plain_def)

lemma join_plain_last:
  assumes "segs \<noteq> []" "\<forall>s\<in>set segs. plain s"
  shows "join_with ''/'' segs \<noteq> [] \<and> hd (join_with ''/'' segs) \<noteq> CHR ''/'' \<and> last (join_with ''/'' segs) \<noteq> CHR ''/''"
  using assms
proof (induction "''/''" segs rule: join_with.induct)
  case (2 w)
  then show ?case by (auto simp: plain_def dest: last_in_set hd_in_set)
next
  case (3 w v ws)
  then show ?case by (auto simp: plain_def dest: last_in_set hd_in_set)
qed simp

lemma ends_with_slash: "ends_with ''/'' s \<longleftrightarrow> s \<noteq> [] \<and> last s = CHR ''/''"
  by (auto simp: ends_with_iff) (metis append_butlast_last_id)

lemma isAbsolute_iff: "isAbsolute p \<longleftrightarrow> p \<noteq> [] \<and> hd p = CHR ''/''"
  by (cases p) (auto simp: isAbsolute_def starts_with_iff)

lemma split_rooted:
  assumes "segs \<noteq> []" "\<forall>s\<in>set segs. plain s"
  shows "split_on CHR ''/'' (''/'' @ join_with ''/'' segs) = [] # segs"
  using split_on_join [of segs "CHR ''/''"] assms by (simp add: plain_def)

text \<open>A rooted way of plain segments is its own normal form.\<close>

lemma normalize_rooted:
  assumes "segs \<noteq> []" "\<forall>s\<in>set segs. plain s"
  shows "path_normalize (''/'' @ join_with ''/'' segs) = ''/'' @ join_with ''/'' segs"
proof -
  let ?p = "''/'' @ join_with ''/'' segs"
  have "normal_segments False ?p = segs"
    unfolding normal_segments_def split_rooted [OF assms]
    by (simp add: normal_fold_of_plain [OF assms(2)])
  moreover have "\<not> ends_with ''/'' ?p" "isAbsolute ?p"
    using join_plain_last [OF assms] by (auto simp: ends_with_slash isAbsolute_iff)
  ultimately show ?thesis
    using join_plain_last [OF assms] by (simp add: path_normalize_def Let_def)
qed

text \<open>What normalising or resolving gives: a rooted way, perhaps with the slash of a directory.\<close>

lemma normalize_absolute:
  assumes "isAbsolute p"
  obtains segs where "\<forall>s\<in>set segs. plain s"
    and "path_normalize p = ''/'' @ join_with ''/'' segs @ (if ends_with ''/'' p \<and> segs \<noteq> [] then ''/'' else [])"
proof
  let ?segs = "normal_segments False p"
  show plain: "\<forall>s\<in>set ?segs. plain s" using normal_segments_plain by blast
  have "join_with ''/'' ?segs = [] \<longleftrightarrow> ?segs = []"
    using join_plain_last [OF _ plain] by auto
  moreover have "p \<noteq> []" using assms by (simp add: isAbsolute_iff)
  ultimately show "path_normalize p = ''/'' @ join_with ''/'' ?segs @ (if ends_with ''/'' p \<and> ?segs \<noteq> [] then ''/'' else [])"
    using assms by (auto simp: path_normalize_def Let_def)
qed

lemma normalize_isAbsolute: "isAbsolute p \<Longrightarrow> isAbsolute (path_normalize p)"
  by (erule normalize_absolute) (simp add: isAbsolute_iff)

lemma normalize_ends_slash:
  assumes "isAbsolute p" "ends_with ''/'' p"
  shows "ends_with ''/'' (path_normalize p)"
proof -
  obtain segs where "path_normalize p = ''/'' @ join_with ''/'' segs @ (if ends_with ''/'' p \<and> segs \<noteq> [] then ''/'' else [])"
    using normalize_absolute [OF assms(1)] by blast
  then show ?thesis using assms(2) by (auto simp: ends_with_slash)
qed

text \<open>A rooted way that starts with a directory's text and its slash is a way down from there.\<close>

lemma starts_with_inside:
  assumes "segs \<noteq> []" "\<forall>s\<in>set segs. plain s" "ends_with ''/'' dir" "starts_with dir (''/'' @ join_with ''/'' segs)"
  shows "inside dir (''/'' @ join_with ''/'' segs)"
proof -
  let ?p = "''/'' @ join_with ''/'' segs"
  obtain t where t: "?p = dir @ t" using assms(4) by (auto simp: starts_with_iff)
  obtain b where b: "dir = b @ ''/''" using assms(3) by (auto simp: ends_with_iff)
  have "[] # segs = split_on CHR ''/'' b @ split_on CHR ''/'' t"
    using split_rooted [OF assms(1,2)] split_on_append [of "CHR ''/''" b t] unfolding t b by simp
  moreover have "split_on CHR ''/'' b \<noteq> []" by simp
  ultimately have "set (split_on CHR ''/'' t) \<subseteq> set segs"
    by (cases "split_on CHR ''/'' b") auto
  then have "\<forall>s\<in>set (split_on CHR ''/'' t). plain s" using assms(2) by blast
  moreover have "?p = dir @ join_with ''/'' (split_on CHR ''/'' t)" unfolding t by (simp add: join_split_on)
  ultimately show ?thesis unfolding inside_def using split_on_nonempty by blast
qed

lemma split_on_append_plain:
  assumes "c \<notin> set t"
  shows "split_on c (s @ t) = butlast (split_on c s) @ [last (split_on c s) @ t]"
proof (induction s)
  case Nil
  show ?case using assms by (simp add: split_on_no_sep)
next
  case (Cons x s)
  obtain w ws where w: "split_on c s = w # ws" by (meson neq_Nil_conv split_on_nonempty)
  show ?case using Cons by (simp add: w)
qed

lemma split_on_last_suffix:
  assumes "c \<notin> set t" "ends_with t p"
  obtains init w where "split_on c p = init @ [w @ t]"
  using assms by (auto simp: ends_with_iff split_on_append_plain)

text \<open>The normal form of a rooted path that ends in an extension ends in it too.\<close>

lemma normalize_extension:
  assumes "isAbsolute p" "ends_with ext p" "CHR ''/'' \<notin> set ext" "2 < length ext"
  obtains segs where "segs \<noteq> []" "\<forall>s\<in>set segs. plain s" "path_normalize p = ''/'' @ join_with ''/'' segs"
    "ends_with ext (path_normalize p)"
proof -
  obtain init w where w: "split_on CHR ''/'' p = init @ [w @ ext]"
    using split_on_last_suffix [OF assms(3,2)] by blast
  have kept: "w @ ext \<noteq> []" "w @ ext \<noteq> ''.''" "w @ ext \<noteq> ''..''"
    using assms(4) by (auto simp: append_eq_Cons_conv)
  define segs where "segs = normal_segments False p"
  have segs: "segs = rev (foldl (normal_step False) [] init) @ [w @ ext]"
    unfolding segs_def normal_segments_def w using kept by simp
  have plain: "\<forall>s\<in>set segs. plain s" unfolding segs_def using normal_segments_plain by blast
  have noslash: "\<not> ends_with ''/'' p"
    using assms(2-4) by (auto simp: ends_with_iff append_eq_append_conv2 append_eq_Cons_conv)
  have ne: "segs \<noteq> []" using segs by simp
  have eq: "path_normalize p = ''/'' @ join_with ''/'' segs"
    using assms(1) noslash join_plain_last [OF ne plain]
    by (auto simp: path_normalize_def Let_def segs_def isAbsolute_iff)
  have "ends_with ext (path_normalize p)"
  proof (cases "rev (foldl (normal_step False) [] init) = []")
    case True
    then show ?thesis unfolding eq segs by (simp add: ends_with_iff)
  next
    case False
    then show ?thesis unfolding eq segs by (simp add: join_with_snoc ends_with_iff)
  qed
  with ne plain eq show ?thesis by (rule that)
qed

lemma join_rooted:
  assumes "isAbsolute dir"
  shows "isAbsolute (path_join [dir, name])"
proof -
  have "isAbsolute (join_with ''/'' (filter (\<lambda>p. p \<noteq> []) [dir, name]))"
    using assms by (auto simp: isAbsolute_iff)
  moreover have "dir \<noteq> []" using assms by (simp add: isAbsolute_iff)
  ultimately show ?thesis by (auto simp: path_join_def Let_def intro: normalize_isAbsolute)
qed

end
