(* ===== verification/ExternalLoader.thy ===== *)
theory ExternalLoader
  imports JsText Json NodePath "HOL-Library.AList"
begin

text \<open>
  The loader of \<open>.orb\<close> files from disk (\<open>entities/loader/external-loader.ts\<close>): import chains, the
  browse form of an import, the resolution of every form of import path, the search of the behavior
  registries, the file reader and the cache. The file system, the packages of \<open>@almadar/core\<close>, its
  schema parser and \<open>JSON.parse\<close> are a record of functions; an operation is given the file system as
  it is when it runs. Characters are bytes here, so a long dash in a message is written as a hyphen.
\<close>

section \<open>Results\<close>

text \<open>
  A \<open>LoadResult\<close> is a sum; \<open>'a loaded_or_thrown\<close> adds the exceptions the code does not turn into
  one: \<open>Inl\<close> is a throw, \<open>Inr (Inl e)\<close> is \<open>{success: false, error: e}\<close>.
\<close>

type_synonym 'a load_result = "string + 'a"
type_synonym 'a loaded_or_thrown = "string + 'a load_result"

record ('orb, 'cfg) orbital_file =
  of_orbitals :: "(string \<times> 'orb) list" \<comment> \<open>the orbitals with their names\<close>
  of_config :: "'cfg option"

record ('orb, 'cfg) loaded_schema =
  ld_schema :: "('orb, 'cfg) orbital_file"
  ld_sourcePath :: string
  ld_importPath :: string

record ('orb, 'cfg) loaded_orbital =
  lo_orbital :: "string \<times> 'orb"
  lo_orbitals :: "(string \<times> 'orb) list"
  lo_schemaConfig :: "'cfg option"
  lo_sourcePath :: string
  lo_importPath :: string

definition in_quotes :: "string \<Rightarrow> string" where
  "in_quotes t = CHR 0x22 # t @ [CHR 0x22]"

section \<open>The import chain\<close>

type_synonym import_chain = "string list"

definition circular_message :: "import_chain \<Rightarrow> string \<Rightarrow> string" where
  "circular_message chain p = ''Circular import detected: '' @ join_with '' -> '' (dropWhile (\<lambda>q. q \<noteq> p) chain @ [p])"

definition chain_push :: "string \<Rightarrow> import_chain \<Rightarrow> string option \<times> import_chain" where
  "chain_push p chain = (if p \<in> set chain then (Some (circular_message chain p), chain) else (None, chain @ [p]))"

definition chain_pop :: "import_chain \<Rightarrow> import_chain" where
  "chain_pop chain = butlast chain"

section \<open>The browse form\<close>

datatype browse_mapping = NotBrowseForm | Mapped string | Malformed

definition BROWSE_PREFIX_TO_PACKAGE :: "(string \<times> string) list" where
  "BROWSE_PREFIX_TO_PACKAGE = [(''@std/'', ''std/behaviors/''), (''@behaviors/'', ''almadar-behaviors/'')]"

definition BROWSE_FORM_HELP :: string where
  "BROWSE_FORM_HELP =
     ''Accepted forms - loader: std/behaviors/<name> (e.g. std/behaviors/std-stats) | '' @
     ''almadar-behaviors/<name> (e.g. almadar-behaviors/rpg-hero); '' @
     ''browse: @std/<topic>/<kind>/<name>.lolo (e.g. @std/ui/core/atoms/std-stats.lolo) | '' @
     ''@behaviors/<topic>/<kind>/<name>.lolo (e.g. @behaviors/app/molecules/app-crud-manager.lolo)''"

text \<open>\<open>s.replace(/suffix$/, "")\<close> for a fixed text.\<close>

definition drop_suffix :: "string \<Rightarrow> string \<Rightarrow> string" where
  "drop_suffix suffix s = (if ends_with suffix s then take (length s - length suffix) s else s)"

fun map_browse :: "(string \<times> string) list \<Rightarrow> string \<Rightarrow> browse_mapping" where
  "map_browse [] p = NotBrowseForm"
| "map_browse ((prefix, pkg) # rest) p =
     (if \<not> starts_with prefix p then map_browse rest p
      else let name = drop_suffix ''.lolo'' (after_last CHR ''/'' (drop (length prefix) p))
           in if name = [] then Malformed else Mapped (pkg @ name))"

definition mapBrowseSpecifier :: "string \<Rightarrow> browse_mapping" where
  "mapBrowseSpecifier = map_browse BROWSE_PREFIX_TO_PACKAGE"

definition parseImportPath :: "string \<Rightarrow> string \<times> string option" where
  "parseImportPath p =
     (if CHR ''#'' \<in> set p then (before_first CHR ''#'' p, Some (drop (Suc (length (before_first CHR ''#'' p))) p))
      else (p, None))"

section \<open>What the loader runs on\<close>

datatype package_failure = BehaviorPackageError string | OtherFailure string

fun failure_message :: "package_failure \<Rightarrow> string" where
  "failure_message (BehaviorPackageError m) = m"
| "failure_message (OtherFailure m) = m"

text \<open>
  \<open>fs_readdir\<close> is \<open>None\<close> where \<open>readdirSync\<close> throws, else the entries with \<open>isDirectory()\<close>; a
  package is the prefix it declares; \<open>fs_parse\<close> is \<open>JSON.parse\<close> and \<open>fs_validate\<close> the zod schema,
  whose issues are joined by the code.
\<close>

record ('orb, 'cfg) loader_env =
  fs_cwd :: string
  fs_exists :: "string \<Rightarrow> bool"
  fs_readdir :: "string \<Rightarrow> (string \<times> bool) list option"
  fs_readFile :: "string \<Rightarrow> string + string"
  fs_package :: "string \<Rightarrow> package_failure + string option"
  fs_registryDir :: "string \<Rightarrow> package_failure + string"
  fs_parse :: "string \<Rightarrow> string + jval"
  fs_validate :: "jval \<Rightarrow> (string list \<times> string) list + ('orb, 'cfg) orbital_file"

section \<open>Options\<close>

text \<open>An option a caller leaves out, gives as \<open>undefined\<close>, or gives.\<close>

datatype 'a given = Absent | Undefined | Given 'a

fun given_or :: "'a \<Rightarrow> 'a given \<Rightarrow> 'a" where
  "given_or d (Given a) = a"
| "given_or d g = d"

text \<open>\<open>{name: default, ...options}\<close>: an option given as \<open>undefined\<close> hides the default.\<close>

fun spread_field :: "'a \<Rightarrow> 'a given \<Rightarrow> 'a option" where
  "spread_field d Absent = Some d"
| "spread_field d Undefined = None"
| "spread_field d (Given a) = Some a"

record loader_options =
  op_basePath :: string
  op_stdLibPath :: "string given"
  op_behaviorsLibPaths :: "string list given"
  op_scopedPaths :: "(string \<times> string) list given"
  op_allowOutsideBasePath :: "bool given"

record external_loader =
  xl_basePath :: string
  xl_stdLibPath :: "string option"
  xl_behaviorsLibPaths :: "string list option"
  xl_scopedPaths :: "(string \<times> string) list option"
  xl_allowOutside :: "bool option"

type_synonym registry_roots = "(string \<times> string) list"

section \<open>Behavior packages\<close>

definition isBehaviorPackageRoot :: "('orb, 'cfg) loader_env \<Rightarrow> string \<Rightarrow> string + bool" where
  "isBehaviorPackageRoot env dir =
     (if \<not> fs_exists env (path_join [dir, ''package.json'']) then Inr False
      else case fs_package env dir of
          Inr _ \<Rightarrow> Inr True
        | Inl (BehaviorPackageError _) \<Rightarrow> Inr False
        | Inl (OtherFailure m) \<Rightarrow> Inl m)"

definition packagePrefix :: "('orb, 'cfg) loader_env \<Rightarrow> string \<Rightarrow> string + string option" where
  "packagePrefix env base =
     rbind (isBehaviorPackageRoot env base) (\<lambda>is_package.
       if is_package then (case fs_package env base of Inr prefix \<Rightarrow> Inr prefix | Inl e \<Rightarrow> Inl (failure_message e)) else Inr None)"

text \<open>The walk up from \<open>stdLibPath\<close>, at most ten directories; a throw ends it with what was found.\<close>

fun pnpm_packages :: "('orb, 'cfg) loader_env \<Rightarrow> string \<Rightarrow> (string \<times> bool) list \<Rightarrow> string list" where
  "pnpm_packages env base [] = []"
| "pnpm_packages env base ((entry, _) # rest) =
     (let io = path_join [base, entry, ''node_modules'', ''@almadar-io'', ''behaviors'']
      in if \<not> starts_with ''@almadar-io+behaviors@'' entry then pnpm_packages env base rest
         else case isBehaviorPackageRoot env io of
             Inl _ \<Rightarrow> []
           | Inr is_package \<Rightarrow> (if is_package then [io] else []) @ pnpm_packages env base rest)"

fun detect_walk :: "('orb, 'cfg) loader_env \<Rightarrow> nat \<Rightarrow> string \<Rightarrow> string list" where
  "detect_walk env 0 dir = []"
| "detect_walk env (Suc n) dir =
     (let parent = path_dirname dir;
          nm = path_dirname parent;
          io = path_join [nm, ''@almadar-io'', ''behaviors''];
          hoisted = (if path_basename parent = ''@almadar'' \<and> path_basename nm = ''node_modules''
                     then map_sum id (\<lambda>b. if b then [io] else []) (isBehaviorPackageRoot env io) else Inr []);
          sibling = path_join [parent, drop_suffix ''almadar-std'' (path_basename dir) @ ''almadar-behaviors'']
      in if parent = dir then []
         else case hoisted of
             Inl _ \<Rightarrow> []
           | Inr found \<Rightarrow>
               if path_basename parent = ''.pnpm'' then
                 found @ (case fs_readdir env parent of None \<Rightarrow> [] | Some entries \<Rightarrow> pnpm_packages env parent entries)
               else if ends_with ''almadar-std'' (path_basename dir) then
                 (case isBehaviorPackageRoot env sibling of
                    Inl _ \<Rightarrow> found
                  | Inr True \<Rightarrow> found @ [sibling]
                  | Inr False \<Rightarrow> found @ detect_walk env n parent)
               else found @ detect_walk env n parent)"

definition autoDetectBehaviorsLibPaths :: "('orb, 'cfg) loader_env \<Rightarrow> string \<Rightarrow> string list" where
  "autoDetectBehaviorsLibPaths env stdLibPath =
     (if stdLibPath = [] then [] else detect_walk env 10 (path_normalize stdLibPath))"

definition new_loader :: "('orb, 'cfg) loader_env \<Rightarrow> loader_options \<Rightarrow> external_loader" where
  "new_loader env options =
     \<lparr>xl_basePath = op_basePath options,
      xl_stdLibPath = spread_field [] (op_stdLibPath options),
      xl_behaviorsLibPaths = spread_field (autoDetectBehaviorsLibPaths env (given_or [] (op_stdLibPath options))) (op_behaviorsLibPaths options),
      xl_scopedPaths = spread_field [] (op_scopedPaths options),
      xl_allowOutside = spread_field False (op_allowOutsideBasePath options)\<rparr>"

section \<open>The registries\<close>

text \<open>
  \<open>findFileRecursive\<close>: depth first, the entries still to visit as a list of directory, name and
  \<open>isDirectory()\<close>. \<open>None\<close> is a search that never ends (a file system with a directory in itself).
\<close>

definition entries_of :: "('orb, 'cfg) loader_env \<Rightarrow> string \<Rightarrow> (string \<times> string \<times> bool) list" where
  "entries_of env dir = (case fs_readdir env dir of None \<Rightarrow> [] | Some entries \<Rightarrow> map (Pair dir) entries)"

partial_function (option) search_entries ::
    "('orb, 'cfg) loader_env \<Rightarrow> string \<Rightarrow> string \<Rightarrow> (string \<times> string \<times> bool) list \<Rightarrow> string option option" where
  "search_entries env target base todo =
     (case todo of
        [] \<Rightarrow> Some None
      | (dir, name, is_dir) # rest \<Rightarrow>
          let full = path_join [dir, name]; normalized = path_normalize full
          in if \<not> starts_with base normalized then search_entries env target base rest
             else if is_dir then search_entries env target base (entries_of env full @ rest)
             else if name = target then Some (Some normalized)
             else search_entries env target base rest)"

declare search_entries.simps [code]

definition findFileRecursive :: "('orb, 'cfg) loader_env \<Rightarrow> string \<Rightarrow> string \<Rightarrow> string \<Rightarrow> string option option" where
  "findFileRecursive env dir target base = search_entries env target base (entries_of env dir)"

definition configuredRoots :: "external_loader \<Rightarrow> string + string list" where
  "configuredRoots xl =
     (let own = (case xl_stdLibPath xl of Some (c # p) \<Rightarrow> [path_normalize (c # p)] | _ \<Rightarrow> [])
      in case xl_behaviorsLibPaths xl of
          None \<Rightarrow> Inl ''this.options.behaviorsLibPaths is not iterable''
        | Some paths \<Rightarrow> Inr (foldl (\<lambda>roots p. let norm = path_normalize p in if norm \<in> set roots then roots else roots @ [norm]) own paths))"

fun filter_prefix :: "('orb, 'cfg) loader_env \<Rightarrow> string option \<Rightarrow> string list \<Rightarrow> string + string list" where
  "filter_prefix env None roots = Inr roots"
| "filter_prefix env (Some prefix) [] = Inr []"
| "filter_prefix env (Some prefix) (base # roots) =
     rbind (packagePrefix env base) (\<lambda>declared.
       rbind (filter_prefix env (Some prefix) roots) (\<lambda>kept. Inr (if declared = Some prefix then base # kept else kept)))"

definition registry_of :: "('orb, 'cfg) loader_env \<Rightarrow> string \<Rightarrow> string + string" where
  "registry_of env base =
     (case fs_package env base of
        Inl e \<Rightarrow> Inl (failure_message e)
      | Inr _ \<Rightarrow> (case fs_registryDir env base of Inl e \<Rightarrow> Inl (failure_message e) | Inr dir \<Rightarrow> Inr (path_normalize dir)))"

text \<open>The roots in order; the outer option is the search that may not end.\<close>

fun search_roots ::
    "('orb, 'cfg) loader_env \<Rightarrow> string \<Rightarrow> string list \<Rightarrow> registry_roots \<Rightarrow> (string option load_result \<times> registry_roots) option" where
  "search_roots env target [] known = Some (Inr None, known)"
| "search_roots env target (base # roots) known =
     (case (case map_of known base of Some dir \<Rightarrow> Inr dir | None \<Rightarrow> registry_of env base) of
        Inl m \<Rightarrow> Some (Inl (base @ '': '' @ m), known)
      | Inr dir \<Rightarrow>
          Option.bind (findFileRecursive env dir target dir) (\<lambda>found.
            let known' = AList.update base dir known
            in case found of Some p \<Rightarrow> Some (Inr (Some p), known') | None \<Rightarrow> search_roots env target roots known'))"

fun registry_answer :: "string \<Rightarrow> string list \<Rightarrow> string option load_result \<Rightarrow> string load_result" where
  "registry_answer name roots (Inl e) = Inl e"
| "registry_answer name roots (Inr (Some p)) = Inr p"
| "registry_answer name roots (Inr None) =
     Inl (''Behavior not found in registries: '' @ name @ '' (searched '' @ show_nat (length roots) @
       '' root(s): '' @ join_with '', '' roots @ '')'')"

definition resolveBehaviorInRegistries ::
    "('orb, 'cfg) loader_env \<Rightarrow> external_loader \<Rightarrow> string \<Rightarrow> string option \<Rightarrow> registry_roots \<Rightarrow> (string loaded_or_thrown \<times> registry_roots) option" where
  "resolveBehaviorInRegistries env xl name prefix known =
     (case rbind (configuredRoots xl) (filter_prefix env prefix) of
        Inl thrown \<Rightarrow> Some (Inl thrown, known)
      | Inr roots \<Rightarrow>
          map_option (\<lambda>(found, known'). (Inr (registry_answer name roots found), known'))
            (search_roots env (name @ ''.orb'') roots known))"

fun some_prefix :: "('orb, 'cfg) loader_env \<Rightarrow> string \<Rightarrow> string list \<Rightarrow> string + bool" where
  "some_prefix env prefix [] = Inr False"
| "some_prefix env prefix (base # roots) =
     rbind (packagePrefix env base) (\<lambda>declared. if declared = Some prefix then Inr True else some_prefix env prefix roots)"

definition isConfiguredPrefix :: "('orb, 'cfg) loader_env \<Rightarrow> external_loader \<Rightarrow> string \<Rightarrow> string + bool" where
  "isConfiguredPrefix env xl prefix = rbind (configuredRoots xl) (some_prefix env prefix)"

section \<open>Paths\<close>

definition with_orb :: "string \<Rightarrow> string" where
  "with_orb p = (if ends_with ''.orb'' p then p else p @ ''.orb'')"

fun std_answer :: "string \<Rightarrow> string load_result \<Rightarrow> string load_result" where
  "std_answer importPath (Inl e) = Inl (''std behavior not found in registry: '' @ importPath @ '' - '' @ e)"
| "std_answer importPath (Inr p) = Inr p"

definition resolveStdPath ::
    "('orb, 'cfg) loader_env \<Rightarrow> external_loader \<Rightarrow> string \<Rightarrow> registry_roots \<Rightarrow> (string loaded_or_thrown \<times> registry_roots) option" where
  "resolveStdPath env xl importPath known =
     (let lib = (case xl_stdLibPath xl of Some p \<Rightarrow> p | None \<Rightarrow> []);
          rest = drop 4 importPath;
          name = drop_suffix ''.orb'' (if starts_with ''behaviors/'' rest then drop 10 rest else rest)
      in if lib = [] \<and> xl_behaviorsLibPaths xl = None
         then Some (Inl (''Cannot read properties of undefined (reading '' @ [CHR 0x27] @ ''length'' @ [CHR 0x27] @ '')''), known)
         else if lib = [] \<and> xl_behaviorsLibPaths xl = Some []
         then Some (Inr (Inl (''Standard library path not configured. Cannot load: '' @ importPath)), known)
         else map_option (\<lambda>(r, known'). (map_sum id (std_answer importPath) r, known'))
            (resolveBehaviorInRegistries env xl name None known))"

text \<open>\<open>importPath.match(/^(@[^/]+)/)\<close>.\<close>

definition scope_of :: "string \<Rightarrow> string option" where
  "scope_of p = (let scope = before_first CHR ''/'' p in if starts_with ''@'' p \<and> 1 < length scope then Some scope else None)"

definition resolveScopedPath :: "external_loader \<Rightarrow> string \<Rightarrow> string loaded_or_thrown" where
  "resolveScopedPath xl importPath =
     (case scope_of importPath of
        None \<Rightarrow> Inr (Inl (''Invalid scoped package path: '' @ importPath))
      | Some scope \<Rightarrow>
          case xl_scopedPaths xl of
            None \<Rightarrow> Inl (''Cannot read properties of undefined (reading '' @ [CHR 0x27] @ scope @ [CHR 0x27] @ '')'')
          | Some scoped \<Rightarrow>
              let names = join_with '', '' (map fst scoped);
                  base = (case map_of scoped scope of Some r \<Rightarrow> r | None \<Rightarrow> []);
                  absolutePath = with_orb (path_join [base, drop (Suc (length scope)) importPath])
              in if base = []
                 then Inr (Inl (''Scoped package '' @ in_quotes scope @ '' not configured. Available: '' @ (if names = [] then ''none'' else names)))
                 else if \<not> starts_with (path_normalize base) (path_normalize absolutePath)
                 then Inr (Inl (''Path traversal outside scoped package: '' @ importPath))
                 else Inr (Inr absolutePath))"

definition resolveRelativePath :: "('orb, 'cfg) loader_env \<Rightarrow> external_loader \<Rightarrow> string \<Rightarrow> string option \<Rightarrow> string load_result" where
  "resolveRelativePath env xl importPath fromPath =
     (let baseDir = (case fromPath of Some (c # p) \<Rightarrow> path_dirname (c # p) | _ \<Rightarrow> xl_basePath xl);
          absolutePath = with_orb (path_resolve (fs_cwd env) baseDir importPath)
      in if xl_allowOutside xl \<noteq> Some True \<and> \<not> starts_with (path_normalize (xl_basePath xl)) (path_normalize absolutePath)
         then Inl (''Path traversal outside base path: '' @ importPath @ ''. Base: '' @ xl_basePath xl)
         else Inr absolutePath)"

definition resolve_other :: "('orb, 'cfg) loader_env \<Rightarrow> external_loader \<Rightarrow> string \<Rightarrow> string option \<Rightarrow> registry_roots
    \<Rightarrow> (string loaded_or_thrown \<times> registry_roots) option" where
  "resolve_other env xl importPath fromPath known =
     (let name = drop_suffix ''.orb'' (after_last CHR ''/'' importPath);
          prefix = before_first CHR ''/'' importPath;
          fallback = Inr (resolveRelativePath env xl (''./'' @ importPath) fromPath)
      in if CHR ''/'' \<notin> set importPath then Some (fallback, known)
         else Option.bind (resolveBehaviorInRegistries env xl name (Some prefix) known) (\<lambda>(r, known').
           case r of
             Inl thrown \<Rightarrow> Some (Inl thrown, known')
           | Inr (Inr p) \<Rightarrow> Some (Inr (Inr p), known')
           | Inr (Inl e) \<Rightarrow>
               (case isConfiguredPrefix env xl prefix of
                  Inl thrown \<Rightarrow> Some (Inl thrown, known')
                | Inr True \<Rightarrow> Some (Inr (Inl e), known')
                | Inr False \<Rightarrow> Some (fallback, known'))))"

definition resolve_canonical :: "('orb, 'cfg) loader_env \<Rightarrow> external_loader \<Rightarrow> string \<Rightarrow> string option \<Rightarrow> registry_roots
    \<Rightarrow> (string loaded_or_thrown \<times> registry_roots) option" where
  "resolve_canonical env xl importPath fromPath known =
     (if starts_with ''std/'' importPath then resolveStdPath env xl importPath known
      else if starts_with ''@'' importPath then Some (resolveScopedPath xl importPath, known)
      else if starts_with ''./'' importPath \<or> starts_with ''../'' importPath
      then Some (Inr (resolveRelativePath env xl importPath fromPath), known)
      else if isAbsolute importPath then
        Some (Inr (if xl_allowOutside xl = Some True then Inr importPath else Inl (''Absolute paths not allowed: '' @ importPath)), known)
      else resolve_other env xl importPath fromPath known)"

definition resolvePath :: "('orb, 'cfg) loader_env \<Rightarrow> external_loader \<Rightarrow> string \<Rightarrow> string option \<Rightarrow> registry_roots
    \<Rightarrow> (string loaded_or_thrown \<times> registry_roots) option" where
  "resolvePath env xl importPath fromPath known =
     (case mapBrowseSpecifier importPath of
        Malformed \<Rightarrow> Some (Inr (Inl (''Unresolvable primitive import '' @ in_quotes importPath @ ''. '' @ BROWSE_FORM_HELP)), known)
      | Mapped canonical \<Rightarrow> resolve_canonical env xl canonical fromPath known
      | NotBrowseForm \<Rightarrow> resolve_canonical env xl importPath fromPath known)"

section \<open>Loading\<close>

type_synonym ('orb, 'cfg) loader_cache = "(string \<times> ('orb, 'cfg) loaded_schema) list"

record ('orb, 'cfg) loader_state =
  ls_cache :: "('orb, 'cfg) loader_cache"
  ls_registryRoots :: registry_roots

definition clearCache :: "('orb, 'cfg) loader_state \<Rightarrow> ('orb, 'cfg) loader_state" where
  "clearCache st = \<lparr>ls_cache = [], ls_registryRoots = []\<rparr>"

definition getCacheStats :: "('orb, 'cfg) loader_state \<Rightarrow> nat" where
  "getCacheStats st = length (ls_cache st)"

definition issue_lines :: "(string list \<times> string) list \<Rightarrow> string" where
  "issue_lines issues = join_with [CHR 10] (map (\<lambda>(path, m). ''  - '' @ join_with ''.'' path @ '': '' @ m) issues)"

definition loadFile :: "('orb, 'cfg) loader_env \<Rightarrow> string \<Rightarrow> ('orb, 'cfg) orbital_file load_result" where
  "loadFile env p =
     (if \<not> fs_exists env p then Inl (''File not found: '' @ p)
      else case fs_readFile env p of
          Inl m \<Rightarrow> Inl (''Failed to load '' @ p @ '': '' @ m)
        | Inr content \<Rightarrow>
            (case fs_parse env content of
               Inl m \<Rightarrow> Inl (''Invalid JSON in '' @ p @ '': '' @ m)
             | Inr data \<Rightarrow>
                 (case fs_validate env data of
                    Inl issues \<Rightarrow> Inl (''Invalid schema in '' @ p @ '':'' @ [CHR 10] @ issue_lines issues)
                  | Inr schema \<Rightarrow> Inr schema)))"

text \<open>
  \<open>load\<close>: the answer, the caller's chain afterwards and the loader. The inner function is the
  \<open>try\<close>, its \<open>finally\<close> pops the chain on every path.
\<close>

definition load_resolved :: "('orb, 'cfg) loader_env \<Rightarrow> string \<Rightarrow> string \<Rightarrow> ('orb, 'cfg) loader_state
    \<Rightarrow> ('orb, 'cfg) loaded_schema load_result \<times> ('orb, 'cfg) loader_state" where
  "load_resolved env importPath p st =
     (case map_of (ls_cache st) p of
        Some hit \<Rightarrow> (Inr hit, st)
      | None \<Rightarrow>
          (case loadFile env p of
             Inl e \<Rightarrow> (Inl e, st)
           | Inr schema \<Rightarrow>
               let loaded = \<lparr>ld_schema = schema, ld_sourcePath = p, ld_importPath = importPath\<rparr>
               in (Inr loaded, st\<lparr>ls_cache := AList.update p loaded (ls_cache st)\<rparr>)))"

definition load :: "('orb, 'cfg) loader_env \<Rightarrow> external_loader \<Rightarrow> string \<Rightarrow> string option \<Rightarrow> import_chain \<Rightarrow> ('orb, 'cfg) loader_state
    \<Rightarrow> (('orb, 'cfg) loaded_schema loaded_or_thrown \<times> import_chain \<times> ('orb, 'cfg) loader_state) option" where
  "load env xl importPath fromPath chain st =
     map_option (\<lambda>(resolved, known).
       let st1 = st\<lparr>ls_registryRoots := known\<rparr>
       in case resolved of
            Inl thrown \<Rightarrow> (Inl thrown, chain, st1)
          | Inr (Inl e) \<Rightarrow> (Inr (Inl e), chain, st1)
          | Inr (Inr p) \<Rightarrow>
              (case chain_push p chain of
                 (Some e, chain1) \<Rightarrow> (Inr (Inl e), chain1, st1)
               | (None, chain1) \<Rightarrow>
                   let (r, st2) = load_resolved env importPath p st1 in (Inr r, chain_pop chain1, st2)))
       (resolvePath env xl importPath fromPath (ls_registryRoots st))"

definition pick_orbital :: "string \<Rightarrow> string option \<Rightarrow> ('orb, 'cfg) loaded_schema \<Rightarrow> ('orb, 'cfg) loaded_orbital load_result" where
  "pick_orbital importPath orbitalName loaded =
     (let orbitals = of_orbitals (ld_schema loaded);
          answer = (\<lambda>ob. \<lparr>lo_orbital = ob, lo_orbitals = orbitals, lo_schemaConfig = of_config (ld_schema loaded),
                       lo_sourcePath = ld_sourcePath loaded, lo_importPath = importPath\<rparr>)
      in case orbitalName of
           Some (c # cs) \<Rightarrow>
             (case find (\<lambda>ob. fst ob = c # cs) orbitals of
                Some ob \<Rightarrow> Inr (answer ob)
              | None \<Rightarrow> Inl (''Orbital '' @ in_quotes (c # cs) @ '' not found in '' @ importPath @ ''. Available: '' @
                  join_with '', '' (map fst orbitals)))
         | _ \<Rightarrow> (case orbitals of [] \<Rightarrow> Inl (''No orbitals found in '' @ importPath) | ob # _ \<Rightarrow> Inr (answer ob)))"

definition loadOrbital :: "('orb, 'cfg) loader_env \<Rightarrow> external_loader \<Rightarrow> string \<Rightarrow> string option \<Rightarrow> string option \<Rightarrow> import_chain \<Rightarrow> ('orb, 'cfg) loader_state
    \<Rightarrow> (('orb, 'cfg) loaded_orbital loaded_or_thrown \<times> import_chain \<times> ('orb, 'cfg) loader_state) option" where
  "loadOrbital env xl importPath orbitalName fromPath chain st =
     map_option (\<lambda>(r, chain', st'). (map_sum id (\<lambda>loaded. rbind loaded (pick_orbital importPath orbitalName)) r, chain', st'))
       (load env xl importPath fromPath chain st)"

text \<open>A lazy page's file, and the orbital it must hold.\<close>

record lazy_page =
  lp_path :: string
  lp_orbRef :: string
  lp_orbital :: string

definition check_lazy_page :: "lazy_page \<Rightarrow> ('orb, 'cfg) loaded_schema \<Rightarrow> ('orb, 'cfg) orbital_file load_result" where
  "check_lazy_page page loaded =
     (let orbitals = of_orbitals (ld_schema loaded)
      in if lp_orbital page \<in> set (map fst orbitals) then Inr (ld_schema loaded)
         else Inl (''Lazy page '' @ lp_path page @ '' expects orbital '' @ in_quotes (lp_orbital page) @ '' in '' @ ld_sourcePath loaded @
           '', found: '' @ join_with '', '' (map fst orbitals)))"

definition loadLazyPage :: "('orb, 'cfg) loader_env \<Rightarrow> external_loader \<Rightarrow> lazy_page \<Rightarrow> string option \<Rightarrow> ('orb, 'cfg) loader_state
    \<Rightarrow> (('orb, 'cfg) orbital_file loaded_or_thrown \<times> ('orb, 'cfg) loader_state) option" where
  "loadLazyPage env xl page importer st =
     map_option (\<lambda>(r, _, st'). (map_sum id (\<lambda>loaded. rbind loaded (check_lazy_page page)) r, st'))
       (load env xl (lp_orbRef page) importer [] st)"

section \<open>What a loader may reach\<close>
























text \<open>
  the same check with a base given without its slash compares texts only: a file of a neighbour
  directory whose name the base's name begins is resolved, and loaded.
\<close>
theorem neighbour_directory_resolves:
  assumes "plain dir" "plain (dir @ rest)" "xl_basePath xl = ''/'' @ dir"
  shows "resolvePath env xl (''../'' @ dir @ rest @ ''/secret.orb'') None known
       = Some (Inr (Inr (''/'' @ dir @ rest @ ''/secret.orb'')), known)"
proof -
  let ?p = "''../'' @ dir @ rest @ ''/secret.orb''" and ?q = "''/'' @ dir @ rest @ ''/secret.orb''"
  let ?segs = "[dir @ rest, ''secret.orb'']"
  have plain: "\<forall>s\<in>set ?segs. plain s" using assms(2) by (simp add: plain_def)
  have q: "?q = ''/'' @ join_with ''/'' ?segs" by simp
  have no: "CHR ''/'' \<notin> set dir" "CHR ''/'' \<notin> set (dir @ rest)" using assms(1,2) by (simp_all add: plain_def)
  have "split_on CHR ''/'' (''/'' @ dir @ ''/'' @ ?p) = [[], dir, ''..'', dir @ rest, ''secret.orb'']"
    using split_on_append_sep [OF no(1), of "?p"] split_on_append_sep [OF no(2), of "''secret.orb''"] by simp
  then have "normal_segments False (''/'' @ dir @ ''/'' @ ?p) = ?segs"
    using assms(1,2) by (auto simp: normal_segments_def plain_def)
  then have "path_resolve (fs_cwd env) (''/'' @ dir) ?p = ?q"
    unfolding path_resolve_def q by (simp add: isAbsolute_iff)
  moreover have "with_orb ?q = ?q" by (simp add: with_orb_def ends_with_iff)
  moreover have "path_normalize ?q = ?q" unfolding q by (rule normalize_rooted [OF _ plain]) simp
  moreover have "path_normalize (''/'' @ dir) = ''/'' @ dir"
    using normalize_rooted [of "[dir]"] assms(1) by simp
  moreover have "starts_with (''/'' @ dir) ?q" by (simp add: starts_with_iff)
  ultimately have "resolveRelativePath env xl ?p None = Inr ?q"
    unfolding resolveRelativePath_def assms(3) by (simp add: Let_def)
  then show ?thesis
    by (simp add: resolvePath_def mapBrowseSpecifier_def BROWSE_PREFIX_TO_PACKAGE_def resolve_canonical_def starts_with_def)
qed

section \<open>The cache and the chain\<close>







section \<open>The search returns\<close>

lemma search_append:
  assumes "search_entries env target dir todo = Some found"
  shows "search_entries env target dir (todo @ tail) =
    (case found of Some q \<Rightarrow> Some (Some q) | None \<Rightarrow> search_entries env target dir tail)"
proof -
  define P where "P env' t b todo' r \<longleftrightarrow> search_entries env' t b (todo' @ tail) =
      (case r of Some q \<Rightarrow> Some (Some q) | None \<Rightarrow> search_entries env' t b tail)"
    for env' :: "('a, 'b) loader_env" and t b and todo' :: "(string \<times> string \<times> bool) list" and r
  have "P env target dir todo found"
  proof (rule search_entries.raw_induct [OF _ assms, where P = P], goal_cases)
    case (1 search env' t b todo' r)
    show ?case
    proof (cases todo')
      case Nil
      then show ?thesis using 1(2) by (auto simp: P_def)
    next
      case (Cons x rest)
      obtain d name is_dir where x: "x = (d, name, is_dir)" by (cases x)
      have IH: "search env' t b todo'' = Some r \<Longrightarrow> search_entries env' t b (todo'' @ tail) =
          (case r of Some q \<Rightarrow> Some (Some q) | None \<Rightarrow> search_entries env' t b tail)" for todo''
        using 1(1) unfolding P_def by blast
      show ?thesis
        unfolding P_def Cons x using 1(2) Cons x IH [of rest] IH [of "entries_of env' (path_join [d, name]) @ rest"]
        by (subst append_Cons, subst search_entries.simps) (auto simp: Let_def split: if_splits)
    qed
  qed
  then show ?thesis by (simp add: P_def)
qed

text \<open>A file tree: going down from a directory ends.\<close>

definition descends :: "('orb, 'cfg) loader_env \<Rightarrow> (string \<Rightarrow> nat) \<Rightarrow> bool" where
  "descends env height \<longleftrightarrow>
     (\<forall>dir entries name. fs_readdir env dir = Some entries \<and> (name, True) \<in> set entries \<longrightarrow> height (path_join [dir, name]) < height dir)"

lemma entries_descend:
  assumes "descends env height"
  shows "\<forall>(e, name, is_dir)\<in>set (entries_of env d). is_dir \<longrightarrow> height (path_join [e, name]) < height d"
  using assms by (cases "fs_readdir env d") (auto simp: descends_def entries_of_def)

lemma search_entries_returns:
  assumes "descends env height"
    and "\<forall>(d, name, is_dir)\<in>set todo. is_dir \<longrightarrow> height (path_join [d, name]) < n"
  shows "\<exists>found. search_entries env target dir todo = Some found"
  using assms(2)
proof (induction n arbitrary: todo rule: less_induct)
  case (less n)
  from less.prems show ?case
  proof (induction todo)
    case Nil
    show ?case by (subst search_entries.simps) simp
  next
    case (Cons x rest)
    obtain d name is_dir where x: "x = (d, name, is_dir)" by (cases x)
    let ?full = "path_join [d, name]"
    obtain found where found: "search_entries env target dir rest = Some found" using Cons by auto
    have "\<exists>found. search_entries env target dir (entries_of env ?full @ rest) = Some found" if is_dir
    proof -
      have h: "height ?full < n" using Cons.prems x that by simp
      from less.IH [OF h entries_descend [OF assms(1)]] obtain sub where "search_entries env target dir (entries_of env ?full) = Some sub" by blast
      from search_append [OF this, of rest] found show ?thesis by (cases sub) auto
    qed
    then show ?case using found x by (subst search_entries.simps) (auto simp: Let_def)
  qed
qed

lemma findFileRecursive_returns:
  assumes "descends env height"
  shows "\<exists>found. findFileRecursive env dir target base = Some found"
  unfolding findFileRecursive_def
  by (rule search_entries_returns [OF assms entries_descend [OF assms]])

lemma search_roots_returns: "descends env height \<Longrightarrow> \<exists>r. search_roots env target roots known = Some r"
proof (induction env target roots known rule: search_roots.induct)
  case (2 env target pkg roots known)
  show ?case
  proof (cases "case map_of known pkg of Some dir \<Rightarrow> Inr dir | None \<Rightarrow> registry_of env pkg")
    case (Inr dir)
    obtain found where "findFileRecursive env dir target dir = Some found"
      using findFileRecursive_returns [OF 2(2)] by blast
    then show ?thesis using 2(1) [OF Inr _ refl _ 2(2)] Inr by (cases found) auto
  qed simp
qed simp

lemma registries_return: "descends env height \<Longrightarrow> \<exists>r. resolveBehaviorInRegistries env xl name prefix known = Some r"
  using search_roots_returns by (fastforce simp: resolveBehaviorInRegistries_def split: sum.split)

text \<open>
  C12: on a file tree every load returns, with a file, a refusal or a thrown error.
\<close>
theorem load_returns:
  assumes "descends env height"
  shows "\<exists>r chain' st'. load env xl importPath fromPath chain st = Some (r, chain', st')"
proof -
  note reg = registries_return [OF assms]
  have std: "\<exists>r. resolveStdPath env xl p known = Some r" for p known
  proof -
    obtain r where "resolveBehaviorInRegistries env xl (drop_suffix ''.orb''
        (if starts_with ''behaviors/'' (drop 4 p) then drop 10 (drop 4 p) else drop 4 p)) None known = Some r"
      using reg by blast
    then show ?thesis by (simp add: resolveStdPath_def Let_def)
  qed
  have other: "\<exists>r. resolve_other env xl p fromPath known = Some r" for p known
  proof -
    obtain r known' where "resolveBehaviorInRegistries env xl (drop_suffix ''.orb'' (after_last CHR ''/'' p))
        (Some (before_first CHR ''/'' p)) known = Some (r, known')"
      using reg by fastforce
    then show ?thesis by (simp add: resolve_other_def Let_def split: sum.split bool.split)
  qed
  have "\<exists>r. resolve_canonical env xl p fromPath known = Some r" for p known
    using std other by (simp add: resolve_canonical_def)
  then have "resolvePath env xl importPath fromPath (ls_registryRoots st) \<noteq> None"
    by (simp add: resolvePath_def split: browse_mapping.split)
  then have "load env xl importPath fromPath chain st \<noteq> None" by (simp add: load_def)
  then show ?thesis by (metis not_None_eq prod_cases3)
qed

section \<open>Samples\<close>

text \<open>A disk with a program in \<open>/app\<close>, a scoped library, and a registry one directory down.\<close>

definition sample_disk :: "(unit, unit) loader_env" where
  "sample_disk = \<lparr>fs_cwd = ''/app'', fs_exists = (\<lambda>p. p \<in> set [''/app/main.orb'', ''/lib/x.orb'', ''/std/reg/ui/chip.orb'', ''/std/package.json'']),
     fs_readdir = (\<lambda>d. if d = ''/std/reg/'' then Some [(''ui'', True), (''readme'', False)]
        else if d = ''/std/reg/ui'' then Some [(''chip.orb'', False)] else None),
     fs_readFile = (\<lambda>p. Inr p), fs_package = (\<lambda>p. Inr (Some ''std'')), fs_registryDir = (\<lambda>p. Inr ''/std/reg/''),
     fs_parse = (\<lambda>t. Inr (JStr t)), fs_validate = (\<lambda>v. Inr \<lparr>of_orbitals = [(''Main'', ())], of_config = None\<rparr>)\<rparr>"

definition sample_loader :: external_loader where
  "sample_loader = \<lparr>xl_basePath = ''/app/'', xl_stdLibPath = Some ''/std'', xl_behaviorsLibPaths = Some [],
     xl_scopedPaths = Some [(''@lib'', ''/lib/'')], xl_allowOutside = Some False\<rparr>"

definition sample_state :: "(unit, unit) loader_state" where
  "sample_state = \<lparr>ls_cache = [], ls_registryRoots = []\<rparr>"


theorem neighbour_directory_resolves_witness:
  "resolvePath sample_disk (sample_loader\<lparr>xl_basePath := ''/app''\<rparr>) ''../app-private/secret.orb'' None []
     = Some (Inr (Inr ''/app-private/secret.orb''), [])"
proof -
  have "plain ''app''" "plain (''app'' @ ''-private'')" by code_simp+
  from neighbour_directory_resolves [OF this, of "sample_loader\<lparr>xl_basePath := ''/app''\<rparr>" sample_disk "[]"] show ?thesis by simp
qed


theorem load_returns_witness:
  "\<exists>r chain' st'. load sample_disk sample_loader ''std/behaviors/chip'' None [] sample_state = Some (r, chain', st')"
proof -
  have "path_join [''/std/reg/'', ''ui''] = ''/std/reg/ui''" by code_simp
  then have "descends sample_disk (\<lambda>d. if d = ''/std/reg/'' then 2 else if d = ''/std/reg/ui'' then 1 else 0)"
    unfolding descends_def sample_disk_def by auto
  then show ?thesis by (rule load_returns)
qed

end
