(* ===== verification/UnifiedLoader.thy ===== *)
theory UnifiedLoader
  imports ExternalLoader
begin

text \<open>
  The loader over HTTP (\<open>entities/loader/http-loader.ts\<close>), the loader that routes between it and the
  one on disk (\<open>unified-loader.ts\<close>, \<open>schema-loader.ts\<close>) and the configuration of the studio
  (\<open>almadar-studio-config.ts\<close>). The platform's \<open>URL\<close> and \<open>fetch\<close> are functions of an environment.
\<close>

section \<open>Over HTTP\<close>

text \<open>
  A request ends in a response with its text, or a thrown error with its name: \<open>AbortError\<close> when the
  timer fired. \<open>hn_join\<close> is \<open>new URL(path, base).href\<close>, \<open>None\<close> when it throws; \<open>hn_parts\<close> gives the
  path of a URL and the text of the URL with another path. \<open>hn_url\<close> is whether the platform has \<open>URL\<close>.
\<close>

datatype fetch_end =
    FetchThrew string string
  | Answered nat string "(string \<times> string) + string"

record http_env =
  hn_url :: bool
  hn_join :: "string \<Rightarrow> string \<Rightarrow> string option"
  hn_parts :: "string \<Rightarrow> (string \<times> (string \<Rightarrow> string)) option"
  hn_fetch :: "string \<Rightarrow> fetch_end"

record http_options =
  ho_basePath :: string
  ho_stdLibPath :: string
  ho_scopedPaths :: "(string \<times> string) list"
  ho_timeout :: nat
  ho_credentials :: string

definition new_http_options :: "string \<Rightarrow> string option \<Rightarrow> (string \<times> string) list option \<Rightarrow> nat option \<Rightarrow> string option \<Rightarrow> http_options" where
  "new_http_options base stdLib scoped limit creds =
     \<lparr>ho_basePath = base, ho_stdLibPath = (case stdLib of Some p \<Rightarrow> p | None \<Rightarrow> []),
      ho_scopedPaths = (case scoped of Some s \<Rightarrow> s | None \<Rightarrow> []),
      ho_timeout = (case limit of Some n \<Rightarrow> n | None \<Rightarrow> 30000),
      ho_credentials = (case creds of Some c \<Rightarrow> c | None \<Rightarrow> ''same-origin'')\<rparr>"

definition is_url :: "string \<Rightarrow> bool" where
  "is_url p \<longleftrightarrow> starts_with ''http://'' p \<or> starts_with ''https://'' p"

definition join_texts :: "string \<Rightarrow> string \<Rightarrow> string" where
  "join_texts base p =
     (let nbase = (if ends_with ''/'' base then butlast base else base);
          npath = (if starts_with ''/'' p then p else ''/'' @ p)
      in if starts_with ''/./'' npath then nbase @ drop 2 npath
         else if starts_with ''/../'' npath then join_with ''/'' (butlast (split_on CHR ''/'' nbase)) @ drop 3 npath
         else nbase @ npath)"

definition joinUrl :: "http_env \<Rightarrow> string \<Rightarrow> string \<Rightarrow> string" where
  "joinUrl env base p =
     (if is_url p then p
      else case (if hn_url env then hn_join env p (if ends_with ''/'' base then base else base @ ''/'') else None) of
          Some href \<Rightarrow> href
        | None \<Rightarrow> join_texts base p)"

definition getParentUrl :: "http_env \<Rightarrow> string \<Rightarrow> string" where
  "getParentUrl env url =
     (case (if hn_url env then hn_parts env url else None) of
        Some (pathname, with_path) \<Rightarrow> with_path (join_with ''/'' (butlast (split_on CHR ''/'' pathname)))
      | None \<Rightarrow> if CHR ''/'' \<in> set url then before_last CHR ''/'' url else url)"

definition http_relative :: "http_env \<Rightarrow> http_options \<Rightarrow> string \<Rightarrow> string option \<Rightarrow> string load_result" where
  "http_relative env ho p fromPath =
     Inr (with_orb (joinUrl env (case fromPath of Some (c # cs) \<Rightarrow> getParentUrl env (c # cs) | _ \<Rightarrow> ho_basePath ho) p))"

definition http_std :: "http_env \<Rightarrow> http_options \<Rightarrow> string \<Rightarrow> string load_result" where
  "http_std env ho p =
     (if ho_stdLibPath ho = [] then Inl (''Standard library URL not configured. Cannot load: '' @ p)
      else Inr (with_orb (joinUrl env (ho_stdLibPath ho) (drop 4 p))))"

definition http_scoped :: "http_env \<Rightarrow> http_options \<Rightarrow> string \<Rightarrow> string load_result" where
  "http_scoped env ho p =
     (case scope_of p of
        None \<Rightarrow> Inl (''Invalid scoped package path: '' @ p)
      | Some scope \<Rightarrow>
          let names = join_with '', '' (map fst (ho_scopedPaths ho));
              base = (case map_of (ho_scopedPaths ho) scope of Some r \<Rightarrow> r | None \<Rightarrow> [])
          in if base = []
             then Inl (''Scoped package '' @ in_quotes scope @ '' not configured. Available: '' @ (if names = [] then ''none'' else names))
             else Inr (with_orb (joinUrl env base (drop (Suc (length scope)) p))))"

definition http_resolvePath :: "http_env \<Rightarrow> http_options \<Rightarrow> string \<Rightarrow> string option \<Rightarrow> string load_result" where
  "http_resolvePath env ho p fromPath =
     (if is_url p then Inr p
      else if starts_with ''std/'' p then http_std env ho p
      else if starts_with ''@'' p then http_scoped env ho p
      else if starts_with ''./'' p \<or> starts_with ''../'' p then http_relative env ho p fromPath
      else http_relative env ho (''./'' @ p) fromPath)"

text \<open>\<open>fetchSchema\<close>, with what it does to the platform: the timer is cleared on every path.\<close>

datatype http_act = SetTimer nat | Fetched string string | ClearTimer

definition read_schema ::
    "('orb, 'cfg) loader_env \<Rightarrow> string \<Rightarrow> string \<Rightarrow> ('orb, 'cfg) orbital_file load_result" where
  "read_schema env url body =
     (case fs_parse env body of
        Inl m \<Rightarrow> Inl (''Invalid JSON in '' @ url @ '': '' @ m)
      | Inr data \<Rightarrow>
          (case fs_validate env data of
             Inl issues \<Rightarrow> Inl (''Invalid schema in '' @ url @ '':'' @ [CHR 10] @ issue_lines issues)
           | Inr schema \<Rightarrow> Inr schema))"

definition fetch_failure :: "http_options \<Rightarrow> string \<Rightarrow> string \<Rightarrow> string \<Rightarrow> string" where
  "fetch_failure ho url name m =
     (if name = ''AbortError'' then ''Request timeout for '' @ url @ '' ('' @ show_nat (ho_timeout ho) @ ''ms)''
      else ''Failed to fetch '' @ url @ '': '' @ m)"

definition fetchSchema ::
    "('orb, 'cfg) loader_env \<Rightarrow> http_env \<Rightarrow> http_options \<Rightarrow> string \<Rightarrow> ('orb, 'cfg) orbital_file load_result \<times> http_act list" where
  "fetchSchema env net ho url =
     (case hn_fetch net url of
        FetchThrew name m \<Rightarrow> Inl (fetch_failure ho url name m)
      | Answered status statusText body \<Rightarrow>
          if \<not> (200 \<le> status \<and> status < 300)
          then Inl (''HTTP '' @ show_nat status @ '': '' @ statusText @ '' for '' @ url)
          else (case body of Inl (name, m) \<Rightarrow> Inl (fetch_failure ho url name m) | Inr content \<Rightarrow> read_schema env url content),
      [SetTimer (ho_timeout ho), Fetched url (ho_credentials ho), ClearTimer])"

definition http_load_resolved ::
    "('orb, 'cfg) loader_env \<Rightarrow> http_env \<Rightarrow> http_options \<Rightarrow> string \<Rightarrow> string \<Rightarrow> ('orb, 'cfg) loader_cache
     \<Rightarrow> ('orb, 'cfg) loaded_schema load_result \<times> http_act list \<times> ('orb, 'cfg) loader_cache" where
  "http_load_resolved env net ho importPath url cache =
     (case map_of cache url of
        Some hit \<Rightarrow> (Inr hit, [], cache)
      | None \<Rightarrow>
          (case fetchSchema env net ho url of
             (Inl e, acts) \<Rightarrow> (Inl e, acts, cache)
           | (Inr schema, acts) \<Rightarrow>
               let loaded = \<lparr>ld_schema = schema, ld_sourcePath = url, ld_importPath = importPath\<rparr>
               in (Inr loaded, acts, AList.update url loaded cache)))"

definition http_load ::
    "('orb, 'cfg) loader_env \<Rightarrow> http_env \<Rightarrow> http_options \<Rightarrow> string \<Rightarrow> string option \<Rightarrow> import_chain \<Rightarrow> ('orb, 'cfg) loader_cache
     \<Rightarrow> ('orb, 'cfg) loaded_schema load_result \<times> http_act list \<times> import_chain \<times> ('orb, 'cfg) loader_cache" where
  "http_load env net ho importPath fromPath chain cache =
     (case http_resolvePath net ho importPath fromPath of
        Inl e \<Rightarrow> (Inl e, [], chain, cache)
      | Inr url \<Rightarrow>
          (case chain_push url chain of
             (Some e, chain1) \<Rightarrow> (Inl e, [], chain1, cache)
           | (None, chain1) \<Rightarrow>
               let (r, acts, cache') = http_load_resolved env net ho importPath url cache in (r, acts, chain_pop chain1, cache')))"

definition http_loadOrbital ::
    "('orb, 'cfg) loader_env \<Rightarrow> http_env \<Rightarrow> http_options \<Rightarrow> string \<Rightarrow> string option \<Rightarrow> string option \<Rightarrow> import_chain \<Rightarrow> ('orb, 'cfg) loader_cache
     \<Rightarrow> ('orb, 'cfg) loaded_orbital load_result \<times> http_act list \<times> import_chain \<times> ('orb, 'cfg) loader_cache" where
  "http_loadOrbital env net ho importPath orbitalName fromPath chain cache =
     (let (r, rest) = http_load env net ho importPath fromPath chain cache
      in (rbind r (pick_orbital importPath orbitalName), rest))"

section \<open>The platform\<close>

record platform =
  pf_process :: bool
  pf_electron :: bool \<comment> \<open>\<open>process.versions.electron\<close> is set\<close>
  pf_window :: bool
  pf_module :: bool \<comment> \<open>\<open>import("./external-loader.js")\<close> succeeds\<close>

definition isElectron :: "platform \<Rightarrow> bool" where
  "isElectron pl \<longleftrightarrow> pf_process pl \<and> pf_electron pl"

definition isBrowser :: "platform \<Rightarrow> bool" where
  "isBrowser pl \<longleftrightarrow> pf_window pl \<and> \<not> isElectron pl"

definition isNode :: "platform \<Rightarrow> bool" where
  "isNode pl \<longleftrightarrow> pf_process pl \<and> \<not> isBrowser pl"

datatype strategy = OverHttp | OnDisk

definition getDefaultLoaderStrategy :: "platform \<Rightarrow> strategy" where
  "getDefaultLoaderStrategy pl = (if isBrowser pl then OverHttp else OnDisk)"

section \<open>The unified loader\<close>

record unified_options =
  uo_basePath :: string
  uo_stdLibPath :: "string option"
  uo_scopedPaths :: "(string \<times> string) list option"
  uo_allowOutside :: "bool given"
  uo_timeout :: "nat option"
  uo_credentials :: "string option"
  uo_forceLoader :: "strategy option"

text \<open>The options handed to the loader on disk: those left out are given as \<open>undefined\<close>.\<close>

definition as_given :: "'a option \<Rightarrow> 'a given" where
  "as_given x = (case x of Some a \<Rightarrow> Given a | None \<Rightarrow> Undefined)"

definition disk_options :: "unified_options \<Rightarrow> loader_options" where
  "disk_options uo = \<lparr>op_basePath = uo_basePath uo, op_stdLibPath = as_given (uo_stdLibPath uo), op_behaviorsLibPaths = Absent,
     op_scopedPaths = as_given (uo_scopedPaths uo), op_allowOutsideBasePath = uo_allowOutside uo\<rparr>"

definition http_options_of :: "unified_options \<Rightarrow> http_options" where
  "http_options_of uo = new_http_options (uo_basePath uo) (uo_stdLibPath uo) (uo_scopedPaths uo) (uo_timeout uo) (uo_credentials uo)"

record ('orb, 'cfg) unified =
  un_initialized :: bool
  un_disk :: "external_loader option"
  un_diskState :: "('orb, 'cfg) loader_state"
  un_httpCache :: "('orb, 'cfg) loader_cache"
  un_cache :: "('orb, 'cfg) loader_cache"
  un_acts :: "http_act list"

definition new_unified :: "('orb, 'cfg) unified" where
  "new_unified = \<lparr>un_initialized = False, un_disk = None, un_diskState = \<lparr>ls_cache = [], ls_registryRoots = []\<rparr>,
     un_httpCache = [], un_cache = [], un_acts = []\<rparr>"

definition initFsLoader :: "('orb, 'cfg) loader_env \<Rightarrow> platform \<Rightarrow> unified_options \<Rightarrow> ('orb, 'cfg) unified \<Rightarrow> ('orb, 'cfg) unified" where
  "initFsLoader env pl uo un =
     (if un_initialized un then un
      else let un1 = un\<lparr>un_initialized := True\<rparr>
           in if uo_forceLoader uo = Some OverHttp \<or> isBrowser pl \<or> \<not> pf_module pl then un1
              else un1\<lparr>un_disk := Some (new_loader env (disk_options uo))\<rparr>)"

definition over_http :: "unified_options \<Rightarrow> string \<Rightarrow> bool" where
  "over_http uo p \<longleftrightarrow> is_url p
     \<or> (starts_with ''std/'' p \<and> (case uo_stdLibPath uo of Some lib \<Rightarrow> is_url lib | None \<Rightarrow> False))
     \<or> (starts_with ''@'' p \<and> (case (uo_scopedPaths uo, scope_of p) of
           (Some scoped, Some scope) \<Rightarrow> (case map_of scoped scope of Some r \<Rightarrow> is_url r | None \<Rightarrow> False)
         | _ \<Rightarrow> False))"

definition getLoaderForPath :: "platform \<Rightarrow> unified_options \<Rightarrow> string \<Rightarrow> strategy" where
  "getLoaderForPath pl uo p =
     (case uo_forceLoader uo of
        Some forced \<Rightarrow> forced
      | None \<Rightarrow> if over_http uo p \<or> isBrowser pl then OverHttp else OnDisk)"

text \<open>The loader that answers an import, once the one on disk has been looked for.\<close>

definition answering :: "platform \<Rightarrow> unified_options \<Rightarrow> ('orb, 'cfg) unified \<Rightarrow> string \<Rightarrow> external_loader option" where
  "answering pl uo un p = (if getLoaderForPath pl uo p = OverHttp then None else un_disk un)"

definition unified_resolvePath ::
    "('orb, 'cfg) loader_env \<Rightarrow> http_env \<Rightarrow> platform \<Rightarrow> unified_options \<Rightarrow> string \<Rightarrow> string option \<Rightarrow> ('orb, 'cfg) unified
     \<Rightarrow> (string loaded_or_thrown \<times> ('orb, 'cfg) unified) option" where
  "unified_resolvePath env net pl uo p fromPath un =
     (case answering pl uo un p of
        None \<Rightarrow> Some (Inr (http_resolvePath net (http_options_of uo) p fromPath), un)
      | Some xl \<Rightarrow>
          map_option (\<lambda>(r, known). (r, un\<lparr>un_diskState := (un_diskState un)\<lparr>ls_registryRoots := known\<rparr>\<rparr>))
            (resolvePath env xl p fromPath (ls_registryRoots (un_diskState un))))"

definition delegate ::
    "('orb, 'cfg) loader_env \<Rightarrow> http_env \<Rightarrow> platform \<Rightarrow> unified_options \<Rightarrow> string \<Rightarrow> string option \<Rightarrow> import_chain \<Rightarrow> ('orb, 'cfg) unified
     \<Rightarrow> (('orb, 'cfg) loaded_schema loaded_or_thrown \<times> import_chain \<times> ('orb, 'cfg) unified) option" where
  "delegate env net pl uo p fromPath chain un =
     (case answering pl uo un p of
        None \<Rightarrow>
          (let (r, acts, chain', cache) = http_load env net (http_options_of uo) p fromPath chain (un_httpCache un)
           in Some (Inr r, chain', un\<lparr>un_httpCache := cache, un_acts := un_acts un @ acts\<rparr>))
      | Some xl \<Rightarrow>
          map_option (\<lambda>(r, chain', st). (r, chain', un\<lparr>un_diskState := st\<rparr>))
            (load env xl p fromPath chain (un_diskState un)))"

definition remember :: "string \<Rightarrow> ('orb, 'cfg) loaded_schema loaded_or_thrown \<Rightarrow> ('orb, 'cfg) unified \<Rightarrow> ('orb, 'cfg) unified" where
  "remember key r un = (case r of Inr (Inr loaded) \<Rightarrow> un\<lparr>un_cache := AList.update key loaded (un_cache un)\<rparr> | _ \<Rightarrow> un)"

definition unified_load ::
    "('orb, 'cfg) loader_env \<Rightarrow> http_env \<Rightarrow> platform \<Rightarrow> unified_options \<Rightarrow> string \<Rightarrow> string option \<Rightarrow> import_chain \<Rightarrow> ('orb, 'cfg) unified
     \<Rightarrow> (('orb, 'cfg) loaded_schema loaded_or_thrown \<times> import_chain \<times> ('orb, 'cfg) unified) option" where
  "unified_load env net pl uo p fromPath chain un =
     Option.bind (unified_resolvePath env net pl uo p fromPath (initFsLoader env pl uo un)) (\<lambda>(resolved, un1).
       case resolved of
         Inl thrown \<Rightarrow> Some (Inl thrown, chain, un1)
       | Inr (Inl e) \<Rightarrow> Some (Inr (Inl e), chain, un1)
       | Inr (Inr key) \<Rightarrow>
           (case map_of (un_cache un1) key of
              Some hit \<Rightarrow> Some (Inr (Inr hit), chain, un1)
            | None \<Rightarrow>
                map_option (\<lambda>(r, chain', un2). (r, chain', remember key r un2)) (delegate env net pl uo p fromPath chain un1)))"

definition unified_loadOrbital ::
    "('orb, 'cfg) loader_env \<Rightarrow> http_env \<Rightarrow> platform \<Rightarrow> unified_options \<Rightarrow> string \<Rightarrow> string option \<Rightarrow> string option \<Rightarrow> import_chain \<Rightarrow> ('orb, 'cfg) unified
     \<Rightarrow> (('orb, 'cfg) loaded_orbital loaded_or_thrown \<times> import_chain \<times> ('orb, 'cfg) unified) option" where
  "unified_loadOrbital env net pl uo p orbitalName fromPath chain un =
     map_option (\<lambda>(r, chain', un'). (map_sum id (\<lambda>loaded. rbind loaded (pick_orbital p orbitalName)) r, chain', un'))
       (unified_load env net pl uo p fromPath chain un)"

definition unified_clearCache :: "('orb, 'cfg) unified \<Rightarrow> ('orb, 'cfg) unified" where
  "unified_clearCache un = un\<lparr>un_cache := [], un_httpCache := [],
     un_diskState := (if un_disk un = None then un_diskState un else clearCache (un_diskState un))\<rparr>"

definition unified_getCacheStats :: "('orb, 'cfg) unified \<Rightarrow> nat" where
  "unified_getCacheStats un = length (un_cache un) + length (un_httpCache un)
     + (if un_disk un = None then 0 else getCacheStats (un_diskState un))"

definition hasFilesystemAccess :: "('orb, 'cfg) loader_env \<Rightarrow> platform \<Rightarrow> unified_options \<Rightarrow> ('orb, 'cfg) unified \<Rightarrow> bool \<times> ('orb, 'cfg) unified" where
  "hasFilesystemAccess env pl uo un = (let un' = initFsLoader env pl uo un in (un_disk un' \<noteq> None, un'))"

definition normalize_import :: "string \<Rightarrow> string" where
  "normalize_import p = (if is_url p then p else map (\<lambda>c. if c = CHR 0x5C then CHR ''/'' else c) p)"

text \<open>\<open>UnifiedImportChain.push\<close>: the chain of the unified loader compares normalised paths.\<close>

definition unified_chain_push :: "string \<Rightarrow> import_chain \<Rightarrow> string option \<times> import_chain" where
  "unified_chain_push p chain = chain_push (normalize_import p) chain"

section \<open>The studio\<close>

record studio_config =
  st_workspacePath :: string
  st_bundledStdPath :: "string option"
  st_downloadedStdPath :: "string option"
  st_stdLibDownloadUrl :: "string option"
  st_localPackages :: "(string \<times> string) list option"
  st_remotePackages :: "(string \<times> string) list option"

record studio_env =
  se_platform :: platform
  se_exists :: "string \<Rightarrow> bool"
  se_api :: "(string option \<times> string option) option" \<comment> \<open>\<open>window.electronAPI\<close>: resources and user data\<close>
  se_resourcesPath :: "string option"

definition STD_LIB_DOWNLOAD_URL :: string where
  "STD_LIB_DOWNLOAD_URL = ''https://cdn.almadar.dev/orbital-std''"

text \<open>\<open>x || null\<close> of a text.\<close>

definition or_null :: "string option \<Rightarrow> string option" where
  "or_null x = (if x = Some [] then None else x)"

definition pathExists :: "studio_env \<Rightarrow> string \<Rightarrow> bool" where
  "pathExists se p \<longleftrightarrow> \<not> isBrowser (se_platform se) \<and> se_exists se p"

definition getElectronPaths :: "studio_env \<Rightarrow> string option \<times> string option" where
  "getElectronPaths se =
     (if \<not> isElectron (se_platform se) then (None, None)
      else case (if pf_window (se_platform se) then se_api se else None) of
          Some (resources, userData) \<Rightarrow> (or_null resources, or_null userData)
        | None \<Rightarrow> (or_null (se_resourcesPath se), None))"

definition std_candidates :: "studio_env \<Rightarrow> studio_config \<Rightarrow> string list" where
  "std_candidates se c =
     (let own = (\<lambda>x. case or_null x of Some p \<Rightarrow> [p] | None \<Rightarrow> []);
          under = (\<lambda>x sub. case x of Some p \<Rightarrow> [p @ ''/'' @ sub] | None \<Rightarrow> [])
      in own (st_bundledStdPath c) @ own (st_downloadedStdPath c)
         @ under (fst (getElectronPaths se)) ''std'' @ under (snd (getElectronPaths se)) ''orbital-std'')"

definition resolveStdLibPath :: "studio_env \<Rightarrow> studio_config \<Rightarrow> string option" where
  "resolveStdLibPath se c = find (pathExists se) (std_candidates se c)"

definition getStdLibDownloadUrl :: "studio_config \<Rightarrow> string" where
  "getStdLibDownloadUrl c = (case or_null (st_stdLibDownloadUrl c) of Some u \<Rightarrow> u | None \<Rightarrow> STD_LIB_DOWNLOAD_URL)"

record resolved_paths =
  rp_workspacePath :: string
  rp_stdLibPath :: "string option"
  rp_stdLibAvailable :: bool
  rp_stdLibFallbackUrl :: "string option"
  rp_scopedPaths :: "(string \<times> string) list"

definition resolveAlmadarPaths :: "studio_env \<Rightarrow> studio_config \<Rightarrow> resolved_paths" where
  "resolveAlmadarPaths se c =
     (let lib = resolveStdLibPath se c; packages = (\<lambda>x. case x of Some ps \<Rightarrow> ps | None \<Rightarrow> [])
      in \<lparr>rp_workspacePath = st_workspacePath c, rp_stdLibPath = lib, rp_stdLibAvailable = (lib \<noteq> None),
          rp_stdLibFallbackUrl = (if lib \<noteq> None then None else Some (getStdLibDownloadUrl c)),
          rp_scopedPaths = spread (packages (st_localPackages c)) (packages (st_remotePackages c))\<rparr>)"

definition createAlmadarLoaderOptions :: "studio_env \<Rightarrow> studio_config \<Rightarrow> unified_options" where
  "createAlmadarLoaderOptions se c =
     (let resolved = resolveAlmadarPaths se c
      in \<lparr>uo_basePath = rp_workspacePath resolved,
          uo_stdLibPath = (case or_null (rp_stdLibPath resolved) of Some p \<Rightarrow> Some p | None \<Rightarrow> or_null (rp_stdLibFallbackUrl resolved)),
          uo_scopedPaths = Some (rp_scopedPaths resolved), uo_allowOutside = Given False,
          uo_timeout = Some 30000, uo_credentials = Some ''omit'', uo_forceLoader = None\<rparr>)"

definition needsStdLibDownload :: "studio_env \<Rightarrow> studio_config \<Rightarrow> bool" where
  "needsStdLibDownload se c = (\<not> rp_stdLibAvailable (resolveAlmadarPaths se c))"

definition getStdLibDownloadTarget :: "studio_env \<Rightarrow> studio_config \<Rightarrow> string option" where
  "getStdLibDownloadTarget se c =
     (case or_null (st_downloadedStdPath c) of
        Some p \<Rightarrow> Some p
      | None \<Rightarrow> map_option (\<lambda>u. u @ ''/orbital-std'') (snd (getElectronPaths se)))"

definition markers :: "string list" where
  "markers = [''.git'', ''package.json'', ''orbital.config.json'', ''almadar.config.json'', ''.orbital'']"

text \<open>The walk up to the root; the outer option is a walk that never ends.\<close>

partial_function (option) workspace_walk :: "(string \<Rightarrow> bool) \<Rightarrow> string \<Rightarrow> string \<Rightarrow> string option option" where
  "workspace_walk exists base current =
     (if current = base then Some None
      else if find (\<lambda>m. exists (path_join [current, m])) markers \<noteq> None then Some (Some current)
      else workspace_walk exists base (path_dirname current))"

definition detectWorkspace :: "studio_env \<Rightarrow> string \<Rightarrow> string option option" where
  "detectWorkspace se schemaPath =
     (if isBrowser (se_platform se) then Some None
      else let current = path_dirname schemaPath
           in workspace_walk (se_exists se) (if isAbsolute current then ''/'' else []) current)"

section \<open>A loaded schema is loaded\<close>

lemma answering_cong: "un_disk un = un_disk un' \<Longrightarrow> answering pl uo un p = answering pl uo un' p"
  by (simp add: answering_def)

lemma initFsLoader_idem: "un_initialized un \<Longrightarrow> initFsLoader env pl uo un = un"
  by (simp add: initFsLoader_def)

lemma initFsLoader_initialized: "un_initialized (initFsLoader env pl uo un)"
  by (simp add: initFsLoader_def Let_def)

lemma unified_resolvePath_state:
  assumes "unified_resolvePath env net pl uo p fromPath un = Some (r, un1)"
  shows "un_disk un1 = un_disk un \<and> un_initialized un1 = un_initialized un \<and> un_cache un1 = un_cache un \<and> un_acts un1 = un_acts un"
  using assms by (auto simp: unified_resolvePath_def split: option.splits)

lemma delegate_state:
  assumes "delegate env net pl uo p fromPath chain un = Some (r, chain', un1)"
  shows "un_disk un1 = un_disk un \<and> un_initialized un1 = un_initialized un"
  using assms by (auto simp: delegate_def split: option.splits prod.splits)

text \<open>Registries are resolved once: a second resolution over the roots of the first finds the same path.\<close>

lemma search_roots_again:
  assumes "search_roots env target roots known = Some (r, known')"
  shows "(\<forall>pkg dir. map_of known pkg = Some dir \<longrightarrow> map_of known' pkg = Some dir)
    \<and> search_roots env target roots known' = Some (r, known')"
  using assms
proof (induction env target roots known rule: search_roots.induct)
  case (2 env target pkg roots known)
  show ?case
  proof (cases "case map_of known pkg of Some dir \<Rightarrow> Inr dir | None \<Rightarrow> registry_of env pkg")
    case (Inl m)
    then show ?thesis using 2(2) by (auto split: option.splits)
  next
    case (Inr dir)
    obtain found where found: "findFileRecursive env dir target dir = Some found"
      using 2(2) Inr by (cases "findFileRecursive env dir target dir") auto
    define known1 where "known1 = AList.update pkg dir known"
    have k1: "map_of known1 q = (if q = pkg then Some dir else map_of known q)" for q
      by (simp add: known1_def update_conv')
    have keep: "map_of known q = Some d \<Longrightarrow> map_of known1 q = Some d" for q d
      using Inr by (auto simp: k1)
    have same: "AList.update pkg dir later = later" if "map_of later pkg = Some dir" for later
      using that by (induction later) (auto split: if_splits)
    show ?thesis
    proof (cases found)
      case (Some q)
      then have "r = Inr (Some q)" "known' = known1" using 2(2) Inr found by (auto simp: known1_def)
      then show ?thesis using found Some keep same by (auto simp: k1)
    next
      case None
      then have rest: "search_roots env target roots known1 = Some (r, known')" using 2(2) Inr found by (simp add: known1_def)
      note IH = 2(1) [OF Inr found _ None rest [unfolded known1_def], OF refl, folded known1_def]
      have "map_of known' pkg = Some dir" using IH by (simp add: k1)
      then show ?thesis using IH keep same found None by auto
    qed
  qed
qed auto

lemma registries_again:
  assumes "resolveBehaviorInRegistries env xl name prefix known = Some (r, known')"
  shows "resolveBehaviorInRegistries env xl name prefix known' = Some (r, known')"
proof (cases "rbind (configuredRoots xl) (filter_prefix env prefix)")
  case (Inr roots)
  obtain found where found: "search_roots env (name @ ''.orb'') roots known = Some (found, known')" "r = Inr (registry_answer name roots found)"
    using assms Inr by (auto simp: resolveBehaviorInRegistries_def)
  then show ?thesis using search_roots_again [OF found(1)] Inr by (simp add: resolveBehaviorInRegistries_def)
qed (use assms in \<open>simp add: resolveBehaviorInRegistries_def\<close>)

lemma canonical_again:
  assumes "resolve_canonical env xl p from known = Some (r, known')"
  shows "resolve_canonical env xl p from known' = Some (r, known')"
proof -
  have std: "resolveStdPath env xl p known = Some (r, known') \<Longrightarrow> resolveStdPath env xl p known' = Some (r, known')"
    unfolding resolveStdPath_def Let_def by (auto split: if_splits dest: registries_again)
  have other: "resolve_other env xl p from known = Some (r, known') \<Longrightarrow> resolve_other env xl p from known' = Some (r, known')"
  proof -
    let ?reg = "\<lambda>known. resolveBehaviorInRegistries env xl (drop_suffix ''.orb'' (after_last CHR ''/'' p)) (Some (before_first CHR ''/'' p)) known"
    assume o: "resolve_other env xl p from known = Some (r, known')"
    show ?thesis
    proof (cases "CHR ''/'' \<in> set p")
      case True
      then obtain a known'' where a: "?reg known = Some (a, known'')"
        using o by (cases "?reg known") (auto simp: resolve_other_def Let_def)
      have "known'' = known'" using o True unfolding resolve_other_def Let_def a by (auto split: sum.splits bool.splits)
      then show ?thesis using o True registries_again [OF a] unfolding resolve_other_def Let_def a by simp
    qed (use o in \<open>auto simp: resolve_other_def Let_def\<close>)
  qed
  show ?thesis using assms std other unfolding resolve_canonical_def by (auto split: if_splits)
qed

lemma resolvePath_again:
  "resolvePath env xl p from known = Some (r, known') \<Longrightarrow> resolvePath env xl p from known' = Some (r, known')"
  by (auto simp: resolvePath_def canonical_again split: browse_mapping.splits)

text \<open>Loading does not touch the registry roots beyond what resolving did.\<close>

lemma load_roots:
  assumes "load env xl p from chain st = Some (r, chain', st')" "resolvePath env xl p from (ls_registryRoots st) = Some (res, known)"
  shows "ls_registryRoots st' = known"
  using assms by (auto simp: load_def Let_def load_resolved_def chain_push_def split: sum.splits option.splits if_splits prod.splits)

lemma unified_resolvePath_again:
  assumes "unified_resolvePath env net pl uo p fromPath un = Some (res, un1)" "answering pl uo un2 p = answering pl uo un p"
    and "\<And>xl. answering pl uo un p = Some xl \<Longrightarrow> ls_registryRoots (un_diskState un2) = ls_registryRoots (un_diskState un1)"
  shows "unified_resolvePath env net pl uo p fromPath un2 = Some (res, un2)"
proof (cases "answering pl uo un p")
  case None
  then show ?thesis using assms(1,2) by (simp add: unified_resolvePath_def)
next
  case (Some xl)
  then obtain known where k: "resolvePath env xl p fromPath (ls_registryRoots (un_diskState un)) = Some (res, known)"
    "un1 = un\<lparr>un_diskState := (un_diskState un)\<lparr>ls_registryRoots := known\<rparr>\<rparr>"
    using assms(1) by (auto simp: unified_resolvePath_def)
  have "ls_registryRoots (un_diskState un2) = known" using assms(3) [OF Some] k(2) by simp
  then show ?thesis using resolvePath_again [OF k(1)] Some assms(2) by (simp add: unified_resolvePath_def)
qed

lemma http_resolvePath_fetch: "http_resolvePath (net\<lparr>hn_fetch := f\<rparr>) = http_resolvePath net"
proof -
  have "joinUrl (net\<lparr>hn_fetch := f\<rparr>) = joinUrl net" by (intro ext) (simp add: joinUrl_def)
  moreover have "getParentUrl (net\<lparr>hn_fetch := f\<rparr>) = getParentUrl net" by (intro ext) (simp add: getParentUrl_def)
  ultimately show ?thesis
    by (intro ext) (unfold http_resolvePath_def http_std_def http_scoped_def http_relative_def, simp only:)
qed

lemma unified_resolvePath_fetch:
  "unified_resolvePath env (net\<lparr>hn_fetch := f\<rparr>) = unified_resolvePath env net"
  by (intro ext) (unfold unified_resolvePath_def http_resolvePath_fetch, rule refl)

lemma delegate_roots:
  assumes "delegate env net pl uo p from chain un = Some (r, chain', un')" "answering pl uo un p = Some xl"
    and "resolvePath env xl p from (ls_registryRoots (un_diskState un)) = Some (res, ls_registryRoots (un_diskState un))"
  shows "ls_registryRoots (un_diskState un') = ls_registryRoots (un_diskState un)"
  using assms load_roots [OF _ assms(3)] by (auto simp: delegate_def)

text \<open>
  a schema that was loaded is answered again from memory, the very same one, without a request to
  the network, whatever the network would answer then and on whatever chain the import is.
\<close>
theorem loaded_schema_is_kept:
  assumes "unified_load env net pl uo p fromPath chain un = Some (Inr (Inr l), chain1, un1)"
  shows "unified_load env (net\<lparr>hn_fetch := other\<rparr>) pl uo p fromPath later un1 = Some (Inr (Inr l), later, un1)"
proof -
  define un0 where "un0 = initFsLoader env pl uo un"
  obtain res una where res: "unified_resolvePath env net pl uo p fromPath un0 = Some (res, una)"
    using assms by (cases "unified_resolvePath env net pl uo p fromPath un0") (auto simp: unified_load_def un0_def)
  then obtain key where key: "res = Inr (Inr key)"
    using assms by (auto simp: unified_load_def un0_def split: sum.splits)
  have ini: "un_initialized una" "un_disk una = un_disk un0"
    using unified_resolvePath_state [OF res] initFsLoader_initialized un0_def by auto
  have cases: "(un1 = una \<and> map_of (un_cache una) key = Some l) \<or>
    (\<exists>un2. delegate env net pl uo p fromPath chain una = Some (Inr (Inr l), chain1, un2) \<and> un1 = remember key (Inr (Inr l)) un2)"
    using assms res key by (auto simp: unified_load_def un0_def[symmetric] split: option.splits)
  have kept: "map_of (un_cache un1) key = Some l \<and> un_initialized un1 \<and> un_disk un1 = un_disk un0"
    using cases ini delegate_state by (fastforce simp: remember_def update_conv')
  have roots: "ls_registryRoots (un_diskState un1) = ls_registryRoots (un_diskState una)" if xl: "answering pl uo un0 p = Some xl" for xl
    using cases
  proof
    assume "\<exists>un2. delegate env net pl uo p fromPath chain una = Some (Inr (Inr l), chain1, un2) \<and> un1 = remember key (Inr (Inr l)) un2"
    then obtain un2 where d: "delegate env net pl uo p fromPath chain una = Some (Inr (Inr l), chain1, un2)" "un1 = remember key (Inr (Inr l)) un2"
      by blast
    have "resolvePath env xl p fromPath (ls_registryRoots (un_diskState una)) = Some (res, ls_registryRoots (un_diskState una))"
      using res xl resolvePath_again by (auto simp: unified_resolvePath_def)
    moreover have "answering pl uo una p = Some xl" using xl ini(2) by (simp add: answering_def split: if_splits)
    ultimately show ?thesis using delegate_roots [OF d(1)] by (simp add: d(2) remember_def)
  qed simp
  have "unified_resolvePath env net pl uo p fromPath un1 = Some (res, un1)"
    using kept roots by (intro unified_resolvePath_again [OF res] answering_cong) auto
  then show ?thesis
    using kept key by (simp add: unified_load_def initFsLoader_idem unified_resolvePath_fetch)
qed

section \<open>Options that are left out\<close>

lemma scope_of_at: "scope_of p = Some scope \<Longrightarrow> starts_with ''@'' p \<and> \<not> starts_with ''std/'' p"
  by (cases p) (auto simp: scope_of_def Let_def starts_with_def split: if_splits)

lemma resolvePath_scoped:
  assumes "scope_of p = Some scope" "mapBrowseSpecifier p = NotBrowseForm"
  shows "resolvePath env xl p fromPath known = Some (resolveScopedPath xl p, known)"
  using scope_of_at [OF assms(1)] assms(2) by (simp add: resolvePath_def resolve_canonical_def)

text \<open>
  a loader on disk whose options name no scoped packages answers an import of one with an error;
  behind the unified loader, which passes the option it was not given on as \<open>undefined\<close>, the same
  import throws.
\<close>
theorem unconfigured_scope_throws:
  assumes "op_scopedPaths disk = Absent" "uo_scopedPaths uo = None" "uo_forceLoader uo \<noteq> Some OverHttp"
    and "\<not> isBrowser pl" "pf_module pl" "scope_of p = Some scope" "mapBrowseSpecifier p = NotBrowseForm"
  shows "map_option fst (load env (new_loader env disk) p fromPath chain st) = Some
      (Inr (Inl (''Scoped package '' @ in_quotes scope @ '' not configured. Available: none'')))
    \<and> map_option fst (unified_load env net pl uo p fromPath chain new_unified) = Some
      (Inl (''Cannot read properties of undefined (reading '' @ [CHR 0x27] @ scope @ [CHR 0x27] @ '')''))"
proof
  have "resolveScopedPath (new_loader env disk) p
      = Inr (Inl (''Scoped package '' @ in_quotes scope @ '' not configured. Available: none''))"
    using assms(1,6) by (simp add: resolveScopedPath_def new_loader_def Let_def)
  then show "map_option fst (load env (new_loader env disk) p fromPath chain st) = Some
      (Inr (Inl (''Scoped package '' @ in_quotes scope @ '' not configured. Available: none'')))"
    by (simp add: load_def resolvePath_scoped [OF assms(6,7)] Let_def)
next
  let ?xl = "new_loader env (disk_options uo)"
  have "\<not> is_url p" using scope_of_at [OF assms(6)] by (cases p) (auto simp: is_url_def starts_with_def)
  then have "\<not> over_http uo p" using scope_of_at [OF assms(6)] assms(2) by (simp add: over_http_def)
  then have "getLoaderForPath pl uo p = OnDisk"
    using assms(3,4) by (auto simp: getLoaderForPath_def split: option.split intro: strategy.exhaust)
  moreover have "un_disk (initFsLoader env pl uo new_unified) = Some ?xl"
    using assms(3-5) by (simp add: initFsLoader_def new_unified_def Let_def)
  ultimately have "answering pl uo (initFsLoader env pl uo new_unified) p = Some ?xl" by (simp add: answering_def)
  moreover have "resolveScopedPath ?xl p = Inl (''Cannot read properties of undefined (reading '' @ [CHR 0x27] @ scope @ [CHR 0x27] @ '')'')"
    using assms(2,6) by (simp add: resolveScopedPath_def new_loader_def disk_options_def as_given_def)
  ultimately show "map_option fst (unified_load env net pl uo p fromPath chain new_unified) = Some
      (Inl (''Cannot read properties of undefined (reading '' @ [CHR 0x27] @ scope @ [CHR 0x27] @ '')''))"
    by (simp add: unified_load_def unified_resolvePath_def resolvePath_scoped [OF assms(6,7)])
qed

section \<open>The walk to the root\<close>

lemma inner_length: "length (strip_slashes p) \<le> length p"
  unfolding strip_slashes_def by (metis length_dropWhile_le length_rev)

lemma dirname_shorter:
  assumes "isAbsolute p" "p \<noteq> ''/''"
  shows "isAbsolute (path_dirname p) \<and> length (path_dirname p) < length p"
proof -
  obtain t where p: "p = CHR ''/'' # t" "t \<noteq> []" using assms by (cases p) (auto simp: isAbsolute_iff)
  let ?inner = "strip_slashes t"
  have before: "length (before_last CHR ''/'' ?inner) < length ?inner" if "CHR ''/'' \<in> set ?inner"
    using that length_dropWhile_le [of _ "rev ?inner"]
    by (cases "dropWhile (\<lambda>x. x \<noteq> CHR ''/'') (rev ?inner)") (auto simp: before_last_def dropWhile_eq_Nil_conv, metis less_le_trans lessI length_Cons length_dropWhile_le length_rev)
  have last: "last ?inner \<noteq> CHR ''/''" if "?inner \<noteq> []"
    using that hd_dropWhile [of "\<lambda>c. c = CHR ''/''" "rev t"] by (auto simp: strip_slashes_def last_rev)
  have two: "2 \<le> length ?inner" if "CHR ''/'' \<in> set ?inner"
    using that last by (cases ?inner; cases "tl ?inner") auto
  show ?thesis
    using p before two inner_length [of t] by (auto simp: path_dirname_def Let_def isAbsolute_iff)
qed

lemma workspace_walk_returns:
  assumes "isAbsolute current"
  shows "\<exists>r. workspace_walk exists ''/'' current = Some r"
  using assms
proof (induction "length current" arbitrary: current rule: less_induct)
  case less
  show ?case
  proof (cases "current = ''/''")
    case False
    from less.hyps [OF _] dirname_shorter [OF less.prems False] obtain r where "workspace_walk exists ''/'' (path_dirname current) = Some r" by blast
    then show ?thesis by (subst workspace_walk.simps) simp
  qed (subst workspace_walk.simps, simp)
qed

lemma workspace_walk_stuck:
  assumes "workspace_walk exists [] ''.'' = Some r"
  shows "find (\<lambda>m. exists (path_join [''.'', m])) markers \<noteq> None"
proof -
  have dot: "path_dirname ''.'' = ''.''" by code_simp
  have "b = [] \<and> c = ''.'' \<longrightarrow> find (\<lambda>m. e (path_join [''.'', m])) markers \<noteq> None"
    if r: "workspace_walk e b c = Some r" for e b c r
    by (rule workspace_walk.raw_induct [OF _ r, where P = "\<lambda>e b c r. b = [] \<and> c = ''.'' \<longrightarrow> find (\<lambda>m. e (path_join [''.'', m])) markers \<noteq> None"])
      (auto simp: dot split: if_splits)
  then show ?thesis using assms by blast
qed

text \<open>
  looking for a file's workspace ends for a file named from the root; for one named relative to the
  working directory, in a directory without a marker, it never does.
\<close>
theorem detectWorkspace_needs_a_root:
  assumes "\<not> isBrowser (se_platform se)"
  shows "(isAbsolute schemaPath \<longrightarrow> detectWorkspace se schemaPath \<noteq> None)
    \<and> (CHR ''/'' \<notin> set schemaPath \<and> (\<forall>m\<in>set markers. \<not> se_exists se (path_join [''.'', m])) \<longrightarrow> detectWorkspace se schemaPath = None)"
proof (intro conjI impI)
  assume a: "isAbsolute schemaPath"
  have "isAbsolute (path_dirname schemaPath)"
  proof (cases "schemaPath = ''/''")
    case True
    have "isAbsolute (path_dirname ''/'')" by code_simp
    with True show ?thesis by simp
  qed (use dirname_shorter [OF a] in blast)
  then show "detectWorkspace se schemaPath \<noteq> None"
    using workspace_walk_returns assms by (auto simp: detectWorkspace_def Let_def)
next
  assume h: "CHR ''/'' \<notin> set schemaPath \<and> (\<forall>m\<in>set markers. \<not> se_exists se (path_join [''.'', m]))"
  have "CHR ''/'' \<notin> set (drop 1 schemaPath)" using h by (auto dest: in_set_dropD)
  then have "CHR ''/'' \<notin> set (strip_slashes (drop 1 schemaPath))"
    by (auto simp: strip_slashes_def dest: set_dropWhileD)
  moreover have "\<not> isAbsolute schemaPath" using h by (cases schemaPath) (auto simp: isAbsolute_iff)
  ultimately have "path_dirname schemaPath = ''.''" by (simp add: path_dirname_def Let_def)
  moreover have "find (\<lambda>m. se_exists se (path_join [''.'', m])) markers = None"
    using h by (auto simp: find_None_iff)
  ultimately show "detectWorkspace se schemaPath = None"
    using assms workspace_walk_stuck [of "se_exists se"]
    by (cases "workspace_walk (se_exists se) [] ''.''") (auto simp: detectWorkspace_def Let_def isAbsolute_def starts_with_def)
qed

section \<open>Samples\<close>

definition sample_net :: http_env where
  "sample_net = \<lparr>hn_url = False, hn_join = (\<lambda>p b. None), hn_parts = (\<lambda>u. None), hn_fetch = (\<lambda>u. Answered 200 ''OK'' (Inr u))\<rparr>"

definition sample_options :: unified_options where
  "sample_options = \<lparr>uo_basePath = ''/app/'', uo_stdLibPath = None, uo_scopedPaths = None, uo_allowOutside = Absent,
     uo_timeout = None, uo_credentials = None, uo_forceLoader = None\<rparr>"

definition node :: platform where
  "node = \<lparr>pf_process = True, pf_electron = False, pf_window = False, pf_module = True\<rparr>"

definition sample_first :: "((unit, unit) loaded_schema loaded_or_thrown \<times> import_chain \<times> (unit, unit) unified) option" where
  "sample_first = unified_load sample_disk sample_net node (sample_options\<lparr>uo_forceLoader := Some OverHttp\<rparr>) ''https://x.org/a'' None [] new_unified"

theorem loaded_schema_is_kept_witness:
  "\<exists>l un. sample_first = Some (Inr (Inr l), [], un) \<and> ld_sourcePath l = ''https://x.org/a''
     \<and> unified_load sample_disk (sample_net\<lparr>hn_fetch := \<lambda>u. FetchThrew ''AbortError'' u\<rparr>) node (sample_options\<lparr>uo_forceLoader := Some OverHttp\<rparr>) ''https://x.org/a'' None [''z''] un
         = Some (Inr (Inr l), [''z''], un)"
proof -
  let ?l = "\<lparr>ld_schema = \<lparr>of_orbitals = [(''Main'', ())], of_config = None\<rparr>, ld_sourcePath = ''https://x.org/a'', ld_importPath = ''https://x.org/a''\<rparr>"
  have "map_option fst sample_first = Some (Inr (Inr ?l)) \<and> map_option (fst \<circ> snd) sample_first = Some []"
    by (simp add: sample_first_def unified_load_def unified_resolvePath_def initFsLoader_def new_unified_def answering_def
        getLoaderForPath_def sample_options_def http_resolvePath_def is_url_def starts_with_def delegate_def http_load_def
        chain_push_def chain_pop_def http_load_resolved_def fetchSchema_def sample_net_def read_schema_def sample_disk_def Let_def remember_def)
  then have first: "map_option fst sample_first = Some (Inr (Inr ?l))" "map_option (fst \<circ> snd) sample_first = Some []"
    by (rule conjunct1, rule conjunct2)
  obtain x where x: "sample_first = Some x" using first(1) by (cases sample_first) simp_all
  have "x = (Inr (Inr ?l), [], snd (snd x))" using first unfolding x by (cases x) simp
  then have un: "sample_first = Some (Inr (Inr ?l), [], snd (snd x))" using x by simp
  show ?thesis
    by (intro exI [of _ ?l] exI [of _ "snd (snd x)"] conjI un loaded_schema_is_kept [OF un [unfolded sample_first_def]]) simp
qed

theorem unconfigured_scope_throws_witness:
  "map_option fst (unified_load sample_disk sample_net node sample_options ''@lib/x'' None [] new_unified) = Some
     (Inl (''Cannot read properties of undefined (reading '' @ [CHR 0x27] @ ''@lib'' @ [CHR 0x27] @ '')''))"
proof -
  let ?disk = "\<lparr>op_basePath = ''/app/'', op_stdLibPath = Absent, op_behaviorsLibPaths = Absent, op_scopedPaths = Absent,
      op_allowOutsideBasePath = Absent\<rparr>"
  have "uo_scopedPaths sample_options = None" "uo_forceLoader sample_options \<noteq> Some OverHttp" "\<not> isBrowser node" "pf_module node"
    "scope_of ''@lib/x'' = Some ''@lib''" "mapBrowseSpecifier ''@lib/x'' = NotBrowseForm"
    by code_simp+
  note rest = this
  have "op_scopedPaths ?disk = Absent" by simp
  from unconfigured_scope_throws [OF this rest] show ?thesis by (rule conjunct2)
qed

definition sample_studio :: studio_env where
  "sample_studio = \<lparr>se_platform = node, se_exists = (\<lambda>p. p = ''/work/.git''), se_api = None, se_resourcesPath = None\<rparr>"

theorem detectWorkspace_needs_a_root_witness:
  "detectWorkspace sample_studio ''main.orb'' = None \<and> detectWorkspace sample_studio ''/tmp/x/main.orb'' \<noteq> None"
proof -
  have "\<not> isBrowser (se_platform sample_studio)" by code_simp
  note walk = detectWorkspace_needs_a_root [OF this]
  have "CHR ''/'' \<notin> set ''main.orb''" "isAbsolute ''/tmp/x/main.orb''" by code_simp+
  moreover have "\<forall>m\<in>set markers. \<not> se_exists sample_studio (path_join [''.'', m])" by code_simp
  ultimately show ?thesis using walk [of "''main.orb''"] walk [of "''/tmp/x/main.orb''"] by blast
qed

end
