(* ===== verification/Residence.thy ===== *)
theory Residence
  imports ServerDispatch TraitIndex
begin

text \<open>
  The transport that sends each leg of a dispatch to where its data lives
  (\<open>evaluation/residence-transport.ts\<close>): the browser store in process, or the server. The two transports
  are functions of a world; the trait index and the questions it answers are those of \<open>TraitIndex\<close>.
\<close>

section \<open>Legs\<close>

datatype residence = InProcess | AtServer

text \<open>\<open>events.get(name) ?? request.event\<close>: a cascade trait's own event, the last entry of a name counting.\<close>

definition leg_events :: "server_request \<Rightarrow> (string \<times> string) list" where
  "leg_events req =
     foldl (\<lambda>m t. AList.update (ht_trait t) (case obj_get (ht_rest t) ''event'' of Some (JStr e) \<Rightarrow> e | _ \<Rightarrow> eq_event req) m)
       [] (case rq_traits req of Some ts \<Rightarrow> ts | None \<Rightarrow> [])"

definition leg_names :: "server_request \<Rightarrow> string list" where
  "leg_names req =
     (case eq_targetTrait req of Some t \<Rightarrow> [t] | None \<Rightarrow> []) @ (case rq_sourceTrait req of Some t \<Rightarrow> [t] | None \<Rightarrow> [])
     @ map ht_trait (case rq_traits req of Some ts \<Rightarrow> ts | None \<Rightarrow> [])
     @ map ht_trait (case rq_mount req of Some ms \<Rightarrow> ms | None \<Rightarrow> [])"

definition trait_name :: "indexed_trait \<Rightarrow> string" where
  "trait_name entry = td_name (ix_traitDef entry)"

definition legTraits :: "server_request \<Rightarrow> string \<Rightarrow> 'e trait_index \<Rightarrow> (indexed_trait \<times> string) list" where
  "legTraits req orbitalName index =
     (let named = leg_names req; events = leg_events req
      in map (\<lambda>entry. (entry, case map_of events (trait_name entry) of Some e \<Rightarrow> e | None \<Rightarrow> eq_event req))
           (filter (\<lambda>entry. if named \<noteq> [] then trait_name entry \<in> set named else ix_orbitalName entry = orbitalName)
             (map snd (ti_byName index))))"

section \<open>Routing\<close>

record 'e residence_options =
  ro_core :: "'e index_core"
  ro_index :: "'e trait_index"
  ro_remote :: bool \<comment> \<open>there is a server\<close>

definition stores :: "'e residence_options \<Rightarrow> string \<Rightarrow> bool" where
  "stores ro entityType \<longleftrightarrow> entityType \<in> set (map e_name (filter (xc_storesInBrowser (ro_core ro)) (ti_allEntities (ro_index ro))))"

definition at_server :: "'e residence_options \<Rightarrow> indexed_trait \<times> string \<Rightarrow> bool" where
  "at_server ro leg =
     touchesServer (ro_core ro) (td_transitions (ix_traitDef (fst leg))) (ir_ticks (ix_irTrait (fst leg))) (ix_config (fst leg)) (stores ro) (Some (snd leg))"

definition in_browser :: "'e residence_options \<Rightarrow> indexed_trait \<times> string \<Rightarrow> bool" where
  "in_browser ro leg \<longleftrightarrow>
     snd leg \<in> set (browserLegEvents (ro_core ro) (td_transitions (ix_traitDef (fst leg))) (stores ro) (ix_config (fst leg))
       (case ir_ticks (ix_irTrait (fst leg)) of Some ts \<Rightarrow> ts | None \<Rightarrow> []))"

definition route :: "'e residence_options \<Rightarrow> string \<Rightarrow> server_request \<Rightarrow> string + residence" where
  "route ro orbitalName req =
     (let legs = legTraits req orbitalName (ro_index ro);
          server = map (trait_name \<circ> fst) (filter (at_server ro) legs);
          browser = map (trait_name \<circ> fst) (filter (in_browser ro) legs)
      in if server \<noteq> [] \<and> browser \<noteq> []
         then Inl (''residence: one dispatch reaches browser-stored data ('' @ join_with '', '' browser @ '') and server data ('' @
                join_with '', '' server @ ''); split it with an emit and a listen'')
         else if browser \<noteq> [] then Inr InProcess
         else if ro_remote ro then Inr AtServer
         else if server \<noteq> [] then Inl (''residence: '' @ join_with '', '' server @ '' needs server data, and this host has no server'')
         else Inr InProcess)"

section \<open>Mount batches\<close>

definition seed_request :: "server_request \<Rightarrow> held_trait \<Rightarrow> server_request" where
  "seed_request req seed = req\<lparr>rq_mount := Some [seed], rq_traits := None, eq_targetTrait := None, rq_sourceTrait := None\<rparr>"

text \<open>The groups: a Map from transport to the names of its seeds, in the order a transport first came.\<close>

fun group_seeds :: "(held_trait \<Rightarrow> string + residence) \<Rightarrow> held_trait list \<Rightarrow> (residence \<times> string list) list
    \<Rightarrow> string + (residence \<times> string list) list" where
  "group_seeds to_residence [] groups = Inr groups"
| "group_seeds to_residence (seed # seeds) groups =
     (case to_residence seed of
        Inl e \<Rightarrow> Inl e
      | Inr r \<Rightarrow> group_seeds to_residence seeds
          (AList.update r ((case map_of groups r of Some names \<Rightarrow> names | None \<Rightarrow> []) @ [ht_trait seed]) groups))"

definition leg_request :: "server_request \<Rightarrow> string list \<Rightarrow> server_request" where
  "leg_request req names =
     (let keep = (\<lambda>t. ht_trait t \<in> set names)
      in req\<lparr>rq_mount := Some (filter keep (case rq_mount req of Some ms \<Rightarrow> ms | None \<Rightarrow> [])),
             rq_traits := map_option (filter keep) (rq_traits req),
             rq_entityByTrait := map_option (filter (\<lambda>(trait, _). trait \<in> set names)) (rq_entityByTrait req)\<rparr>)"

definition mountLegs :: "'e residence_options \<Rightarrow> string \<Rightarrow> server_request \<Rightarrow> string + (residence \<times> server_request) list" where
  "mountLegs ro orbitalName req =
     rbind (group_seeds (\<lambda>seed. route ro orbitalName (seed_request req seed)) (case rq_mount req of Some ms \<Rightarrow> ms | None \<Rightarrow> []) [])
       (\<lambda>groups. Inr (map (\<lambda>(r, names). (r, leg_request req names)) groups))"

section \<open>Responses\<close>

text \<open>A response with the fields a leg may leave out.\<close>

record leg_response =
  lr_success :: bool
  lr_transitioned :: bool
  lr_states :: jobj
  lr_emittedEvents :: "emitted_event list"
  lr_data :: "(string \<times> jval list) list option"
  lr_entityByTrait :: "jobj option"
  lr_clientEffects :: "jval list option"
  lr_clientEffectsByTrait :: "jval list option"
  lr_effectResults :: "jval list option"
  lr_rejections :: "rejection list option"
  lr_cascadeTruncated :: "jval list option"
  lr_guardFailed :: "jval option"
  lr_error :: "string option"

text \<open>\<open>concat(pick)\<close> and \<open>Object.assign({}, ...)\<close>.\<close>

definition concat_field :: "('r \<Rightarrow> 'a list option) \<Rightarrow> 'r list \<Rightarrow> 'a list option" where
  "concat_field pick rs =
     (if list_ex (\<lambda>r. pick r \<noteq> None) rs then Some (concat (map (\<lambda>r. case pick r of Some xs \<Rightarrow> xs | None \<Rightarrow> []) rs)) else None)"

definition assign_all :: "('k \<times> 'v) list list \<Rightarrow> ('k \<times> 'v) list" where
  "assign_all objs = foldl spread [] objs"

definition add_rows :: "(string \<times> jval list) list \<Rightarrow> (string \<times> jval list) list \<Rightarrow> (string \<times> jval list) list" where
  "add_rows data more' =
     foldl (\<lambda>d (entity, rows). AList.update entity ((case map_of d entity of Some old \<Rightarrow> old | None \<Rightarrow> []) @ rows) d) data more'"

definition or_empty :: "'a list option \<Rightarrow> 'a list" where
  "or_empty x = (case x of Some xs \<Rightarrow> xs | None \<Rightarrow> [])"

definition mergeMountResponses :: "leg_response list \<Rightarrow> leg_response" where
  "mergeMountResponses rs =
     \<lparr>lr_success = list_all lr_success rs,
      lr_transitioned = list_ex lr_transitioned rs,
      lr_states = assign_all (map lr_states rs),
      lr_emittedEvents = concat (map lr_emittedEvents rs),
      lr_data = (if list_ex (\<lambda>r. lr_data r \<noteq> None) rs then Some (foldl (\<lambda>d r. add_rows d (or_empty (lr_data r))) [] rs) else None),
      lr_entityByTrait = (if list_ex (\<lambda>r. lr_entityByTrait r \<noteq> None) rs
        then Some (assign_all (map (\<lambda>r. or_empty (lr_entityByTrait r)) rs)) else None),
      lr_clientEffects = concat_field lr_clientEffects rs,
      lr_clientEffectsByTrait = concat_field lr_clientEffectsByTrait rs,
      lr_effectResults = concat_field lr_effectResults rs,
      lr_rejections = concat_field lr_rejections rs,
      lr_cascadeTruncated = concat_field lr_cascadeTruncated rs,
      lr_guardFailed = Option.bind (find (\<lambda>r. lr_guardFailed r \<noteq> None) rs) lr_guardFailed,
      lr_error = (let errors = List.map_filter lr_error rs in if errors \<noteq> [] then Some (join_with ''; '' errors) else None)\<rparr>"

section \<open>The transport\<close>

type_synonym 'w transports = "residence \<Rightarrow> string \<Rightarrow> server_request \<Rightarrow> 'w \<Rightarrow> (string + leg_response) \<times> 'w"

fun send_legs :: "'w transports \<Rightarrow> string \<Rightarrow> (residence \<times> server_request) list \<Rightarrow> 'w \<Rightarrow> (string + leg_response list) \<times> 'w" where
  "send_legs ts orbitalName [] w = (Inr [], w)"
| "send_legs ts orbitalName ((r, req) # legs) w =
     sbind (ts r orbitalName req) (\<lambda>response. sbind (send_legs ts orbitalName legs) (\<lambda>rest w. (Inr (response # rest), w))) w"

definition send_routed :: "'e residence_options \<Rightarrow> 'w transports \<Rightarrow> string \<Rightarrow> server_request \<Rightarrow> 'w \<Rightarrow> (string + leg_response) \<times> 'w" where
  "send_routed ro ts orbitalName req w =
     (case route ro orbitalName req of Inl e \<Rightarrow> (Inl e, w) | Inr r \<Rightarrow> ts r orbitalName req w)"

definition residence_send :: "'e residence_options \<Rightarrow> 'w transports \<Rightarrow> string \<Rightarrow> server_request \<Rightarrow> 'w \<Rightarrow> (string + leg_response) \<times> 'w" where
  "residence_send ro ts orbitalName req w =
     (if 1 < length (or_empty (rq_mount req))
      then case mountLegs ro orbitalName req of
          Inl e \<Rightarrow> (Inl e, w)
        | Inr legs \<Rightarrow>
            if 1 < length legs
            then sbind (send_legs ts orbitalName legs) (\<lambda>responses w. (Inr (mergeMountResponses responses), w)) w
            else send_routed ro ts orbitalName req w
      else send_routed ro ts orbitalName req w)"

section \<open>Lemmas on routing\<close>

text \<open>Where a leg is sent, none of its traits reaches the other store.\<close>

lemma route_respects:
  assumes "route ro orbitalName req = Inr r"
  shows "case r of
      InProcess \<Rightarrow> \<not> list_ex (at_server ro) (legTraits req orbitalName (ro_index ro))
    | AtServer \<Rightarrow> ro_remote ro \<and> \<not> list_ex (in_browser ro) (legTraits req orbitalName (ro_index ro))"
  using assms by (auto simp: route_def Let_def list_ex_iff filter_empty_conv split: if_splits)

text \<open>A seed is routed by its trait; what else it names makes no difference.\<close>

lemma route_seed_cong:
  assumes "ht_trait s = ht_trait s'"
  shows "route ro orbitalName (seed_request req s) = route ro orbitalName (seed_request req s')"
proof -
  have "leg_names (seed_request req s) = leg_names (seed_request req s')"
    "leg_events (seed_request req s) = leg_events (seed_request req s')"
    "eq_event (seed_request req s) = eq_event (seed_request req s')"
    using assms by (simp_all add: leg_names_def leg_events_def seed_request_def)
  then have "legTraits (seed_request req s) orbitalName (ro_index ro) = legTraits (seed_request req s') orbitalName (ro_index ro)"
    by (simp only: legTraits_def)
  then show ?thesis unfolding route_def by simp
qed

text \<open>Groups hold the names of the seeds that were routed to them.\<close>

definition groups_of :: "(held_trait \<Rightarrow> string + residence) \<Rightarrow> held_trait list \<Rightarrow> (residence \<times> string list) list \<Rightarrow> bool" where
  "groups_of to_residence seeds groups \<longleftrightarrow>
     distinct (map fst groups) \<and>
     (\<forall>r. (case map_of groups r of Some names \<Rightarrow> names | None \<Rightarrow> [])
        = map ht_trait (filter (\<lambda>s. to_residence s = Inr r) seeds)) \<and>
     (\<forall>r. map_of groups r \<noteq> Some []) \<and>
     (\<forall>s\<in>set seeds. \<exists>r. to_residence s = Inr r)"

lemma group_seeds_groups:
  assumes "group_seeds to_residence seeds groups = Inr groups'" "groups_of to_residence before groups"
  shows "groups_of to_residence (before @ seeds) groups'"
  using assms
proof (induction to_residence seeds groups arbitrary: before rule: group_seeds.induct)
  case (2 to_residence seed seeds groups)
  from 2(2) obtain r where r: "to_residence seed = Inr r" by (auto split: sum.splits)
  let ?old = "case map_of groups r of Some names \<Rightarrow> names | None \<Rightarrow> []"
  have "groups_of to_residence (before @ [seed]) (AList.update r (?old @ [ht_trait seed]) groups)"
    using 2(3) r unfolding groups_of_def by (auto simp: update_conv' distinct_update)
  from 2(1) [OF r _ this] 2(2) r show ?case by simp
qed simp

lemma groups_of_mem:
  assumes "groups_of to_residence seeds groups" "(r, names) \<in> set groups"
  shows "names = map ht_trait (filter (\<lambda>s. to_residence s = Inr r) seeds) \<and> names \<noteq> []"
proof -
  have "map_of groups r = Some names" using assms by (auto simp: groups_of_def)
  then show ?thesis using assms(1) unfolding groups_of_def by (metis option.simps(5))
qed

text \<open>
  C14: the legs of a mount batch go to different stores, and each carries exactly the seeds whose own
  mount would be routed there, in their order; every seed is in one of them.
\<close>
theorem mount_legs_partition:
  assumes "mountLegs ro orbitalName req = Inr legs" "rq_mount req = Some seeds"
  defines "goes \<equiv> \<lambda>r. filter (\<lambda>s. route ro orbitalName (seed_request req s) = Inr r) seeds"
  shows "distinct (map fst legs)
    \<and> (\<forall>(r, leg)\<in>set legs. goes r \<noteq> [] \<and> rq_mount leg = Some (goes r))
    \<and> (\<forall>s\<in>set seeds. \<exists>r\<in>fst ` set legs. s \<in> set (goes r))"
proof -
  let ?to = "\<lambda>s. route ro orbitalName (seed_request req s)"
  obtain groups where g: "group_seeds ?to seeds [] = Inr groups"
    and legs: "legs = map (\<lambda>(r, names). (r, leg_request req names)) groups"
    using assms(1,2) by (auto simp: mountLegs_def rbind_def split: sum.splits)
  have "groups_of ?to [] []" by (simp add: groups_of_def)
  from group_seeds_groups [OF g this] have groups: "groups_of ?to seeds groups" by simp
  have keep: "(ht_trait s \<in> ht_trait ` {s \<in> set seeds. ?to s = Inr r}) \<longleftrightarrow> ?to s = Inr r" if "s \<in> set seeds" for s r
    using that route_seed_cong [of s _ ro orbitalName req] by fastforce
  have one: "goes r \<noteq> [] \<and> rq_mount leg = Some (goes r)" if mem: "(r, leg) \<in> set legs" for r leg
  proof -
    obtain names where n: "(r, names) \<in> set groups" "leg = leg_request req names" using mem legs by fastforce
    from groups_of_mem [OF groups n(1)] have names: "names = map ht_trait (goes r)" "goes r \<noteq> []" by (auto simp: goes_def)
    have "filter (\<lambda>s. ht_trait s \<in> set names) seeds = goes r"
      unfolding goes_def by (rule filter_cong) (use keep names in \<open>auto simp: goes_def\<close>)
    then show ?thesis using names n(2) assms(2) by (auto simp: leg_request_def Let_def)
  qed
  have "\<exists>r\<in>fst ` set legs. s \<in> set (goes r)" if s: "s \<in> set seeds" for s
  proof -
    obtain r where r: "?to s = Inr r" using groups s by (auto simp: groups_of_def)
    then have "s \<in> set (goes r)" using s by (simp add: goes_def)
    then have "map_of groups r \<noteq> None"
      using groups unfolding groups_of_def goes_def by (metis (mono_tags, lifting) empty_iff list.set(1) list.simps(8) map_is_Nil_conv option.simps(4))
    then obtain names where "(r, names) \<in> set groups" by (auto dest: map_of_SomeD)
    then show ?thesis using \<open>s \<in> set (goes r)\<close> legs by force
  qed
  moreover have "distinct (map fst legs)" using groups legs by (simp add: groups_of_def comp_def split_def)
  ultimately show ?thesis using one by blast
qed

text \<open>
  The event a seed names makes no difference to where it goes: with the seeds' events changed the
  batch has the same legs to the same stores, judged by the event of the request.
\<close>
theorem seed_events_do_not_count:
  "map_sum id (map fst) (mountLegs ro orbitalName (req\<lparr>rq_mount := Some (map (\<lambda>s. s\<lparr>ht_rest := named s\<rparr>) seeds)\<rparr>))
     = map_sum id (map fst) (mountLegs ro orbitalName (req\<lparr>rq_mount := Some seeds\<rparr>))"
proof -
  have same: "group_seeds to1 (map (\<lambda>s. s\<lparr>ht_rest := named s\<rparr>) ss) groups = group_seeds to2 ss groups"
    if "\<And>s. to1 (s\<lparr>ht_rest := named s\<rparr>) = to2 s" for to1 to2 groups ss
    using that by (induction ss arbitrary: groups) (auto split: sum.splits)
  have "route ro orbitalName (seed_request (req\<lparr>rq_mount := m\<rparr>) (s\<lparr>ht_rest := named s\<rparr>))
      = route ro orbitalName (seed_request (req\<lparr>rq_mount := m'\<rparr>) s)" for m m' s
    using route_seed_cong [of "s\<lparr>ht_rest := named s\<rparr>" s ro orbitalName req] by (simp add: seed_request_def)
  from same [of "\<lambda>s. route ro orbitalName (seed_request (req\<lparr>rq_mount := Some (map (\<lambda>s. s\<lparr>ht_rest := named s\<rparr>) seeds)\<rparr>) s)"
      "\<lambda>s. route ro orbitalName (seed_request (req\<lparr>rq_mount := Some seeds\<rparr>) s)", OF this]
  show ?thesis by (simp add: mountLegs_def rbind_def comp_def split_def split: sum.split)
qed

section \<open>One leg\<close>

text \<open>The merged response of a single leg is its response.\<close>

lemma spread_nil: "distinct (map fst xs) \<Longrightarrow> spread [] xs = xs"
  unfolding spread_def
proof (induction xs rule: rev_induct)
  case (snoc x xs)
  have fresh: "k \<notin> fst ` set al \<Longrightarrow> AList.update k v al = al @ [(k, v)]" for k and v :: 'b and al
    by (induction al) auto
  show ?case using snoc fresh by (cases x) (auto simp: image_iff)
qed simp

lemma add_rows_nil: "distinct (map fst xs) \<Longrightarrow> add_rows [] xs = xs"
  unfolding add_rows_def
proof (induction xs rule: rev_induct)
  case (snoc x xs)
  have fresh: "k \<notin> fst ` set al \<Longrightarrow> AList.update k v al = al @ [(k, v)]" for k and v :: "jval list" and al
    by (induction al) auto
  show ?case using snoc fresh by (cases x) (auto simp: image_iff map_of_eq_None_iff split: option.split)
qed simp

lemma merge_one:
  assumes "distinct (map fst (lr_states r))" "\<forall>d. lr_data r = Some d \<longrightarrow> distinct (map fst d)"
    "\<forall>m. lr_entityByTrait r = Some m \<longrightarrow> distinct (map fst m)"
  shows "mergeMountResponses [r] = r"
  using assms
  by (auto simp: mergeMountResponses_def assign_all_def concat_field_def or_empty_def List.map_filter_def Let_def
      spread_nil add_rows_nil intro!: leg_response.equality split: option.split)

section \<open>Samples\<close>

definition sample_core :: "ir_trait index_core" where
  "sample_core = plain_index_core\<lparr>xc_storesInBrowser := \<lambda>e. e_name e = ''Draft'',
     xc_effectSite := \<lambda>op args stores. if op = ''persist''
       then (case args of JStr e # _ \<Rightarrow> Some (if stores e then ''client'' else ''server'') | _ \<Rightarrow> Some ''server'') else None,
     xc_runsOn := \<lambda>op. if op = ''persist'' then Some ''server'' else None\<rparr>"

definition sample_entity :: "string \<Rightarrow> entity" where
  "sample_entity n = \<lparr>e_name = n, e_fields = [], e_shared = False, e_persistence = None, e_collection = None\<rparr>"

definition sample_trait :: "string \<Rightarrow> string \<Rightarrow> string \<Rightarrow> indexed_trait" where
  "sample_trait n ev entity =
     (let t = \<lparr>t_from = FromOne ''idle'', t_to = ''idle'', t_event = ev, t_eventId = None, t_guard = None,
            t_effects = Some [JArr [JStr ''persist'', JStr entity]]\<rparr>
      in \<lparr>ix_traitDef = \<lparr>td_name = n, td_states = [], td_transitions = [t], td_id = None, td_listens = None\<rparr>,
          ix_irTrait = \<lparr>ir_id = None, ir_name = n, ir_linkedEntity = None, ir_states = None, ir_transitions = None, ir_listens = None,
            ir_ticks = None, ir_config = None\<rparr>,
          ix_entity = sample_entity entity, ix_config = None, ix_orbitalName = ''Shop'', ix_orbitalId = None,
          ix_frameKey = n, ix_isShared = False, ix_dispatchMode = LocalMode\<rparr>)"

definition sample_residence :: "ir_trait residence_options" where
  "sample_residence = \<lparr>ro_core = sample_core,
     ro_index = \<lparr>ti_byName = [(''Editor'', sample_trait ''Editor'' ''LOAD'' ''Draft''), (''Orders'', sample_trait ''Orders'' ''LOAD'' ''Order''),
        (''Notes'', sample_trait ''Notes'' ''INIT'' ''Draft'')],
        ti_allEntities = [sample_entity ''Draft'', sample_entity ''Order''], ti_orbitals = []\<rparr>,
     ro_remote = True\<rparr>"

definition sample_seeds :: "held_trait list" where
  "sample_seeds = map (\<lambda>n. \<lparr>ht_trait = n, ht_rest = [(''event'', JStr ''LOAD'')]\<rparr>) [''Notes'', ''Orders'', ''Editor'']"

theorem mount_legs_partition_witness:
  "\<exists>legs. mountLegs sample_residence ''Shop'' ((plain_request ''INIT'')\<lparr>rq_mount := Some sample_seeds\<rparr>) = Inr legs
     \<and> distinct (map fst legs)
     \<and> map (\<lambda>(r, leg). (r, map ht_trait (or_empty (rq_mount leg)))) legs = [(InProcess, [''Notes'']), (AtServer, [''Orders'', ''Editor''])]"
proof -
  let ?req = "(plain_request ''INIT'')\<lparr>rq_mount := Some sample_seeds\<rparr>"
  have run: "map_sum id (map (\<lambda>(r, leg). (r, map ht_trait (or_empty (rq_mount leg))))) (mountLegs sample_residence ''Shop'' ?req)
      = Inr [(InProcess, [''Notes'']), (AtServer, [''Orders'', ''Editor''])]"
    by code_simp
  then obtain legs where legs: "mountLegs sample_residence ''Shop'' ?req = Inr legs"
    by (cases "mountLegs sample_residence ''Shop'' ?req") auto
  from mount_legs_partition [OF legs, of sample_seeds] have "distinct (map fst legs)" by simp
  with run legs show ?thesis by simp
qed

text \<open>
  So a trait that mounts with an event of browser data is sent to the server, where the same event
  dispatched alone goes to the browser store.
\<close>

lemma seed_sent_to_server:
  "route sample_residence ''Shop'' (seed_request (plain_request ''INIT'') \<lparr>ht_trait = ''Editor'', ht_rest = [(''event'', JStr ''LOAD'')]\<rparr>) = Inr AtServer
   \<and> route sample_residence ''Shop'' ((plain_request ''LOAD'')\<lparr>eq_targetTrait := Some ''Editor''\<rparr>) = Inr InProcess"
  by code_simp

end
