(* ===== verification/HostQueue.thy ===== *)
theory HostQueue
  imports Prelude
begin

text \<open>
  The queue of the browser host (\<open>evaluation/browser-store-transport.ts\<close>: \<open>pump\<close>, \<open>take\<close>, \<open>enqueue\<close>,
  \<open>outsideEventQueue\<close>): one running slot, a lane for a person's requests and one for background work.
  Turns are numbered as they are made and move by steps; the theory shows who holds the slot, in which
  order it is handed out, and what a turn that ends before its call outside does to the host.
\<close>

section \<open>Turns\<close>

datatype lane = Foreground | Background

text \<open>
  A turn waits for its first slot, works with the slot, is away with a call outside (the slot released),
  waits to take the slot again, or has ended: with its call outside still away, waiting to take the slot
  again, holding it, or nothing of it left.
\<close>

datatype turn_state =
    Waiting | Holding | Away | Returning
  | Ended | EndedAway | EndedReturning | EndedHolding

record host_turn =
  bt_lane :: lane
  bt_state :: turn_state

text \<open>\<open>hq_running\<close> is the turn whose grant the pump awaits; the ghost \<open>hq_taken\<close> and \<open>hq_granted\<close>
  record every \<open>take\<close> and every grant, by lane.\<close>

record host_queue =
  hq_turns :: "host_turn list"
  hq_lanes :: "lane \<Rightarrow> nat list"
  hq_running :: "nat option"
  hq_taken :: "lane \<Rightarrow> nat list"
  hq_granted :: "lane \<Rightarrow> nat list"

definition new_host_queue :: host_queue where
  "new_host_queue = \<lparr>hq_turns = [], hq_lanes = (\<lambda>_. []), hq_running = None, hq_taken = (\<lambda>_. []), hq_granted = (\<lambda>_. [])\<rparr>"

definition take_turn :: "lane \<Rightarrow> nat \<Rightarrow> host_queue \<Rightarrow> host_queue" where
  "take_turn l t q = q\<lparr>hq_lanes := (hq_lanes q)(l := hq_lanes q l @ [t]), hq_taken := (hq_taken q)(l := hq_taken q l @ [t])\<rparr>"

definition set_turn :: "nat \<Rightarrow> turn_state \<Rightarrow> host_queue \<Rightarrow> host_queue" where
  "set_turn t st q = q\<lparr>hq_turns := (hq_turns q)[t := (hq_turns q ! t)\<lparr>bt_state := st\<rparr>]\<rparr>"

definition state_of :: "host_queue \<Rightarrow> nat \<Rightarrow> turn_state option" where
  "state_of q t = (if t < length (hq_turns q) then Some (bt_state (hq_turns q ! t)) else None)"

definition lane_of :: "host_queue \<Rightarrow> nat \<Rightarrow> lane" where
  "lane_of q t = bt_lane (hq_turns q ! t)"

section \<open>Steps\<close>

text \<open>\<open>enqueue(lane, work)\<close>: a new turn that takes its place.\<close>

definition enqueue_turn :: "lane \<Rightarrow> host_queue \<Rightarrow> host_queue" where
  "enqueue_turn l q = take_turn l (length (hq_turns q)) (q\<lparr>hq_turns := hq_turns q @ [\<lparr>bt_lane = l, bt_state = Waiting\<rparr>]\<rparr>)"

text \<open>The pump: the next of the foreground, else of the background, once the last grant was freed.\<close>

fun granted_state :: "turn_state \<Rightarrow> turn_state" where
  "granted_state EndedReturning = EndedHolding"
| "granted_state st = Holding"

definition grant_turn :: "lane \<Rightarrow> nat \<Rightarrow> nat list \<Rightarrow> host_queue \<Rightarrow> host_queue" where
  "grant_turn l t rest q =
     set_turn t (granted_state (bt_state (hq_turns q ! t)))
       (q\<lparr>hq_lanes := (hq_lanes q)(l := rest), hq_granted := (hq_granted q)(l := hq_granted q l @ [t]), hq_running := Some t\<rparr>)"

definition pump :: "host_queue \<Rightarrow> host_queue option" where
  "pump q =
     (if hq_running q \<noteq> None then None
      else case (hq_lanes q Foreground, hq_lanes q Background) of
          (t # rest, _) \<Rightarrow> Some (grant_turn Foreground t rest q)
        | ([], t # rest) \<Rightarrow> Some (grant_turn Background t rest q)
        | ([], []) \<Rightarrow> None)"

text \<open>
  \<open>outsideEventQueue\<close>: whoever calls it, it is the running turn that lets the slot go; when the work
  ended that turn takes its place again. With no turn running the work is simply done (no step).
\<close>

fun away_state :: "turn_state \<Rightarrow> turn_state" where
  "away_state EndedHolding = EndedAway"
| "away_state st = Away"

definition go_outside :: "host_queue \<Rightarrow> host_queue option" where
  "go_outside q =
     (case hq_running q of
        Some t \<Rightarrow> Some (set_turn t (away_state (bt_state (hq_turns q ! t))) (q\<lparr>hq_running := None\<rparr>))
      | None \<Rightarrow> None)"

definition come_back :: "nat \<Rightarrow> host_queue \<Rightarrow> host_queue option" where
  "come_back t q =
     (case state_of q t of
        Some Away \<Rightarrow> Some (take_turn (lane_of q t) t (set_turn t Returning q))
      | Some EndedAway \<Rightarrow> Some (take_turn (lane_of q t) t (set_turn t EndedReturning q))
      | _ \<Rightarrow> None)"

text \<open>The \<open>finally\<close> of \<open>enqueue\<close>: a turn that holds the slot releases it. The work may end while its call
  outside is still away: then there is nothing to release.\<close>

definition end_turn :: "nat \<Rightarrow> host_queue \<Rightarrow> host_queue option" where
  "end_turn t q =
     (case state_of q t of
        Some Holding \<Rightarrow> Some (set_turn t Ended (q\<lparr>hq_running := None\<rparr>))
      | Some Away \<Rightarrow> Some (set_turn t EndedAway q)
      | Some Returning \<Rightarrow> Some (set_turn t EndedReturning q)
      | _ \<Rightarrow> None)"

datatype host_step = Enqueue lane | Pump | GoOutside | ComeBack nat | EndTurn nat

fun host_next :: "host_step \<Rightarrow> host_queue \<Rightarrow> host_queue option" where
  "host_next (Enqueue l) q = Some (enqueue_turn l q)"
| "host_next Pump q = pump q"
| "host_next GoOutside q = go_outside q"
| "host_next (ComeBack t) q = come_back t q"
| "host_next (EndTurn t) q = end_turn t q"

inductive host_reached :: "host_queue \<Rightarrow> bool" where
  start: "host_reached new_host_queue"
| step: "host_reached q \<Longrightarrow> host_next a q = Some q' \<Longrightarrow> host_reached q'"

fun run_host :: "host_step list \<Rightarrow> host_queue \<Rightarrow> host_queue option" where
  "run_host [] q = Some q"
| "run_host (a # as) q = Option.bind (host_next a q) (run_host as)"

lemma run_host_reached: "host_reached q \<Longrightarrow> run_host acts q = Some q' \<Longrightarrow> host_reached q'"
  by (induction acts arbitrary: q) (auto split: Option.bind_splits intro: host_reached.step)

section \<open>Who holds, and in which order\<close>

definition waits :: "turn_state \<Rightarrow> bool" where
  "waits st \<longleftrightarrow> st \<in> {Waiting, Returning, EndedReturning}"

definition holds :: "turn_state \<Rightarrow> bool" where
  "holds st \<longleftrightarrow> st \<in> {Holding, EndedHolding}"

definition queue_ok :: "host_queue \<Rightarrow> bool" where
  "queue_ok q \<longleftrightarrow>
     (\<forall>l. hq_taken q l = hq_granted q l @ hq_lanes q l)
     \<and> (\<forall>l. distinct (hq_lanes q l))
     \<and> (\<forall>t l. t \<in> set (hq_lanes q l) \<longleftrightarrow> t < length (hq_turns q) \<and> lane_of q t = l \<and> waits (bt_state (hq_turns q ! t)))
     \<and> (\<forall>t. hq_running q = Some t \<longleftrightarrow> t < length (hq_turns q) \<and> holds (bt_state (hq_turns q ! t)))"

lemma queue_okD:
  assumes "queue_ok q"
  shows "hq_taken q l = hq_granted q l @ hq_lanes q l" "distinct (hq_lanes q l)"
    "t \<in> set (hq_lanes q l) \<longleftrightarrow> t < length (hq_turns q) \<and> lane_of q t = l \<and> waits (bt_state (hq_turns q ! t))"
    "hq_running q = Some t \<longleftrightarrow> t < length (hq_turns q) \<and> holds (bt_state (hq_turns q ! t))"
  using assms unfolding queue_ok_def by blast+

lemma set_turn_fields [simp]:
  "hq_lanes (set_turn t st q) = hq_lanes q" "hq_running (set_turn t st q) = hq_running q"
  "hq_taken (set_turn t st q) = hq_taken q" "hq_granted (set_turn t st q) = hq_granted q"
  "length (hq_turns (set_turn t st q)) = length (hq_turns q)"
  by (simp_all add: set_turn_def)

lemma take_turn_fields [simp]:
  "hq_turns (take_turn l t q) = hq_turns q" "hq_running (take_turn l t q) = hq_running q"
  "hq_granted (take_turn l t q) = hq_granted q"
  "hq_taken (take_turn l t q) = (hq_taken q)(l := hq_taken q l @ [t])"
  "hq_lanes (take_turn l t q) = (hq_lanes q)(l := hq_lanes q l @ [t])"
  by (simp_all add: take_turn_def)

lemma state_set [simp]:
  "u < length (hq_turns q) \<Longrightarrow> bt_state (hq_turns (set_turn t st q) ! u) = (if u = t then st else bt_state (hq_turns q ! u))"
  by (simp add: set_turn_def nth_list_update)

lemma lane_of_set [simp]: "u < length (hq_turns q) \<Longrightarrow> lane_of (set_turn t st q) u = lane_of q u"
  by (cases "u = t") (simp_all add: lane_of_def set_turn_def)

lemma lane_of_update [simp]:
  "lane_of (take_turn l u q) t = lane_of q t" "lane_of (hq_running_update f q) t = lane_of q t"
  "lane_of (hq_lanes_update g q) t = lane_of q t" "lane_of (hq_granted_update g q) t = lane_of q t"
  by (simp_all add: lane_of_def take_turn_def)

lemma queue_okI:
  assumes "\<And>l. hq_taken q l = hq_granted q l @ hq_lanes q l" "\<And>l. distinct (hq_lanes q l)"
    "\<And>t l. t \<in> set (hq_lanes q l) \<longleftrightarrow> t < length (hq_turns q) \<and> lane_of q t = l \<and> waits (bt_state (hq_turns q ! t))"
    "\<And>t. hq_running q = Some t \<longleftrightarrow> t < length (hq_turns q) \<and> holds (bt_state (hq_turns q ! t))"
  shows "queue_ok q"
  using assms unfolding queue_ok_def by blast

lemma turn_kinds [simp]:
  "waits Waiting" "waits Returning" "waits EndedReturning" "\<not> waits Away" "\<not> waits EndedAway" "\<not> waits Ended"
  "\<not> holds Away" "\<not> holds EndedAway" "\<not> holds Ended" "\<not> holds Waiting" "\<not> holds Returning" "\<not> holds EndedReturning"
  "holds Holding" "holds EndedHolding" "holds (granted_state st)" "\<not> waits (granted_state st)"
  "\<not> holds (away_state st)" "\<not> waits (away_state st)"
  by (simp_all add: waits_def holds_def) (cases st; simp)+

lemma enqueue_ok:
  assumes "queue_ok q"
  shows "queue_ok (enqueue_turn l q)"
proof (rule queue_okI)
  let ?q = "enqueue_turn l q" and ?n = "length (hq_turns q)"
  have turns: "hq_turns ?q = hq_turns q @ [\<lparr>bt_lane = l, bt_state = Waiting\<rparr>]"
    "hq_lanes ?q = (hq_lanes q)(l := hq_lanes q l @ [?n])" "hq_running ?q = hq_running q"
    by (simp_all add: enqueue_turn_def take_turn_def)
  fix k t
  show "hq_taken ?q k = hq_granted ?q k @ hq_lanes ?q k"
    using queue_okD(1) [OF assms] by (simp add: enqueue_turn_def take_turn_def)
  have "?n \<notin> set (hq_lanes q l)" using queue_okD(3) [OF assms] by simp
  then show "distinct (hq_lanes ?q k)" using queue_okD(2) [OF assms] by (simp add: turns)
  show "t \<in> set (hq_lanes ?q k) \<longleftrightarrow> t < length (hq_turns ?q) \<and> lane_of ?q t = k \<and> waits (bt_state (hq_turns ?q ! t))"
    using queue_okD(3) [OF assms, of t k] by (auto simp: turns nth_append lane_of_def)
  show "hq_running ?q = Some t \<longleftrightarrow> t < length (hq_turns ?q) \<and> holds (bt_state (hq_turns ?q ! t))"
    using queue_okD(4) [OF assms, of t] by (auto simp: turns nth_append holds_def)
qed

lemma grant_ok:
  assumes ok: "queue_ok q" and free: "hq_running q = None" and head: "hq_lanes q l = t # rest"
  shows "queue_ok (grant_turn l t rest q)"
proof (rule queue_okI)
  let ?q = "grant_turn l t rest q"
  have t: "t < length (hq_turns q)" "lane_of q t = l" and fresh: "t \<notin> set rest"
    using queue_okD(3) [OF ok, of t l] queue_okD(2) [OF ok, of l] head by auto
  have none: "\<not> (u < length (hq_turns q) \<and> holds (bt_state (hq_turns q ! u)))" for u
    using queue_okD(4) [OF ok, of u] free by simp
  have len: "length (hq_turns ?q) = length (hq_turns q)" by (simp add: grant_turn_def)
  have state: "bt_state (hq_turns ?q ! u) = (if u = t then granted_state (bt_state (hq_turns q ! t)) else bt_state (hq_turns q ! u))"
    "lane_of ?q u = lane_of q u" if "u < length (hq_turns q)" for u
    using that by (simp_all add: grant_turn_def)
  fix k u
  show "hq_taken ?q k = hq_granted ?q k @ hq_lanes ?q k"
    using queue_okD(1) [OF ok, of k] head by (simp add: grant_turn_def)
  show "distinct (hq_lanes ?q k)"
    using queue_okD(2) [OF ok, of k] head by (auto simp: grant_turn_def)
  show "u \<in> set (hq_lanes ?q k) \<longleftrightarrow> u < length (hq_turns ?q) \<and> lane_of ?q u = k \<and> waits (bt_state (hq_turns ?q ! u))"
    using queue_okD(3) [OF ok, of u k] head fresh t state [of u] len by (auto simp: grant_turn_def split: if_splits)
  show "hq_running ?q = Some u \<longleftrightarrow> u < length (hq_turns ?q) \<and> holds (bt_state (hq_turns ?q ! u))"
    using none [of u] t state [of u] len by (auto simp: grant_turn_def split: if_splits)
qed

lemma pump_ok: "queue_ok q \<Longrightarrow> pump q = Some q' \<Longrightarrow> queue_ok q'"
  by (auto simp: pump_def grant_ok split: if_splits list.splits)

text \<open>The running turn leaves the slot for a state in which it neither waits nor holds.\<close>

lemma leave_ok:
  assumes ok: "queue_ok q" and running: "hq_running q = Some t" and st: "\<not> waits st" "\<not> holds st"
  shows "queue_ok (set_turn t st (q\<lparr>hq_running := None\<rparr>))"
proof (rule queue_okI)
  let ?q = "set_turn t st (q\<lparr>hq_running := None\<rparr>)"
  have t: "t < length (hq_turns q)" "holds (bt_state (hq_turns q ! t))"
    using queue_okD(4) [OF ok, of t] running by auto
  then have busy: "\<not> waits (bt_state (hq_turns q ! t))" by (auto simp: waits_def holds_def)
  have only: "u = t" if "u < length (hq_turns q)" "holds (bt_state (hq_turns q ! u))" for u
    using queue_okD(4) [OF ok, of u] running that by simp
  fix k u
  show "hq_taken ?q k = hq_granted ?q k @ hq_lanes ?q k" using queue_okD(1) [OF ok, of k] by simp
  show "distinct (hq_lanes ?q k)" using queue_okD(2) [OF ok, of k] by simp
  show "u \<in> set (hq_lanes ?q k) \<longleftrightarrow> u < length (hq_turns ?q) \<and> lane_of ?q u = k \<and> waits (bt_state (hq_turns ?q ! u))"
    using queue_okD(3) [OF ok, of u k] busy st by (auto split: if_splits)
  show "hq_running ?q = Some u \<longleftrightarrow> u < length (hq_turns ?q) \<and> holds (bt_state (hq_turns ?q ! u))"
    using only [of u] st by (auto split: if_splits)
qed

text \<open>A turn that neither holds nor waits takes its place again.\<close>

lemma take_ok:
  assumes ok: "queue_ok q" and t: "t < length (hq_turns q)" and old: "\<not> waits (bt_state (hq_turns q ! t))"
    "\<not> holds (bt_state (hq_turns q ! t))" and st: "waits st" "\<not> holds st"
  shows "queue_ok (take_turn (lane_of q t) t (set_turn t st q))"
proof (rule queue_okI)
  let ?q = "take_turn (lane_of q t) t (set_turn t st q)"
  fix k u
  show "hq_taken ?q k = hq_granted ?q k @ hq_lanes ?q k" using queue_okD(1) [OF ok, of k] by auto
  have "t \<notin> set (hq_lanes q (lane_of q t))" using queue_okD(3) [OF ok, of t] old by simp
  then show "distinct (hq_lanes ?q k)" using queue_okD(2) [OF ok, of k] by auto
  show "u \<in> set (hq_lanes ?q k) \<longleftrightarrow> u < length (hq_turns ?q) \<and> lane_of ?q u = k \<and> waits (bt_state (hq_turns ?q ! u))"
    using queue_okD(3) [OF ok, of u k] t st by (auto split: if_splits)
  show "hq_running ?q = Some u \<longleftrightarrow> u < length (hq_turns ?q) \<and> holds (bt_state (hq_turns ?q ! u))"
    using queue_okD(4) [OF ok, of u] old st by (auto split: if_splits)
qed

text \<open>A turn changes state without touching the slot or a lane.\<close>

lemma relabel_ok:
  assumes ok: "queue_ok q" and t: "waits (bt_state (hq_turns q ! t)) \<longleftrightarrow> waits st" "holds (bt_state (hq_turns q ! t)) \<longleftrightarrow> holds st"
  shows "queue_ok (set_turn t st q)"
proof (rule queue_okI)
  fix k u
  show "u \<in> set (hq_lanes (set_turn t st q) k) \<longleftrightarrow> u < length (hq_turns (set_turn t st q))
      \<and> lane_of (set_turn t st q) u = k \<and> waits (bt_state (hq_turns (set_turn t st q) ! u))"
    using queue_okD(3) [OF ok, of u k] t by (auto split: if_splits)
  show "hq_running (set_turn t st q) = Some u \<longleftrightarrow> u < length (hq_turns (set_turn t st q))
      \<and> holds (bt_state (hq_turns (set_turn t st q) ! u))"
    using queue_okD(4) [OF ok, of u] t by (auto split: if_splits)
qed (use queue_okD(1,2) [OF ok] in simp_all)

lemma state_of_Some: "state_of q t = Some st \<longleftrightarrow> t < length (hq_turns q) \<and> bt_state (hq_turns q ! t) = st"
  by (simp add: state_of_def)

lemma host_next_ok:
  assumes "queue_ok q" "host_next a q = Some q'"
  shows "queue_ok q'"
proof (cases a)
  case (Enqueue l)
  then show ?thesis using assms enqueue_ok by auto
next
  case Pump
  then show ?thesis using assms pump_ok by simp
next
  case GoOutside
  then show ?thesis using assms leave_ok by (auto simp: go_outside_def split: option.splits)
next
  case (ComeBack t)
  then show ?thesis using assms take_ok [OF assms(1), of t]
    by (auto simp: come_back_def state_of_Some split: option.splits turn_state.splits)
next
  case (EndTurn t)
  have running: "hq_running q = Some t" if "state_of q t = Some Holding"
    using that queue_okD(4) [OF assms(1), of t] by (simp add: state_of_Some)
  show ?thesis using assms EndTurn running leave_ok [OF assms(1), of t Ended] relabel_ok [OF assms(1), of t]
    by (auto simp: end_turn_def state_of_Some split: option.splits turn_state.splits)
qed

lemma new_host_queue_ok: "queue_ok new_host_queue"
  by (simp add: queue_ok_def new_host_queue_def)

lemma host_reached_ok: "host_reached q \<Longrightarrow> queue_ok q"
  by (induction rule: host_reached.induct) (blast intro: host_next_ok new_host_queue_ok)+

lemma pump_hands_on:
  assumes "pump q = Some q'"
  obtains l u where "hq_lanes q l = u # hq_lanes q' l" "hq_running q' = Some u"
    "hq_granted q' = (hq_granted q)(l := hq_granted q l @ [u])" "l = Background \<Longrightarrow> hq_lanes q Foreground = []"
proof -
  note outcome = that
  have granted: thesis if "hq_lanes q l = t # rest" "q' = grant_turn l t rest q" "l = Background \<Longrightarrow> hq_lanes q Foreground = []"
    for l t rest
    using that(1,3) by (intro outcome [of l t]) (simp_all add: that(2) grant_turn_def)
  show thesis using assms granted by (auto simp: pump_def split: if_splits list.splits)
qed

lemma host_slot_facts:
  assumes "host_reached q"
  shows "hq_running q = Some t \<longleftrightarrow> t < length (hq_turns q) \<and> holds (bt_state (hq_turns q ! t))"
    and "hq_taken q l = hq_granted q l @ hq_lanes q l"
    and "distinct (hq_lanes q l)"
    and "pump q = Some q' \<Longrightarrow> hq_running q = None \<and> (\<exists>k u. hq_lanes q k = u # hq_lanes q' k \<and> hq_running q' = Some u
          \<and> hq_granted q' = (hq_granted q)(k := hq_granted q k @ [u]) \<and> (k = Foreground \<or> hq_lanes q Foreground = []))"
proof -
  note ok = host_reached_ok [OF assms]
  show "hq_running q = Some t \<longleftrightarrow> t < length (hq_turns q) \<and> holds (bt_state (hq_turns q ! t))" by (rule queue_okD(4) [OF ok])
  show "hq_taken q l = hq_granted q l @ hq_lanes q l" by (rule queue_okD(1) [OF ok])
  show "distinct (hq_lanes q l)" by (rule queue_okD(2) [OF ok])
  assume pumped: "pump q = Some q'"
  have free: "hq_running q = None" using pumped by (simp add: pump_def split: if_splits)
  obtain k u where handed: "hq_lanes q k = u # hq_lanes q' k" "hq_running q' = Some u"
    "hq_granted q' = (hq_granted q)(k := hq_granted q k @ [u])" "k = Background \<Longrightarrow> hq_lanes q Foreground = []"
    using pump_hands_on [OF pumped] by metis
  have "k = Foreground \<or> hq_lanes q Foreground = []" using handed(4) by (cases k) simp_all
  with free handed show "hq_running q = None \<and> (\<exists>k u. hq_lanes q k = u # hq_lanes q' k \<and> hq_running q' = Some u
          \<and> hq_granted q' = (hq_granted q)(k := hq_granted q k @ [u]) \<and> (k = Foreground \<or> hq_lanes q Foreground = []))"
    by blast
qed

text \<open>
  C15: At most one turn of the browser host holds its slot, and \<open>running\<close> names it. In each lane the slot
  is handed out in the order in which it was asked for, turns that come back from a call outside included,
  and nobody is lost or granted twice: what was asked for is what was granted followed by what waits. The
  pump only moves when the slot is free, hands it to the head of a lane, and to the background only when
  no person's request waits.
\<close>
theorem host_slot_in_order:
  assumes "host_reached q"
  shows "(hq_running q = Some t \<longleftrightarrow> t < length (hq_turns q) \<and> holds (bt_state (hq_turns q ! t)))
    \<and> hq_taken q l = hq_granted q l @ hq_lanes q l \<and> distinct (hq_lanes q l)
    \<and> (\<forall>q'. pump q = Some q' \<longrightarrow> hq_running q = None \<and> (\<exists>k u. hq_lanes q k = u # hq_lanes q' k \<and> hq_running q' = Some u
          \<and> hq_granted q' = (hq_granted q)(k := hq_granted q k @ [u]) \<and> (k = Foreground \<or> hq_lanes q Foreground = [])))"
  using host_slot_facts [OF assms] by blast

text \<open>Background work is queued first, a view's request second: the request is granted first.\<close>

definition two_lanes :: host_queue where
  "two_lanes = the (run_host [Enqueue Background, Enqueue Foreground] new_host_queue)"

lemma two_lanes_run: "run_host [Enqueue Background, Enqueue Foreground] new_host_queue = Some two_lanes"
  by (simp add: two_lanes_def)

lemma two_lanes_fields: "hq_lanes two_lanes = (\<lambda>_. [])(Background := [0], Foreground := [1])"
  "hq_taken two_lanes = hq_lanes two_lanes" "hq_granted two_lanes = (\<lambda>_. [])" "hq_running two_lanes = None"
  by (simp_all add: two_lanes_def new_host_queue_def enqueue_turn_def take_turn_def fun_eq_iff)

theorem host_slot_in_order_witness:
  "hq_taken two_lanes Foreground = [] @ [1] \<and> map_option hq_running (pump two_lanes) = Some (Some 1)"
proof -
  have reached: "host_reached two_lanes" by (rule run_host_reached [OF host_reached.start two_lanes_run])
  obtain q' where pumped: "pump two_lanes = Some q'" by (simp add: pump_def two_lanes_fields)
  have "hq_running q' = Some 1"
    using host_slot_in_order [OF reached, of 0 Foreground] pumped by (auto simp: two_lanes_fields fun_eq_iff split: if_splits)
  then show ?thesis using host_slot_in_order [OF reached, of 0 Foreground] pumped by (simp add: two_lanes_fields)
qed

section \<open>When a turn ends before its call\<close>

text \<open>
  A turn whose work ended while its call outside was away takes its place again, is granted the slot, and
  has nobody left to release it: the pump waits for that release and no other turn is granted, until
  another call outside happens to release it.
\<close>

lemma ended_holder_stays:
  assumes reached: "host_reached q" and "hq_running q = Some t" "state_of q t = Some EndedHolding" "a \<noteq> GoOutside" "host_next a q = Some q'"
  shows "hq_running q' = Some t \<and> state_of q' t = Some EndedHolding \<and> hq_granted q' = hq_granted q"
proof (cases a)
  case (EndTurn u)
  have "state_of q u \<noteq> Some Holding"
    using queue_okD(4) [OF host_reached_ok [OF reached], of u] assms(2,3) by (auto simp: state_of_Some)
  then show ?thesis using EndTurn assms(2,3,5)
    by (auto simp: end_turn_def state_of_Some split: option.splits turn_state.splits)
next
  case (ComeBack u)
  then show ?thesis using assms(2,3,5)
    by (auto simp: come_back_def state_of_Some split: option.splits turn_state.splits)
qed (use assms in \<open>auto simp: enqueue_turn_def pump_def state_of_Some nth_append\<close>)

theorem host_early_end_wedges:
  assumes "host_reached q" "hq_running q = Some t" "state_of q t = Some EndedHolding" "GoOutside \<notin> set acts" "run_host acts q = Some q'"
  shows "hq_running q' = Some t \<and> hq_granted q' = hq_granted q"
  using assms
proof (induction acts arbitrary: q)
  case (Cons a acts)
  then obtain r where r: "host_next a q = Some r" "run_host acts r = Some q'" by (auto split: Option.bind_splits)
  have "hq_running r = Some t \<and> state_of r t = Some EndedHolding \<and> hq_granted r = hq_granted q"
    using ended_holder_stays [OF Cons.prems(1,2,3) _ r(1)] Cons.prems(4) by auto
  moreover have "host_reached r" by (rule host_reached.step [OF Cons.prems(1) r(1)])
  ultimately show ?case using Cons.IH [of r] Cons.prems(4) r(2) by auto
qed simp

definition early_host :: host_queue where
  "early_host = the (run_host [Enqueue Foreground, Pump, GoOutside, EndTurn 0, ComeBack 0, Pump] new_host_queue)"

theorem host_early_end_wedges_witness:
  "run_host [Enqueue Foreground, Pump] early_host = None
    \<and> map_option hq_running (run_host [Enqueue Foreground, Enqueue Background] early_host) = Some (Some 0)"
proof -
  have held: "hq_running early_host = Some 0" "state_of early_host 0 = Some EndedHolding"
    by (simp_all add: early_host_def new_host_queue_def enqueue_turn_def take_turn_def pump_def go_outside_def come_back_def
      end_turn_def grant_turn_def set_turn_def state_of_def lane_of_def)
  obtain q' where run: "run_host [Enqueue Foreground, Enqueue Background] early_host = Some q'" by simp
  have "host_reached early_host"
    by (rule run_host_reached [OF host_reached.start, where acts = "[Enqueue Foreground, Pump, GoOutside, EndTurn 0, ComeBack 0, Pump]"])
      (simp add: early_host_def new_host_queue_def enqueue_turn_def take_turn_def pump_def go_outside_def come_back_def
      end_turn_def grant_turn_def set_turn_def state_of_def lane_of_def)
  then show ?thesis using host_early_end_wedges [OF _ held _ run] held run
    by (simp add: pump_def enqueue_turn_def take_turn_def)
qed

text \<open>While nobody ends early the host moves: some turn can be granted, come back or end until all have ended.\<close>

theorem host_moves:
  assumes reached: "host_reached q" and t: "t < length (hq_turns q)" "bt_state (hq_turns q ! t) \<noteq> Ended"
    and waited: "\<And>u. u < length (hq_turns q) \<Longrightarrow> bt_state (hq_turns q ! u) \<notin> {EndedAway, EndedReturning, EndedHolding}"
  shows "\<exists>a \<in> {Pump, ComeBack t} \<union> range EndTurn. host_next a q \<noteq> None"
proof (cases "hq_running q")
  case (Some u)
  then have "u < length (hq_turns q)" "holds (bt_state (hq_turns q ! u))"
    using queue_okD(4) [OF host_reached_ok [OF reached], of u] by auto
  then have "state_of q u = Some Holding" using waited [of u] by (auto simp: state_of_def holds_def)
  then have "host_next (EndTurn u) q \<noteq> None" by (simp add: end_turn_def)
  then show ?thesis by blast
next
  case None
  then have idle: "\<not> holds (bt_state (hq_turns q ! t))" using queue_okD(4) [OF host_reached_ok [OF reached], of t] t by simp
  show ?thesis
  proof (cases "bt_state (hq_turns q ! t) = Away")
    case True
    then show ?thesis using t by (auto simp: come_back_def state_of_def)
  next
    case False
    then have "waits (bt_state (hq_turns q ! t))"
      using idle t(2) waited [OF t(1)] by (cases "bt_state (hq_turns q ! t)") simp_all
    then have waiting: "t \<in> set (hq_lanes q (lane_of q t))"
      using queue_okD(3) [OF host_reached_ok [OF reached], of t] t(1) by simp
    have "pump q \<noteq> None" using None waiting by (cases "lane_of q t") (auto simp: pump_def split: list.splits)
    then show ?thesis by auto
  qed
qed

end
