(* ===== verification/PushChannels.thy ===== *)
theory PushChannels
  imports JsText
begin

text \<open>
  The HTTP transport of a view and its shared push channels (\<open>server/EventTransport.ts\<close>,
  \<open>server/sse.ts\<close>). The server, the token provider, the serialiser and the compression are functions
  the transport is built with; \<open>EventSource\<close> and the timer act through steps.
\<close>

section \<open>Addresses\<close>

definition deriveCarriesCircuitState :: "string option \<Rightarrow> bool" where
  "deriveCarriesCircuitState topology \<longleftrightarrow> topology \<noteq> Some ''stateful''"

text \<open>\<open>s.replace(/\/+$/, '')\<close> and \<open>s.replace(/\/[^/]*$/, '')\<close>.\<close>

definition drop_slashes :: "string \<Rightarrow> string" where
  "drop_slashes s = rev (dropWhile (\<lambda>c. c = CHR ''/'') (rev s))"

definition drop_segment :: "string \<Rightarrow> string" where
  "drop_segment s =
     (if CHR ''/'' \<in> set s then rev (tl (dropWhile (\<lambda>c. c \<noteq> CHR ''/'') (rev s))) else s)"

definition deriveEventsUrl :: "string \<Rightarrow> string" where
  "deriveEventsUrl serverUrl = drop_segment (drop_slashes serverUrl) @ ''/events''"

lemma events_url_of_api:
  assumes "CHR ''/'' \<notin> set seg" "seg \<noteq> []"
  shows "deriveEventsUrl (root_url @ ''/'' @ seg @ replicate n (CHR ''/'')) = root_url @ ''/events''"
proof -
  have "dropWhile (\<lambda>c. c = CHR ''/'') (replicate n (CHR ''/'') @ rev seg @ r) = rev seg @ r" for r
    using assms by (induction n) (cases "rev seg"; force)+
  then have slashes: "drop_slashes (root_url @ ''/'' @ seg @ replicate n (CHR ''/'')) = root_url @ ''/'' @ seg"
    by (simp add: drop_slashes_def)
  have "dropWhile (\<lambda>c. c \<noteq> CHR ''/'') (rev seg @ CHR ''/'' # r) = CHR ''/'' # r" for r
    using assms(1) by (subst dropWhile_append2) auto
  then have "drop_segment (root_url @ ''/'' @ seg) = root_url" by (simp add: drop_segment_def)
  with slashes show ?thesis by (simp add: deriveEventsUrl_def)
qed

section \<open>Frame numbers\<close>

record frame_number =
  fn_boot :: string
  fn_n :: int

text \<open>\<open>id.lastIndexOf('-')\<close> splits the id; a dash at the front or none is no number.\<close>

definition last_dash :: "string \<Rightarrow> (string \<times> string) option" where
  "last_dash s =
     (if CHR ''-'' \<in> set s
      then Some (rev (tl (dropWhile (\<lambda>c. c \<noteq> CHR ''-'') (rev s))), rev (takeWhile (\<lambda>c. c \<noteq> CHR ''-'') (rev s)))
      else None)"

definition parseFrameNumber :: "string \<Rightarrow> frame_number option" where
  "parseFrameNumber fid =
     (case last_dash fid of
        None \<Rightarrow> None
      | Some (boot, rest) \<Rightarrow>
          if boot = [] then None
          else let n = to_number rest in if isInteger n then Some \<lparr>fn_boot = boot, fn_n = int_of_num n\<rparr> else None)"

lemma last_dash_append: "CHR ''-'' \<notin> set w \<Longrightarrow> last_dash (b @ ''-'' @ w) = Some (b, w)"
proof -
  assume no: "CHR ''-'' \<notin> set w"
  have "takeWhile (\<lambda>c. c \<noteq> CHR ''-'') (rev w @ CHR ''-'' # r) = rev w
    \<and> dropWhile (\<lambda>c. c \<noteq> CHR ''-'') (rev w @ CHR ''-'' # r) = CHR ''-'' # r" for r
    by (intro conjI) ((subst takeWhile_append2 dropWhile_append2), use no in auto)+
  then show ?thesis by (simp add: last_dash_def)
qed

text \<open>The id a client puts after \<open>since\<close> is read back as the frame it names.\<close>

definition since_param :: "string \<Rightarrow> nat \<Rightarrow> string" where
  "since_param boot n = boot @ ''-'' @ show_nat n"

lemma frame_number_roundtrip:
  assumes "boot \<noteq> []"
  shows "parseFrameNumber (since_param boot n) = Some \<lparr>fn_boot = boot, fn_n = int n\<rparr>"
proof -
  have "CHR ''-'' \<notin> set (show_nat n)" using show_nat_digits [of "CHR ''-''" n] digit_not(2) by blast
  then have "last_dash (since_param boot n) = Some (boot, show_nat n)"
    unfolding since_param_def by (rule last_dash_append)
  then show ?thesis using assms by (simp add: parseFrameNumber_def)
qed

section \<open>Shared channels\<close>

text \<open>
  A channel waits for the address of its stream, has a stream, waits to open again after the browser gave
  its stream up, or was left by an opening that failed.
\<close>

datatype channel_phase = Opening | Connected | Retrying | Abandoned

record push_channel =
  pc_key :: string
  pc_resume :: "string option"
  pc_subscribers :: "nat list"
  pc_phase :: channel_phase
  pc_closed :: bool

text \<open>
  Channels are numbered as they are made; \<open>ps_table\<close> is \<open>pushChannels\<close>, \<open>ps_last\<close> is
  \<open>lastFrameByClient\<close>. The ghost \<open>ps_applied\<close> lists the frames handed on, with their channel, its
  resume key and the subscribers that got them.
\<close>

record push_state =
  ps_channels :: "push_channel list"
  ps_table :: "(string \<times> nat) list"
  ps_last :: "(string \<times> frame_number) list"
  ps_applied :: "(nat \<times> string option \<times> frame_number option \<times> nat list) list"

definition no_channels :: push_state where
  "no_channels = \<lparr>ps_channels = [], ps_table = [], ps_last = [], ps_applied = []\<rparr>"

definition change_channel :: "nat \<Rightarrow> (push_channel \<Rightarrow> push_channel) \<Rightarrow> push_state \<Rightarrow> push_state" where
  "change_channel c f s = s\<lparr>ps_channels := (ps_channels s)[c := f (ps_channels s ! c)]\<rparr>"

text \<open>\<open>acquirePushChannel\<close>: the channel of the key, made and opened when there is none.\<close>

definition acquire_channel :: "string \<Rightarrow> string option \<Rightarrow> nat \<Rightarrow> push_state \<Rightarrow> nat \<times> push_state" where
  "acquire_channel key resumeKey sub s =
     (let (c, s1) = (case map_of (ps_table s) key of
          Some c \<Rightarrow> (c, s)
        | None \<Rightarrow> (length (ps_channels s),
            s\<lparr>ps_channels := ps_channels s @ [\<lparr>pc_key = key, pc_resume = resumeKey, pc_subscribers = [], pc_phase = Opening, pc_closed = False\<rparr>],
              ps_table := AList.update key (length (ps_channels s)) (ps_table s)\<rparr>))
      in (c, change_channel c (\<lambda>ch. ch\<lparr>pc_subscribers := set_add sub (pc_subscribers ch)\<rparr>) s1))"

text \<open>The function it returns; nothing keeps it from being called twice.\<close>

definition release_channel :: "nat \<Rightarrow> nat \<Rightarrow> push_state \<Rightarrow> push_state" where
  "release_channel c sub s =
     (let s1 = change_channel c (\<lambda>ch. ch\<lparr>pc_subscribers := removeAll sub (pc_subscribers ch)\<rparr>) s;
          ch = ps_channels s1 ! c
      in if pc_subscribers ch = []
         then (change_channel c (\<lambda>ch. ch\<lparr>pc_closed := True\<rparr>) s1)\<lparr>ps_table := AList.delete (pc_key ch) (ps_table s1)\<rparr>
         else s1)"

text \<open>\<open>open\<close> after \<open>resolveUrl\<close> settled: a failure is logged and nothing else happens.\<close>

definition url_resolved :: "nat \<Rightarrow> bool \<Rightarrow> push_state \<Rightarrow> push_state option" where
  "url_resolved c ok s =
     (let ch = ps_channels s ! c
      in if c < length (ps_channels s) \<and> pc_phase ch = Opening
         then Some (if \<not> ok then change_channel c (\<lambda>ch. ch\<lparr>pc_phase := Abandoned\<rparr>) s
           else if pc_closed ch then s
           else change_channel c (\<lambda>ch. ch\<lparr>pc_phase := Connected\<rparr>) s)
         else None)"

text \<open>\<open>source.onmessage\<close> with a text that parses; the frame's number decides whether it is a replay.\<close>

definition is_replay :: "push_state \<Rightarrow> string option \<Rightarrow> frame_number option \<Rightarrow> bool" where
  "is_replay s resumeKey number =
     (case (number, resumeKey) of
        (Some nr, Some rk) \<Rightarrow> (case map_of (ps_last s) rk of
            Some seen \<Rightarrow> fn_boot seen = fn_boot nr \<and> fn_n nr \<le> fn_n seen
          | None \<Rightarrow> False)
      | _ \<Rightarrow> False)"

definition note_frame :: "string option \<Rightarrow> frame_number option \<Rightarrow> push_state \<Rightarrow> push_state" where
  "note_frame resumeKey number s =
     (case (number, resumeKey) of (Some nr, Some rk) \<Rightarrow> s\<lparr>ps_last := AList.update rk nr (ps_last s)\<rparr> | _ \<Rightarrow> s)"

definition frame_id :: "string \<Rightarrow> frame_number option" where
  "frame_id lastEventId = (if lastEventId \<noteq> [] then parseFrameNumber lastEventId else None)"

definition receive_frame :: "nat \<Rightarrow> string \<Rightarrow> push_state \<Rightarrow> push_state option" where
  "receive_frame c lastEventId s =
     (let ch = ps_channels s ! c; number = frame_id lastEventId
      in if c < length (ps_channels s) \<and> pc_phase ch = Connected \<and> \<not> pc_closed ch
         then Some (if is_replay s (pc_resume ch) number then s
           else (note_frame (pc_resume ch) number s)\<lparr>ps_applied := ps_applied s @ [(c, pc_resume ch, number, pc_subscribers ch)]\<rparr>)
         else None)"

text \<open>\<open>source.onerror\<close> on a stream the browser gave up, and the timer that opens the channel again.\<close>

definition stream_refused :: "nat \<Rightarrow> push_state \<Rightarrow> push_state option" where
  "stream_refused c s =
     (let ch = ps_channels s ! c
      in if c < length (ps_channels s) \<and> pc_phase ch = Connected \<and> \<not> pc_closed ch
         then Some (change_channel c (\<lambda>ch. ch\<lparr>pc_phase := Retrying\<rparr>) s) else None)"

definition reopen :: "nat \<Rightarrow> push_state \<Rightarrow> push_state option" where
  "reopen c s =
     (let ch = ps_channels s ! c
      in if c < length (ps_channels s) \<and> pc_phase ch = Retrying \<and> \<not> pc_closed ch
         then Some (change_channel c (\<lambda>ch. ch\<lparr>pc_phase := Opening\<rparr>) s) else None)"

datatype push_step =
    Acquire string "string option" nat
  | Release nat nat
  | UrlResolved nat bool
  | Frame nat string
  | Refused nat
  | Reopen nat

fun push_next :: "push_step \<Rightarrow> push_state \<Rightarrow> push_state option" where
  "push_next (Acquire key rk sub) s = Some (snd (acquire_channel key rk sub s))"
| "push_next (Release c sub) s = (if c < length (ps_channels s) then Some (release_channel c sub s) else None)"
| "push_next (UrlResolved c ok) s = url_resolved c ok s"
| "push_next (Frame c fid) s = receive_frame c fid s"
| "push_next (Refused c) s = stream_refused c s"
| "push_next (Reopen c) s = reopen c s"

inductive push_reached :: "push_state \<Rightarrow> bool" where
  start: "push_reached no_channels"
| step: "push_reached s \<Longrightarrow> push_next a s = Some s' \<Longrightarrow> push_reached s'"

fun run_push :: "push_step list \<Rightarrow> push_state \<Rightarrow> push_state option" where
  "run_push [] s = Some s"
| "run_push (a # as) s = Option.bind (push_next a s) (run_push as)"

lemma run_push_reached: "push_reached s \<Longrightarrow> run_push acts s = Some s' \<Longrightarrow> push_reached s'"
  by (induction acts arbitrary: s) (auto split: Option.bind_splits intro: push_reached.step)

section \<open>Frames in order\<close>

definition frames_of :: "push_state \<Rightarrow> string \<Rightarrow> frame_number list" where
  "frames_of s rk = List.map_filter (\<lambda>(_, resumeKey, number, _). if resumeKey = Some rk then number else None) (ps_applied s)"

definition later_frame :: "frame_number \<Rightarrow> frame_number \<Rightarrow> bool" where
  "later_frame a b \<longleftrightarrow> (fn_boot a = fn_boot b \<longrightarrow> fn_n a < fn_n b)"

definition frames_ok :: "push_state \<Rightarrow> bool" where
  "frames_ok s \<longleftrightarrow> (\<forall>rk. successively later_frame (frames_of s rk)
     \<and> map_of (ps_last s) rk = (if frames_of s rk = [] then None else Some (last (frames_of s rk))))"

lemma change_channel_frames [simp]:
  "ps_last (change_channel c f s) = ps_last s" "ps_applied (change_channel c f s) = ps_applied s"
  "ps_table (change_channel c f s) = ps_table s" "length (ps_channels (change_channel c f s)) = length (ps_channels s)"
  by (simp_all add: change_channel_def)

lemma acquire_frames [simp]:
  "ps_last (snd (acquire_channel key rk sub s)) = ps_last s"
  "ps_applied (snd (acquire_channel key rk sub s)) = ps_applied s"
  by (simp_all add: acquire_channel_def split: option.splits prod.splits)

lemma release_frames [simp]:
  "ps_last (release_channel c sub s) = ps_last s" "ps_applied (release_channel c sub s) = ps_applied s"
  by (simp_all add: release_channel_def Let_def)

lemma frames_ok_cong:
  assumes "ps_last s' = ps_last s" "ps_applied s' = ps_applied s"
  shows "frames_ok s' = frames_ok s"
  using assms by (simp add: frames_ok_def frames_of_def)

lemma receive_frames_ok:
  assumes ok: "frames_ok s" and run: "receive_frame c fid s = Some s'"
  shows "frames_ok s'"
proof -
  let ?ch = "ps_channels s ! c" and ?number = "frame_id fid"
  consider "s' = s"
    | "\<not> is_replay s (pc_resume ?ch) ?number"
      "s' = (note_frame (pc_resume ?ch) ?number s)\<lparr>ps_applied := ps_applied s @ [(c, pc_resume ?ch, ?number, pc_subscribers ?ch)]\<rparr>"
    using run by (cases "is_replay s (pc_resume ?ch) ?number") (simp_all add: receive_frame_def Let_def split: if_splits)
  then show ?thesis
  proof cases
    case 2
    have frames: "frames_of s' rk = frames_of s rk @ (case (pc_resume ?ch, ?number) of
        (Some k, Some nr) \<Rightarrow> if k = rk then [nr] else [] | _ \<Rightarrow> [])" for rk
      using 2(2) by (auto simp: frames_of_def List.map_filter_def split: option.split)
    show ?thesis
    proof (cases "(pc_resume ?ch, ?number)")
      case (Pair resume number)
      show ?thesis
      proof (cases "resume = None \<or> number = None")
        case True
        then have "frames_of s' rk = frames_of s rk" "ps_last s' = ps_last s" for rk
          using frames [of rk] 2(2) Pair by (auto simp: note_frame_def split: option.splits)
        then show ?thesis using ok by (simp add: frames_ok_def)
      next
        case False
        then obtain k nr where k: "pc_resume ?ch = Some k" "?number = Some nr" using Pair by auto
        have last: "map_of (ps_last s') rk = (if rk = k then Some nr else map_of (ps_last s) rk)" for rk
          using 2(2) k by (simp add: note_frame_def)
        have later: "frames_of s k = [] \<or> later_frame (last (frames_of s k)) nr"
          using ok 2(1) k by (cases "frames_of s k = []") (auto simp: frames_ok_def is_replay_def later_frame_def)
        have grown: "frames_of s' k = frames_of s k @ [nr]" "rk \<noteq> k \<Longrightarrow> frames_of s' rk = frames_of s rk" for rk
          using frames k by simp_all
        have "successively later_frame (frames_of s' rk)
            \<and> map_of (ps_last s') rk = (if frames_of s' rk = [] then None else Some (last (frames_of s' rk)))" for rk
          by (cases "rk = k") (use ok grown last later in \<open>simp_all add: frames_ok_def successively_append_iff\<close>)
        then show ?thesis unfolding frames_ok_def by blast
      qed
    qed
  qed (use ok in simp)
qed

lemma push_next_frames:
  assumes "push_next a s = Some s'" "\<nexists>c fid. a = Frame c fid"
  shows "ps_last s' = ps_last s \<and> ps_applied s' = ps_applied s"
  using assms by (cases a) (auto simp: url_resolved_def stream_refused_def reopen_def Let_def split: if_splits)

lemma push_next_frames_ok:
  assumes "frames_ok s" "push_next a s = Some s'"
  shows "frames_ok s'"
proof (cases "\<exists>c fid. a = Frame c fid")
  case True
  then show ?thesis using assms receive_frames_ok by auto
next
  case False
  then show ?thesis using push_next_frames [OF assms(2)] assms(1) frames_ok_cong [of s' s] by simp
qed

lemma push_reached_frames: "push_reached s \<Longrightarrow> frames_ok s"
proof (induction rule: push_reached.induct)
  case start
  then show ?case by (simp add: frames_ok_def frames_of_def no_channels_def List.map_filter_def)
qed (rule push_next_frames_ok)

lemma frames_facts:
  assumes "push_reached s"
  shows "successively later_frame (frames_of s rk)"
    and "map_of (ps_last s) rk = (if frames_of s rk = [] then None else Some (last (frames_of s rk)))"
    and "(\<forall>f\<in>set (frames_of s rk). fn_boot f = boot) \<Longrightarrow> sorted_wrt (<) (map fn_n (frames_of s rk))"
proof -
  have ok: "frames_ok s" by (rule push_reached_frames [OF assms])
  then show sorted: "successively later_frame (frames_of s rk)" by (simp add: frames_ok_def)
  show "map_of (ps_last s) rk = (if frames_of s rk = [] then None else Some (last (frames_of s rk)))"
    using ok by (simp add: frames_ok_def)
  have strict: "sorted_wrt (<) (map fn_n fs)" if "successively later_frame fs" "\<forall>f\<in>set fs. fn_boot f = boot" for fs
  proof -
    have "sorted_wrt (<) (map fn_n fs) \<longleftrightarrow> successively (<) (map fn_n fs)"
      by (rule successively_conv_sorted_wrt [symmetric]) (auto simp: transp_def)
    moreover have "successively (\<lambda>a b. fn_n a < fn_n b) fs"
      by (rule successively_mono [OF that(1)]) (use that(2) in \<open>auto simp: later_frame_def\<close>)
    ultimately show ?thesis by (simp add: successively_map)
  qed
  show "(\<forall>f\<in>set (frames_of s rk). fn_boot f = boot) \<Longrightarrow> sorted_wrt (<) (map fn_n (frames_of s rk))"
    by (rule strict [OF sorted])
qed

text \<open>
  C16: However channels are acquired, released, broken and opened again, the numbered frames a tab hands on
  never repeat nor go back while the server's boot stays the same: a replay after a resume is dropped, on
  whichever channel it comes, and \<open>lastFrameByClient\<close> is the last frame handed on.
\<close>
theorem frames_never_repeat:
  assumes "push_reached s"
  shows "successively later_frame (frames_of s rk)
    \<and> map_of (ps_last s) rk = (if frames_of s rk = [] then None else Some (last (frames_of s rk)))
    \<and> ((\<forall>f\<in>set (frames_of s rk). fn_boot f = boot) \<longrightarrow> sorted_wrt (<) (map fn_n (frames_of s rk)))"
  using frames_facts [OF assms] by blast

definition push_trace :: "push_step list" where
  "push_trace = [Acquire ''/events?tab=1'' (Some ''tab1'') 0, UrlResolved 0 True, Frame 0 ''b-1'', Frame 0 ''b-2'',
     Refused 0, Reopen 0, UrlResolved 0 True, Frame 0 ''b-2'', Frame 0 ''b-3'']"

definition push_final :: push_state where
  "push_final = the (run_push push_trace no_channels)"

theorem frames_never_repeat_witness:
  "map fn_n (frames_of push_final ''tab1'') = [1, 2, 3] \<and> sorted_wrt (<) (map fn_n (frames_of push_final ''tab1''))"
proof -
  have numbers: "map fn_n (frames_of push_final ''tab1'') = [1, 2, 3] \<and> list_all (\<lambda>f. fn_boot f = ''b'') (frames_of push_final ''tab1'')"
    by code_simp
  have "run_push push_trace no_channels \<noteq> None" by code_simp
  then have "push_reached push_final"
    using run_push_reached [OF push_reached.start, of push_trace] by (auto simp: push_final_def)
  from frames_never_repeat [OF this, of "''tab1''" "''b''"] numbers show ?thesis by (simp add: list_all_iff)
qed

section \<open>Channels that stop\<close>

text \<open>
  A channel whose opening failed (the ticket was refused, the server was not up yet) is left for ever: it
  hands nothing on, and while it has a subscriber every later subscriber of its address joins it.
\<close>

lemma channel_at [simp]:
  assumes "c < length (ps_channels s)"
  shows "ps_channels (change_channel d f s) ! c = (if c = d then f (ps_channels s ! c) else ps_channels s ! c)"
  using assms by (cases "c = d") (simp_all add: change_channel_def)

lemma acquire_channel_state:
  assumes "c < length (ps_channels s)"
  shows "pc_phase (ps_channels (snd (acquire_channel key rk sub s)) ! c) = pc_phase (ps_channels s ! c)"
  using assms by (cases "map_of (ps_table s) key") (simp_all add: acquire_channel_def nth_append)

lemma release_channel_state [simp]:
  "c < length (ps_channels s) \<Longrightarrow> pc_phase (ps_channels (release_channel d sub s) ! c) = pc_phase (ps_channels s ! c)"
  by (simp add: release_channel_def Let_def)

lemma abandoned_step:
  assumes "c < length (ps_channels s)" "pc_phase (ps_channels s ! c) = Abandoned" "push_next a s = Some s'"
  shows "c < length (ps_channels s') \<and> pc_phase (ps_channels s' ! c) = Abandoned
    \<and> filter (\<lambda>e. fst e = c) (ps_applied s') = filter (\<lambda>e. fst e = c) (ps_applied s)"
proof (cases a)
  case (Frame d fid)
  then show ?thesis using assms
    by (cases "d = c") (auto simp: receive_frame_def note_frame_def Let_def split: if_splits option.splits)
next
  case (Acquire key rk sub)
  then show ?thesis using assms acquire_channel_state [of c s key rk sub]
    by (auto simp: acquire_channel_def split: option.splits prod.splits)
next
  case (Release d sub)
  then show ?thesis using assms by (auto simp: release_channel_def Let_def split: if_splits)
next
  case (UrlResolved d ok)
  then show ?thesis using assms by (auto simp: url_resolved_def Let_def split: if_splits)
next
  case (Refused d)
  then show ?thesis using assms by (auto simp: stream_refused_def Let_def split: if_splits)
next
  case (Reopen d)
  then show ?thesis using assms by (auto simp: reopen_def Let_def split: if_splits)
qed

theorem failed_open_is_final:
  assumes "c < length (ps_channels s)" "pc_phase (ps_channels s ! c) = Abandoned" "run_push acts s = Some s'"
  shows "pc_phase (ps_channels s' ! c) = Abandoned
    \<and> filter (\<lambda>e. fst e = c) (ps_applied s') = filter (\<lambda>e. fst e = c) (ps_applied s)"
  using assms
proof (induction acts arbitrary: s)
  case (Cons a acts)
  then obtain r where r: "push_next a s = Some r" "run_push acts r = Some s'" by (auto split: Option.bind_splits)
  from abandoned_step [OF Cons.prems(1,2) r(1)] Cons.IH [of r] r(2) show ?case by simp
qed simp

lemma abandoned_is_shared:
  assumes "map_of (ps_table s) key = Some c"
  shows "fst (acquire_channel key rk sub s) = c"
  using assms by (simp add: acquire_channel_def)

definition down_server :: push_state where
  "down_server = the (run_push [Acquire ''/events'' None 0, UrlResolved 0 True, Refused 0, Reopen 0, UrlResolved 0 False] no_channels)"

theorem failed_open_is_final_witness:
  "run_push [Acquire ''/events'' None 1, Reopen 0] down_server = None
    \<and> map_option (\<lambda>s. (length (ps_channels s), pc_phase (ps_channels s ! 0))) (run_push [Acquire ''/events'' None 1] down_server)
      = Some (1, Abandoned)"
proof -
  have down: "0 < length (ps_channels down_server)" "pc_phase (ps_channels down_server ! 0) = Abandoned" by code_simp+
  have one: "map_option (\<lambda>s. length (ps_channels s)) (run_push [Acquire ''/events'' None 1] down_server) = Some 1" by code_simp
  then obtain s' where run: "run_push [Acquire ''/events'' None 1] down_server = Some s'" by auto
  have "push_next (Reopen 0) s' = None"
    using failed_open_is_final [OF down run] by (simp add: reopen_def Let_def)
  then show ?thesis using failed_open_is_final [OF down run] run one by simp
qed

text \<open>
  The function that releases a subscription may be called again after its channel closed. The second call
  deletes the key of the table even when a newer channel stands there: the next subscriber opens a second
  stream beside it.
\<close>

theorem stale_release_splits:
  assumes "c < length (ps_channels s)" "c' < length (ps_channels s)" "c \<noteq> c'"
    "pc_subscribers (ps_channels s ! c) = []" "map_of (ps_table s) (pc_key (ps_channels s ! c)) = Some c'"
  shows "let s1 = release_channel c old s; (d, s2) = acquire_channel (pc_key (ps_channels s ! c)) rk sub s1
    in d \<noteq> c' \<and> pc_key (ps_channels s2 ! d) = pc_key (ps_channels s ! c) \<and> ps_channels s2 ! c' = ps_channels s ! c'"
  using assms by (auto simp: release_channel_def acquire_channel_def Let_def nth_append)

definition split_before :: push_state where
  "split_before = the (run_push [Acquire ''/events'' None 0, Release 0 0, Acquire ''/events'' None 1, UrlResolved 1 True] no_channels)"

theorem stale_release_splits_witness:
  "let s2 = snd (acquire_channel ''/events'' None 2 (release_channel 0 0 split_before))
   in map pc_key (ps_channels s2) = [''/events'', ''/events'', ''/events''] \<and> map pc_closed (ps_channels s2) = [True, False, False]
     \<and> ps_channels s2 ! 1 = ps_channels split_before ! 1"
proof -
  have state: "0 < length (ps_channels split_before)" "1 < length (ps_channels split_before)"
    "pc_subscribers (ps_channels split_before ! 0) = []" "pc_key (ps_channels split_before ! 0) = ''/events''"
    "map_of (ps_table split_before) ''/events'' = Some 1"
    by code_simp+
  have "let s2 = snd (acquire_channel ''/events'' None 2 (release_channel 0 0 split_before))
    in map pc_key (ps_channels s2) = [''/events'', ''/events'', ''/events''] \<and> map pc_closed (ps_channels s2) = [True, False, False]"
    by code_simp
  with stale_release_splits [of 0 split_before 1 0 None 2] state show ?thesis by (simp add: Let_def split_def)
qed

section \<open>The HTTP transport\<close>

record http_post =
  hp_method :: string
  hp_url :: string
  hp_headers :: "(string \<times> string) list"
  hp_body :: string

record http_reply =
  hr_ok :: bool
  hr_status :: nat
  hr_json :: "string + jval"

record 'w transport_env =
  te_serverUrl :: string
  te_getAccessToken :: "('w \<Rightarrow> (string + string option) \<times> 'w) option"
  te_fetch :: "http_post \<Rightarrow> 'w \<Rightarrow> (string + http_reply) \<times> 'w"
  te_compress :: bool
  te_streams :: bool \<comment> \<open>\<open>CompressionStream\<close> is there\<close>
  te_stringify :: "jval \<Rightarrow> string"
  te_gzip :: "string \<Rightarrow> string"
  te_search :: "(string \<times> string) list \<Rightarrow> string"
  te_registered :: "jval \<Rightarrow> (bool \<times> string option) option" \<comment> \<open>\<open>OrbitalRegisterResponseSchema\<close>\<close>
  te_rowPage :: "jval \<Rightarrow> string + jval" \<comment> \<open>\<open>RowQueryPageSchema\<close>\<close>

definition authHeaders :: "'w transport_env \<Rightarrow> 'w \<Rightarrow> (string + (string \<times> string) list) \<times> 'w" where
  "authHeaders te =
     sbind (case te_getAccessToken te of Some get \<Rightarrow> get | None \<Rightarrow> (\<lambda>w. (Inr None, w)))
       (\<lambda>token w. (Inr ((''Content-Type'', ''application/json'') #
          (case token of Some t \<Rightarrow> if t \<noteq> [] then [(''Authorization'', ''Bearer '' @ t)] else [] | None \<Rightarrow> [])), w))"

definition COMPRESSED_BODY_MIN_BYTES :: nat where
  "COMPRESSED_BODY_MIN_BYTES = 32 * 1024"

definition encodeJsonBody :: "'w transport_env \<Rightarrow> jval \<Rightarrow> string \<times> bool" where
  "encodeJsonBody te v =
     (let txt = te_stringify te v
      in if \<not> te_compress te \<or> length txt < COMPRESSED_BODY_MIN_BYTES \<or> \<not> te_streams te then (txt, False) else (te_gzip te txt, True))"

definition jsonPost :: "'w transport_env \<Rightarrow> string \<Rightarrow> jval \<Rightarrow> 'w \<Rightarrow> (string + http_reply) \<times> 'w" where
  "jsonPost te url v =
     sbind (authHeaders te) (\<lambda>headers.
       let (body, gzipped) = encodeJsonBody te v
       in te_fetch te \<lparr>hp_method = ''POST'', hp_url = url,
            hp_headers = headers @ (if gzipped then [(''Content-Encoding'', ''gzip'')] else []), hp_body = body\<rparr>)"

text \<open>\<open>register\<close> remembers the schema's name before it asks; whatever fails is an unsuccessful result.\<close>

definition read_json :: "http_reply \<Rightarrow> 'w \<Rightarrow> (string + jval) \<times> 'w" where
  "read_json reply w = (hr_json reply, w)"

definition http_register :: "'w transport_env \<Rightarrow> string \<Rightarrow> jval \<Rightarrow> string option \<times> 'w \<Rightarrow> (bool \<times> bool) \<times> string option \<times> 'w" where
  "http_register te schemaName schema bw =
     (case sbind (jsonPost te (te_serverUrl te @ ''/register'') (JObj [(''schema'', schema)])) read_json (snd bw) of
        (Inl _, w) \<Rightarrow> ((False, True), Some schemaName, w)
      | (Inr v, w) \<Rightarrow> ((case te_registered te v of
            None \<Rightarrow> (False, deriveCarriesCircuitState None)
          | Some (success, topology) \<Rightarrow> (success, deriveCarriesCircuitState topology)), Some schemaName, w))"

definition http_unregister :: "'w transport_env \<Rightarrow> 'w \<Rightarrow> 'w" where
  "http_unregister te w =
     snd (sbind (authHeaders te) (\<lambda>headers. te_fetch te \<lparr>hp_method = ''DELETE'', hp_url = te_serverUrl te @ ''/unregister'',
       hp_headers = headers, hp_body = []\<rparr>) w)"

definition with_behavior :: "string option \<Rightarrow> jobj \<Rightarrow> jobj" where
  "with_behavior behavior req =
     (case behavior of
        Some b \<Rightarrow> if obj_get req ''behavior'' = None then AList.update ''behavior'' (JStr b) req else req
      | None \<Rightarrow> req)"

definition http_send :: "'w transport_env \<Rightarrow> string \<Rightarrow> jobj \<Rightarrow> string option \<times> 'w \<Rightarrow> (string + jval) \<times> string option \<times> 'w" where
  "http_send te orbitalName req bw =
     (case sbind (jsonPost te (te_serverUrl te @ ''/'' @ orbitalName @ ''/events'') (JObj (with_behavior (fst bw) req))) read_json (snd bw) of
        (r, w) \<Rightarrow> (r, fst bw, w))"

definition http_resolveRows :: "'w transport_env \<Rightarrow> jval \<Rightarrow> 'w \<Rightarrow> (string + jval) \<times> 'w" where
  "http_resolveRows te ref =
     sbind (jsonPost te (te_serverUrl te @ ''/resolve-rows'') (JObj [(''ref'', ref)])) (\<lambda>reply.
       if \<not> hr_ok reply then (\<lambda>w. (Inl (''resolve-rows: the server answered '' @ show_nat (hr_status reply)), w))
       else sbind (read_json reply) (\<lambda>v w. (te_rowPage te v, w)))"

text \<open>\<open>openPushChannel\<close>: the channel's key and the address a fresh ticket gives, resuming after the last frame.\<close>

definition show_int :: "int \<Rightarrow> string" where
  "show_int n = (if n < 0 then ''-'' @ show_nat (nat (- n)) else show_nat (nat n))"

definition resume_key :: "'w transport_env \<Rightarrow> (string \<times> string) list \<Rightarrow> string option" where
  "resume_key te params = map_option (\<lambda>cid. deriveEventsUrl (te_serverUrl te) @ ''|'' @ cid) (map_of params ''clientId'')"

definition channel_key :: "'w transport_env \<Rightarrow> (string \<times> string) list \<Rightarrow> string" where
  "channel_key te params = deriveEventsUrl (te_serverUrl te) @ ''?'' @ te_search te params"

definition withResume :: "'w transport_env \<Rightarrow> push_state \<Rightarrow> (string \<times> string) list \<Rightarrow> (string \<times> string) list \<Rightarrow> string" where
  "withResume te s params search =
     (let seen = Option.bind (resume_key te params) (map_of (ps_last s))
      in deriveEventsUrl (te_serverUrl te) @ ''?'' @ te_search te (case seen of
           Some f \<Rightarrow> AList.update ''since'' (fn_boot f @ ''-'' @ show_int (fn_n f)) search
         | None \<Rightarrow> search))"

definition resolveUrl :: "'w transport_env \<Rightarrow> push_state \<Rightarrow> (string \<times> string) list \<Rightarrow> 'w \<Rightarrow> (string + string) \<times> 'w" where
  "resolveUrl te s params =
     sbind (authHeaders te) (\<lambda>headers.
     sbind (te_fetch te \<lparr>hp_method = ''POST'', hp_url = deriveEventsUrl (te_serverUrl te) @ ''/ticket'', hp_headers = headers, hp_body = []\<rparr>) (\<lambda>reply.
       if \<not> hr_ok reply then (\<lambda>w. (Inl (''the server refused a stream ticket: '' @ show_nat (hr_status reply)), w))
       else sbind (read_json reply) (\<lambda>v w. (case v of
           JNull \<Rightarrow> Inl ''Cannot read properties of null''
         | JObj kvs \<Rightarrow> (case obj_get kvs ''ticket'' of
               Some (JStr ticket) \<Rightarrow> if ticket = [] then Inl ''the server sent no stream ticket''
                 else Inr (withResume te s params (AList.update ''ticket'' ticket params))
             | _ \<Rightarrow> Inl ''the server sent no stream ticket'')
         | _ \<Rightarrow> Inl ''the server sent no stream ticket'', w))))"

text \<open>What a subscriber of cascade events and one of host-run dispatches take from an envelope.\<close>

definition bus_push :: "jobj \<Rightarrow> (string \<times> jval option \<times> jval option \<times> jval) option" where
  "bus_push env =
     (if obj_get env ''type'' = Some (JStr ''bus'')
      then case obj_get env ''event'' of
          Some (JStr ev) \<Rightarrow> Some (ev, obj_get env ''payload'', obj_get env ''source'',
            (case obj_get env ''target'' of Some JNull \<Rightarrow> JStr ''peers'' | Some t \<Rightarrow> t | None \<Rightarrow> JStr ''peers''))
        | _ \<Rightarrow> None
      else None)"

definition dispatch_push :: "jobj \<Rightarrow> (string \<times> jval \<times> jval) option" where
  "dispatch_push env =
     (if obj_get env ''type'' = Some (JStr ''dispatch'')
      then case (obj_get env ''orbitalName'', obj_get env ''request'', obj_get env ''response'') of
          (Some (JStr orb), Some req, Some resp) \<Rightarrow> Some (orb, req, resp)
        | _ \<Rightarrow> None
      else None)"

lemma push_kinds_exclusive: "bus_push env = None \<or> dispatch_push env = None"
  by (simp add: bus_push_def dispatch_push_def)

text \<open>Server-sent events on the server's side (\<open>sse.ts\<close>).\<close>

definition formatSSEEvent :: "(jval \<Rightarrow> string) \<Rightarrow> jval \<Rightarrow> string" where
  "formatSSEEvent stringify ev = ''data: '' @ stringify ev @ [CHR 0x0A, CHR 0x0A]"

text \<open>A transport that has registered names the schema's behavior on every leg that names none itself.\<close>

lemma behavior_named:
  assumes "http_register te schemaName schema bw = (result, bw')"
  shows "fst bw' = Some schemaName"
    and "obj_get (with_behavior (fst bw') req) ''behavior'' = (case obj_get req ''behavior'' of None \<Rightarrow> Some (JStr schemaName) | b \<Rightarrow> b)"
proof -
  show named: "fst bw' = Some schemaName"
    using assms by (auto simp: http_register_def split: prod.splits sum.splits)
  show "obj_get (with_behavior (fst bw') req) ''behavior'' = (case obj_get req ''behavior'' of None \<Rightarrow> Some (JStr schemaName) | b \<Rightarrow> b)"
    by (simp add: named with_behavior_def obj_get_def split: option.split)
qed

text \<open>A channel that resumes names the last frame its tab applied.\<close>

lemma resume_names_last_frame:
  assumes "push_reached s" "resume_key te params = Some rk" "frames_of s rk \<noteq> []" "last (frames_of s rk) = \<lparr>fn_boot = boot, fn_n = int n\<rparr>"
  shows "withResume te s params search
    = deriveEventsUrl (te_serverUrl te) @ ''?'' @ te_search te (AList.update ''since'' (since_param boot n) search)"
proof -
  have "map_of (ps_last s) rk = Some (last (frames_of s rk))"
    using push_reached_frames [OF assms(1)] assms(3) by (simp add: frames_ok_def)
  then show ?thesis using assms(2,4) by (simp add: withResume_def since_param_def show_int_def)
qed

end
