(* ===== verification/ServerBridge.thy ===== *)
theory ServerBridge
  imports JsText
begin

text \<open>
  The bridge between a client's event bus and the server (\<open>server/ServerBridge.ts\<close>). What the bus
  delivers and what the server answers are the steps of the model; forwards are asynchronous, so the
  answers of several come in any order.
\<close>

section \<open>What is forwarded\<close>

record bridge_config =
  bc_forwardEvents :: "string list option"
  bc_forwardPattern :: "string option"
  bc_targetOrbital :: "string option"

text \<open>\<open>setupEventForwarding\<close>: the keys the bridge listens under, each with what its listener lets through.\<close>

definition setupEventForwarding :: "bridge_config \<Rightarrow> (string \<times> (string \<Rightarrow> bool)) list" where
  "setupEventForwarding cfg =
     (case bc_forwardEvents cfg of
        Some (e # es) \<Rightarrow> map (\<lambda>eventType. (eventType, \<lambda>_. True)) (e # es)
      | _ \<Rightarrow> (case bc_forwardPattern cfg of
            None \<Rightarrow> []
          | Some pattern \<Rightarrow>
              if pattern = [] then []
              else if pattern = ''*''
              then [(''*'', \<lambda>ty. \<not> starts_with ''UI:'' ty \<and> \<not> starts_with ''BRIDGE:'' ty)]
              else [(''*'', \<lambda>ty. starts_with (remove1 (CHR ''*'') pattern) ty)]))"

definition heard :: "string \<Rightarrow> string \<times> (string \<Rightarrow> bool) \<Rightarrow> bool" where
  "heard ty sub \<longleftrightarrow> (fst sub = ty \<or> fst sub = ''*'') \<and> snd sub ty"

section \<open>Forwards\<close>

text \<open>
  A forward asks for the orbitals first when it goes to all of them, then sends the event to one after the
  other. \<open>br_started\<close> and \<open>br_failed\<close> are ghosts, \<open>br_emitted\<close> lists what the bridge put on the bus.
\<close>

datatype forward = Listing string "jval option" | Sending string "jval option" "string list"

record bridge =
  br_connected :: bool
  br_subs :: "(string \<times> (string \<Rightarrow> bool)) list"
  br_lastError :: "string option"
  br_eventsForwarded :: nat
  br_eventsReceived :: nat
  br_pending :: "forward list"
  br_started :: nat
  br_failed :: nat
  br_emitted :: "(string \<times> jval option) list"

definition new_bridge :: bridge where
  "new_bridge = \<lparr>br_connected = False, br_subs = [], br_lastError = None, br_eventsForwarded = 0, br_eventsReceived = 0,
     br_pending = [], br_started = 0, br_failed = 0, br_emitted = []\<rparr>"

definition connect :: "bridge_config \<Rightarrow> bridge \<Rightarrow> bridge" where
  "connect cfg b = (if br_connected b then b else b\<lparr>br_subs := br_subs b @ setupEventForwarding cfg, br_connected := True\<rparr>)"

definition disconnect :: "bridge \<Rightarrow> bridge" where
  "disconnect b = b\<lparr>br_subs := [], br_connected := False\<rparr>"

definition new_forward :: "bridge_config \<Rightarrow> string \<Rightarrow> jval option \<Rightarrow> forward" where
  "new_forward cfg ty payload =
     (case bc_targetOrbital cfg of
        Some t \<Rightarrow> if t \<noteq> [] \<and> t \<noteq> ''broadcast'' then Sending ty payload [t] else Listing ty payload
      | None \<Rightarrow> Listing ty payload)"

definition forwardToServer :: "bridge_config \<Rightarrow> string \<Rightarrow> jval option \<Rightarrow> bridge \<Rightarrow> bridge" where
  "forwardToServer cfg ty payload b =
     b\<lparr>br_pending := br_pending b @ [new_forward cfg ty payload], br_started := br_started b + 1\<rparr>"

text \<open>The bus delivers an event: one forward for every listener of the bridge that hears it.\<close>

definition bus_event :: "bridge_config \<Rightarrow> string \<Rightarrow> jval option \<Rightarrow> bridge \<Rightarrow> bridge" where
  "bus_event cfg ty payload b = fold (\<lambda>_. forwardToServer cfg ty payload) (filter (heard ty) (br_subs b)) b"

text \<open>An event of the server is put on the bus, which delivers it to the bridge too.\<close>

definition emit_received :: "bridge_config \<Rightarrow> string \<times> jval option \<Rightarrow> bridge \<Rightarrow> bridge" where
  "emit_received cfg e b =
     (let ty = ''SERVER:'' @ fst e;
          b1 = bus_event cfg ty (snd e) (b\<lparr>br_emitted := br_emitted b @ [(ty, snd e)]\<rparr>)
      in b1\<lparr>br_eventsReceived := br_eventsReceived b1 + 1\<rparr>)"

definition remove_at :: "nat \<Rightarrow> 'a list \<Rightarrow> 'a list" where
  "remove_at i xs = take i xs @ drop (Suc i) xs"

definition fail_forward :: "nat \<Rightarrow> string \<Rightarrow> bridge \<Rightarrow> bridge" where
  "fail_forward i e b = b\<lparr>br_pending := remove_at i (br_pending b), br_lastError := Some e, br_failed := br_failed b + 1\<rparr>"

text \<open>\<open>fetchOrbitals\<close> settles for the \<open>i\<close>-th pending forward.\<close>

definition orbitals_listed :: "nat \<Rightarrow> string + string list \<Rightarrow> bridge \<Rightarrow> bridge option" where
  "orbitals_listed i answer b =
     (if i < length (br_pending b)
      then case br_pending b ! i of
          Listing ty payload \<Rightarrow> Some (case answer of
              Inl e \<Rightarrow> fail_forward i e b
            | Inr names \<Rightarrow> b\<lparr>br_pending := (br_pending b)[i := Sending ty payload names]\<rparr>)
        | _ \<Rightarrow> None
      else None)"

text \<open>\<open>sendEventToOrbital\<close> settles: the emitted events go to the bus before the next orbital is asked.\<close>

definition orbital_answered :: "bridge_config \<Rightarrow> nat \<Rightarrow> string + (string \<times> jval option) list \<Rightarrow> bridge \<Rightarrow> bridge option" where
  "orbital_answered cfg i answer b =
     (if i < length (br_pending b)
      then case br_pending b ! i of
          Sending ty payload (orb # orbs) \<Rightarrow> Some (case answer of
              Inl e \<Rightarrow> fail_forward i e b
            | Inr emitted \<Rightarrow> fold (emit_received cfg) emitted (b\<lparr>br_pending := (br_pending b)[i := Sending ty payload orbs]\<rparr>))
        | _ \<Rightarrow> None
      else None)"

definition forward_done :: "nat \<Rightarrow> bridge \<Rightarrow> bridge option" where
  "forward_done i b =
     (if i < length (br_pending b)
      then case br_pending b ! i of
          Sending ty payload [] \<Rightarrow>
            Some (b\<lparr>br_pending := remove_at i (br_pending b), br_eventsForwarded := br_eventsForwarded b + 1\<rparr>)
        | _ \<Rightarrow> None
      else None)"

text \<open>A message of the socket: an event of the server, or anything else.\<close>

definition socket_message :: "bridge_config \<Rightarrow> (string \<times> jval option) option \<Rightarrow> bridge \<Rightarrow> bridge" where
  "socket_message cfg data b = (case data of Some e \<Rightarrow> emit_received cfg e b | None \<Rightarrow> b)"

datatype bridge_step =
    Connect
  | Disconnect
  | BusEvent string "jval option"
  | OrbitalsListed nat "string + string list"
  | OrbitalAnswered nat "string + (string \<times> jval option) list"
  | ForwardDone nat
  | SocketMessage "(string \<times> jval option) option"

fun bridge_next :: "bridge_config \<Rightarrow> bridge_step \<Rightarrow> bridge \<Rightarrow> bridge option" where
  "bridge_next cfg Connect b = Some (connect cfg b)"
| "bridge_next cfg Disconnect b = Some (disconnect b)"
| "bridge_next cfg (BusEvent ty payload) b = Some (bus_event cfg ty payload b)"
| "bridge_next cfg (OrbitalsListed i answer) b = orbitals_listed i answer b"
| "bridge_next cfg (OrbitalAnswered i answer) b = orbital_answered cfg i answer b"
| "bridge_next cfg (ForwardDone i) b = forward_done i b"
| "bridge_next cfg (SocketMessage data) b = Some (socket_message cfg data b)"

fun run_bridge :: "bridge_config \<Rightarrow> bridge_step list \<Rightarrow> bridge \<Rightarrow> bridge option" where
  "run_bridge cfg [] b = Some b"
| "run_bridge cfg (a # as) b = Option.bind (bridge_next cfg a b) (run_bridge cfg as)"

section \<open>Direct calls\<close>

text \<open>\<open>getOrbitalState\<close> reads the states of an orbital's traits off the answer; a later trait of a name wins.\<close>

definition orbital_states :: "(string \<times> string) list \<Rightarrow> (string \<times> string) list" where
  "orbital_states traits = foldl (\<lambda>m (n, st). AList.update n st m) [] traits"

definition getOrbitalState :: "string + bool \<times> (string \<times> string) list option \<times> string option
    \<Rightarrow> bool \<times> (string \<times> string) list option \<times> string option" where
  "getOrbitalState answer =
     (case answer of
        Inl e \<Rightarrow> (False, None, Some e)
      | Inr (success, orbital, error) \<Rightarrow> (case (success, orbital) of
            (True, Some traits) \<Rightarrow> (True, Some (orbital_states traits), None)
          | _ \<Rightarrow> (False, None, error)))"

text \<open>The socket's address: the first two replacements look at the front, the last at the end.\<close>

definition replace_front :: "string \<Rightarrow> string \<Rightarrow> string \<Rightarrow> string" where
  "replace_front p r s = (if starts_with p s then r @ drop (length p) s else s)"

definition replace_end :: "string \<Rightarrow> string \<Rightarrow> string \<Rightarrow> string" where
  "replace_end p r s = rev (replace_front (rev p) (rev r) (rev s))"

definition socket_url :: "string \<Rightarrow> string" where
  "socket_url serverUrl =
     replace_end ''/api/orbitals'' ''/ws/orbitals'' (replace_front ''https:'' ''wss:'' (replace_front ''http:'' ''ws:'' serverUrl))"

lemma socket_url_samples:
  "socket_url ''http://h/api/orbitals'' = ''ws://h/ws/orbitals''" "socket_url ''https://h/api/orbitals'' = ''wss://h/ws/orbitals''"
  "socket_url ''/api/orbitals'' = ''/ws/orbitals''"
  by code_simp+

section \<open>Counters\<close>

definition counted :: "bridge \<Rightarrow> bool" where
  "counted b \<longleftrightarrow> br_started b = br_eventsForwarded b + br_failed b + length (br_pending b)
     \<and> br_eventsReceived b = length (br_emitted b)"

definition hearing :: "bridge \<Rightarrow> string \<Rightarrow> nat" where
  "hearing b ty = length (filter (heard ty) (br_subs b))"

lemma bus_event_eq:
  "bus_event cfg ty p b =
     b\<lparr>br_pending := br_pending b @ replicate (hearing b ty) (new_forward cfg ty p), br_started := br_started b + hearing b ty\<rparr>"
proof -
  have "fold (\<lambda>_. forwardToServer cfg ty p) xs b =
      b\<lparr>br_pending := br_pending b @ replicate (length xs) (new_forward cfg ty p), br_started := br_started b + length xs\<rparr>" for xs :: "'x list"
    by (induction xs arbitrary: b) (simp_all add: forwardToServer_def)
  then show ?thesis by (simp add: bus_event_def hearing_def)
qed

lemma emit_received_eq:
  "emit_received cfg e b =
     b\<lparr>br_emitted := br_emitted b @ [(''SERVER:'' @ fst e, snd e)],
       br_pending := br_pending b @ replicate (hearing b (''SERVER:'' @ fst e)) (new_forward cfg (''SERVER:'' @ fst e) (snd e)),
       br_started := br_started b + hearing b (''SERVER:'' @ fst e), br_eventsReceived := br_eventsReceived b + 1\<rparr>"
  by (simp add: emit_received_def bus_event_eq hearing_def Let_def)

lemma emit_counted: "counted b \<Longrightarrow> counted (emit_received cfg e b)"
  by (simp add: emit_received_eq counted_def)

lemma emits_counted: "counted b \<Longrightarrow> counted (fold (emit_received cfg) es b)"
  by (induction es arbitrary: b) (auto intro: emit_counted)

lemma emits_fields:
  "br_subs (fold (emit_received cfg) es b) = br_subs b" "br_lastError (fold (emit_received cfg) es b) = br_lastError b"
  "br_failed (fold (emit_received cfg) es b) = br_failed b"
  "br_eventsForwarded (fold (emit_received cfg) es b) = br_eventsForwarded b"
  by (induction es arbitrary: b) (simp_all add: emit_received_eq)

lemma emits_pending: "\<exists>new. br_pending (fold (emit_received cfg) es b) = br_pending b @ new"
proof (induction es arbitrary: b)
  case (Cons e es)
  from Cons.IH [of "emit_received cfg e b"] show ?case by (auto simp: emit_received_eq)
qed simp

lemma remove_at_length: "i < length xs \<Longrightarrow> Suc (length (remove_at i xs)) = length xs"
  by (simp add: remove_at_def)

lemma fail_counted: "counted b \<Longrightarrow> i < length (br_pending b) \<Longrightarrow> counted (fail_forward i e b)"
  using remove_at_length [of i "br_pending b"] by (simp add: counted_def fail_forward_def)

lemma bridge_next_counted:
  assumes "counted b" "bridge_next cfg a b = Some b'"
  shows "counted b'"
proof (cases a)
  case (OrbitalsListed i answer)
  then show ?thesis using assms fail_counted [OF assms(1), of i]
    by (auto simp: orbitals_listed_def counted_def split: if_splits forward.splits sum.splits)
next
  case (OrbitalAnswered i answer)
  then obtain ty p orb orbs where i: "i < length (br_pending b)" "br_pending b ! i = Sending ty p (orb # orbs)"
    using assms(2) by (auto simp: orbital_answered_def split: if_splits forward.splits list.splits)
  have "counted (b\<lparr>br_pending := (br_pending b)[i := Sending ty p orbs]\<rparr>)" using assms(1) by (simp add: counted_def)
  from emits_counted [OF this] show ?thesis
    using OrbitalAnswered assms(2) i fail_counted [OF assms(1) i(1)] by (auto simp: orbital_answered_def split: sum.splits)
next
  case (ForwardDone i)
  then show ?thesis using assms remove_at_length [of i "br_pending b"]
    by (auto simp: forward_done_def counted_def split: if_splits forward.splits list.splits)
next
  case (SocketMessage data)
  then show ?thesis using assms emit_counted by (auto simp: socket_message_def split: option.splits)
qed (use assms in \<open>auto simp: connect_def disconnect_def bus_event_eq counted_def split: if_splits\<close>)

text \<open>
  What the bridge reports is what it did: every forward that was started was sent to all its orbitals,
  failed or is still under way, and every event of the server it counted was put on the client's bus under
  \<open>SERVER:\<close>; a forward that ends is counted once, in one of the two ways.
\<close>
theorem bridge_counts:
  assumes "run_bridge cfg acts new_bridge = Some b"
  shows "br_started b = br_eventsForwarded b + br_failed b + length (br_pending b)"
    and "br_eventsReceived b = length (br_emitted b)"
proof -
  have "counted b'" if "counted b0" "run_bridge cfg acts b0 = Some b'" for b0 b'
    using that by (induction acts arbitrary: b0) (auto split: Option.bind_splits intro: bridge_next_counted)
  from this [OF _ assms] have "counted b" by (simp add: counted_def new_bridge_def)
  then show "br_started b = br_eventsForwarded b + br_failed b + length (br_pending b)"
    and "br_eventsReceived b = length (br_emitted b)" by (simp_all add: counted_def)
qed

definition everything :: bridge_config where
  "everything = \<lparr>bc_forwardEvents = None, bc_forwardPattern = Some ''*'', bc_targetOrbital = Some ''Shop''\<rparr>"

definition echo_trace :: "bridge_step list" where
  "echo_trace = [Connect, BusEvent ''ORDER'' None, BusEvent ''UI:CLICK'' None, OrbitalAnswered 0 (Inr [(''DONE'', None)]), ForwardDone 0,
     OrbitalAnswered 0 (Inl ''down'')]"

theorem bridge_counts_witness:
  "\<exists>b. run_bridge everything echo_trace new_bridge = Some b \<and> br_started b = 2 \<and> br_eventsReceived b = 1
     \<and> br_eventsForwarded b + br_failed b = 2"
proof -
  have run: "map_option (\<lambda>b. (br_started b, br_pending b, br_emitted b)) (run_bridge everything echo_trace new_bridge)
      = Some (2, [], [(''SERVER:DONE'', None)])"
    by code_simp
  then obtain b where b: "run_bridge everything echo_trace new_bridge = Some b" by auto
  from bridge_counts [OF b] run b show ?thesis by (intro exI [of _ b]) (auto simp: b)
qed

section \<open>The echo\<close>

text \<open>
  Forwarding everything, the bridge forwards the events it emits itself: the filter leaves out \<open>UI:\<close> and
  \<open>BRIDGE:\<close> but not \<open>SERVER:\<close>. With a server that answers every event with one, it never comes to rest.
\<close>

lemma everything_hears_itself:
  assumes "br_subs b = setupEventForwarding cfg" "bc_forwardEvents cfg = None" "bc_forwardPattern cfg = Some ''*''"
  shows "hearing b (''SERVER:'' @ ev) = 1"
  using assms by (simp add: hearing_def setupEventForwarding_def heard_def starts_with_def)

definition answered_well :: "bridge_step \<Rightarrow> bool" where
  "answered_well a \<longleftrightarrow> (case a of
       OrbitalAnswered _ (Inr (_ # _)) \<Rightarrow> True
     | OrbitalsListed _ (Inr (_ # _)) \<Rightarrow> True
     | ForwardDone _ \<Rightarrow> True
     | BusEvent _ _ \<Rightarrow> True
     | SocketMessage _ \<Rightarrow> True
     | _ \<Rightarrow> False)"

definition unfinished :: "forward \<Rightarrow> bool" where
  "unfinished f \<longleftrightarrow> (case f of Sending _ _ [] \<Rightarrow> False | _ \<Rightarrow> True)"

lemma new_forward_unfinished [simp]: "unfinished (new_forward cfg ty p)"
  by (simp add: new_forward_def unfinished_def split: option.split)

lemma remove_at_keeps: "f \<in> set xs \<Longrightarrow> xs ! i \<noteq> f \<Longrightarrow> i < length xs \<Longrightarrow> f \<in> set (remove_at i xs)"
  by (subst (asm) id_take_nth_drop [of i xs]) (auto simp: remove_at_def)

lemma update_keeps: "f \<in> set xs \<Longrightarrow> xs ! i \<noteq> f \<Longrightarrow> f \<in> set (xs[i := g])"
  by (metis in_set_conv_nth length_list_update nth_list_update_neq)

lemma never_rests_step:
  assumes pattern: "bc_forwardEvents cfg = None" "bc_forwardPattern cfg = Some ''*''"
    and subs: "br_subs b = setupEventForwarding cfg"
    and busy: "f \<in> set (br_pending b)" "unfinished f" and well: "answered_well a" and run: "bridge_next cfg a b = Some b'"
  shows "br_subs b' = setupEventForwarding cfg \<and> (\<exists>f\<in>set (br_pending b'). unfinished f)"
proof (cases a)
  case (OrbitalAnswered i answer)
  then obtain e es ty p orb orbs where answer: "answer = Inr (e # es)" and i: "i < length (br_pending b)" "br_pending b ! i = Sending ty p (orb # orbs)"
    using run well by (auto simp: orbital_answered_def answered_well_def split: if_splits forward.splits list.splits sum.splits)
  let ?b = "b\<lparr>br_pending := (br_pending b)[i := Sending ty p orbs]\<rparr>"
  have b': "b' = fold (emit_received cfg) es (emit_received cfg e ?b)"
    using OrbitalAnswered run answer i by (simp add: orbital_answered_def)
  obtain new where new: "br_pending b' = br_pending (emit_received cfg e ?b) @ new" using emits_pending b' by blast
  have "hearing ?b (''SERVER:'' @ fst e) = 1"
    by (rule everything_hears_itself) (use subs pattern in simp_all)
  then have "new_forward cfg (''SERVER:'' @ fst e) (snd e) \<in> set (br_pending b')" using new by (simp add: emit_received_eq)
  moreover have "br_subs b' = br_subs b" using b' by (simp add: emits_fields emit_received_eq)
  ultimately show ?thesis using subs by (intro conjI bexI [of _ "new_forward cfg (''SERVER:'' @ fst e) (snd e)"]) simp_all
next
  case (OrbitalsListed i answer)
  then obtain n ns ty p where answer: "answer = Inr (n # ns)" and i: "i < length (br_pending b)" "br_pending b ! i = Listing ty p"
    using run well by (auto simp: orbitals_listed_def answered_well_def split: if_splits forward.splits list.splits sum.splits)
  then have "b' = b\<lparr>br_pending := (br_pending b)[i := Sending ty p (n # ns)]\<rparr>"
    using OrbitalsListed run by (simp add: orbitals_listed_def)
  moreover have "unfinished (Sending ty p (n # ns))" by (simp add: unfinished_def)
  ultimately show ?thesis using subs set_update_memI [OF i(1)] by auto
next
  case (ForwardDone i)
  then obtain ty p where i: "i < length (br_pending b)" "br_pending b ! i = Sending ty p []"
    and b': "b' = b\<lparr>br_pending := remove_at i (br_pending b), br_eventsForwarded := br_eventsForwarded b + 1\<rparr>"
    using run by (auto simp: forward_done_def split: if_splits forward.splits list.splits)
  have "br_pending b ! i \<noteq> f" using i(2) busy(2) by (auto simp: unfinished_def)
  then show ?thesis using remove_at_keeps [OF busy(1) _ i(1)] b' busy(2) subs by auto
next
  case (BusEvent ty p)
  then show ?thesis using run busy subs by (auto simp: bus_event_eq)
next
  case (SocketMessage data)
  then show ?thesis using run busy subs by (auto simp: socket_message_def emit_received_eq split: option.splits)
qed (use well in \<open>simp_all add: answered_well_def\<close>)

text \<open>
  C40: A bridge that forwards everything and one event under way never comes to rest while the server
  answers each forward with an event: it hears the \<open>SERVER:\<close> events it emits, although its listener is
  said to keep internal events back, and forwards them again, in every order of the answers.
\<close>
theorem forwarding_everything_never_rests:
  assumes "bc_forwardEvents cfg = None" "bc_forwardPattern cfg = Some ''*''" "br_subs b = setupEventForwarding cfg"
    "f \<in> set (br_pending b)" "unfinished f" "list_all answered_well acts" "run_bridge cfg acts b = Some b'"
  shows "\<exists>f\<in>set (br_pending b'). unfinished f"
  using assms(3-)
proof (induction acts arbitrary: b f)
  case (Cons a acts)
  then obtain r where r: "bridge_next cfg a b = Some r" "run_bridge cfg acts r = Some b'" by (auto split: Option.bind_splits)
  from never_rests_step [OF assms(1,2) Cons.prems(1,2,3) _ r(1)] Cons.prems(4)
  obtain g where "br_subs r = setupEventForwarding cfg" "g \<in> set (br_pending r)" "unfinished g" by auto
  then show ?case using Cons.IH Cons.prems(4) r(2) by auto
qed auto

definition one_order :: bridge where
  "one_order = the (run_bridge everything [Connect, BusEvent ''ORDER'' None] new_bridge)"

theorem forwarding_everything_never_rests_witness:
  "map_option (\<lambda>b. list_ex unfinished (br_pending b))
     (run_bridge everything [OrbitalAnswered 0 (Inr [(''DONE'', None)]), ForwardDone 0, OrbitalAnswered 0 (Inr [(''DONE'', None)])] one_order)
   = Some True"
proof -
  let ?acts = "[OrbitalAnswered 0 (Inr [(''DONE'', None)]), ForwardDone 0, OrbitalAnswered 0 (Inr [(''DONE'', None)])]"
  have "run_bridge everything ?acts one_order \<noteq> None" by code_simp
  then obtain b' where run: "run_bridge everything ?acts one_order = Some b'" by auto
  have subs: "br_subs one_order = setupEventForwarding everything"
    by (simp add: one_order_def connect_def bus_event_eq new_bridge_def)
  have busy: "br_pending one_order = [Sending ''ORDER'' None [''Shop'']]" by code_simp
  have "\<exists>f\<in>set (br_pending b'). unfinished f"
    by (rule forwarding_everything_never_rests [OF _ _ subs, of "Sending ''ORDER'' None [''Shop'']" ?acts])
      (use busy run in \<open>simp_all add: everything_def answered_well_def unfinished_def\<close>)
  then show ?thesis using run by (simp add: list_ex_iff)
qed

end
