(* ===== verification/UiHelpers.thy ===== *)
theory UiHelpers
  imports Json
begin

text \<open>
  The helpers a renderer shares (\<open>ui/\<close>): which traits a layout embeds, what a slot with several writers
  shows, who owns a trait, which record it is linked to, the callbacks, the event log of the verifiers.
\<close>

section \<open>Embedded traits (embedded-traits.ts)\<close>

definition TRAIT_BINDING_PREFIX :: string where
  "TRAIT_BINDING_PREFIX = ''@trait.''"

definition trait_ref :: "string \<Rightarrow> string list" where
  "trait_ref s =
     (if starts_with TRAIT_BINDING_PREFIX s
      then let traitName = takeWhile (\<lambda>c. c \<noteq> CHR ''.'') (drop (length TRAIT_BINDING_PREFIX) s)
           in if traitName \<noteq> [] then [traitName] else []
      else [])"

text \<open>The names in the order the walk adds them; adding to the set is \<open>fold set_add\<close>.\<close>

function value_refs :: "jval \<Rightarrow> string list" where
  "value_refs (JStr s) = trait_ref s"
| "value_refs (JArr xs) = concat (map value_refs xs)"
| "value_refs (JObj kvs) = concat (map value_refs (map snd kvs))"
| "value_refs JNull = []"
| "value_refs (JBool b) = []"
| "value_refs (JNum n) = []"
  by pat_completeness auto
termination
  by (relation "measure size") (use size_values_of [of _ "JArr _"] size_values_of [of _ "JObj _"] in \<open>fastforce simp: image_iff\<close>)+

definition collectTraitRefsFromValue :: "jval \<Rightarrow> string list \<Rightarrow> string list" where
  "collectTraitRefsFromValue v into = fold set_add (value_refs v) into"

function effect_refs :: "jval \<Rightarrow> string list" where
  "effect_refs (JArr (h # args)) =
     (if h = JStr ''render-ui'' \<and> 2 \<le> length args then value_refs (args ! 1)
      else concat (map (\<lambda>arg. if isArr arg then effect_refs arg else value_refs arg) args))"
| "effect_refs (JArr []) = []"
| "effect_refs (JStr s) = []"
| "effect_refs (JObj kvs) = []"
| "effect_refs JNull = []"
| "effect_refs (JBool b) = []"
| "effect_refs (JNum n) = []"
  by pat_completeness auto
termination
  by (relation "measure size") (use size_values_of [of _ "JArr (_ # _)"] in fastforce)+

definition effects_refs :: "jval list option \<Rightarrow> string list" where
  "effects_refs effects = (case effects of None \<Rightarrow> [] | Some es \<Rightarrow> concat (map effect_refs es))"

definition collectTraitRefsFromEffects :: "jval list option \<Rightarrow> string list \<Rightarrow> string list" where
  "collectTraitRefsFromEffects effects into = fold set_add (effects_refs effects) into"

text \<open>A trait as the walk sees it: its config, the effects of its transitions (if it has a state machine),
  of its start and of its ticks.\<close>

record ui_trait =
  ut_config :: "jval option"
  ut_transitions :: "jval list option list option"
  ut_initialEffects :: "jval list option"
  ut_ticks :: "jval list option list option"

datatype ui_ref = UiName string | UiRef ui_trait "ui_trait option"

definition collectTraitRefsFromResolvedTrait :: "jval list option list \<Rightarrow> jval list option list \<Rightarrow> jval option list \<Rightarrow> string list" where
  "collectTraitRefsFromResolvedTrait transitions ticks defaults =
     fold (\<lambda>d out. case d of Some v \<Rightarrow> collectTraitRefsFromValue v out | None \<Rightarrow> out) defaults
       (fold collectTraitRefsFromEffects ticks (fold collectTraitRefsFromEffects transitions []))"

definition or_value :: "jval option \<Rightarrow> string list \<Rightarrow> string list" where
  "or_value config out = (case config of Some c \<Rightarrow> collectTraitRefsFromValue c out | None \<Rightarrow> out)"

definition collect_ref :: "ui_ref \<Rightarrow> string list \<Rightarrow> string list" where
  "collect_ref r out =
     (case r of
        UiName _ \<Rightarrow> out
      | UiRef own resolved \<Rightarrow>
          let target = (case resolved of Some t \<Rightarrow> t | None \<Rightarrow> own);
              out1 = or_value (ut_config target) (or_value (ut_config own) out)
          in case ut_transitions target of
              None \<Rightarrow> out1
            | Some ts \<Rightarrow>
                let out2 = collectTraitRefsFromEffects (ut_initialEffects target) (fold collectTraitRefsFromEffects ts out1)
                in case ut_ticks target of Some ks \<Rightarrow> fold collectTraitRefsFromEffects ks out2 | None \<Rightarrow> out2)"

definition collectEmbeddedTraits :: "ui_ref list option list \<Rightarrow> string list" where
  "collectEmbeddedTraits orbitals =
     fold (\<lambda>traits out. case traits of Some refs \<Rightarrow> fold collect_ref refs out | None \<Rightarrow> out) orbitals []"

subsection \<open>What is collected\<close>

inductive occurs_in :: "string \<Rightarrow> jval \<Rightarrow> bool" where
  self: "occurs_in s (JStr s)"
| arr: "occurs_in s v \<Longrightarrow> v \<in> set xs \<Longrightarrow> occurs_in s (JArr xs)"
| obj: "occurs_in s v \<Longrightarrow> (k, v) \<in> set kvs \<Longrightarrow> occurs_in s (JObj kvs)"

inductive_simps occurs_in_simps:
  "occurs_in s (JStr t)" "occurs_in s (JArr xs)" "occurs_in s (JObj kvs)" "occurs_in s JNull" "occurs_in s (JBool b)" "occurs_in s (JNum n)"

lemma trait_ref_iff:
  "t \<in> set (trait_ref s) \<longleftrightarrow> t \<noteq> [] \<and> CHR ''.'' \<notin> set t \<and> (s = TRAIT_BINDING_PREFIX @ t \<or> starts_with (TRAIT_BINDING_PREFIX @ t @ ''.'') s)"
proof
  assume "t \<in> set (trait_ref s)"
  then obtain r where r: "s = TRAIT_BINDING_PREFIX @ r" "t = takeWhile (\<lambda>c. c \<noteq> CHR ''.'') r" "t \<noteq> []"
    by (auto simp: trait_ref_def Let_def starts_with_iff split: if_splits)
  have "CHR ''.'' \<notin> set t" using r(2) by (auto dest: set_takeWhileD)
  moreover have "r = t \<or> starts_with (t @ ''.'') r"
  proof (cases "dropWhile (\<lambda>c. c \<noteq> CHR ''.'') r")
    case Nil
    then show ?thesis using r(2) by (metis append_Nil2 takeWhile_dropWhile_id)
  next
    case (Cons c cs)
    then have "c = CHR ''.''" by (metis (full_types) dropWhile_eq_Cons_conv)
    then have "r = t @ ''.'' @ cs" using Cons r(2) by (metis append_Cons append_Nil takeWhile_dropWhile_id)
    then show ?thesis by (auto simp: starts_with_iff)
  qed
  ultimately show "t \<noteq> [] \<and> CHR ''.'' \<notin> set t \<and> (s = TRAIT_BINDING_PREFIX @ t \<or> starts_with (TRAIT_BINDING_PREFIX @ t @ ''.'') s)"
    using r(1,3) by (auto simp: starts_with_iff)
next
  assume t: "t \<noteq> [] \<and> CHR ''.'' \<notin> set t \<and> (s = TRAIT_BINDING_PREFIX @ t \<or> starts_with (TRAIT_BINDING_PREFIX @ t @ ''.'') s)"
  then have "takeWhile (\<lambda>c. c \<noteq> CHR ''.'') (t @ r) = t" if "r = [] \<or> hd r = CHR ''.''" for r
    using that t by (cases r) ((subst takeWhile_append2; force)+)
  from this [of "[]"] this [of "CHR ''.'' # _"] have stop: "takeWhile (\<lambda>c. c \<noteq> CHR ''.'') t = t"
    "takeWhile (\<lambda>c. c \<noteq> CHR ''.'') (t @ CHR ''.'' # r) = t" for r
    by simp_all
  consider "s = TRAIT_BINDING_PREFIX @ t" | r where "s = TRAIT_BINDING_PREFIX @ t @ CHR ''.'' # r"
    using t by (auto simp: starts_with_iff)
  then show "t \<in> set (trait_ref s)"
    by cases (use t in \<open>simp_all add: trait_ref_def Let_def stop\<close>)
qed

lemma value_refs_occurs: "t \<in> set (value_refs v) \<longleftrightarrow> (\<exists>s. occurs_in s v \<and> t \<in> set (trait_ref s))"
  by (induction v rule: value_refs.induct) (fastforce simp: occurs_in_simps image_iff)+

lemma set_fold_add: "set (fold set_add xs out) = set out \<union> set xs"
  by (induction xs arbitrary: out) auto

lemma set_collect_value [simp]: "set (collectTraitRefsFromValue v out) = set out \<union> set (value_refs v)"
  by (simp add: collectTraitRefsFromValue_def set_fold_add)

lemma set_collect_effects [simp]: "set (collectTraitRefsFromEffects es out) = set out \<union> set (effects_refs es)"
  by (simp add: collectTraitRefsFromEffects_def set_fold_add)

lemma set_fold_effects [simp]: "set (fold collectTraitRefsFromEffects ess out) = set out \<union> (\<Union>es\<in>set ess. set (effects_refs es))"
  by (induction ess arbitrary: out) auto

text \<open>
  The traits without a state machine are left early: what their start and their ticks render is not seen.
\<close>

definition config_refs :: "ui_trait \<Rightarrow> string set" where
  "config_refs t = (case ut_config t of Some c \<Rightarrow> set (value_refs c) | None \<Rightarrow> {})"

definition body_refs :: "ui_trait \<Rightarrow> string set" where
  "body_refs t =
     (case ut_transitions t of
        None \<Rightarrow> {}
      | Some ts \<Rightarrow> (\<Union>es\<in>set ts. set (effects_refs es)) \<union> set (effects_refs (ut_initialEffects t))
          \<union> (\<Union>es\<in>set (case ut_ticks t of Some ks \<Rightarrow> ks | None \<Rightarrow> []). set (effects_refs es)))"

definition embeds :: "ui_ref \<Rightarrow> string set" where
  "embeds r =
     (case r of
        UiName _ \<Rightarrow> {}
      | UiRef own resolved \<Rightarrow>
          let target = (case resolved of Some t \<Rightarrow> t | None \<Rightarrow> own)
          in config_refs own \<union> config_refs target \<union> body_refs target)"

lemma set_collect_ref: "set (collect_ref r out) = set out \<union> embeds r"
  by (cases r) (auto simp: collect_ref_def embeds_def config_refs_def body_refs_def or_value_def Let_def split: option.splits)

lemma embedded_facts:
  "set (collectEmbeddedTraits orbitals) = (\<Union>refs\<in>set orbitals. \<Union>r\<in>set (case refs of Some rs \<Rightarrow> rs | None \<Rightarrow> []). embeds r)"
  "distinct (collectEmbeddedTraits orbitals)"
proof -
  have refs: "set (fold collect_ref rs out) = set out \<union> (\<Union>r\<in>set rs. embeds r)" for rs out
    by (induction rs arbitrary: out) (auto simp: set_collect_ref)
  have "set (fold (\<lambda>traits out. case traits of Some refs \<Rightarrow> fold collect_ref refs out | None \<Rightarrow> out) orbitals out)
      = set out \<union> (\<Union>refs\<in>set orbitals. \<Union>r\<in>set (case refs of Some rs \<Rightarrow> rs | None \<Rightarrow> []). embeds r)" for out
    by (induction orbitals arbitrary: out) (auto simp: refs split: option.split)
  then show "set (collectEmbeddedTraits orbitals) = (\<Union>refs\<in>set orbitals. \<Union>r\<in>set (case refs of Some rs \<Rightarrow> rs | None \<Rightarrow> []). embeds r)"
    by (simp add: collectEmbeddedTraits_def)
  have keep: "distinct (fold f xs out)" if "distinct out" "\<And>x out. distinct out \<Longrightarrow> distinct (f x out)" for f :: "'x \<Rightarrow> string list \<Rightarrow> string list" and xs out
    using that by (induction xs arbitrary: out) auto
  have "distinct (collect_ref r out)" if "distinct out" for r out
    using that by (cases r) (auto simp: collect_ref_def or_value_def collectTraitRefsFromValue_def collectTraitRefsFromEffects_def Let_def
        intro!: keep split: option.split)
  then show "distinct (collectEmbeddedTraits orbitals)"
    by (auto simp: collectEmbeddedTraits_def intro!: keep split: option.split)
qed

text \<open>
  A trait is in the embedded set exactly when some trait of some orbital names it: in its own config at
  the call site, or in the config or, for a trait with transitions, in the effects of the trait it resolves
  to; nothing is listed twice.
\<close>
theorem embedded_iff_named:
  "set (collectEmbeddedTraits orbitals) = (\<Union>refs\<in>set orbitals. \<Union>r\<in>set (case refs of Some rs \<Rightarrow> rs | None \<Rightarrow> []). embeds r)
   \<and> distinct (collectEmbeddedTraits orbitals)"
  using embedded_facts by blast

text \<open>
  So a trait that has no state machine but ticks which render is not taken for one that embeds.
\<close>

lemma ticks_without_machine_are_missed:
  "collectEmbeddedTraits [Some [UiRef \<lparr>ut_config = None, ut_transitions = None, ut_initialEffects = None,
     ut_ticks = Some [Some [JArr [JStr ''render-ui'', JStr ''main'', JStr ''@trait.Clock'']]]\<rparr> None]] = []
   \<and> collectEmbeddedTraits [Some [UiRef \<lparr>ut_config = None, ut_transitions = Some [], ut_initialEffects = None,
     ut_ticks = Some [Some [JArr [JStr ''render-ui'', JStr ''main'', JStr ''@trait.Clock'']]]\<rparr> None]] = [''Clock'']"
  by code_simp

section \<open>Slots (slots.ts)\<close>

record slot_content =
  so_slot :: string
  so_pattern :: "jobj option" \<comment> \<open>\<open>null\<close> clears the slot\<close>
  so_props :: "jobj option"
  so_source :: "jobj option"

definition slot_child :: "slot_content \<Rightarrow> jval" where
  "slot_child c =
     JObj (spread [(''type'', case Option.bind (so_pattern c) (\<lambda>p. obj_get p ''type'') of
         None \<Rightarrow> JStr ''box'' | Some JNull \<Rightarrow> JStr ''box'' | Some ty \<Rightarrow> ty)]
       (case so_props c of Some ps \<Rightarrow> ps | None \<Rightarrow> []))"

definition aggregateSlotContent :: "string \<Rightarrow> (string \<times> slot_content) list \<Rightarrow> slot_content option" where
  "aggregateSlotContent slot sources =
     (case map snd sources of
        [] \<Rightarrow> None
      | [c] \<Rightarrow> Some c
      | c # cs \<Rightarrow>
          let children = JArr (map slot_child (c # cs));
              layout = [(''direction'', JStr ''vertical''), (''gap'', JStr ''lg''), (''children'', children)]
          in Some \<lparr>so_slot = slot, so_pattern = Some ((''type'', JStr ''stack'') # layout), so_props = Some layout, so_source = so_source c\<rparr>)"

definition hasFunctionMethods :: "string \<Rightarrow> (string \<Rightarrow> bool) \<Rightarrow> string list \<Rightarrow> string + unit" where
  "hasFunctionMethods label isFunction methods =
     (case find (\<lambda>m. \<not> isFunction m) methods of
        Some m \<Rightarrow> Inl (label @ ''.'' @ m @ '' must be a function'')
      | None \<Rightarrow> Inr ())"

definition SLOT_MANAGER_METHODS :: "string list" where
  "SLOT_MANAGER_METHODS = [''getContent'', ''setContent'', ''clearSlot'', ''getAllSlots'', ''subscribe'']"

text \<open>A value to check: \<open>None\<close> when it is no object, else which of its members are functions.\<close>

definition assertIsSlotManager :: "(string \<Rightarrow> bool) option \<Rightarrow> string + unit" where
  "assertIsSlotManager v =
     (case v of None \<Rightarrow> Inl ''SlotManager must be a non-null object''
      | Some isFunction \<Rightarrow> hasFunctionMethods ''SlotManager'' isFunction SLOT_MANAGER_METHODS)"

definition assertIsMultiSourceSlotManager :: "(string \<Rightarrow> bool) option \<Rightarrow> string + unit" where
  "assertIsMultiSourceSlotManager v =
     (case v of None \<Rightarrow> Inl ''MultiSourceSlotManager must be a non-null object''
      | Some isFunction \<Rightarrow> rbind (hasFunctionMethods ''SlotManager'' isFunction SLOT_MANAGER_METHODS)
          (\<lambda>_. hasFunctionMethods ''MultiSourceSlotManager'' isFunction [''getTraitContent'', ''subscribeTrait'', ''updateTraitContent'']))"

definition validateSlotContent :: "jobj \<Rightarrow> (string \<times> string) list" where
  "validateSlotContent content =
     (if obj_get content ''slot'' \<in> {None, Some JNull} then [(''SlotContent.slot is required'', ''slot'')] else [])
     @ (if obj_get content ''pattern'' = None then [(''SlotContent.pattern is required'', ''pattern'')] else [])"

lemma hasFunctionMethods_iff: "hasFunctionMethods label f ms = Inr () \<longleftrightarrow> list_all f ms"
  proof (cases "find (\<lambda>m. \<not> f m) ms")
  case None
  then have "hasFunctionMethods label f ms = Inr ()" by (simp add: hasFunctionMethods_def)
  moreover have "list_all f ms" using None by (simp add: find_None_iff list_all_iff)
  ultimately show ?thesis by simp
next
  case (Some m)
  then show ?thesis using find_Some_set [OF Some] by (auto simp: hasFunctionMethods_def list_all_iff)
qed

lemma multi_source_is_manager: "assertIsMultiSourceSlotManager v = Inr () \<Longrightarrow> assertIsSlotManager v = Inr ()"
  by (cases v) (auto simp: assertIsMultiSourceSlotManager_def assertIsSlotManager_def rbind_eq_Inr)

text \<open>
  With several writers only the type of a pattern and the props get into the stack: the rest of a
  pattern's config, which the comment says becomes the child, makes no difference, and a cleared slot is
  still a child, a box.
\<close>

lemma stack_drops_pattern_config:
  assumes "2 \<le> length sources"
    "list_all2 (\<lambda>c c'. so_props c = so_props c' \<and> so_source c = so_source c' \<and>
       Option.bind (so_pattern c) (\<lambda>p. obj_get p ''type'') = Option.bind (so_pattern c') (\<lambda>p. obj_get p ''type'')) (map snd sources) (map snd sources')"
  shows "aggregateSlotContent slot sources' = aggregateSlotContent slot sources"
proof -
  obtain c d cs where cs: "map snd sources = c # d # cs" using assms(1) by (cases sources; cases "tl sources") auto
  obtain c' d' cs' where cs': "map snd sources' = c' # d' # cs'" using assms(2) cs by (auto simp: list_all2_Cons1)
  have "slot_child x = slot_child y" if "so_props x = so_props y"
      "Option.bind (so_pattern x) (\<lambda>p. obj_get p ''type'') = Option.bind (so_pattern y) (\<lambda>p. obj_get p ''type'')" for x y
    using that by (simp add: slot_child_def)
  then have "list_all2 (\<lambda>x y. slot_child x = slot_child y) (map snd sources) (map snd sources')"
    by (intro list_all2_mono [OF assms(2)]) blast
  then have "map slot_child (map snd sources) = map slot_child (map snd sources')"
    by (simp add: list_all2_conv_all_nth list_eq_iff_nth_eq)
  then show ?thesis using assms(2) cs cs' by (simp add: aggregateSlotContent_def Let_def)
qed

section \<open>Owners of traits (orbitalsByTrait.ts)\<close>

datatype trait_decl = DeclName string | DeclRef string "string option" | DeclInline string | DeclOther

definition last_part :: "string \<Rightarrow> string" where
  "last_part s = last (split_on (CHR ''.'') s)"

definition decl_name :: "trait_decl \<Rightarrow> string option" where
  "decl_name d =
     (case d of
        DeclName s \<Rightarrow> Some (last_part s)
      | DeclRef r n \<Rightarrow> Some (case n of Some m \<Rightarrow> m | None \<Rightarrow> last_part r)
      | DeclInline n \<Rightarrow> Some n
      | DeclOther \<Rightarrow> None)"

record owned_orbital =
  ow_name :: string
  ow_traits :: "trait_decl list"
  ow_pages :: "string option list"

definition set_named :: "string \<Rightarrow> string option \<Rightarrow> (string \<times> string) list \<Rightarrow> (string \<times> string) list" where
  "set_named owner n m = (case n of Some k \<Rightarrow> if k \<noteq> [] then AList.update k owner m else m | None \<Rightarrow> m)"

definition source_owners :: "owned_orbital list \<Rightarrow> (string \<times> string) list" where
  "source_owners orbs = fold (\<lambda>orb m. fold (\<lambda>d. set_named (ow_name orb) (decl_name d)) (ow_traits orb) m) orbs []"

definition page_owners :: "owned_orbital list \<Rightarrow> (string \<times> string) list" where
  "page_owners orbs = fold (\<lambda>orb m. fold (set_named (ow_name orb)) (ow_pages orb) m) orbs []"

definition backfill :: "string \<Rightarrow> string \<Rightarrow> (string \<times> string) list \<Rightarrow> (string \<times> string) list" where
  "backfill orbital traitName m = (if traitName \<noteq> [] \<and> map_of m traitName = None then AList.update traitName orbital m else m)"

definition buildOrbitalsByTrait :: "owned_orbital list option \<Rightarrow> (string option \<times> string list) list \<Rightarrow> (string \<times> string) list" where
  "buildOrbitalsByTrait schema resolvedPages =
     (case schema of
        None \<Rightarrow> []
      | Some orbs \<Rightarrow> fold (\<lambda>(path, traitNames) m.
          case Option.bind path (\<lambda>p. if p \<noteq> [] then map_of (page_owners orbs) p else None) of
            Some orbital \<Rightarrow> if orbital \<noteq> [] then fold (backfill orbital) traitNames m else m
          | None \<Rightarrow> m) resolvedPages (source_owners orbs))"

lemma backfill_keeps: "map_of m t = Some owner \<Longrightarrow> map_of (fold (backfill orb) ts m) t = Some owner"
proof (induction ts arbitrary: m)
  case (Cons u ts)
  have "map_of (backfill orb u m) t = Some owner" using Cons.prems by (auto simp: backfill_def)
  from Cons.IH [OF this] show ?case by simp
qed simp

text \<open>Source-declared owners win over those of the resolved pages, whatever those say.\<close>

lemma source_owner_wins:
  assumes "map_of (source_owners orbs) t = Some owner"
  shows "map_of (buildOrbitalsByTrait (Some orbs) pages) t = Some owner"
proof -
  have "map_of (fold (\<lambda>(path, traitNames) m.
          case Option.bind path (\<lambda>p. if p \<noteq> [] then map_of (page_owners orbs) p else None) of
            Some orbital \<Rightarrow> if orbital \<noteq> [] then fold (backfill orbital) traitNames m else m
          | None \<Rightarrow> m) pages m) t = Some owner" if "map_of m t = Some owner" for m
    using that by (induction pages arbitrary: m) (auto simp: backfill_keeps split: option.split)
  from this [OF assms] show ?thesis by (simp add: buildOrbitalsByTrait_def)
qed

section \<open>Linked records (traitLinkedEntities.ts)\<close>

definition link_binding :: "string \<times> string option \<Rightarrow> (string \<times> string) list \<Rightarrow> (string \<times> string) list" where
  "link_binding b m = (case snd b of Some e \<Rightarrow> if e \<noteq> [] then AList.update (fst b) e m else m | None \<Rightarrow> m)"

definition link_trait :: "string \<times> string option \<Rightarrow> (string \<times> string) list \<Rightarrow> (string \<times> string) list" where
  "link_trait t m = (if map_of m (fst t) = None then link_binding t m else m)"

definition buildTraitLinkedEntities :: "(string \<times> string option) list list \<Rightarrow> (string \<times> string option) list \<Rightarrow> (string \<times> string) list" where
  "buildTraitLinkedEntities pages traits = fold link_trait traits (fold (\<lambda>bindings. fold link_binding bindings) pages [])"

lemma link_trait_keeps: "map_of m n = Some e \<Longrightarrow> map_of (fold link_trait ts m) n = Some e"
proof (induction ts arbitrary: m)
  case (Cons t ts)
  have "map_of (link_trait t m) n = Some e"
    using Cons.prems by (auto simp: link_trait_def link_binding_def split: option.split)
  from Cons.IH [OF this] show ?case by simp
qed simp

lemma page_binding_wins:
  assumes "map_of (fold (\<lambda>bindings. fold link_binding bindings) pages []) n = Some e"
  shows "map_of (buildTraitLinkedEntities pages traits) n = Some e"
  unfolding buildTraitLinkedEntities_def by (rule link_trait_keeps [OF assms])

section \<open>Callbacks (wrapCallbackForEvent.ts)\<close>

text \<open>The payload of a callback; an argument that was not given is \<open>undefined\<close>.\<close>

definition wrapCallbackForEvent :: "string list \<Rightarrow> jval list \<Rightarrow> (string \<times> jval option) list option" where
  "wrapCallbackForEvent argNames args =
     (if argNames = [] then None
      else Some (fold (\<lambda>i. AList.update (argNames ! i) (if i < length args then Some (args ! i) else None)) [0..<length argNames] []))"

section \<open>The event log of the verifiers (verification.ts)\<close>

definition MAX_EVENT_LOG :: nat where
  "MAX_EVENT_LOG = 200"

definition sent_event :: "string \<Rightarrow> string option \<Rightarrow> string" where
  "sent_event ev traitScope =
     (if starts_with ''UI:'' ev then ev
      else case traitScope of
          Some sc \<Rightarrow> if sc \<noteq> [] then ''UI:'' @ sc @ ''.'' @ ev else ''UI:'' @ ev
        | None \<Rightarrow> ''UI:'' @ ev)"

definition log_event :: "'e \<Rightarrow> 'e list \<Rightarrow> 'e list" where
  "log_event e entries = (if length entries < MAX_EVENT_LOG then entries @ [e] else entries)"

lemma sent_event_prefixed: "starts_with ''UI:'' (sent_event ev traitScope)"
  by (auto simp: sent_event_def starts_with_def split: option.split)

text \<open>The log that is documented as rolling holds the first 200 events after it was cleared, not the last.\<close>

lemma log_keeps_first: "fold log_event es [] = take MAX_EVENT_LOG es"
proof -
  have "fold log_event es entries = take MAX_EVENT_LOG (entries @ es)" if "length entries \<le> MAX_EVENT_LOG" for entries
    using that
  proof (induction es arbitrary: entries)
    case (Cons e es)
    from Cons.IH [of "log_event e entries"] Cons.prems show ?case
      by (cases "length entries < MAX_EVENT_LOG") (auto simp: log_event_def take_Cons' Suc_diff_Suc)
  qed simp
  from this [of "[]"] show ?thesis by simp
qed

end
