(* ===== verification/PerfRing.thy ===== *)
theory PerfRing
  imports Complex_Main Prelude
begin

text \<open>
  The timing ring and the phase buckets of \<open>ui/perf.ts\<close>. The clock, the log's level and the probe switch
  are arguments; numbers are rationals.
\<close>

section \<open>The ring\<close>

record perf_entry =
  pe_name :: string
  pe_durationMs :: rat
  pe_ts :: rat
  pe_detail :: "(string \<times> string) list option"

record perf_store =
  pr_ring :: "perf_entry list"
  pr_writeIdx :: nat
  pr_notifyScheduled :: bool
  pr_revision :: nat
  pr_cachedSnapshot :: "perf_entry list"
  pr_cachedRevision :: "nat option"

definition RING_SIZE :: nat where
  "RING_SIZE = 50"

definition new_store :: perf_store where
  "new_store = \<lparr>pr_ring = [], pr_writeIdx = 0, pr_notifyScheduled = False, pr_revision = 0,
     pr_cachedSnapshot = [], pr_cachedRevision = None\<rparr>"

definition scheduleNotify :: "perf_store \<Rightarrow> perf_store" where
  "scheduleNotify s = s\<lparr>pr_notifyScheduled := True\<rparr>"

text \<open>The microtask: nothing but the revision changes before the subscribers are called.\<close>

definition run_notify :: "perf_store \<Rightarrow> perf_store" where
  "run_notify s = (if pr_notifyScheduled s then s\<lparr>pr_notifyScheduled := False, pr_revision := pr_revision s + 1\<rparr> else s)"

definition push_entry :: "perf_entry \<Rightarrow> perf_store \<Rightarrow> perf_store" where
  "push_entry e s =
     scheduleNotify (s\<lparr>pr_ring := (if length (pr_ring s) < RING_SIZE then pr_ring s @ [e] else (pr_ring s)[pr_writeIdx s := e]),
       pr_writeIdx := (pr_writeIdx s + 1) mod RING_SIZE\<rparr>)"

definition clearPerf :: "perf_store \<Rightarrow> perf_store" where
  "clearPerf s = scheduleNotify (s\<lparr>pr_ring := [], pr_writeIdx := 0\<rparr>)"

definition getPerfSnapshot :: "perf_store \<Rightarrow> perf_entry list" where
  "getPerfSnapshot s =
     (if length (pr_ring s) < RING_SIZE then pr_ring s
      else drop (pr_writeIdx s) (pr_ring s) @ take (pr_writeIdx s) (pr_ring s))"

definition getSnapshot :: "perf_store \<Rightarrow> perf_entry list \<times> perf_store" where
  "getSnapshot s =
     (let s1 = (if pr_cachedRevision s \<noteq> Some (pr_revision s)
          then s\<lparr>pr_cachedSnapshot := getPerfSnapshot s, pr_cachedRevision := Some (pr_revision s)\<rparr> else s)
      in (pr_cachedSnapshot s1, s1))"

section \<open>Phases\<close>

record perf_bucket =
  pb_count :: nat
  pb_totalMs :: rat
  pb_maxMs :: rat

definition aggregate :: "string \<Rightarrow> rat \<Rightarrow> (string \<times> perf_bucket) list \<Rightarrow> (string \<times> perf_bucket) list" where
  "aggregate name ms buckets =
     (case map_of buckets name of
        Some b \<Rightarrow> AList.update name \<lparr>pb_count = pb_count b + 1, pb_totalMs = pb_totalMs b + ms,
          pb_maxMs = (if pb_maxMs b < ms then ms else pb_maxMs b)\<rparr> buckets
      | None \<Rightarrow> AList.update name \<lparr>pb_count = 1, pb_totalMs = ms, pb_maxMs = ms\<rparr> buckets)"

record perf_row =
  pw_name :: string
  pw_count :: nat
  pw_totalMs :: int
  pw_avgMs :: rat
  pw_maxMs :: rat

definition math_round :: "rat \<Rightarrow> int" where
  "math_round x = \<lfloor>x + 1 / 2\<rfloor>"

definition summary_row :: "string \<times> perf_bucket \<Rightarrow> perf_row" where
  "summary_row nb =
     (case nb of (name, b) \<Rightarrow>
       \<lparr>pw_name = name, pw_count = pb_count b, pw_totalMs = math_round (pb_totalMs b),
        pw_avgMs = of_int (math_round (pb_totalMs b / of_nat (pb_count b) * 100)) / 100,
        pw_maxMs = of_int (math_round (pb_maxMs b * 10)) / 10\<rparr>)"

text \<open>\<open>dumpSummary\<close>: the rows that are written, largest total first, and the buckets left.\<close>

definition dumpSummary :: "(string \<times> perf_bucket) list \<Rightarrow> perf_row list \<times> (string \<times> perf_bucket) list" where
  "dumpSummary buckets = (sort_key (\<lambda>r. - pw_totalMs r) (map summary_row buckets), [])"

text \<open>\<open>perfStart\<close> and \<open>perfEnd\<close>: a token below zero, or a gate that is shut, leaves everything as it was.\<close>

definition perfStart :: "bool \<Rightarrow> rat \<Rightarrow> rat" where
  "perfStart enabled clock = (if enabled then clock else - 1)"

definition perfEnd :: "bool \<Rightarrow> string \<Rightarrow> rat \<Rightarrow> rat \<Rightarrow> (string \<times> string) list option
    \<Rightarrow> perf_store \<times> (string \<times> perf_bucket) list \<Rightarrow> perf_store \<times> (string \<times> perf_bucket) list" where
  "perfEnd enabled name startToken endTs detail sb =
     (if startToken < 0 \<or> \<not> enabled then sb
      else (push_entry \<lparr>pe_name = name, pe_durationMs = endTs - startToken, pe_ts = endTs, pe_detail = detail\<rparr> (fst sb),
            aggregate name (endTs - startToken) (snd sb)))"

definition perfGauge :: "bool \<Rightarrow> string \<Rightarrow> rat \<Rightarrow> (string \<times> perf_bucket) list \<Rightarrow> (string \<times> perf_bucket) list" where
  "perfGauge enabled name v buckets = (if enabled then aggregate name v buckets else buckets)"

definition pushPerfEntry :: "bool \<Rightarrow> perf_entry \<Rightarrow> perf_store \<Rightarrow> perf_store" where
  "pushPerfEntry enabled e s = (if enabled then push_entry e s else s)"

section \<open>The ring is the newest entries\<close>

datatype perf_op = Push perf_entry | Clear | Notify | Read

fun perf_step :: "perf_op \<Rightarrow> perf_store \<Rightarrow> perf_store" where
  "perf_step (Push e) s = push_entry e s"
| "perf_step Clear s = clearPerf s"
| "perf_step Notify s = run_notify s"
| "perf_step Read s = snd (getSnapshot s)"

text \<open>The entries pushed since the ring was last cleared.\<close>

fun pushed_since :: "perf_op list \<Rightarrow> perf_entry list \<Rightarrow> perf_entry list" where
  "pushed_since [] es = es"
| "pushed_since (Push e # ops) es = pushed_since ops (es @ [e])"
| "pushed_since (Clear # ops) es = pushed_since ops []"
| "pushed_since (Notify # ops) es = pushed_since ops es"
| "pushed_since (Read # ops) es = pushed_since ops es"

definition newest :: "nat \<Rightarrow> 'a list \<Rightarrow> 'a list" where
  "newest n xs = drop (length xs - n) xs"

definition ring_of :: "perf_store \<Rightarrow> perf_entry list \<Rightarrow> bool" where
  "ring_of s es \<longleftrightarrow> length (pr_ring s) = min (length es) RING_SIZE \<and> pr_writeIdx s = length es mod RING_SIZE
     \<and> getPerfSnapshot s = newest RING_SIZE es"

lemma newest_snoc:
  assumes "n \<le> length xs" "0 < n"
  shows "newest n (xs @ [x]) = tl (newest n xs) @ [x]"
proof -
  have "tl (drop (length xs - n) xs) = drop (Suc (length xs) - n) xs"
    using assms by (simp add: Suc_diff_le drop_Suc tl_drop)
  then show ?thesis using assms by (simp add: newest_def)
qed

lemma turn_update:
  assumes "i < length xs"
  shows "drop (Suc i) (xs[i := x]) @ take (Suc i) (xs[i := x]) = tl (drop i xs @ take i xs) @ [x]"
proof -
  have "drop i xs = xs ! i # drop (Suc i) xs" using assms by (rule Cons_nth_drop_Suc [symmetric])
  then show ?thesis using assms by (simp add: take_Suc_conv_app_nth)
qed

lemma push_ring:
  assumes ring: "ring_of s es"
  shows "ring_of (push_entry e s) (es @ [e])"
proof (cases "length es < RING_SIZE")
  case True
  then have small: "pr_ring s = es" "pr_writeIdx s = length es"
    using ring by (auto simp: ring_of_def getPerfSnapshot_def newest_def)
  then show ?thesis using True
    by (cases "Suc (length es) = RING_SIZE") (auto simp: ring_of_def push_entry_def scheduleNotify_def getPerfSnapshot_def newest_def)
next
  case False
  let ?i = "length es mod RING_SIZE"
  have pos: "0 < RING_SIZE" by (simp add: RING_SIZE_def)
  have full: "length (pr_ring s) = RING_SIZE" "pr_writeIdx s = ?i" "?i < length (pr_ring s)"
    "drop ?i (pr_ring s) @ take ?i (pr_ring s) = newest RING_SIZE es"
    using ring False pos by (auto simp: ring_of_def getPerfSnapshot_def)
  have turned: "drop (Suc ?i) ((pr_ring s)[?i := e]) @ take (Suc ?i) ((pr_ring s)[?i := e]) = newest RING_SIZE (es @ [e])"
    using turn_update [OF full(3), of e] newest_snoc [of RING_SIZE es e] full(4) False pos by simp
  have wrapped: "drop j ((pr_ring s)[?i := e]) @ take j ((pr_ring s)[?i := e]) = newest RING_SIZE (es @ [e])"
    if "j = Suc ?i mod RING_SIZE" for j
  proof (cases "Suc ?i = RING_SIZE")
    case True
    then show ?thesis using turned that full(1) by simp
  next
    case less: False
    then have "Suc ?i < RING_SIZE" using full(1,3) by simp
    then show ?thesis using turned that by simp
  qed
  have "Suc ?i mod RING_SIZE = Suc (length es) mod RING_SIZE" by (rule mod_Suc_eq)
  then have "getPerfSnapshot (push_entry e s) = newest RING_SIZE (es @ [e])"
    using full(1,2) wrapped by (simp add: push_entry_def scheduleNotify_def getPerfSnapshot_def)
  then show ?thesis using False full(1,2) \<open>Suc ?i mod RING_SIZE = Suc (length es) mod RING_SIZE\<close>
    by (simp add: ring_of_def push_entry_def scheduleNotify_def)
qed

lemma other_ring:
  assumes "pr_ring s' = pr_ring s" "pr_writeIdx s' = pr_writeIdx s"
  shows "ring_of s' es = ring_of s es"
  using assms by (simp add: ring_of_def getPerfSnapshot_def)

lemma perf_ring_after: "ring_of s es \<Longrightarrow> ring_of (fold perf_step ops s) (pushed_since ops es)"
proof (induction ops es arbitrary: s rule: pushed_since.induct)
  case (2 e ops es)
  then show ?case using push_ring by simp
next
  case (3 ops es)
  have "ring_of (clearPerf s) []"
    by (simp add: ring_of_def clearPerf_def scheduleNotify_def getPerfSnapshot_def newest_def RING_SIZE_def)
  with 3 show ?case by simp
next
  case (4 ops es)
  have "ring_of (run_notify s) es" using 4(2) by (subst other_ring [of _ s]) (simp_all add: run_notify_def)
  with 4 show ?case by simp
next
  case (5 ops es)
  have "ring_of (snd (getSnapshot s)) es" using 5(2) by (subst other_ring [of _ s]) (simp_all add: getSnapshot_def Let_def)
  with 5 show ?case by simp
qed simp

lemma cached_revision:
  assumes "\<forall>r. pr_cachedRevision s = Some r \<longrightarrow> r \<le> pr_revision s"
  shows "\<forall>r. pr_cachedRevision (fold perf_step ops s) = Some r \<longrightarrow> r \<le> pr_revision (fold perf_step ops s)"
  using assms
proof (induction ops arbitrary: s)
  case (Cons a ops)
  have "\<forall>r. pr_cachedRevision (perf_step a s) = Some r \<longrightarrow> r \<le> pr_revision (perf_step a s)"
    using Cons.prems by (cases a)
      (auto simp: push_entry_def clearPerf_def scheduleNotify_def run_notify_def getSnapshot_def Let_def)
  from Cons.IH [OF this] show ?case by simp
qed simp

lemma read_after_push:
  assumes "pr_cachedRevision s \<noteq> Some (Suc (pr_revision s))"
  shows "fst (getSnapshot (run_notify (push_entry e s))) = getPerfSnapshot (push_entry e s)"
proof -
  have fields: "pr_cachedRevision (push_entry e s) = pr_cachedRevision s" "pr_revision (push_entry e s) = pr_revision s"
    "pr_notifyScheduled (push_entry e s)"
    by (simp_all add: push_entry_def scheduleNotify_def)
  have same: "getPerfSnapshot (run_notify t) = getPerfSnapshot t" for t
    by (simp add: run_notify_def getPerfSnapshot_def)
  have "pr_cachedRevision (run_notify (push_entry e s)) \<noteq> Some (pr_revision (run_notify (push_entry e s)))"
    using assms fields by (simp add: run_notify_def)
  then show ?thesis by (simp add: getSnapshot_def Let_def same)
qed

lemma ring_facts:
  fixes ops :: "perf_op list" and e :: perf_entry
  defines "s \<equiv> fold perf_step ops new_store"
  shows "getPerfSnapshot s = newest RING_SIZE (pushed_since ops [])"
    and "fst (getSnapshot (run_notify (push_entry e s))) = newest RING_SIZE (pushed_since ops [] @ [e])"
    and "fst (getSnapshot (push_entry e (snd (getSnapshot s)))) = fst (getSnapshot s)"
proof -
  have "ring_of new_store []"
    by (simp add: ring_of_def new_store_def getPerfSnapshot_def newest_def RING_SIZE_def)
  from perf_ring_after [OF this, of ops] have ring: "ring_of s (pushed_since ops [])" by (simp add: s_def)
  then show "getPerfSnapshot s = newest RING_SIZE (pushed_since ops [])" by (simp add: ring_of_def)
  have "\<forall>r. pr_cachedRevision s = Some r \<longrightarrow> r \<le> pr_revision s"
    unfolding s_def by (rule cached_revision) (simp add: new_store_def)
  then have "pr_cachedRevision s \<noteq> Some (Suc (pr_revision s))" by auto
  moreover have "getPerfSnapshot (push_entry e s) = newest RING_SIZE (pushed_since ops [] @ [e])"
    using push_ring [OF ring, of e] by (simp add: ring_of_def)
  ultimately show "fst (getSnapshot (run_notify (push_entry e s))) = newest RING_SIZE (pushed_since ops [] @ [e])"
    by (subst read_after_push) simp_all
  show "fst (getSnapshot (push_entry e (snd (getSnapshot s)))) = fst (getSnapshot s)"
    by (simp add: getSnapshot_def push_entry_def scheduleNotify_def Let_def)
qed

text \<open>
  C33: Whatever was pushed, cleared, read and notified before, the ring holds the newest 50 entries pushed
  since it was last cleared, oldest first. A subscriber told of a push reads the ring with it; whoever
  reads before the notification gets the snapshot of the last one again.
\<close>
theorem ring_is_newest:
  "getPerfSnapshot (fold perf_step ops new_store) = newest RING_SIZE (pushed_since ops [])
   \<and> fst (getSnapshot (run_notify (push_entry e (fold perf_step ops new_store)))) = newest RING_SIZE (pushed_since ops [] @ [e])
   \<and> fst (getSnapshot (push_entry e (snd (getSnapshot (fold perf_step ops new_store))))) = fst (getSnapshot (fold perf_step ops new_store))"
  using ring_facts(1) [of ops] ring_facts(2,3) [of e ops] by blast

section \<open>The buckets summarise\<close>

definition values_named :: "string \<Rightarrow> (string \<times> rat) list \<Rightarrow> rat list" where
  "values_named name = List.map_filter (\<lambda>(n, v). if n = name then Some v else None)"

definition bucket_of :: "rat list \<Rightarrow> perf_bucket option" where
  "bucket_of vs = (if vs = [] then None else Some \<lparr>pb_count = length vs, pb_totalMs = sum_list vs, pb_maxMs = Max (set vs)\<rparr>)"

text \<open>Every phase's bucket has the number, the sum and the greatest of the values recorded for it.\<close>

theorem buckets_summarise:
  "map_of (foldl (\<lambda>b (n, v). aggregate n v b) [] vs) name = bucket_of (values_named name vs)"
proof (induction vs rule: rev_induct)
  case Nil
  then show ?case by (simp add: bucket_of_def values_named_def List.map_filter_def)
next
  case (snoc nv vs)
  obtain n v where nv: "nv = (n, v)" by (cases nv)
  have grown: "values_named name (vs @ [nv]) = values_named name vs @ (if n = name then [v] else [])"
    by (simp add: nv values_named_def List.map_filter_def)
  have greatest: "Max (set (ws @ [v])) = (if Max (set ws) < v then v else Max (set ws))" if "ws \<noteq> []" for ws
    using that by (simp only: set_append list.simps Un_insert_right Un_empty_right Max_insert finite_set set_empty not_False_eq_True)
      (simp add: max_def del: Max_less_iff)
  show ?case
  proof (cases "n = name")
    case True
    then show ?thesis using snoc grown greatest [of "values_named name vs"]
      by (cases "values_named name vs = []") (auto simp: nv aggregate_def bucket_of_def)
  next
    case False
    then show ?thesis using snoc grown
      by (cases "map_of (foldl (\<lambda>b (n, v). aggregate n v b) [] vs) n") (simp_all add: nv aggregate_def)
  qed
qed

end
