(* ===== verification/Preview.thy ===== *)
theory Preview
  imports Json JsText
begin

text \<open>
  The preparation of a schema for a preview (\<open>ui/prepareSchemaForPreview.ts\<close>): sample rows for its
  entities, and state machines that start where the data is. Arrays of rows are shared between the schema
  and the result and are written to, so they stand in a store; the sampling of @almadar/core is a parameter.
\<close>

section \<open>Schemas\<close>

record 'f preview_entity =
  pn_name :: "string option"
  pn_fields :: "(string option \<times> 'f) list"
  pn_persistence :: "string option"
  pn_instances :: "nat option" \<comment> \<open>the array of instances\<close>

record preview_state =
  sn_name :: string
  sn_isInitial :: bool

record preview_machine =
  sm_states :: "preview_state list"
  sm_transitions :: "(string \<times> string list) list" \<comment> \<open>event and the states it starts from\<close>

record 'f preview_trait =
  pt_machine :: "preview_machine option"
  pt_linkedEntity :: "string option"
  pt_sourceEntity :: "'f preview_entity option"

text \<open>A reference is inline when it has a \<open>stateMachine\<close> member; calls of entities count as no entity.\<close>

datatype 'f preview_ref = OtherRef | InlineTrait "'f preview_trait"

record 'f preview_orbital =
  po_entity :: "'f preview_entity option"
  po_traits :: "'f preview_ref list option"

record 'f sampling =
  sp_row :: "string \<Rightarrow> 'f preview_entity \<Rightarrow> nat \<Rightarrow> jobj"
  sp_rowCount :: "string \<Rightarrow> 'f preview_entity \<Rightarrow> nat"
  sp_fieldValue :: "string \<Rightarrow> string option \<Rightarrow> 'f \<Rightarrow> nat \<Rightarrow> jval option"

type_synonym rows_store = "jobj list list"
type_synonym entity_data = "(string \<times> nat) list"

section \<open>Sample rows\<close>

definition generateEntityRow :: "'f sampling \<Rightarrow> 'f preview_entity \<Rightarrow> nat \<Rightarrow> jobj" where
  "generateEntityRow sp entity idx =
     AList.update ''id'' (JStr (show_nat idx)) (sp_row sp (case pn_name entity of Some n \<Rightarrow> n | None \<Rightarrow> ''Entity'') entity idx)"

definition generated :: "'f sampling \<Rightarrow> 'f preview_entity \<Rightarrow> nat \<Rightarrow> jobj list" where
  "generated sp entity count = map (\<lambda>i. generateEntityRow sp entity (i + 1)) [0..<count]"

definition has_instances :: "rows_store \<Rightarrow> 'f preview_entity \<Rightarrow> bool" where
  "has_instances st entity \<longleftrightarrow> (case pn_instances entity of Some a \<Rightarrow> st ! a \<noteq> [] | None \<Rightarrow> False)"

definition take_rows :: "'f sampling \<Rightarrow> string \<Rightarrow> 'f preview_entity \<Rightarrow> nat \<Rightarrow> entity_data \<times> rows_store \<Rightarrow> entity_data \<times> rows_store" where
  "take_rows sp name entity count ds =
     (case ds of (data, st) \<Rightarrow>
       if has_instances st entity then (AList.update name (the (pn_instances entity)) data, st)
       else (AList.update name (length st) data, st @ [generated sp entity count]))"

definition orbital_rows :: "'f sampling \<Rightarrow> 'f preview_orbital \<Rightarrow> entity_data \<times> rows_store \<Rightarrow> entity_data \<times> rows_store" where
  "orbital_rows sp orb ds =
     (case po_entity orb of
        None \<Rightarrow> ds
      | Some entity \<Rightarrow> (case pn_name entity of
            None \<Rightarrow> ds
          | Some name \<Rightarrow> if name = [] then ds else take_rows sp name entity (sp_rowCount sp name entity) ds))"

text \<open>A row gets the fields of the source entity that it does not have.\<close>

definition fill_field :: "'f sampling \<Rightarrow> string \<Rightarrow> nat \<Rightarrow> string option \<times> 'f \<Rightarrow> jobj \<Rightarrow> jobj" where
  "fill_field sp sourceName idx fld row =
     (case fst fld of
        None \<Rightarrow> row
      | Some n \<Rightarrow>
          if n = ''id'' \<or> obj_get row n \<noteq> None then row
          else case sp_fieldValue sp sourceName (Some n) (snd fld) idx of Some v \<Rightarrow> AList.update n v row | None \<Rightarrow> row)"

definition fill_row :: "'f sampling \<Rightarrow> string \<Rightarrow> (string option \<times> 'f) list \<Rightarrow> nat \<Rightarrow> jobj \<Rightarrow> jobj" where
  "fill_row sp sourceName flds i row = fold (fill_field sp sourceName (i + 1)) flds row"

definition fill_rows :: "'f sampling \<Rightarrow> string \<Rightarrow> (string option \<times> 'f) list \<Rightarrow> jobj list \<Rightarrow> jobj list" where
  "fill_rows sp sourceName flds rows = map (\<lambda>(i, row). fill_row sp sourceName flds i row) (List.enumerate 0 rows)"

definition trait_rows :: "'f sampling \<Rightarrow> 'f preview_ref \<Rightarrow> entity_data \<times> rows_store \<Rightarrow> entity_data \<times> rows_store" where
  "trait_rows sp r ds =
     (case r of
        OtherRef \<Rightarrow> ds
      | InlineTrait t \<Rightarrow> (case pt_sourceEntity t of
            None \<Rightarrow> ds
          | Some source \<Rightarrow> (case pn_name source of
                None \<Rightarrow> ds
              | Some sourceName \<Rightarrow>
                  if sourceName = [] then ds
                  else let ds1 = (if map_of (fst ds) sourceName = None then take_rows sp sourceName source 10 ds else ds)
                    in case pt_linkedEntity t of
                        None \<Rightarrow> ds1
                      | Some rebound \<Rightarrow>
                          if rebound = [] \<or> rebound = sourceName then ds1
                          else case map_of (fst ds1) rebound of
                              None \<Rightarrow> ds1
                            | Some a \<Rightarrow> (fst ds1, (snd ds1)[a := fill_rows sp sourceName (pn_fields source) (snd ds1 ! a)]))))"

definition buildMockData :: "'f sampling \<Rightarrow> 'f preview_orbital list \<Rightarrow> rows_store \<Rightarrow> entity_data \<times> rows_store" where
  "buildMockData sp orbitals st =
     fold (\<lambda>orb ds. fold (trait_rows sp) (case po_traits orb of Some ts \<Rightarrow> ts | None \<Rightarrow> []) ds) orbitals
       (fold (orbital_rows sp) orbitals ([], st))"

section \<open>Machines that start where the data is\<close>

definition findDataState :: "preview_machine \<Rightarrow> string \<Rightarrow> preview_state option" where
  "findDataState sm initialStateName =
     find (\<lambda>s. sn_name s \<noteq> initialStateName \<and> list_ex (\<lambda>(ev, from_states). ev = ''INIT'' \<and> sn_name s \<in> set from_states) (sm_transitions sm))
       (sm_states sm)"

definition initial_name :: "preview_machine \<Rightarrow> string option" where
  "initial_name sm =
     (case find sn_isInitial (sm_states sm) of
        Some s \<Rightarrow> Some (sn_name s)
      | None \<Rightarrow> (case sm_states sm of s # _ \<Rightarrow> Some (sn_name s) | [] \<Rightarrow> None))"

definition flip_states :: "string \<Rightarrow> string \<Rightarrow> preview_state list \<Rightarrow> preview_state list" where
  "flip_states initialStateName dataName =
     map (\<lambda>s. if sn_name s = initialStateName then s\<lparr>sn_isInitial := False\<rparr>
       else if sn_name s = dataName then s\<lparr>sn_isInitial := True\<rparr> else s)"

text \<open>\<open>None\<close> when the trait itself is returned.\<close>

definition rewriteTraitInitialState :: "entity_data \<Rightarrow> rows_store \<Rightarrow> 'f preview_trait \<Rightarrow> 'f preview_trait option" where
  "rewriteTraitInitialState data st t =
     (case (pt_machine t, pt_linkedEntity t) of
        (Some sm, Some linked) \<Rightarrow>
          if linked = [] \<or> (case map_of data linked of Some a \<Rightarrow> st ! a = [] | None \<Rightarrow> True) then None
          else (case initial_name sm of
              None \<Rightarrow> None
            | Some initialStateName \<Rightarrow>
                if initialStateName = [] then None
                else map_option (\<lambda>ds. t\<lparr>pt_machine := Some (sm\<lparr>sm_states := flip_states initialStateName (sn_name ds) (sm_states sm)\<rparr>)\<rparr>)
                  (findDataState sm initialStateName))
      | _ \<Rightarrow> None)"

definition rewrite_ref :: "entity_data \<Rightarrow> rows_store \<Rightarrow> 'f preview_ref \<Rightarrow> 'f preview_ref option" where
  "rewrite_ref data st r = (case r of InlineTrait t \<Rightarrow> map_option InlineTrait (rewriteTraitInitialState data st t) | OtherRef \<Rightarrow> None)"

definition or_self :: "('a \<Rightarrow> 'a option) \<Rightarrow> 'a \<Rightarrow> 'a" where
  "or_self f x = (case f x of Some y \<Rightarrow> y | None \<Rightarrow> x)"

text \<open>\<open>changed\<close> is one variable of the whole pass: once a trait was rewritten every later orbital is copied.\<close>

fun adjust_orbitals :: "entity_data \<Rightarrow> rows_store \<Rightarrow> bool \<Rightarrow> 'f preview_orbital list \<Rightarrow> bool \<times> 'f preview_orbital list" where
  "adjust_orbitals data st changed [] = (changed, [])"
| "adjust_orbitals data st changed (orb # orbs) =
     (let traits = (case po_traits orb of Some ts \<Rightarrow> ts | None \<Rightarrow> []);
          changed1 = (changed \<or> list_ex (\<lambda>r. rewrite_ref data st r \<noteq> None) traits);
          orb' = (if changed1 then orb\<lparr>po_traits := Some (map (or_self (rewrite_ref data st)) traits)\<rparr> else orb);
          (changed2, orbs') = adjust_orbitals data st changed1 orbs
      in (changed2, orb' # orbs'))"

definition adjustSchemaForMockData :: "'f preview_orbital list \<Rightarrow> entity_data \<Rightarrow> rows_store \<Rightarrow> 'f preview_orbital list" where
  "adjustSchemaForMockData orbitals data st =
     (case adjust_orbitals data st False orbitals of (changed, updated) \<Rightarrow> if changed then updated else orbitals)"

definition prepareSchemaForPreview :: "'f sampling \<Rightarrow> 'f preview_orbital list \<Rightarrow> rows_store \<Rightarrow> 'f preview_orbital list \<times> entity_data \<times> rows_store" where
  "prepareSchemaForPreview sp orbitals st =
     (case buildMockData sp orbitals st of (data, st') \<Rightarrow> (adjustSchemaForMockData orbitals data st', data, st'))"

section \<open>Nothing a row has is overwritten\<close>

definition grown :: "rows_store \<Rightarrow> rows_store \<Rightarrow> bool" where
  "grown st st' \<longleftrightarrow> length st \<le> length st' \<and> (\<forall>a < length st. length (st' ! a) = length (st ! a)
     \<and> (\<forall>i < length (st ! a). \<forall>k v. obj_get (st ! a ! i) k = Some v \<longrightarrow> obj_get (st' ! a ! i) k = Some v))"

lemma grown_refl: "grown st st"
  by (simp add: grown_def)

lemma grown_trans: "grown st st' \<Longrightarrow> grown st' st'' \<Longrightarrow> grown st st''"
  unfolding grown_def by (metis (no_types, lifting) order_less_le_trans order_trans)

lemma grown_append: "grown st (st @ more_rows)"
  by (simp add: grown_def nth_append)

lemma fill_field_keeps: "obj_get row k = Some v \<Longrightarrow> obj_get (fill_field sp sn idx fld row) k = Some v"
  by (auto simp: fill_field_def obj_get_def split: option.split)

lemma fill_row_keeps: "obj_get row k = Some v \<Longrightarrow> obj_get (fill_row sp sn flds i row) k = Some v"
  unfolding fill_row_def by (induction flds arbitrary: row) (simp_all add: fill_field_keeps)

lemma grown_fill: "grown st (st[a := fill_rows sp sn flds (st ! a)])"
  by (cases "a < length st") (auto simp: grown_def fill_rows_def nth_list_update nth_enumerate_eq fill_row_keeps)

lemma grown_take: "grown st (snd (take_rows sp name entity count (data, st)))"
  by (simp add: take_rows_def grown_refl grown_append)

lemma grown_trait: "grown (snd ds) (snd (trait_rows sp r ds))"
proof -
  have taken: "grown (snd ds) (snd (take_rows sp n e c ds))" for n e c
    using grown_take [of "snd ds" sp n e c "fst ds"] by simp
  show ?thesis
    by (auto simp: trait_rows_def Let_def grown_refl taken split: preview_ref.split option.split
        intro: grown_trans [OF taken grown_fill] grown_fill)
qed

lemma grown_orbital: "grown (snd ds) (snd (orbital_rows sp orb ds))"
  using grown_take [of "snd ds" sp _ _ _ "fst ds"] by (auto simp: orbital_rows_def grown_refl split: option.split)

lemma grown_fold: "(\<And>x ds. grown (snd ds) (snd (f x ds))) \<Longrightarrow> grown (snd ds) (snd (fold f xs ds))"
proof (induction xs arbitrary: ds)
  case (Cons x xs)
  show ?case using grown_trans [OF Cons.prems [of ds x] Cons.IH [of "f x ds", OF Cons.prems]] by simp
qed (simp add: grown_refl)

text \<open>
  Preparing mock data never changes a value a row already has: every array of rows keeps its rows, and
  every row every member it had, be it the schema's own instance or a row sampled before; new members are
  only added.
\<close>
theorem mock_data_only_adds:
  "grown st (snd (buildMockData sp orbitals st))"
proof -
  have "grown st (snd (fold (orbital_rows sp) orbitals ([], st)))"
    using grown_fold [of "orbital_rows sp" "([], st)" orbitals, OF grown_orbital] by simp
  moreover have "grown (snd ds) (snd (fold (\<lambda>orb ds. fold (trait_rows sp) (case po_traits orb of Some ts \<Rightarrow> ts | None \<Rightarrow> []) ds) orbitals ds))" for ds
    by (rule grown_fold, rule grown_fold) (rule grown_trait)
  ultimately show ?thesis unfolding buildMockData_def by (blast intro: grown_trans)
qed

text \<open>But the schema that is handed in is written to: its own instances get the sampled fields.\<close>

definition plain_sampling :: "unit sampling" where
  "plain_sampling = \<lparr>sp_row = (\<lambda>_ _ _. []), sp_rowCount = (\<lambda>_ _. 3), sp_fieldValue = (\<lambda>_ _ _ _. Some (JStr ''sample''))\<rparr>"

definition rebound_schema :: "unit preview_orbital list" where
  "rebound_schema =
     (let task = \<lparr>pn_name = Some ''Task'', pn_fields = [], pn_persistence = None, pn_instances = Some 0\<rparr>;
          item = \<lparr>pn_name = Some ''Item'', pn_fields = [(Some ''label'', ())], pn_persistence = None, pn_instances = None\<rparr>
      in [\<lparr>po_entity = Some task, po_traits = Some [InlineTrait \<lparr>pt_machine = None, pt_linkedEntity = Some ''Task'', pt_sourceEntity = Some item\<rparr>]\<rparr>])"

lemma schema_instances_written:
  "snd (buildMockData plain_sampling rebound_schema [[[(''id'', JStr ''1'')]]]) ! 0 = [[(''id'', JStr ''1''), (''label'', JStr ''sample'')]]"
  by code_simp

section \<open>The pass over the schema\<close>

definition ref_list :: "'f preview_orbital \<Rightarrow> 'f preview_ref list" where
  "ref_list orb = (case po_traits orb of Some ts \<Rightarrow> ts | None \<Rightarrow> [])"

lemma or_self_None: "list_ex (\<lambda>r. f r \<noteq> None) xs \<or> map (or_self f) xs = xs"
  by (induction xs) (auto simp: or_self_def)

lemma adjust_orbitals_refs:
  "map ref_list (snd (adjust_orbitals data st changed orbs)) = map (map (or_self (rewrite_ref data st)) \<circ> ref_list) orbs"
  "map po_entity (snd (adjust_orbitals data st changed orbs)) = map po_entity orbs"
proof (induction orbs arbitrary: changed)
  case (Cons orb orbs)
  {
    case 1
    then show ?case using Cons.IH(1) or_self_None [of "rewrite_ref data st" "ref_list orb"]
      by (auto simp: Let_def split_def ref_list_def)
  next
    case 2
    then show ?case using Cons.IH(2) by (auto simp: Let_def split_def)
  }
qed simp_all

lemma adjust_unchanged:
  "\<not> fst (adjust_orbitals data st changed orbs) \<Longrightarrow> \<not> changed \<and> (\<forall>orb\<in>set orbs. \<forall>r\<in>set (ref_list orb). rewrite_ref data st r = None)"
  by (induction orbs arbitrary: changed) (fastforce simp: Let_def split_def ref_list_def list_ex_iff)+

text \<open>
  Whatever the shared \<open>changed\<close> flag says, the pass is the plain one: the orbitals keep their order and
  entities, and each reference of each becomes its rewritten form or stays itself.
\<close>
theorem adjust_is_map:
  "map ref_list (adjustSchemaForMockData orbs data st) = map (map (or_self (rewrite_ref data st)) \<circ> ref_list) orbs"
  "map po_entity (adjustSchemaForMockData orbs data st) = map po_entity orbs"
proof -
  obtain changed updated where run: "adjust_orbitals data st False orbs = (changed, updated)" by fastforce
  have same: "map (or_self (rewrite_ref data st)) (ref_list orb) = ref_list orb" if "\<not> changed" "orb \<in> set orbs" for orb
    using adjust_unchanged [of data st False orbs] run that by (intro map_idI) (auto simp: or_self_def)
  show "map ref_list (adjustSchemaForMockData orbs data st) = map (map (or_self (rewrite_ref data st)) \<circ> ref_list) orbs"
    using adjust_orbitals_refs(1) [of data st False orbs] same run by (cases changed) (auto simp: adjustSchemaForMockData_def)
  show "map po_entity (adjustSchemaForMockData orbs data st) = map po_entity orbs"
    using adjust_orbitals_refs(2) [of data st False orbs] run by (simp add: adjustSchemaForMockData_def)
qed

section \<open>One initial state\<close>

lemma filter_flip:
  assumes "distinct (map sn_name ss)" "d \<in> set ss" "sn_name d \<noteq> i" "\<forall>s\<in>set ss. sn_isInitial s \<longrightarrow> sn_name s = i"
  shows "filter sn_isInitial (flip_states i (sn_name d) ss) = [d\<lparr>sn_isInitial := True\<rparr>]"
  using assms
proof (induction ss)
  case (Cons s ss)
  have none: "filter sn_isInitial (flip_states i n ss) = []" if "n \<notin> sn_name ` set ss" "\<forall>s\<in>set ss. sn_isInitial s \<longrightarrow> sn_name s = i" for n
    using that by (auto simp: flip_states_def filter_empty_conv)
  show ?case
  proof (cases "s = d")
    case True
    then show ?thesis using Cons.prems none [of "sn_name d"] by (auto simp: flip_states_def)
  next
    case False
    then have "sn_name s \<noteq> sn_name d" using Cons.prems(1,2) by (auto simp: image_iff)
    then show ?thesis using Cons False by (auto simp: flip_states_def)
  qed
qed simp

text \<open>
  A rewritten machine has exactly one initial state, the first other state that handles INIT, when its
  states have different names and at most one of them was initial; states, order and transitions stay.
\<close>
theorem rewrite_moves_initial:
  assumes "rewriteTraitInitialState data st t = Some t'" "pt_machine t = Some sm"
    "distinct (map sn_name (sm_states sm))" "length (filter sn_isInitial (sm_states sm)) \<le> 1"
  shows "\<exists>sm' d. pt_machine t' = Some sm' \<and> filter sn_isInitial (sm_states sm') = [d]
     \<and> map sn_name (sm_states sm') = map sn_name (sm_states sm) \<and> sm_transitions sm' = sm_transitions sm
     \<and> (\<exists>i. initial_name sm = Some i \<and> sn_name d \<noteq> i \<and> map_option sn_name (findDataState sm i) = Some (sn_name d))"
proof -
  obtain i d where i: "initial_name sm = Some i" and d: "findDataState sm i = Some d"
    and t': "pt_machine t' = Some (sm\<lparr>sm_states := flip_states i (sn_name d) (sm_states sm)\<rparr>)"
    using assms(1,2) by (auto simp: rewriteTraitInitialState_def split: option.splits if_splits)
  have mem: "d \<in> set (sm_states sm)" "sn_name d \<noteq> i" using find_Some_set d by (fastforce simp: findDataState_def)+
  have only: "sn_name s = i" if "s \<in> set (sm_states sm)" "sn_isInitial s" for s
  proof -
    have "find sn_isInitial (sm_states sm) \<noteq> None" using that by (auto simp: find_None_iff)
    then obtain s0 where s0: "find sn_isInitial (sm_states sm) = Some s0" by blast
    then have "s0 \<in> set (filter sn_isInitial (sm_states sm))" "s \<in> set (filter sn_isInitial (sm_states sm))"
      using find_Some_set that by fastforce+
    then have "s = s0" using assms(4) by (cases "filter sn_isInitial (sm_states sm)") auto
    then show ?thesis using i s0 by (simp add: initial_name_def)
  qed
  have "map sn_name (flip_states i (sn_name d) (sm_states sm)) = map sn_name (sm_states sm)"
    by (simp add: flip_states_def)
  then show ?thesis using filter_flip [OF assms(3) mem] only i d t' mem(2) by auto
qed

text \<open>
  Two-state machines are not singled out: of three states the first other one with an INIT transition
  becomes initial, here the one for errors.
\<close>

definition three_states :: "unit preview_trait" where
  "three_states = \<lparr>pt_machine = Some \<lparr>sm_states = [\<lparr>sn_name = ''browsing'', sn_isInitial = True\<rparr>,
       \<lparr>sn_name = ''failed'', sn_isInitial = False\<rparr>, \<lparr>sn_name = ''loaded'', sn_isInitial = False\<rparr>],
     sm_transitions = [(''INIT'', [''browsing'']), (''INIT'', [''failed''])]\<rparr>,
     pt_linkedEntity = Some ''Task'', pt_sourceEntity = None\<rparr>"

theorem rewrite_moves_initial_witness:
  "\<exists>t' sm' d. rewriteTraitInitialState [(''Task'', 0)] [[[(''id'', JStr ''1'')]]] three_states = Some t' \<and> pt_machine t' = Some sm'
     \<and> filter sn_isInitial (sm_states sm') = [d] \<and> sn_name d = ''failed''"
proof -
  have "map_option (map sn_isInitial \<circ> sm_states) (Option.bind (rewriteTraitInitialState [(''Task'', 0)] [[[(''id'', JStr ''1'')]]] three_states) pt_machine)
      = Some [False, True, False]"
    by code_simp
  then obtain t' where t': "rewriteTraitInitialState [(''Task'', 0)] [[[(''id'', JStr ''1'')]]] three_states = Some t'"
    by (cases "rewriteTraitInitialState [(''Task'', 0)] [[[(''id'', JStr ''1'')]]] three_states") simp_all
  have sm: "distinct (map sn_name (sm_states (the (pt_machine three_states))))" "length (filter sn_isInitial (sm_states (the (pt_machine three_states)))) \<le> 1"
    "pt_machine three_states = Some (the (pt_machine three_states))" "findDataState (the (pt_machine three_states)) ''browsing'' = Some \<lparr>sn_name = ''failed'', sn_isInitial = False\<rparr>"
    "initial_name (the (pt_machine three_states)) = Some ''browsing''"
    by code_simp+
  from rewrite_moves_initial [OF t' sm(3,1,2)] sm(4,5) show ?thesis using t' by auto
qed

end
