(* ===== verification/BrowserStore.thy ===== *)
theory BrowserStore
  imports Json
begin

text \<open>
  What a browser host is set up with: the seeding of its store (\<open>entities/seedBrowserStore.ts\<close>), the access
  gates of the mock seeder (\<open>entities/policyOwnerGates.ts\<close>), the store's name and the refusal of frame
  ticks (\<open>evaluation/browser-store-transport.ts\<close>), and the render sigils (\<open>evaluation/render-sigils.ts\<close>).
  The persistence adapter, the mock seeder and the access rules of @almadar/core and @almadar/db are parameters.
\<close>

section \<open>Seeding\<close>

record 'w seed_store =
  ss_countRows :: "(string \<Rightarrow> 'w \<Rightarrow> (string + nat) \<times> 'w) option"
  ss_list :: "string \<Rightarrow> 'w \<Rightarrow> (string + jobj list) \<times> 'w"
  ss_create :: "string \<Rightarrow> jobj \<Rightarrow> 'w \<Rightarrow> (string + unit) \<times> 'w"

record seed_entity =
  se_name :: string
  se_local :: bool
  se_seedMock :: bool

record seeding =
  sd_instances :: "seed_entity \<Rightarrow> string option \<Rightarrow> jobj list" \<comment> \<open>\<open>instancesForLocale\<close>\<close>
  sd_stamp :: "jobj \<Rightarrow> jobj" \<comment> \<open>\<open>stampSeedTimestamps\<close> at the time of the seeding\<close>
  sd_mockRows :: "seed_entity \<Rightarrow> jobj list" \<comment> \<open>a new mock adapter with the entity registered\<close>

definition seedRows :: "seeding \<Rightarrow> seed_entity \<Rightarrow> string option \<Rightarrow> jobj list" where
  "seedRows sd e loc =
     (let written = sd_instances sd e loc
      in if written \<noteq> [] then map (sd_stamp sd) written else if \<not> se_seedMock e then [] else sd_mockRows sd e)"

definition isEmpty :: "'w seed_store \<Rightarrow> string \<Rightarrow> 'w \<Rightarrow> (string + bool) \<times> 'w" where
  "isEmpty ss ty =
     (case ss_countRows ss of
        Some count \<Rightarrow> sbind (count ty) (\<lambda>n w. (Inr (n = 0), w))
      | None \<Rightarrow> sbind (ss_list ss ty) (\<lambda>rows w. (Inr (rows = []), w)))"

fun create_all :: "'w seed_store \<Rightarrow> string \<Rightarrow> jobj list \<Rightarrow> 'w \<Rightarrow> (string + unit) \<times> 'w" where
  "create_all ss ty [] w = (Inr (), w)"
| "create_all ss ty (r # rs) w = sbind (ss_create ss ty r) (\<lambda>_. create_all ss ty rs) w"

fun seedBrowserStore :: "'w seed_store \<Rightarrow> seeding \<Rightarrow> seed_entity list \<Rightarrow> string option \<Rightarrow> 'w \<Rightarrow> (string + unit) \<times> 'w" where
  "seedBrowserStore ss sd [] loc w = (Inr (), w)"
| "seedBrowserStore ss sd (e # es) loc w =
     (if \<not> se_local e then seedBrowserStore ss sd es loc w
      else sbind (isEmpty ss (se_name e)) (\<lambda>empty.
        if \<not> empty then seedBrowserStore ss sd es loc
        else sbind (create_all ss (se_name e) (seedRows sd e loc)) (\<lambda>_. seedBrowserStore ss sd es loc)) w)"

text \<open>
  What an adapter is relied on for: counting and listing read the rows of a type, creating adds at most the
  row to the rows of that type and leaves the other types alone, also when it throws.
\<close>

definition faithful_store :: "'w seed_store \<Rightarrow> ('w \<Rightarrow> string \<Rightarrow> jobj list) \<Rightarrow> bool" where
  "faithful_store ss rows \<longleftrightarrow>
     (\<forall>count ty w. ss_countRows ss = Some count \<longrightarrow> rows (snd (count ty w)) = rows w
        \<and> (\<forall>n. fst (count ty w) = Inr n \<longrightarrow> n = length (rows w ty)))
     \<and> (\<forall>ty w. rows (snd (ss_list ss ty w)) = rows w \<and> (\<forall>rs. fst (ss_list ss ty w) = Inr rs \<longrightarrow> rs = rows w ty))
     \<and> (\<forall>ty r w ty'. ty' \<noteq> ty \<longrightarrow> rows (snd (ss_create ss ty r w)) ty' = rows w ty')"

lemma create_all_elsewhere:
  "faithful_store ss rows \<Longrightarrow> ty' \<noteq> ty \<Longrightarrow> rows (snd (create_all ss ty rs w)) ty' = rows w ty'"
proof (induction rs arbitrary: w)
  case (Cons r rs)
  obtain res w' where run: "ss_create ss ty r w = (res, w')" by fastforce
  have "rows (snd (ss_create ss ty r w)) ty' = rows w ty'" using Cons.prems unfolding faithful_store_def by blast
  with run Cons.IH [OF Cons.prems, of w'] show ?case by (cases res) (simp_all add: sbind_def)
qed simp

lemma isEmpty_reads:
  assumes "faithful_store ss rows"
  shows "rows (snd (isEmpty ss ty w)) = rows w" "fst (isEmpty ss ty w) = Inr b \<Longrightarrow> b \<longleftrightarrow> rows w ty = []"
proof -
  have "rows (snd (isEmpty ss ty w)) = rows w \<and> (\<forall>b. fst (isEmpty ss ty w) = Inr b \<longrightarrow> (b \<longleftrightarrow> rows w ty = []))"
  proof (cases "ss_countRows ss")
    case None
    obtain res w' where run: "ss_list ss ty w = (res, w')" by fastforce
    then have "rows w' = rows w" "\<And>rs. res = Inr rs \<Longrightarrow> rs = rows w ty"
      using assms unfolding faithful_store_def by (metis snd_conv, metis fst_conv)
    then show ?thesis using run None by (cases res) (simp_all add: isEmpty_def sbind_def)
  next
    case (Some count)
    obtain res w' where run: "count ty w = (res, w')" by fastforce
    then have "rows w' = rows w" "\<And>n. res = Inr n \<Longrightarrow> n = length (rows w ty)"
      using assms Some unfolding faithful_store_def by (metis snd_conv, metis fst_conv)
    then show ?thesis using run Some by (cases res) (simp_all add: isEmpty_def sbind_def)
  qed
  then show "rows (snd (isEmpty ss ty w)) = rows w" "fst (isEmpty ss ty w) = Inr b \<Longrightarrow> b \<longleftrightarrow> rows w ty = []" by blast+
qed

text \<open>
  Rows the user has are never touched: seeding leaves every type with rows as it was, whatever the entities,
  the locale and the failures on the way.
\<close>

theorem seeding_keeps_rows:
  assumes "faithful_store ss rows" "rows w ty \<noteq> []"
  shows "rows (snd (seedBrowserStore ss sd es loc w)) ty = rows w ty"
  using assms(2)
proof (induction es arbitrary: w)
  case (Cons e es)
  show ?case
  proof (cases "se_local e")
    case local: True
    obtain res w1 where run: "isEmpty ss (se_name e) w = (res, w1)" by fastforce
    then have same: "rows w1 = rows w" "\<And>b. res = Inr b \<Longrightarrow> b \<longleftrightarrow> rows w (se_name e) = []"
      using isEmpty_reads [OF assms(1), of "se_name e" w] by auto
    obtain res2 w2 where made: "create_all ss (se_name e) (seedRows sd e loc) w1 = (res2, w2)" by fastforce
    have kept: "rows w2 ty = rows w ty" if "rows w (se_name e) = []"
    proof -
      have "ty \<noteq> se_name e" using that Cons.prems by auto
      from create_all_elsewhere [OF assms(1) this, of "seedRows sd e loc" w1] show ?thesis using made same(1) by simp
    qed
    show ?thesis
      using Cons.IH [of w1] Cons.IH [of w2] Cons.prems same kept local run made
      by (cases res; cases res2) (auto simp: sbind_def)
  qed (use Cons in simp)
qed simp

definition list_store :: "(string \<Rightarrow> jobj list) seed_store" where
  "list_store = \<lparr>ss_countRows = Some (\<lambda>ty w. (Inr (length (w ty)), w)), ss_list = (\<lambda>ty w. (Inr (w ty), w)),
     ss_create = (\<lambda>ty r w. (Inr (), w(ty := w ty @ [r])))\<rparr>"

definition two_seeds :: seeding where
  "two_seeds = \<lparr>sd_instances = (\<lambda>e _. if se_seedMock e then [] else [[(''id'', JStr ''1'')]]), sd_stamp = id,
     sd_mockRows = (\<lambda>_. [[(''id'', JStr ''mock'')]])\<rparr>"

theorem seeding_keeps_rows_witness:
  "snd (seedBrowserStore list_store two_seeds [\<lparr>se_name = ''Note'', se_local = True, se_seedMock = False\<rparr>,
      \<lparr>se_name = ''Draft'', se_local = True, se_seedMock = True\<rparr>] None ((\<lambda>_. [])(''Note'' := [[(''id'', JStr ''mine'')]]))) ''Note''
   = [[(''id'', JStr ''mine'')]]"
proof -
  have "faithful_store list_store (\<lambda>w. w)" by (simp add: faithful_store_def list_store_def)
  from seeding_keeps_rows [OF this, of "(\<lambda>_. [])(''Note'' := [[(''id'', JStr ''mine'')]])" "''Note''" two_seeds "[\<lparr>se_name = ''Note'', se_local = True, se_seedMock = False\<rparr>,
      \<lparr>se_name = ''Draft'', se_local = True, se_seedMock = True\<rparr>]" None]
  show ?thesis by (simp del: seedBrowserStore.simps)
qed

section \<open>Owner gates\<close>

record 'u access_rules =
  ar_create :: "jobj \<Rightarrow> jval option \<Rightarrow> 'u \<Rightarrow> string \<Rightarrow> bool" \<comment> \<open>\<open>checkMutationAccess('create', ...)\<close>\<close>
  ar_read :: "jobj list \<Rightarrow> jval \<Rightarrow> 'u \<Rightarrow> string \<Rightarrow> jobj list" \<comment> \<open>\<open>applyRowAccess\<close>\<close>
  ar_persona :: "jobj \<Rightarrow> 'u option" \<comment> \<open>\<open>personaFromIdentityRow\<close>\<close>

text \<open>The policies of a store key: what may be created and what may be read.\<close>

type_synonym policies = "string \<Rightarrow> (jval option \<times> jval option) option"

definition create_policy :: "policies \<Rightarrow> string \<Rightarrow> jval option" where
  "create_policy pol key = Option.bind (pol key) fst"

definition ownerGate :: "'u access_rules \<Rightarrow> policies \<Rightarrow> 'u option \<Rightarrow> string \<Rightarrow> jobj \<Rightarrow> bool" where
  "ownerGate ar pol viewer key row = (case viewer of None \<Rightarrow> True | Some user \<Rightarrow> ar_create ar row (create_policy pol key) user key)"

definition ownerCandidateGate :: "'u access_rules \<Rightarrow> policies \<Rightarrow> string \<Rightarrow> jobj \<Rightarrow> jobj \<Rightarrow> bool" where
  "ownerCandidateGate ar pol key row identityRow =
     (case ar_persona ar identityRow of None \<Rightarrow> False | Some persona \<Rightarrow> ar_create ar row (create_policy pol key) persona key)"

definition ownerReadGate :: "'u access_rules \<Rightarrow> policies \<Rightarrow> string \<Rightarrow> jobj \<Rightarrow> jobj \<Rightarrow> bool" where
  "ownerReadGate ar pol key row identityRow =
     (case (Option.bind (pol key) snd, ar_persona ar identityRow) of
        (Some read, Some persona) \<Rightarrow> length (ar_read ar [row] read persona key) = 1
      | _ \<Rightarrow> False)"

text \<open>A row without a usable identity never passes a gate that asks for one, whatever the policies say.\<close>

lemma gates_fail_closed:
  assumes "ar_persona ar identityRow = None"
  shows "\<not> ownerCandidateGate ar pol key row identityRow" "\<not> ownerReadGate ar pol key row identityRow"
  using assms by (simp_all add: ownerCandidateGate_def ownerReadGate_def split: option.split)

section \<open>Names and refusals\<close>

definition browserStoreName :: "string \<Rightarrow> string option \<Rightarrow> string" where
  "browserStoreName appName loc = (case loc of Some l \<Rightarrow> ''almadar:'' @ appName @ '':'' @ l | None \<Rightarrow> ''almadar:'' @ appName)"

text \<open>Without a colon in the names two visitors share a database only for the same app and locale.\<close>

lemma browserStoreName_inj:
  assumes "CHR '':'' \<notin> set a" "CHR '':'' \<notin> set b"
  shows "browserStoreName a l = browserStoreName b m \<longleftrightarrow> a = b \<and> l = m"
proof -
  have cut: "takeWhile (\<lambda>c. c \<noteq> CHR '':'') (n @ CHR '':'' # x) = n" if "CHR '':'' \<notin> set n" for n x
    using that by (subst takeWhile_append2) auto
  have split: "a @ CHR '':'' # x = b @ CHR '':'' # y \<longleftrightarrow> a = b \<and> x = y" for x y
    using cut [OF assms(1), of x] cut [OF assms(2), of y] by (metis append_same_eq list.inject same_append_eq)
  have "a @ CHR '':'' # x \<noteq> b" "b @ CHR '':'' # x \<noteq> a" for x using assms by auto
  then show ?thesis using split by (cases l; cases m) (auto simp: browserStoreName_def split)
qed

text \<open>The first tick that runs every frame is refused.\<close>

definition hosted_ticks :: "(string \<times> string \<times> (string \<times> bool) list) list \<Rightarrow> (string \<times> string \<times> string \<times> bool) list" where
  "hosted_ticks entries = concat (map (\<lambda>(orb, trait, ticks). map (\<lambda>(n, fr). (orb, trait, n, fr)) ticks) entries)"

definition refuseUnhostedTicks :: "(string \<times> string \<times> (string \<times> bool) list) list \<Rightarrow> string + unit" where
  "refuseUnhostedTicks entries =
     (case find (\<lambda>t. snd (snd (snd t))) (hosted_ticks entries) of
        Some (orb, trait, n, _) \<Rightarrow> Inl (''openBrowserHost has no frame clock; '' @ orb @ ''.'' @ trait @ '' tick '' @ [CHR 0x27] @ n @ [CHR 0x27] @ '' runs every frame'')
      | None \<Rightarrow> Inr ())"

lemma hosted_ticks_mem:
  "(orb, trait, n, fr) \<in> set (hosted_ticks entries) \<longleftrightarrow> (\<exists>ticks. (orb, trait, ticks) \<in> set entries \<and> (n, fr) \<in> set ticks)"
  by (induction entries) (auto simp: hosted_ticks_def)

lemma refuse_iff:
  "refuseUnhostedTicks entries = Inr () \<longleftrightarrow> (\<forall>orb trait ticks n. (orb, trait, ticks) \<in> set entries \<longrightarrow> (n, True) \<notin> set ticks)"
proof -
  have "(case r of Some (orb, trait, n, fr) \<Rightarrow> Inl (f orb trait n) | None \<Rightarrow> Inr ()) = Inr () \<longleftrightarrow> r = None"
    for r :: "(string \<times> string \<times> string \<times> bool) option" and f :: "string \<Rightarrow> string \<Rightarrow> string \<Rightarrow> string"
    by (cases r) auto
  then have "refuseUnhostedTicks entries = Inr () \<longleftrightarrow> find (\<lambda>t. snd (snd (snd t))) (hosted_ticks entries) = None"
    unfolding refuseUnhostedTicks_def .
  also have "\<dots> \<longleftrightarrow> (\<forall>t. t \<in> set (hosted_ticks entries) \<longrightarrow> \<not> snd (snd (snd t)))"
    unfolding find_None_iff by blast
  also have "\<dots> \<longleftrightarrow> (\<forall>orb trait n fr. (orb, trait, n, fr) \<in> set (hosted_ticks entries) \<longrightarrow> \<not> fr)"
    by simp
  also have "\<dots> \<longleftrightarrow> (\<forall>orb trait ticks n. (orb, trait, ticks) \<in> set entries \<longrightarrow> (n, True) \<notin> set ticks)"
    unfolding hosted_ticks_mem by (simp add: all_bool_eq) blast
  finally show ?thesis .
qed

section \<open>Render sigils\<close>

record nav_item =
  ni_href :: string
  ni_label :: string
  ni_icon :: "string option"
  ni_roles :: "string list option"

datatype nav_page = PageReference | InlinePage string "string option" "string option" "string list option"

definition inlineNavItems :: "nav_page list \<Rightarrow> nav_item list" where
  "inlineNavItems pages =
     List.map_filter (\<lambda>p. case p of
         PageReference \<Rightarrow> None
       | InlinePage path lab icon roles \<Rightarrow> (case lab of
             None \<Rightarrow> None
           | Some l \<Rightarrow> if CHR '':'' \<in> set path then None
               else Some \<lparr>ni_href = path, ni_label = l, ni_icon = icon, ni_roles = roles\<rparr>)) pages"

definition add_item :: "nav_item \<Rightarrow> nav_item list \<Rightarrow> nav_item list" where
  "add_item item items = (if ni_href item \<in> ni_href ` set items then items else items @ [item])"

definition appNavItems :: "nav_page list list \<Rightarrow> nav_item list" where
  "appNavItems orbitals = fold add_item (concat (map inlineNavItems orbitals)) []"

definition DEFAULT_THEME_KEY :: string where
  "DEFAULT_THEME_KEY = ''minimalist-light''"

definition sigilThemeKey :: "string option \<Rightarrow> string option \<Rightarrow> string" where
  "sigilThemeKey orbitalKey appThemeKey =
     (case orbitalKey of
        Some k \<Rightarrow> if k \<noteq> [] then k else (case appThemeKey of Some a \<Rightarrow> if a \<noteq> [] then a else DEFAULT_THEME_KEY | None \<Rightarrow> DEFAULT_THEME_KEY)
      | None \<Rightarrow> (case appThemeKey of Some a \<Rightarrow> if a \<noteq> [] then a else DEFAULT_THEME_KEY | None \<Rightarrow> DEFAULT_THEME_KEY))"

text \<open>Every root page is reached once, through the first orbital that labels it.\<close>

lemma appNavItems_paths:
  "distinct (map ni_href (appNavItems orbitals))"
  "ni_href ` set (appNavItems orbitals) = ni_href ` (\<Union>pages\<in>set orbitals. set (inlineNavItems pages))"
  "item \<in> set (appNavItems orbitals) \<Longrightarrow> find (\<lambda>i. ni_href i = ni_href item) (concat (map inlineNavItems orbitals)) = Some item"
proof -
  have dist: "distinct (map ni_href items) \<Longrightarrow> distinct (map ni_href (fold add_item xs items))" for xs items
    by (induction xs arbitrary: items) (auto simp: add_item_def)
  have hrefs: "ni_href ` set (fold add_item xs items) = ni_href ` set items \<union> ni_href ` set xs" for xs items
    by (induction xs arbitrary: items) (auto simp: add_item_def)
  have first: "item \<in> set (fold add_item xs items) \<Longrightarrow> item \<notin> set items \<Longrightarrow> find (\<lambda>i. ni_href i = ni_href item) xs = Some item" for xs items
  proof (induction xs arbitrary: items)
    case (Cons x xs)
    show ?case
    proof (cases "item = x")
      case False
      then have "item \<notin> set (add_item x items)" using Cons.prems(2) by (simp add: add_item_def)
      with Cons have later: "find (\<lambda>i. ni_href i = ni_href item) xs = Some item" by simp
      have "ni_href x \<noteq> ni_href item"
      proof
        assume same: "ni_href x = ni_href item"
        have "item \<notin> set (fold add_item ys its)" if "ni_href item \<in> ni_href ` set its" "item \<notin> set its" for ys its
          using that
        proof (induction ys arbitrary: its)
          case (Cons y ys)
          have "ni_href item \<in> ni_href ` set (add_item y its)" "item \<notin> set (add_item y its)"
            using Cons.prems by (auto simp: add_item_def)
          from Cons.IH [OF this] show ?case by simp
        qed simp
        moreover have "ni_href item \<in> ni_href ` set (add_item x items)" using same by (auto simp: add_item_def)
        ultimately show False using Cons.prems(1) \<open>item \<notin> set (add_item x items)\<close> by fastforce
      qed
      then show ?thesis using later by simp
    qed simp
  qed simp
  show "distinct (map ni_href (appNavItems orbitals))" using dist by (simp add: appNavItems_def)
  show "ni_href ` set (appNavItems orbitals) = ni_href ` (\<Union>pages\<in>set orbitals. set (inlineNavItems pages))"
    using hrefs by (simp add: appNavItems_def)
  show "item \<in> set (appNavItems orbitals) \<Longrightarrow> find (\<lambda>i. ni_href i = ni_href item) (concat (map inlineNavItems orbitals)) = Some item"
    using first by (simp add: appNavItems_def)
qed

end
