(* ===== verification/WorkspaceAccess.thy ===== *)
theory WorkspaceAccess
  imports NodePath Hex
begin

text \<open>
  Who may read a behavior that lives in a workspace: the owner segments of
  \<open>host/program/workspace-host.ts\<close> and \<open>workspaceAccessError\<close> of \<open>host/program/index.ts\<close>. A principal
  is the list of its UTF-8 bytes, as characters.
\<close>

section \<open>Owner segments\<close>

definition kept_char :: "char \<Rightarrow> bool" where
  "kept_char c \<longleftrightarrow> is_digit c \<or> (65 \<le> (of_char c :: nat) \<and> (of_char c :: nat) \<le> 90) \<or> (97 \<le> (of_char c :: nat) \<and> (of_char c :: nat) \<le> 122) \<or> c = CHR ''-''"

definition owner_char :: "char \<Rightarrow> string" where
  "owner_char c = (if kept_char c then [c] else CHR ''_'' # pad_start 2 (CHR ''0'') (show_hex (of_char c)))"

definition workspaceOwnerSegment :: "string \<Rightarrow> string" where
  "workspaceOwnerSegment who = concat (map owner_char who)"

text \<open>The encoding is read back from the front: an underscore announces two hex digits.\<close>

fun decodeOwnerSegment :: "string \<Rightarrow> string" where
  "decodeOwnerSegment [] = []"
| "decodeOwnerSegment (c # s) =
     (if c = CHR ''_''
      then (case s of
          a # b # r \<Rightarrow> char_of (radix_digit a * 16 + radix_digit b) # decodeOwnerSegment r
        | _ \<Rightarrow> [])
      else c # decodeOwnerSegment s)"

lemma char_bound: "of_char (c :: char) < (256 :: nat)"
  by (rule nat_of_char_less_256)

lemma nibbles [simp]: "(of_char (c :: char) :: nat) div 16 < 16"
  using char_bound [of c] by (simp add: div_less_iff_less_mult)


lemma owner_char_coded:
  assumes "\<not> kept_char c"
  shows "owner_char c = [CHR ''_'', hex_char (of_char c div 16), hex_char (of_char c mod 16)]"
proof -
  have "(of_char c :: nat) div 16 < 16" by (rule nibbles)
  then show ?thesis using assms
    by (cases "(of_char c :: nat) < 16")
      (simp_all add: owner_char_def show_hex.simps [of "of_char c"] show_hex.simps [of "of_char c div 16"] pad_start_def numeral_2_eq_2 hex_char_0)
qed

lemma underscore_coded: "\<not> kept_char (CHR ''_'')"
  by (simp add: kept_char_def is_digit_def)

lemma decode_owner: "decodeOwnerSegment (owner_char c @ s) = c # decodeOwnerSegment s"
proof (cases "kept_char c")
  case True
  then show ?thesis using underscore_coded by (auto simp: owner_char_def)
next
  case False
  have "(of_char c :: nat) div 16 < 16" by (rule nibbles)
  then have "radix_digit (hex_char (of_char c div 16)) = (of_char c :: nat) div 16"
    "radix_digit (hex_char (of_char c mod 16)) = (of_char c :: nat) mod 16"
    by (simp_all add: hex_char_facts)
  then show ?thesis using False by (simp add: owner_char_coded)
qed

lemma decode_encode_owner: "decodeOwnerSegment (workspaceOwnerSegment p) = p"
  by (induction p) (simp_all add: workspaceOwnerSegment_def decode_owner)

lemma owner_segment_inj: "workspaceOwnerSegment p = workspaceOwnerSegment q \<longleftrightarrow> p = q"
  using decode_encode_owner by metis

lemma hex_char_kept: "d < 16 \<Longrightarrow> kept_char (hex_char d)"
proof -
  have "list_all (\<lambda>d. kept_char (hex_char d)) [0..<16]"
    by (simp add: upt_conv_Cons hex_char_def kept_char_def is_digit_def)
  then show "d < 16 \<Longrightarrow> kept_char (hex_char d)" unfolding list_all_iff by auto
qed

lemma owner_segment_chars: "c \<in> set (workspaceOwnerSegment p) \<Longrightarrow> kept_char c \<or> c = CHR ''_''"
proof (induction p)
  case (Cons x p)
  have "kept_char c \<or> c = CHR ''_''" if "c \<in> set (owner_char x)"
  proof (cases "kept_char x")
    case True
    then show ?thesis using that by (simp add: owner_char_def)
  next
    case False
    have "(of_char x :: nat) div 16 < 16" by (rule nibbles)
    then show ?thesis using that by (auto simp: owner_char_coded [OF False] hex_char_kept)
  qed
  then show ?case using Cons by (auto simp: workspaceOwnerSegment_def)
qed (simp add: workspaceOwnerSegment_def)

lemma owner_segment_plain:
  assumes "p \<noteq> []"
  shows "plain (workspaceOwnerSegment p)" "CHR ''.'' \<notin> set (workspaceOwnerSegment p)"
proof -
  have no: "\<not> kept_char (CHR ''.'')" "\<not> kept_char (CHR ''/'')" by (simp_all add: kept_char_def is_digit_def)
  then have chars: "CHR ''.'' \<notin> set (workspaceOwnerSegment p)" "CHR ''/'' \<notin> set (workspaceOwnerSegment p)"
    using owner_segment_chars [of "CHR ''.''" p] owner_segment_chars [of "CHR ''/''" p] by auto
  have "workspaceOwnerSegment p \<noteq> []"
    using decode_encode_owner [of p] assms by auto
  with chars show "plain (workspaceOwnerSegment p)" unfolding plain_def by auto
  show "CHR ''.'' \<notin> set (workspaceOwnerSegment p)" by (rule chars(1))
qed

section \<open>\<open>path.relative\<close>\<close>

definition resolved_segments :: "string \<Rightarrow> string \<Rightarrow> string \<Rightarrow> segments" where
  "resolved_segments cwd base p =
     normal_segments False (if isAbsolute p then p else if isAbsolute base then base @ ''/'' @ p else cwd @ ''/'' @ base @ ''/'' @ p)"

fun relative_segments :: "segments \<Rightarrow> segments \<Rightarrow> segments" where
  "relative_segments (f # fs) (t # ts) = (if f = t then relative_segments fs ts else replicate (Suc (length fs)) ''..'' @ t # ts)"
| "relative_segments fs ts = replicate (length fs) ''..'' @ ts"

definition path_relative :: "string \<Rightarrow> string \<Rightarrow> string \<Rightarrow> string" where
  "path_relative cwd from_path to_path =
     join_with ''/'' (relative_segments (resolved_segments cwd [] from_path) (resolved_segments cwd [] to_path))"

lemma relative_below: "relative_segments fs (fs @ ts) = ts"
  by (induction fs) (cases ts; simp)+

section \<open>Access\<close>

text \<open>
  \<open>cwd\<close> is the process's directory, \<open>project\<close> the one the host runs in, \<open>host_root\<close> where the installed
  workspace host keeps its workspaces.
\<close>

definition workspaceAccessError :: "string \<Rightarrow> string option \<Rightarrow> string \<Rightarrow> string \<Rightarrow> string option \<Rightarrow> string option" where
  "workspaceAccessError cwd host_root project behavior caller =
     (case host_root of
        None \<Rightarrow> None
      | Some host_dir \<Rightarrow>
          if \<not> starts_with ''./'' behavior then None
          else let under = path_relative cwd host_dir (path_resolve cwd project behavior)
            in if starts_with ''..'' under \<or> isAbsolute under then None
               else let owner = hd (split_on CHR ''/'' under)
                 in if (case caller of Some p \<Rightarrow> workspaceOwnerSegment p = owner | None \<Rightarrow> False) then None
                    else Some (''behavior \"'' @ behavior @ ''\" is in another user'' @ [CHR 0x27] @ ''s workspace''))"

lemma segments_of_resolved: "resolved_segments cwd [] (path_resolve cwd project p) = resolved_segments cwd project p"
proof -
  let ?segs = "resolved_segments cwd project p"
  have plain: "\<forall>s\<in>set ?segs. plain s" unfolding resolved_segments_def using normal_segments_plain by blast
  have path: "path_resolve cwd project p = ''/'' @ join_with ''/'' ?segs"
    by (simp add: path_resolve_def resolved_segments_def Let_def)
  then have absolute: "isAbsolute (path_resolve cwd project p)" by (simp add: isAbsolute_iff)
  have "normal_segments False (''/'' @ join_with ''/'' ?segs) = ?segs"
  proof (cases "?segs = []")
    case True
    then show ?thesis by (simp add: normal_segments_def)
  next
    case False
    show ?thesis unfolding normal_segments_def split_rooted [OF False plain]
      by (simp add: normal_fold_of_plain [OF plain])
  qed
  then show ?thesis using absolute path by (simp add: resolved_segments_def)
qed

text \<open>
  A behavior that lies in a principal's workspace is readable by that principal and by nobody else, signed
  in or not, however its path is written: the owner segments of different principals differ, and the path
  is looked at resolved.
\<close>
theorem workspace_read_by_owner:
  assumes "starts_with ''./'' behavior" and "q \<noteq> []"
    and below: "resolved_segments cwd project behavior = resolved_segments cwd [] host_dir @ workspaceOwnerSegment q # rest"
  shows "workspaceAccessError cwd (Some host_dir) project behavior caller = None \<longleftrightarrow> caller = Some q"
proof -
  let ?owner = "workspaceOwnerSegment q" and ?under = "path_relative cwd host_dir (path_resolve cwd project behavior)"
  have "\<forall>s\<in>set (resolved_segments cwd project behavior). plain s"
    unfolding resolved_segments_def using normal_segments_plain by blast
  then have plain: "\<forall>s\<in>set (?owner # rest). plain s" using below by auto
  have under: "?under = join_with ''/'' (?owner # rest)"
    by (simp add: path_relative_def segments_of_resolved below relative_below)
  have "split_on CHR ''/'' (join_with ''/'' (?owner # rest)) = ?owner # rest"
    by (rule split_on_join) (use plain in \<open>auto simp only: plain_def list.distinct\<close>)
  then have owner: "hd (split_on CHR ''/'' ?under) = ?owner" using under by simp
  obtain c s where seg: "?owner = c # s" "c \<noteq> CHR ''.''" "c \<noteq> CHR ''/''"
    using owner_segment_plain [OF assms(2)] by (cases ?owner) (auto simp: plain_def)
  obtain t where "join_with ''/'' (?owner # rest) = ?owner @ t" by (cases rest) auto
  then have "\<not> starts_with ''..'' ?under" "\<not> isAbsolute ?under"
    using under seg by (auto simp: starts_with_def isAbsolute_iff)
  then show ?thesis using assms(1) owner
    by (auto simp: workspaceAccessError_def Let_def owner_segment_inj split: option.split)
qed

theorem workspace_read_by_owner_witness:
  "map (workspaceAccessError ''/'' (Some ''/app/workspaces'') ''/app'' ''./orbitals/../workspaces/bob/s1/orbitals/Shop'')
     [Some ''bob'', None] ! 0 = None
   \<and> workspaceAccessError ''/'' (Some ''/app/workspaces'') ''/app'' ''./orbitals/../workspaces/bob/s1/orbitals/Shop'' (Some ''al'') \<noteq> None"
proof -
  have "resolved_segments ''/'' ''/app'' ''./orbitals/../workspaces/bob/s1/orbitals/Shop''
      = resolved_segments ''/'' [] ''/app/workspaces'' @ workspaceOwnerSegment ''bob'' # [''s1'', ''orbitals'', ''Shop'']"
    by code_simp
  from workspace_read_by_owner [OF _ _ this] show ?thesis by (simp add: starts_with_def)
qed

end
