(* ===== verification/ProgramHost.thy ===== *)
theory ProgramHost
  imports WorkspaceAccess
begin

text \<open>
  The host side of the program effects (\<open>host/program/index.ts\<close>): every effect runs the installed \<open>orb\<close>
  and reads its JSON. \<open>orb\<close>, the disk it works on, the parsers and the composer of @almadar/core and the
  installed workspaces are parameters; a program is the JSON value its parser gave. Writes to the disk
  succeed, and the runs a \<open>Promise.all\<close> starts are taken one after the other.
\<close>

section \<open>Running \<open>orb\<close>\<close>

record orb_run =
  or_stdout :: string
  or_stderr :: string
  or_code :: int

record program_check =
  pc_valid :: bool
  pc_errors :: "jval list"
  pc_warnings :: "jval list"

datatype describe_target = TraitTarget string string jobj | OrbitalTarget string string | BehaviorTarget string

fun target_behavior :: "describe_target \<Rightarrow> string" where
  "target_behavior (TraitTarget b _ _) = b"
| "target_behavior (OrbitalTarget b _) = b"
| "target_behavior (BehaviorTarget b) = b"

record step_outcome =
  so_trait :: string
  so_executed :: bool
  so_previous :: string
  so_new :: string
  so_emits :: "(string \<times> jval option) list"
  so_firedArm :: "int option"
  so_guards :: "(int \<times> jval \<times> bool \<times> string option) list"
  so_effects :: "jval list"

record step_request =
  sq_orbital :: string
  sq_trait :: string
  sq_from :: string
  sq_event :: string
  sq_payload :: jval

record compose_options =
  co_appName :: string
  co_layout :: "string option"
  co_theme :: "string option"

text \<open>A trait of an orbital is a text or an object with its \<open>ref\<close> and its name, a page an object with a path and traits.\<close>

datatype trait_entry = TText string | TObject "string option" "string option"

record program_page =
  pp_path :: "string option"
  pp_traits :: "trait_entry list"

record program_orbital =
  po_name :: string
  po_ref :: "string option" \<comment> \<open>\<open>reference.ref\<close>\<close>
  po_uses :: "(string \<times> string) list" \<comment> \<open>\<open>as\<close> and \<open>from\<close>\<close>
  po_traits :: "trait_entry list"
  po_pages :: "program_page list"

text \<open>What the composer of @almadar/core is given beside the programs.\<close>

record composer_options =
  cm_appName :: string
  cm_layout :: "string option"
  cm_organismOf :: "string \<Rightarrow> string option"
  cm_catalogOrbitalOf :: "string \<Rightarrow> (string \<times> string) option"
  cm_load :: "string \<Rightarrow> jval option"
  cm_importedProgramOf :: "program_orbital \<Rightarrow> jval option"

record 'f workspace_host =
  wh_root :: string
  wh_open :: "string \<Rightarrow> string \<Rightarrow> 'f \<Rightarrow> (string + string) \<times> 'f" \<comment> \<open>the directory of a principal's workspace\<close>
  wh_snapshot :: "string \<Rightarrow> string \<Rightarrow> 'f \<Rightarrow> 'f"

record 'f orb_env =
  oe_processCwd :: string
  oe_cwd :: string
  oe_tmpdir :: string
  oe_orb :: "string list \<Rightarrow> 'f \<Rightarrow> orb_run \<times> 'f"
  oe_write :: "string \<Rightarrow> string \<Rightarrow> 'f \<Rightarrow> 'f"
  oe_rm :: "string \<Rightarrow> 'f \<Rightarrow> 'f"
  oe_read :: "string \<Rightarrow> 'f \<Rightarrow> string option"
  oe_exists :: "string \<Rightarrow> 'f \<Rightarrow> bool"
  oe_json :: "string \<Rightarrow> string + jval"
  oe_stringify :: "jval \<Rightarrow> string"
  oe_pretty :: "jval \<Rightarrow> string"
  oe_trim :: "string \<Rightarrow> string"
  oe_program :: "jval \<Rightarrow> string + jval"
  oe_catalog :: "jval \<Rightarrow> string + jval"
  oe_traitDescription :: "jval \<Rightarrow> string + jval"
  oe_behaviorDescription :: "jval \<Rightarrow> string + jval"
  oe_report :: "jval \<Rightarrow> string + program_check"
  oe_stepReport :: "jval \<Rightarrow> string + string + step_outcome list list"
  oe_scope :: "jval option \<Rightarrow> string + string list \<times> string list"
  oe_target :: "jval option \<Rightarrow> string + describe_target"
  oe_steps :: "jval option \<Rightarrow> string + step_request list"
  oe_literal :: "describe_target \<Rightarrow> string"
  oe_name :: "jval \<Rightarrow> string" \<comment> \<open>a program's name\<close>
  oe_orbitals :: "jval \<Rightarrow> program_orbital list"
  oe_message :: "jval \<Rightarrow> string" \<comment> \<open>an issue's message\<close>
  oe_compose :: "jval list \<Rightarrow> composer_options \<Rightarrow> string + jobj" \<comment> \<open>\<open>composeAppFromFiles\<close>\<close>
  oe_packages :: "(string \<times> string) list" \<comment> \<open>\<open>discoverBehaviorPackages\<close>: name and prefix\<close>
  oe_entries :: "jval \<Rightarrow> string + (string \<times> jval option) list" \<comment> \<open>a catalog's behaviors and patterns\<close>
  oe_imports :: "jval \<Rightarrow> string list" \<comment> \<open>\<open>importsOf\<close>\<close>
  oe_graph :: "jval \<Rightarrow> (string \<Rightarrow> string) \<Rightarrow> (string \<Rightarrow> jval option) \<Rightarrow> (string \<Rightarrow> jval option) \<Rightarrow> jval"
  oe_mergeConfig :: "jval \<Rightarrow> jval" \<comment> \<open>\<open>mergeCallSiteConfigOverrides\<close> with no defaults\<close>
  oe_defaultPage :: "jval \<Rightarrow> string option"
  oe_workspaces :: "'f workspace_host option"

text \<open>
  The host's world: the disk and, as ghosts, the names for temporary files, the runs of \<open>orb\<close> and the
  programs written into the project or a workspace.
\<close>

record 'f program_world =
  pw_fs :: 'f
  pw_fresh :: nat
  pw_ran :: "string list list"
  pw_published :: "(string \<times> string) list"

type_synonym ('f, 'a) program_call = "'f program_world \<Rightarrow> (string + 'a) \<times> 'f program_world"

definition runOrb :: "'f orb_env \<Rightarrow> string list \<Rightarrow> 'f program_world \<Rightarrow> (string + orb_run) \<times> 'f program_world" where
  "runOrb oe args w =
     (case oe_orb oe args (pw_fs w) of (r, fs') \<Rightarrow> (Inr r, w\<lparr>pw_fs := fs', pw_ran := pw_ran w @ [args]\<rparr>))"

definition show_code :: "int \<Rightarrow> string" where
  "show_code n = (if n < 0 then ''-'' @ show_nat (nat (- n)) else show_nat (nat n))"

definition parseJson :: "'f orb_env \<Rightarrow> (jval \<Rightarrow> string + 'a) \<Rightarrow> orb_run \<Rightarrow> string \<Rightarrow> string + 'a" where
  "parseJson oe schema run what =
     (if or_code run \<noteq> 0 then Inl (what @ '': orb exited '' @ show_code (or_code run) @ '': '' @ oe_trim oe (or_stderr run))
      else rbind (oe_json oe (or_stdout run)) (\<lambda>v. case schema v of
          Inl e \<Rightarrow> Inl (what @ '': unexpected orb output: '' @ e)
        | Inr x \<Rightarrow> Inr x))"

definition orb_json :: "'f orb_env \<Rightarrow> (jval \<Rightarrow> string + 'a) \<Rightarrow> string \<Rightarrow> string list \<Rightarrow> ('f, 'a) program_call" where
  "orb_json oe schema what args = sbind (runOrb oe args) (\<lambda>run w. (parseJson oe schema run what, w))"

text \<open>Temporary files, removed however the work ends.\<close>

definition temp_dir :: "'f orb_env \<Rightarrow> string \<Rightarrow> nat \<Rightarrow> string" where
  "temp_dir oe prefix n = oe_tmpdir oe @ ''/'' @ prefix @ show_nat n"

definition on_disk :: "('f \<Rightarrow> 'f) \<Rightarrow> 'f program_world \<Rightarrow> 'f program_world" where
  "on_disk f w = w\<lparr>pw_fs := f (pw_fs w)\<rparr>"

definition withDir :: "'f orb_env \<Rightarrow> string \<Rightarrow> (string \<Rightarrow> ('f, 'a) program_call) \<Rightarrow> ('f, 'a) program_call" where
  "withDir oe prefix use w =
     (let dir = temp_dir oe prefix (pw_fresh w);
          (r, w1) = use dir (w\<lparr>pw_fresh := pw_fresh w + 1\<rparr>)
      in (r, on_disk (oe_rm oe dir) w1))"

definition withTempFile :: "'f orb_env \<Rightarrow> string \<Rightarrow> string \<Rightarrow> (string \<Rightarrow> ('f, 'a) program_call) \<Rightarrow> ('f, 'a) program_call" where
  "withTempFile oe name content use =
     withDir oe ''almadar-program-'' (\<lambda>dir w. let path = dir @ ''/'' @ name in use path (on_disk (oe_write oe path content) w))"

definition withProjectFile :: "'f orb_env \<Rightarrow> string \<Rightarrow> string \<Rightarrow> (string \<Rightarrow> ('f, 'a) program_call) \<Rightarrow> ('f, 'a) program_call" where
  "withProjectFile oe name content use w =
     (let path = oe_cwd oe @ ''/.'' @ show_nat (pw_fresh w) @ ''-'' @ name;
          (r, w1) = use path (on_disk (oe_write oe path content) (w\<lparr>pw_fresh := pw_fresh w + 1\<rparr>))
      in (r, on_disk (oe_rm oe path) w1))"

section \<open>Behaviors\<close>

definition behaviorCatalog :: "'f orb_env \<Rightarrow> string list \<times> string list \<Rightarrow> ('f, jval) program_call" where
  "behaviorCatalog oe scope =
     orb_json oe (oe_catalog oe) ''behavior/catalog''
       ([''behaviors'', ''catalog'', ''--json''] @ fst scope @ concat (map (\<lambda>e. [''--exposure'', e]) (snd scope)))"

definition behaviorDescribe :: "'f orb_env \<Rightarrow> describe_target \<Rightarrow> ('f, jval) program_call" where
  "behaviorDescribe oe t =
     (case t of
        TraitTarget _ _ _ \<Rightarrow> orb_json oe (oe_traitDescription oe) ''behavior/describe'' [''behaviors'', ''describe'', ''--json'', oe_literal oe t]
      | OrbitalTarget b orb \<Rightarrow>
          orb_json oe (oe_behaviorDescription oe) ''behavior/describe'' [''behaviors'', ''describe'', ''--json'', b @ ''.orbitals.'' @ orb]
      | BehaviorTarget b \<Rightarrow> orb_json oe (oe_behaviorDescription oe) ''behavior/describe'' [''behaviors'', ''describe'', ''--json'', b])"

definition behaviorSource :: "'f orb_env \<Rightarrow> string \<Rightarrow> ('f, jval) program_call" where
  "behaviorSource oe behavior = orb_json oe (oe_program oe) ''behavior/source'' [''behaviors'', ''source'', ''--json'', behavior]"

text \<open>\<open>WHICH_LINE\<close>: an absolute path of a program file without blanks, a blank, and something in parentheses.\<close>

definition which_path :: "string \<Rightarrow> string option" where
  "which_path line =
     (let path = takeWhile (\<lambda>c. \<not> is_space c) line; rest = dropWhile (\<lambda>c. \<not> is_space c) line
      in if isAbsolute path \<and> ((ends_with ''.orb'' path \<and> 5 < length path) \<or> (ends_with ''.lolo'' path \<and> 6 < length path))
            \<and> starts_with '' ('' rest \<and> ends_with '')'' rest \<and> 3 < length rest \<and> CHR 0x0D \<notin> set rest
         then Some path else None)"

definition behaviorFile :: "'f orb_env \<Rightarrow> string \<Rightarrow> ('f, string + string) program_call" where
  "behaviorFile oe behavior =
     (if starts_with ''./'' behavior
      then (\<lambda>w. let path = path_resolve (oe_processCwd oe) (oe_cwd oe) behavior @ ''.orb''
             in (Inr (if oe_exists oe path (pw_fs w) then Inr path else Inl (''no program at '' @ behavior)), w))
      else sbind (runOrb oe [''behaviors'', ''which'', behavior]) (\<lambda>run w.
        (Inr (case (or_code run = 0, which_path (last (split_on (CHR 0x0A) (oe_trim oe (or_stdout run))))) of
            (True, Some path) \<Rightarrow> Inr path
          | _ \<Rightarrow> (let err = oe_trim oe (or_stderr run)
              in Inl (''behavior \"'' @ behavior @ ''\" is not installed'' @ (if err \<noteq> [] then '': '' @ err else [])))), w)))"

definition behaviorResolve :: "'f orb_env \<Rightarrow> string \<Rightarrow> ('f, string + jval) program_call" where
  "behaviorResolve oe behavior =
     sbind (behaviorFile oe behavior) (\<lambda>f. case f of
         Inl e \<Rightarrow> (\<lambda>w. (Inr (Inl e), w))
       | Inr path \<Rightarrow> sbind (orb_json oe (oe_program oe) ''behavior/resolve'' [''resolve'', path]) (\<lambda>v w. (Inr (Inr v), w)))"

section \<open>Programs\<close>

datatype effect_value = JsonValue jval | TextValue string | CheckValue program_check | StepsValue "jval list" | Evaluated string "(string \<times> string) list"

datatype effect_outcome = EffectOk effect_value | EffectFailed string "jval list option"

definition issue_list :: "'f orb_env \<Rightarrow> string \<Rightarrow> jval list \<Rightarrow> string" where
  "issue_list oe op issues =
     op @ '': '' @ show_nat (length issues) @ '' validation issue(s): '' @ join_with ''; '' (map (oe_message oe) issues)"

definition programReadOutcome :: "'f orb_env \<Rightarrow> string \<Rightarrow> ('f, effect_outcome) program_call" where
  "programReadOutcome oe source =
     withTempFile oe ''program.lolo'' source (\<lambda>path.
       sbind (runOrb oe [''emit'', ''orb'', path]) (\<lambda>run.
         if or_code run \<noteq> 0
         then (\<lambda>w. (Inr (EffectFailed (''program/read: orb exited '' @ show_code (or_code run) @ '': '' @ oe_trim oe (or_stderr run)) None), w))
         else case oe_json oe (or_stdout run) of
             Inl e \<Rightarrow> (\<lambda>w. (Inl e, w))
           | Inr v \<Rightarrow> (case oe_program oe v of
               Inr p \<Rightarrow> (\<lambda>w. (Inr (EffectOk (JsonValue p)), w))
             | Inl e \<Rightarrow> sbind (orb_json oe (oe_report oe) ''program/read'' [''validate'', ''--json'', ''--deny-warnings'', path]) (\<lambda>report w.
                 (let issues = pc_errors report @ pc_warnings report
                  in (Inr (if issues = [] then EffectFailed (''program/read: not a program: '' @ e) None
                       else EffectFailed (issue_list oe ''program/read'' issues) (Some issues)), w))))))"

definition programPrint :: "'f orb_env \<Rightarrow> jval \<Rightarrow> ('f, string) program_call" where
  "programPrint oe program =
     withTempFile oe ''program.orb'' (oe_stringify oe program) (\<lambda>path.
       sbind (runOrb oe [''emit'', ''lolo'', path]) (\<lambda>run w.
         (if or_code run \<noteq> 0 then Inl (''program/print: orb exited '' @ show_code (or_code run) @ '': '' @ oe_trim oe (or_stderr run))
          else Inr (or_stdout run), w)))"

definition program_name_char :: "char \<Rightarrow> bool" where
  "program_name_char c \<longleftrightarrow> kept_char c \<or> c = CHR ''_''"

text \<open>\<open>PROGRAM_NAME\<close>.\<close>

definition is_program_name :: "string \<Rightarrow> bool" where
  "is_program_name n \<longleftrightarrow> n \<noteq> [] \<and> kept_char (hd n) \<and> hd n \<noteq> CHR ''-'' \<and> list_all program_name_char n"

definition coded_issue :: "string \<Rightarrow> string \<Rightarrow> jval" where
  "coded_issue code msg = JObj [(''code'', JStr code), (''message'', JStr msg)]"

text \<open>\<open>stampAndValidate\<close>: the stamped file with the report, or the reason there is none.\<close>

definition stampAndValidate :: "'f orb_env \<Rightarrow> jval \<Rightarrow> jval option \<Rightarrow> bool \<Rightarrow> string \<Rightarrow> string
    \<Rightarrow> ('f, jval list + string \<times> program_check) program_call" where
  "stampAndValidate oe program prior final dir caller =
     (let name = oe_name oe program
      in if \<not> is_program_name name
         then (\<lambda>w. (Inr (Inl [coded_issue ''PROGRAM_NAME_INVALID'' (''program name \"'' @ name @ ''\" is not a file name'')]), w))
         else let input = dir @ ''/'' @ name @ ''.orb''; stamped = dir @ ''/'' @ name @ ''.stamped.orb''; priorPath = dir @ ''/prior.orb''
           in (\<lambda>w. sbind (runOrb oe ([''stamp'', input, ''-o'', stamped] @ (case prior of Some _ \<Rightarrow> [''--prior'', priorPath] | None \<Rightarrow> []))) (\<lambda>stamp.
             if or_code stamp \<noteq> 0
             then (\<lambda>w. (Inr (Inl [coded_issue ''PROGRAM_STAMP_FAILED'' (oe_trim oe (or_stderr stamp))]), w))
             else sbind (orb_json oe (oe_report oe) caller ([''validate'', ''--json'', ''--deny-warnings''] @ (if final then [''--final''] else []) @ [stamped]))
               (\<lambda>report w. (Inr (Inr (stamped, report\<lparr>pc_valid := pc_valid report \<and> pc_errors report = [] \<and> pc_warnings report = []\<rparr>)), w)))
             (on_disk (case prior of Some p \<Rightarrow> oe_write oe priorPath (oe_stringify oe p) | None \<Rightarrow> id)
               (on_disk (oe_write oe input (oe_stringify oe program)) w))))"

definition programValidate :: "'f orb_env \<Rightarrow> jval \<Rightarrow> jval option \<Rightarrow> bool \<Rightarrow> ('f, program_check) program_call" where
  "programValidate oe program prior final =
     withDir oe ''almadar-validate-'' (\<lambda>dir.
       sbind (stampAndValidate oe program prior final dir ''program/validate'') (\<lambda>run w.
         (Inr (case run of Inr (_, report) \<Rightarrow> report | Inl errors \<Rightarrow> \<lparr>pc_valid = False, pc_errors = errors, pc_warnings = []\<rparr>), w)))"

text \<open>\<open>programEval\<close>: the program is written where it belongs only when nothing was found against it.\<close>

definition program_traits :: "'f orb_env \<Rightarrow> jval \<Rightarrow> string list" where
  "program_traits oe program =
     concat (map (\<lambda>orbital. concat (map (\<lambda>t. case t of TObject _ (Some n) \<Rightarrow> [n] | _ \<Rightarrow> []) (po_traits orbital))) (oe_orbitals oe program))"

text \<open>A workspace takes a snapshot after the write.\<close>

definition eval_snapshot :: "'f orb_env \<Rightarrow> (string \<times> string option) option \<Rightarrow> string \<Rightarrow> string \<Rightarrow> 'f \<Rightarrow> 'f" where
  "eval_snapshot oe workspace dir name =
     (case (workspace, oe_workspaces oe) of (Some _, Some wh) \<Rightarrow> wh_snapshot wh dir (''program/eval '' @ name) | _ \<Rightarrow> id)"

definition publish :: "'f orb_env \<Rightarrow> ('f \<Rightarrow> 'f) \<Rightarrow> string \<Rightarrow> string \<Rightarrow> 'f program_world \<Rightarrow> 'f program_world" where
  "publish oe snapshot path content w =
     on_disk snapshot (on_disk (oe_write oe path content) w)\<lparr>pw_published := pw_published w @ [(path, content)]\<rparr>"

definition writes_program :: "'f orb_env \<Rightarrow> jval \<Rightarrow> (string \<times> string option) option \<Rightarrow> string \<times> string \<Rightarrow> jval \<Rightarrow> ('f, jval list + string \<times> (string \<times> string) list) program_call" where
  "writes_program oe program workspace target written w =
     (let behavior = snd target @ ''/orbitals/'' @ oe_name oe program
      in (Inr (Inr (behavior, map (\<lambda>t. (behavior, t)) (program_traits oe written))),
          publish oe (eval_snapshot oe workspace (fst target) (oe_name oe program)) (fst target @ ''/orbitals/'' @ oe_name oe program @ ''.orb'')
            (oe_pretty oe written) w))"

definition eval_target :: "'f orb_env \<Rightarrow> (string \<times> string option) option \<Rightarrow> ('f, jval list + string \<times> string) program_call" where
  "eval_target oe workspace =
     (case workspace of
        None \<Rightarrow> (\<lambda>w. (Inr (Inr (oe_cwd oe, ''.'')), w))
      | Some (wid, who) \<Rightarrow> (case oe_workspaces oe of
            None \<Rightarrow> (\<lambda>w. (Inr (Inl [coded_issue ''PROGRAM_NO_WORKSPACE_HOST'' ''no workspace host is installed on this host'']), w))
          | Some wh \<Rightarrow> (case who of
                None \<Rightarrow> (\<lambda>w. (Inr (Inl [coded_issue ''PROGRAM_WORKSPACE_UNAUTHORIZED'' ''a workspace eval needs a signed-in caller'']), w))
              | Some caller \<Rightarrow> (\<lambda>w. case wh_open wh wid caller (pw_fs w) of
                    (Inl e, fs') \<Rightarrow> (Inl e, w\<lparr>pw_fs := fs'\<rparr>)
                  | (Inr workDir, fs') \<Rightarrow>
                      (let rel = path_relative (oe_processCwd oe) (oe_cwd oe) workDir
                       in (Inr (if starts_with ''..'' rel \<or> isAbsolute rel
                           then Inl [coded_issue ''PROGRAM_WORKSPACE_OUTSIDE_PROJECT'' (''workspace '' @ workDir @ '' is outside the project '' @ oe_cwd oe)]
                           else Inr (workDir, ''./'' @ rel)), w\<lparr>pw_fs := fs'\<rparr>))))))"

definition written_program :: "'f orb_env \<Rightarrow> string \<Rightarrow> ('f, jval) program_call" where
  "written_program oe stamped w =
     (case oe_read oe stamped (pw_fs w) of
        None \<Rightarrow> (Inl (''ENOENT: '' @ stamped), w)
      | Some txt \<Rightarrow> (rbind (oe_json oe txt) (\<lambda>v. case oe_program oe v of
            Inl e \<Rightarrow> Inl (''program/eval: stamped program does not parse: '' @ e)
          | Inr p \<Rightarrow> Inr p), w))"

definition programEval :: "'f orb_env \<Rightarrow> jval \<Rightarrow> (string \<times> string option) option \<Rightarrow> jval option \<Rightarrow> bool
    \<Rightarrow> ('f, jval list + string \<times> (string \<times> string) list) program_call" where
  "programEval oe program workspace prior final =
     withDir oe ''almadar-eval-'' (\<lambda>dir.
       sbind (stampAndValidate oe program prior final dir ''program/eval'') (\<lambda>run. case run of
           Inl errors \<Rightarrow> (\<lambda>w. (Inr (Inl errors), w))
         | Inr (stamped, report) \<Rightarrow>
             if \<not> pc_valid report \<or> pc_errors report @ pc_warnings report \<noteq> []
             then (\<lambda>w. (Inr (Inl (pc_errors report @ pc_warnings report)), w))
             else sbind (written_program oe stamped) (\<lambda>written.
               sbind (eval_target oe workspace) (\<lambda>target. case target of
                   Inl errors \<Rightarrow> (\<lambda>w. (Inr (Inl errors), w))
                 | Inr target \<Rightarrow> writes_program oe program workspace target written))))"

text \<open>\<open>programCompose\<close>: every behavior the programs use is loaded first.\<close>

definition behaviorName :: "string \<Rightarrow> string" where
  "behaviorName src = last (split_on (CHR ''/'') src)"

fun load_sources :: "'f orb_env \<Rightarrow> string list \<Rightarrow> (string \<times> jval) list \<Rightarrow> ('f, (string \<times> jval) list) program_call" where
  "load_sources oe [] loaded w = (Inr loaded, w)"
| "load_sources oe (src # srcs) loaded w =
     sbind (behaviorSource oe src) (\<lambda>p. load_sources oe srcs (AList.update (behaviorName src) p loaded)) w"

text \<open>The behavior an import orbital takes its source from.\<close>

definition importSource :: "program_orbital \<Rightarrow> (string \<times> string) option" where
  "importSource orbital =
     (case po_ref orbital of
        None \<Rightarrow> None
      | Some ref \<Rightarrow> (case split_on (CHR ''.'') ref of
            alias # kind # name # _ \<Rightarrow>
              if kind \<noteq> ''orbitals'' then None else map_option (\<lambda>src. (src, name)) (map_of (po_uses orbital) alias)
          | _ \<Rightarrow> None))"

definition catalogOrbitalOf :: "program_orbital list \<Rightarrow> string \<Rightarrow> (string \<times> string) option" where
  "catalogOrbitalOf orbitals name =
     (case map_of (rev (map (\<lambda>orbital. (po_name orbital, orbital)) orbitals)) name of
        None \<Rightarrow> None
      | Some orbital \<Rightarrow> map_option (\<lambda>(src, orb). (behaviorName src, orb)) (importSource orbital))"

definition compose_sources :: "'f orb_env \<Rightarrow> jval list \<Rightarrow> string list" where
  "compose_sources oe programs =
     fold set_add (concat (map (\<lambda>orbital. map snd (po_uses orbital)) (concat (map (oe_orbitals oe) programs)))) []"

definition programCompose :: "'f orb_env \<Rightarrow> jval list \<Rightarrow> compose_options \<Rightarrow> ('f, jval) program_call" where
  "programCompose oe programs options =
     sbind (load_sources oe (compose_sources oe programs) []) (\<lambda>loaded w.
       (let catalog = catalogOrbitalOf (concat (map (oe_orbitals oe) programs))
        in rbind (oe_compose oe programs
             \<lparr>cm_appName = co_appName options, cm_layout = co_layout options, cm_organismOf = (\<lambda>name. map_option fst (catalog name)),
              cm_catalogOrbitalOf = catalog, cm_load = map_of loaded,
              cm_importedProgramOf = (\<lambda>orbital. Option.bind (importSource orbital) (\<lambda>(src, _). map_of loaded (behaviorName src)))\<rparr>)
           (\<lambda>schema. Inr (JObj (case co_theme options of Some t \<Rightarrow> AList.update ''theme'' (JStr t) schema | None \<Rightarrow> schema))), w))"

text \<open>\<open>programStep\<close>: each request as asked with the circuit that ran, or which trait did not run.\<close>

definition guard_word :: "step_outcome \<Rightarrow> string" where
  "guard_word o1 =
     (case so_firedArm o1 of
        Some arm \<Rightarrow> if list_ex (\<lambda>(a, _). a = arm) (so_guards o1) then ''pass'' else ''none''
      | None \<Rightarrow> if so_guards o1 \<noteq> [] then ''fail'' else ''none'')"

definition played_step :: "nat \<Rightarrow> step_request \<Rightarrow> step_outcome \<Rightarrow> jval" where
  "played_step i q o1 =
     JObj [(''orbital'', JStr (sq_orbital q)), (''trait'', JStr (sq_trait q)), (''from'', JStr (sq_from q)), (''event'', JStr (sq_event q)),
       (''payload'', sq_payload q),
       (''result'', JObj ([(''trait'', JStr (so_trait o1)), (''event'', JStr (sq_event q)), (''transitionFired'', JBool (so_executed o1)),
          (''guard'', JStr (guard_word o1))]
         @ (case so_firedArm o1 of Some arm \<Rightarrow> [(''firedArm'', JInt arm)] | None \<Rightarrow> [])
         @ [(''state'', JObj [(''before'', JStr (so_previous o1)), (''after'', JStr (so_new o1))]), (''effects'', JArr (so_effects o1)),
            (''emitted'', JArr (map (\<lambda>(ev, payload). JObj ([(''type'', JStr ev)] @ (case payload of Some p \<Rightarrow> [(''payload'', p)] | None \<Rightarrow> [])
               @ [(''timestamp'', JInt (int i))])) (so_emits o1))),
            (''guards'', JArr (map (\<lambda>(arm, guard, passed, err). JObj ([(''arm'', JInt arm), (''guard'', guard), (''passed'', JBool passed), (''trace'', JArr [])]
               @ (case err of Some e \<Rightarrow> [(''error'', JStr e)] | None \<Rightarrow> []))) (so_guards o1)))]))]"

fun played_steps :: "nat \<Rightarrow> step_request list \<Rightarrow> step_outcome list list \<Rightarrow> string + jval list" where
  "played_steps i [] reports = Inr []"
| "played_steps i (q # qs) reports =
     (case find (\<lambda>o1. so_trait o1 = sq_trait q) (if i < length reports then reports ! i else []) of
        None \<Rightarrow> Inl (''trait \"'' @ sq_trait q @ ''\" did not run'')
      | Some o1 \<Rightarrow> rbind (played_steps (i + 1) qs reports) (\<lambda>rest. Inr (played_step i q o1 # rest)))"

definition step_query :: "step_request \<Rightarrow> jval" where
  "step_query q = JObj [(''trait'', JStr (sq_trait q)), (''event'', JStr (sq_event q)), (''payload'', sq_payload q), (''from'', JStr (sq_from q))]"

definition programStep :: "'f orb_env \<Rightarrow> jval \<Rightarrow> step_request list \<Rightarrow> ('f, string + jval list) program_call" where
  "programStep oe program requests =
     withTempFile oe ''program.orb'' (oe_stringify oe program) (\<lambda>path.
       sbind (orb_json oe (oe_stepReport oe) ''program/step''
           [''execute'', path, ''--steps'', oe_stringify oe (JArr (map step_query requests))]) (\<lambda>report w.
         (Inr (case report of Inl e \<Rightarrow> Inl e | Inr steps \<Rightarrow> played_steps 0 requests steps), w)))"

section \<open>Dependencies\<close>

type_synonym behavior_index = "(string \<times> string \<times> string \<times> jval option) list" \<comment> \<open>name, tier, prefix, pattern\<close>

definition package_tier :: "string \<Rightarrow> string" where
  "package_tier n = (if n = ''@almadar/std'' then ''std'' else if n = ''@almadar-io/behaviors'' then ''io'' else ''unknown'')"

definition add_entry :: "string \<Rightarrow> string \<Rightarrow> string \<times> jval option \<Rightarrow> behavior_index \<Rightarrow> behavior_index" where
  "add_entry tier prefix entry out =
     (let name = drop (length prefix + 1) (fst entry)
      in if map_of out name = None then AList.update name (tier, prefix, snd entry) out else out)"

fun installedBehaviorIndex :: "'f orb_env \<Rightarrow> (string \<times> string) list \<Rightarrow> behavior_index \<Rightarrow> ('f, behavior_index) program_call" where
  "installedBehaviorIndex oe [] out w = (Inr out, w)"
| "installedBehaviorIndex oe ((name, prefix) # pkgs) out w =
     sbind (orb_json oe (oe_entries oe) ''behavior/dependencies'' [''behaviors'', ''catalog'', ''--json'', ''--no-vectors'', prefix])
       (\<lambda>entries. installedBehaviorIndex oe pkgs (fold (add_entry (package_tier name) prefix) entries out)) w"

fun load_frontier :: "'f orb_env \<Rightarrow> behavior_index \<Rightarrow> string list \<Rightarrow> ('f, (string \<times> jval option) list) program_call" where
  "load_frontier oe index [] w = (Inr [], w)"
| "load_frontier oe index (name # names) w =
     sbind (case map_of index name of
         None \<Rightarrow> (\<lambda>w. (Inr None, w))
       | Some (_, prefix, _) \<Rightarrow> sbind (behaviorSource oe (prefix @ ''/'' @ name)) (\<lambda>p w. (Inr (Some p), w)))
       (\<lambda>orb. sbind (load_frontier oe index names) (\<lambda>rest w. (Inr ((name, orb) # rest), w))) w"

definition imports_of :: "'f orb_env \<Rightarrow> jval option \<Rightarrow> string list" where
  "imports_of oe orb = (case orb of Some p \<Rightarrow> oe_imports oe p | None \<Rightarrow> [])"

fun absorb :: "'f orb_env \<Rightarrow> (string \<times> jval option) list \<Rightarrow> (string \<times> jval option) list \<Rightarrow> string list \<Rightarrow> (string \<times> jval option) list \<times> string list" where
  "absorb oe [] orbs nxt = (orbs, nxt)"
| "absorb oe ((name, orb) # loaded) orbs nxt =
     (let orbs' = AList.update name orb orbs
      in absorb oe loaded orbs' (fold set_add (filter (\<lambda>n. map_of orbs' n = None) (imports_of oe orb)) nxt))"

lemma load_frontier_names:
  "load_frontier oe index names w = (Inr loaded, w') \<Longrightarrow> map fst loaded = names
     \<and> (\<forall>(n, orb)\<in>set loaded. map_of index n = None \<longrightarrow> orb = None)"
proof (induction names arbitrary: w w' loaded)
  case (Cons name names)
  from Cons.prems obtain orb w1 rest w2 where
    first: "(case map_of index name of None \<Rightarrow> (\<lambda>w. (Inr None, w))
       | Some (_, prefix, _) \<Rightarrow> sbind (behaviorSource oe (prefix @ ''/'' @ name)) (\<lambda>p w. (Inr (Some p), w))) w = (Inr orb, w1)"
    and rest: "load_frontier oe index names w1 = (Inr rest, w2)" and loaded: "loaded = (name, orb) # rest"
    by (auto simp: sbind_Inr)
  have "map_of index name = None \<Longrightarrow> orb = None" using first by simp
  then show ?case using Cons.IH [OF rest] loaded by auto
qed simp

lemma absorb_keys: "fst ` set (fst (absorb oe loaded orbs nxt)) = fst ` set orbs \<union> fst ` set loaded"
  by (induction oe loaded orbs nxt rule: absorb.induct) (auto simp: Let_def)

lemma absorb_none: "\<forall>(n, orb)\<in>set loaded. orb = None \<Longrightarrow> snd (absorb oe loaded orbs nxt) = nxt"
  by (induction oe loaded orbs nxt rule: absorb.induct) (auto simp: Let_def imports_of_def)

definition unseen :: "behavior_index \<Rightarrow> (string \<times> jval option) list \<Rightarrow> string set" where
  "unseen index orbs = fst ` set index - fst ` set orbs"

definition deps_measure :: "behavior_index \<Rightarrow> (string \<times> jval option) list \<Rightarrow> string list \<Rightarrow> nat" where
  "deps_measure index orbs frontier =
     3 * card (unseen index orbs) + (if frontier = [] then 0 else if set frontier \<inter> fst ` set orbs = {} then 1 else 2)"

text \<open>
  The rounds of \<open>behaviorDependencies\<close>, whatever the behaviors import: a round either sees a behavior of
  the index for the first time or is the last.
\<close>

lemma round_shrinks:
  assumes "frontier \<noteq> []" "load_frontier oe index frontier w = (Inr loaded, w')" "absorb oe loaded orbs [] = (orbs', nxt)"
  shows "deps_measure index orbs' (filter (\<lambda>n. map_of orbs' n = None) nxt) < deps_measure index orbs frontier"
proof -
  have loaded: "map fst loaded = frontier" "\<forall>(n, orb)\<in>set loaded. map_of index n = None \<longrightarrow> orb = None"
    using load_frontier_names [OF assms(2)] by auto
  have keys: "fst ` set orbs' = fst ` set orbs \<union> set frontier"
    using absorb_keys [of oe loaded orbs "[]"] assms(3) arg_cong [OF loaded(1), of set] by simp
  have apart: "set (filter (\<lambda>n. map_of orbs' n = None) nxt) \<inter> fst ` set orbs' = {}"
    by (auto simp: map_of_eq_None_iff)
  have fin: "finite (unseen index orbs)" by (simp add: unseen_def)
  have sub: "unseen index orbs' \<subseteq> unseen index orbs" using keys by (auto simp: unseen_def)
  have le: "card (unseen index orbs') \<le> card (unseen index orbs)" by (rule card_mono [OF fin sub])
  show ?thesis
  proof (cases "set frontier \<inter> unseen index orbs = {}")
    case False
    then have "unseen index orbs' \<subset> unseen index orbs" using sub keys by (auto simp: unseen_def)
    then have "card (unseen index orbs') < card (unseen index orbs)" by (rule psubset_card_mono [OF fin])
    then show ?thesis by (simp add: deps_measure_def)
  next
    case True
    show ?thesis
    proof (cases "set frontier \<inter> fst ` set orbs = {}")
      case False
      then show ?thesis using assms(1) le apart by (simp add: deps_measure_def)
    next
      case fresh: True
      then have "\<forall>n\<in>set frontier. map_of index n = None" using True fresh unfolding unseen_def map_of_eq_None_iff by blast
      have "n \<in> set frontier" if "(n, orb) \<in> set loaded" for n orb
        using arg_cong [OF loaded(1), of set] that by force
      then have "\<forall>(n, orb)\<in>set loaded. orb = None" using loaded(2) \<open>\<forall>n\<in>set frontier. map_of index n = None\<close> by blast
      then have "nxt = []" using absorb_none [of loaded oe orbs "[]"] assms(3) by simp
      then show ?thesis using assms(1) le by (simp add: deps_measure_def)
    qed
  qed
qed

function deps_loop :: "'f orb_env \<Rightarrow> behavior_index \<Rightarrow> (string \<times> jval option) list \<Rightarrow> string list
    \<Rightarrow> ('f, (string \<times> jval option) list) program_call" where
  "deps_loop oe index orbs frontier w =
     (if frontier = [] then (Inr orbs, w)
      else sbind (load_frontier oe index frontier) (\<lambda>loaded.
        let absorbed = absorb oe loaded orbs []
        in deps_loop oe index (fst absorbed) (filter (\<lambda>n. map_of (fst absorbed) n = None) (snd absorbed))) w)"
  by pat_completeness auto
termination
  by (relation "measure (\<lambda>(oe, index, orbs, frontier, w). deps_measure index orbs frontier)")
    (auto intro: round_shrinks)

declare deps_loop.simps [simp del]

definition behaviorDependencies :: "'f orb_env \<Rightarrow> jval \<Rightarrow> ('f, jval) program_call" where
  "behaviorDependencies oe program =
     sbind (installedBehaviorIndex oe (oe_packages oe) []) (\<lambda>index.
     sbind (deps_loop oe index [] (fold set_add (oe_imports oe program) [])) (\<lambda>orbs w.
       (Inr (oe_graph oe program
          (\<lambda>n. case map_of index n of Some (tier, _, _) \<Rightarrow> tier | None \<Rightarrow> ''unknown'')
          (\<lambda>n. Option.bind (map_of orbs n) id)
          (\<lambda>n. Option.bind (map_of index n) (\<lambda>(_, _, pattern). pattern))), w)))"

text \<open>What is seen in the end: everything the program imports, and everything that imports in turn.\<close>

lemma absorb_imports:
  "n \<in> set (snd (absorb oe loaded orbs nxt)) \<or> map_of (fst (absorb oe loaded orbs nxt)) n \<noteq> None"
  if "n \<in> set nxt \<or> (\<exists>(m, orb)\<in>set loaded. n \<in> set (imports_of oe orb))"
  using that
proof (induction oe loaded orbs nxt rule: absorb.induct)
  case (2 oe name orb loaded orbs nxt)
  let ?orbs = "AList.update name orb orbs"
  let ?nxt = "fold set_add (filter (\<lambda>n. map_of ?orbs n = None) (imports_of oe orb)) nxt"
  have set_fold: "set (fold set_add xs acc) = set acc \<union> set xs" for xs acc :: "string list"
    by (induction xs arbitrary: acc) auto
  have seen: "map_of ?orbs n \<noteq> None \<Longrightarrow> map_of (fst (absorb oe loaded ?orbs ?nxt)) n \<noteq> None"
    unfolding map_of_eq_None_iff absorb_keys by blast
  show ?case
  proof (cases "n \<in> set ?nxt \<or> (\<exists>(m, orb)\<in>set loaded. n \<in> set (imports_of oe orb))")
    case True
    from "2.IH" [OF refl this] show ?thesis by (simp add: Let_def)
  next
    case False
    then have "map_of ?orbs n \<noteq> None" using "2.prems" by (auto simp: set_fold)
    then show ?thesis using seen by (simp add: Let_def)
  qed
qed auto

lemma absorb_entry:
  "map_of (fst (absorb oe loaded orbs nxt)) n = Some x \<Longrightarrow> map_of orbs n = Some x \<or> (n, x) \<in> set loaded"
proof (induction oe loaded orbs nxt rule: absorb.induct)
  case (2 oe name orb loaded orbs nxt)
  then show ?case by (auto simp: Let_def update_conv' split: if_splits)
qed simp

definition closed_but :: "'f orb_env \<Rightarrow> (string \<times> jval option) list \<Rightarrow> string list \<Rightarrow> bool" where
  "closed_but oe orbs pending \<longleftrightarrow>
     (\<forall>n p m. map_of orbs n = Some (Some p) \<longrightarrow> m \<in> set (oe_imports oe p) \<longrightarrow> m \<in> fst ` set orbs \<or> m \<in> set pending)"

lemma closed_round:
  assumes "closed_but oe orbs frontier" "map fst loaded = frontier" "absorb oe loaded orbs [] = (orbs', nxt)"
  shows "closed_but oe orbs' (filter (\<lambda>n. map_of orbs' n = None) nxt)"
  unfolding closed_but_def
proof (intro allI impI)
  fix n p m assume n: "map_of orbs' n = Some (Some p)" and m: "m \<in> set (oe_imports oe p)"
  have keys: "fst ` set orbs' = fst ` set orbs \<union> set frontier"
    using absorb_keys [of oe loaded orbs "[]"] assms(3) arg_cong [OF assms(2), of set] by simp
  consider "map_of orbs n = Some (Some p)" | "(n, Some p) \<in> set loaded"
    using absorb_entry [of oe loaded orbs "[]" n "Some p"] n assms(3) by auto
  then show "m \<in> fst ` set orbs' \<or> m \<in> set (filter (\<lambda>n. map_of orbs' n = None) nxt)"
  proof cases
    case 1
    then show ?thesis using assms(1) m keys unfolding closed_but_def by blast
  next
    case 2
    then have "\<exists>(k, orb)\<in>set loaded. m \<in> set (imports_of oe orb)" using m by (force simp: imports_of_def)
    then show ?thesis using absorb_imports [of m "[]" loaded oe orbs] assms(3) by (auto simp: map_of_eq_None_iff)
  qed
qed

text \<open>
  The dependencies are complete when the rounds end: the behaviors asked for are there, and whatever one of
  them imports is there too, as a program or, when no package has it, as missing.
\<close>
theorem dependencies_closed:
  assumes "deps_loop oe index orbs frontier w = (Inr orbs', w')" "closed_but oe orbs frontier"
  shows "set frontier \<union> fst ` set orbs \<subseteq> fst ` set orbs' \<and> closed_but oe orbs' []"
  using assms
proof (induction oe index orbs frontier w arbitrary: orbs' w' rule: deps_loop.induct)
  case (1 oe index orbs frontier w)
  show ?case
  proof (cases "frontier = []")
    case True
    then show ?thesis using "1.prems" by (simp add: deps_loop.simps)
  next
    case False
    from "1.prems"(1) False obtain loaded w1 where loaded: "load_frontier oe index frontier w = (Inr loaded, w1)"
      and rest: "deps_loop oe index (fst (absorb oe loaded orbs [])) (filter (\<lambda>n. map_of (fst (absorb oe loaded orbs [])) n = None) (snd (absorb oe loaded orbs []))) w1 = (Inr orbs', w')"
      by (auto simp: deps_loop.simps [of oe index orbs frontier] sbind_Inr Let_def)
    obtain os nxt where absorbed: "absorb oe loaded orbs [] = (os, nxt)" by fastforce
    have names: "map fst loaded = frontier" using load_frontier_names [OF loaded] by blast
    have keys: "fst ` set os = fst ` set orbs \<union> set frontier"
      using absorb_keys [of oe loaded orbs "[]"] absorbed arg_cong [OF names, of set] by simp
    have "set (filter (\<lambda>n. map_of os n = None) nxt) \<union> fst ` set os \<subseteq> fst ` set orbs' \<and> closed_but oe orbs' []"
      using "1.IH" [OF False _ refl, of loaded w1] rest closed_round [OF "1.prems"(2) names absorbed] loaded absorbed by simp
    then show ?thesis using keys by auto
  qed
qed

section \<open>Mounting a value\<close>

datatype mount_result = Mounted jval string string "string option" | MountFailed string "jval list option"

definition value_denied :: "'f orb_env \<Rightarrow> string option \<Rightarrow> string \<Rightarrow> string option" where
  "value_denied oe caller behavior =
     workspaceAccessError (oe_processCwd oe) (map_option wh_root (oe_workspaces oe)) (oe_cwd oe) behavior caller"

definition inline_trait :: "string \<Rightarrow> trait_entry \<Rightarrow> bool" where
  "inline_trait trait t \<longleftrightarrow> t = TObject None (Some trait)"

definition page_entry_name :: "trait_entry \<Rightarrow> string option" where
  "page_entry_name t = (case t of TText n \<Rightarrow> Some n | TObject (Some ref) _ \<Rightarrow> Some ref | TObject None n \<Rightarrow> n)"

definition trait_owner :: "'f orb_env \<Rightarrow> jval \<Rightarrow> string \<Rightarrow> program_orbital option" where
  "trait_owner oe source trait = find (\<lambda>orbital. list_ex (inline_trait trait) (po_traits orbital)) (oe_orbitals oe source)"

definition trait_page :: "program_orbital \<Rightarrow> string \<Rightarrow> string option" where
  "trait_page owner trait =
     Option.bind (find (\<lambda>page. pp_path page \<noteq> None \<and> list_ex (\<lambda>t. page_entry_name t = Some trait) (pp_traits page)) (po_pages owner)) pp_path"

definition trait_overrides :: "'f orb_env \<Rightarrow> jobj \<Rightarrow> jobj" where
  "trait_overrides oe v =
     filter (\<lambda>(k, _). k \<notin> {''behavior'', ''trait'', ''config''}) v
     @ (case map_of v ''config'' of Some c \<Rightarrow> [(''config'', oe_mergeConfig oe c)] | None \<Rightarrow> [])"

definition mount_wrapper :: "string \<Rightarrow> string \<Rightarrow> string \<Rightarrow> jobj \<Rightarrow> jval" where
  "mount_wrapper behavior trait owner overrides =
     JObj [(''name'', JStr (''Mount'' @ trait)), (''orbitals'', JArr [JObj [
       (''name'', JStr ''Mounted''), (''entity'', JStr (''Bound.orbitals.'' @ owner @ ''.entity'')),
       (''reference'', JObj ([(''ref'', JStr (''Bound.orbitals.'' @ owner)), (''only'', JArr [JStr trait])]
          @ (if overrides \<noteq> [] then [(''traits'', JObj [(trait, JObj overrides)])] else []))),
       (''traits'', JArr []), (''pages'', JArr []),
       (''uses'', JArr [JObj [(''as'', JStr ''Bound''), (''from'', JStr behavior)]])]])]"

definition mount_check :: "'f orb_env \<Rightarrow> describe_target \<Rightarrow> string \<Rightarrow> string option \<Rightarrow> string \<Rightarrow> ('f, mount_result) program_call" where
  "mount_check oe v trait page path =
     sbind (orb_json oe (oe_report oe) ''mount'' [''validate'', ''--json'', ''--deny-warnings'', path]) (\<lambda>report.
       if \<not> pc_valid report \<or> pc_errors report @ pc_warnings report \<noteq> []
       then (\<lambda>w. (Inr (MountFailed (''trait value '' @ oe_literal oe v @ '' does not validate where it is bound'')
          (Some (pc_errors report @ pc_warnings report))), w))
       else sbind (orb_json oe (oe_program oe) ''mount'' [''resolve'', path]) (\<lambda>schema w.
         (Inr (Mounted schema ''Mounted'' (''Mounted'' @ trait) page), w)))"

definition mountTraitValue :: "'f orb_env \<Rightarrow> string \<Rightarrow> string \<Rightarrow> jobj \<Rightarrow> string option \<Rightarrow> ('f, mount_result) program_call" where
  "mountTraitValue oe behavior trait v caller w =
     (case value_denied oe caller behavior of
        Some e \<Rightarrow> (Inr (MountFailed e None), w)
      | None \<Rightarrow> (case behaviorSource oe behavior w of
            (Inl e, w1) \<Rightarrow> (Inr (MountFailed e None), w1)
          | (Inr source, w1) \<Rightarrow> (case trait_owner oe source trait of
                None \<Rightarrow> (Inr (MountFailed (''behavior \"'' @ behavior @ ''\" declares no inline trait \"'' @ trait @ ''\"'') None), w1)
              | Some owner \<Rightarrow>
                  let content = oe_stringify oe (mount_wrapper behavior trait (po_name owner) (trait_overrides oe v));
                      check = mount_check oe (TraitTarget behavior trait v) trait (trait_page owner trait)
                  in (if starts_with ''./'' behavior then withProjectFile oe ''mount.orb'' content check w1
                      else withTempFile oe ''mount.orb'' content check w1))))"

definition mountBehaviorValue :: "'f orb_env \<Rightarrow> string \<Rightarrow> string option \<Rightarrow> ('f, mount_result) program_call" where
  "mountBehaviorValue oe behavior caller w =
     (case value_denied oe caller behavior of
        Some e \<Rightarrow> (Inr (MountFailed e None), w)
      | None \<Rightarrow> sbind (behaviorFile oe behavior) (\<lambda>f. case f of
            Inl e \<Rightarrow> (\<lambda>w. (Inr (MountFailed e None), w))
          | Inr path \<Rightarrow> sbind (orb_json oe (oe_report oe) ''mount'' [''validate'', ''--json'', ''--deny-warnings'', path]) (\<lambda>report.
              if \<not> pc_valid report \<or> pc_errors report @ pc_warnings report \<noteq> []
              then (\<lambda>w. (Inr (MountFailed (''behavior '' @ behavior @ '' does not validate'') (Some (pc_errors report @ pc_warnings report))), w))
              else sbind (orb_json oe (oe_program oe) ''mount'' [''resolve'', path]) (\<lambda>schema w.
                (Inr (case oe_defaultPage oe schema of
                    None \<Rightarrow> MountFailed (''behavior '' @ behavior @ '' has no page to open'') None
                  | Some page \<Rightarrow> Mounted schema [] [] (Some page)), w)))) w)"

definition programResolveSchema :: "'f orb_env \<Rightarrow> jval \<Rightarrow> ('f, jval) program_call" where
  "programResolveSchema oe program =
     withProjectFile oe ''program.orb'' (oe_stringify oe program) (\<lambda>path. orb_json oe (oe_program oe) ''program/resolve'' [''resolve'', path])"

section \<open>\<open>runProgramEffect\<close>\<close>

definition arg_at :: "jval list \<Rightarrow> nat \<Rightarrow> jval option" where
  "arg_at args n = (if n < length args then Some (args ! n) else None)"

definition as_outcome :: "('a \<Rightarrow> effect_value) \<Rightarrow> ('f, 'a) program_call \<Rightarrow> ('f, effect_outcome) program_call" where
  "as_outcome f call = sbind call (\<lambda>x w. (Inr (EffectOk (f x)), w))"

definition fail_with :: "string \<Rightarrow> ('f, effect_outcome) program_call" where
  "fail_with e w = (Inr (EffectFailed e None), w)"

text \<open>\<open>programArg\<close>; an argument that is missing is handed to the parser as \<open>undefined\<close>, which it refuses like null.\<close>

definition programArg :: "'f orb_env \<Rightarrow> string \<Rightarrow> jval option \<Rightarrow> string + jval" where
  "programArg oe op v =
     (case oe_program oe (case v of Some x \<Rightarrow> x | None \<Rightarrow> JNull) of
        Inl e \<Rightarrow> Inl (op @ '': not a program: '' @ e)
      | Inr p \<Rightarrow> Inr p)"

definition with_program :: "'f orb_env \<Rightarrow> string \<Rightarrow> jval option \<Rightarrow> (jval \<Rightarrow> ('f, effect_outcome) program_call) \<Rightarrow> ('f, effect_outcome) program_call" where
  "with_program oe op v use = (case programArg oe op v of Inl e \<Rightarrow> fail_with e | Inr p \<Rightarrow> use p)"

definition with_target :: "'f orb_env \<Rightarrow> string \<Rightarrow> string option \<Rightarrow> jval option \<Rightarrow> (describe_target \<Rightarrow> ('f, effect_outcome) program_call) \<Rightarrow> ('f, effect_outcome) program_call" where
  "with_target oe op caller v use =
     (case oe_target oe v of
        Inl e \<Rightarrow> fail_with (op @ '': '' @ e)
      | Inr t \<Rightarrow> (case value_denied oe caller (target_behavior t) of
            Some e \<Rightarrow> fail_with (op @ '': '' @ e)
          | None \<Rightarrow> use t))"

definition LAYOUT_STRATEGIES :: "string list" where
  "LAYOUT_STRATEGIES = [''sidebar'', ''tabs'', ''dashboard'', ''wizard-flow'', ''single'']"

fun compose_opts :: "jobj \<Rightarrow> string option \<Rightarrow> string option \<Rightarrow> string option \<Rightarrow> string + compose_options" where
  "compose_opts [] appName layout theme =
     (case appName of
        None \<Rightarrow> Inl ''program/compose: options must name the app (appName)''
      | Some n \<Rightarrow> Inr \<lparr>co_appName = n, co_layout = layout, co_theme = theme\<rparr>)"
| "compose_opts ((key, v) # rest) appName layout theme =
     (if key = ''layout''
      then (case v of
          JStr l \<Rightarrow> if l \<in> set LAYOUT_STRATEGIES then compose_opts rest appName (Some l) theme
            else Inl (''program/compose: layout must be one of '' @ join_with '', '' LAYOUT_STRATEGIES)
        | _ \<Rightarrow> Inl (''program/compose: layout must be one of '' @ join_with '', '' LAYOUT_STRATEGIES))
      else case v of
          JStr t \<Rightarrow>
            if key = ''appName'' \<and> t \<noteq> [] then compose_opts rest (Some t) layout theme
            else if key = ''theme'' then compose_opts rest appName layout (if t \<noteq> [] then Some t else None)
            else Inl (''program/compose: unsupported option \"'' @ key @ ''\"'')
        | _ \<Rightarrow> Inl (''program/compose: unsupported option \"'' @ key @ ''\"''))"

record run_options =
  rn_workspace :: "string option"
  rn_prior :: "jval option"
  rn_final :: "bool option"

text \<open>The options of \<open>program/eval\<close>, and of \<open>program/validate\<close>, which takes no workspace.\<close>

fun run_opts :: "'f orb_env \<Rightarrow> string \<Rightarrow> bool \<Rightarrow> jobj \<Rightarrow> run_options \<Rightarrow> string + run_options" where
  "run_opts oe op takesWorkspace [] ro = Inr ro"
| "run_opts oe op takesWorkspace ((key, v) # rest) ro =
     (if key = ''workspace'' \<and> takesWorkspace
      then (case v of
          JStr i \<Rightarrow> if i = [] then Inl (op @ '': workspace must be a non-empty id'') else run_opts oe op takesWorkspace rest (ro\<lparr>rn_workspace := Some i\<rparr>)
        | _ \<Rightarrow> Inl (op @ '': workspace must be a non-empty id''))
      else if key = ''final''
      then (case v of JBool b \<Rightarrow> run_opts oe op takesWorkspace rest (ro\<lparr>rn_final := Some b\<rparr>) | _ \<Rightarrow> Inl (op @ '': final must be a boolean''))
      else if key = ''prior''
      then rbind (programArg oe (op @ '' prior'') (Some v)) (\<lambda>p. run_opts oe op takesWorkspace rest (ro\<lparr>rn_prior := Some p\<rparr>))
      else Inl (op @ '': unsupported option \"'' @ key @ ''\"''))"

definition read_opts :: "'f orb_env \<Rightarrow> string \<Rightarrow> bool \<Rightarrow> jval option \<Rightarrow> string + run_options" where
  "read_opts oe op takesWorkspace v =
     (case v of
        None \<Rightarrow> Inr \<lparr>rn_workspace = None, rn_prior = None, rn_final = None\<rparr>
      | Some JNull \<Rightarrow> Inr \<lparr>rn_workspace = None, rn_prior = None, rn_final = None\<rparr>
      | Some (JObj kvs) \<Rightarrow> run_opts oe op takesWorkspace kvs \<lparr>rn_workspace = None, rn_prior = None, rn_final = None\<rparr>
      | _ \<Rightarrow> Inl (op @ '': options must be an object''))"

definition compose_effect :: "'f orb_env \<Rightarrow> jval list \<Rightarrow> ('f, effect_outcome) program_call" where
  "compose_effect oe args =
     (case arg_at args 0 of
        Some (JArr raws) \<Rightarrow> (case mapM (\<lambda>raw. programArg oe ''program/compose'' (Some raw)) raws of
            Inl e \<Rightarrow> fail_with e
          | Inr programs \<Rightarrow> (case arg_at args 1 of
                Some (JObj kvs) \<Rightarrow> (case compose_opts kvs None None None of
                    Inl e \<Rightarrow> fail_with e
                  | Inr options \<Rightarrow> as_outcome JsonValue (programCompose oe programs options))
              | _ \<Rightarrow> fail_with ''program/compose: options must be an object with an appName''))
      | _ \<Rightarrow> fail_with ''program/compose: expected a list of programs'')"

definition eval_effect :: "'f orb_env \<Rightarrow> string option \<Rightarrow> jval list \<Rightarrow> ('f, effect_outcome) program_call" where
  "eval_effect oe caller args =
     with_program oe ''program/eval'' (arg_at args 0) (\<lambda>program. case read_opts oe ''program/eval'' True (arg_at args 1) of
         Inl e \<Rightarrow> fail_with e
       | Inr ro \<Rightarrow> sbind (programEval oe program (map_option (\<lambda>i. (i, caller)) (rn_workspace ro)) (rn_prior ro) (rn_final ro = Some True))
           (\<lambda>outcome w. (Inr (case outcome of
               Inr (behavior, traits) \<Rightarrow> EffectOk (Evaluated behavior traits)
             | Inl errors \<Rightarrow> EffectFailed (issue_list oe ''program/eval'' errors) (Some errors)), w)))"

definition run_effect :: "'f orb_env \<Rightarrow> string \<Rightarrow> jval list \<Rightarrow> string option \<Rightarrow> ('f, effect_outcome) program_call" where
  "run_effect oe op args caller =
     (if op = ''behavior/catalog'' then (case oe_scope oe (arg_at args 0) of
          Inl e \<Rightarrow> fail_with (''behavior/catalog: '' @ e) | Inr scope \<Rightarrow> as_outcome JsonValue (behaviorCatalog oe scope))
      else if op = ''behavior/describe'' then with_target oe op caller (arg_at args 0) (\<lambda>t. as_outcome JsonValue (behaviorDescribe oe t))
      else if op = ''behavior/source'' then with_target oe op caller (arg_at args 0) (\<lambda>t. as_outcome JsonValue (behaviorSource oe (target_behavior t)))
      else if op = ''behavior/resolve'' then with_target oe op caller (arg_at args 0) (\<lambda>t. sbind (behaviorResolve oe (target_behavior t)) (\<lambda>r.
          case r of Inl e \<Rightarrow> fail_with (op @ '': '' @ e) | Inr v \<Rightarrow> (\<lambda>w. (Inr (EffectOk (JsonValue v)), w))))
      else if op = ''program/step'' then with_program oe op (arg_at args 0) (\<lambda>program. case oe_steps oe (arg_at args 1) of
          Inl e \<Rightarrow> fail_with (op @ '': '' @ e)
        | Inr requests \<Rightarrow> sbind (programStep oe program requests) (\<lambda>played.
            case played of Inl e \<Rightarrow> fail_with (op @ '': '' @ e) | Inr vs \<Rightarrow> (\<lambda>w. (Inr (EffectOk (StepsValue vs)), w))))
      else if op = ''behavior/dependencies'' then with_program oe op (arg_at args 0) (\<lambda>program. as_outcome JsonValue (behaviorDependencies oe program))
      else if op = ''program/read'' then (case arg_at args 0 of
          Some (JStr source) \<Rightarrow> programReadOutcome oe source | _ \<Rightarrow> fail_with ''program/read: expected .lolo text'')
      else if op = ''program/print'' then with_program oe op (arg_at args 0) (\<lambda>program. as_outcome TextValue (programPrint oe program))
      else if op = ''program/compose'' then compose_effect oe args
      else if op = ''program/validate'' then with_program oe op (arg_at args 0) (\<lambda>program. case read_opts oe op False (arg_at args 1) of
          Inl e \<Rightarrow> fail_with e
        | Inr ro \<Rightarrow> as_outcome CheckValue (programValidate oe program (rn_prior ro) (rn_final ro = Some True)))
      else eval_effect oe caller args)"

text \<open>Whatever throws comes back as a failure.\<close>

definition runProgramEffect :: "'f orb_env \<Rightarrow> string \<Rightarrow> jval list \<Rightarrow> string option \<Rightarrow> 'f program_world \<Rightarrow> effect_outcome \<times> 'f program_world" where
  "runProgramEffect oe op args caller w =
     (case run_effect oe op args caller w of (Inl e, w1) \<Rightarrow> (EffectFailed e None, w1) | (Inr outcome, w1) \<Rightarrow> (outcome, w1))"

section \<open>Other people's workspaces\<close>



section \<open>What composing reads\<close>

lemma load_sources_ran:
  "load_sources oe srcs loaded w = (Inr loaded', w') \<Longrightarrow> pw_ran w' = pw_ran w @ map (\<lambda>src. [''behaviors'', ''source'', ''--json'', src]) srcs"
proof (induction srcs arbitrary: loaded w)
  case (Cons src srcs)
  then obtain p w1 where src: "behaviorSource oe src w = (Inr p, w1)"
    and rest: "load_sources oe srcs (AList.update (behaviorName src) p loaded) w1 = (Inr loaded', w')"
    by (auto simp: sbind_Inr)
  have "pw_ran w1 = pw_ran w @ [[''behaviors'', ''source'', ''--json'', src]]"
    using src by (auto simp: behaviorSource_def orb_json_def runOrb_def sbind_def split: prod.splits)
  then show ?case using Cons.IH [OF rest] by simp
qed simp

text \<open>
  Composing reads the source of every behavior the programs use, once each, and asks nobody whether the caller
  may read it: \<open>program/compose\<close> gives the same answer to every caller, also for a behavior in another
  user's workspace, which \<open>behavior/source\<close> refuses.
\<close>
theorem compose_asks_nobody:
  "runProgramEffect oe ''program/compose'' args caller w = runProgramEffect oe ''program/compose'' args other w
   \<and> (programCompose oe programs options w = (Inr v, w') \<longrightarrow>
        pw_ran w' = pw_ran w @ map (\<lambda>src. [''behaviors'', ''source'', ''--json'', src]) (compose_sources oe programs))"
  by (auto simp: runProgramEffect_def run_effect_def programCompose_def sbind_Inr Let_def dest!: load_sources_ran)

section \<open>What is published\<close>

lemma runOrb_published [simp]: "pw_published (snd (runOrb oe args w)) = pw_published w"
  by (simp add: runOrb_def split: prod.split)

lemma on_disk_published [simp]: "pw_published (on_disk f w) = pw_published w"
  by (simp add: on_disk_def)

definition silent :: "('f, 'a) program_call \<Rightarrow> bool" where
  "silent call \<longleftrightarrow> (\<forall>w. pw_published (snd (call w)) = pw_published w)"


lemma silent_bind: "silent call \<Longrightarrow> (\<And>x. silent (f x)) \<Longrightarrow> silent (sbind call f)"
  unfolding silent_def sbind_def by (auto split: prod.split sum.split) (metis snd_conv)+

lemma silent_runOrb [simp]: "silent (runOrb oe args)"
  by (simp add: silent_def)

lemma silent_pure [simp]: "silent (\<lambda>w. (r w, w))"
  by (simp add: silent_def)

lemma silent_orb_json [simp]: "silent (orb_json oe schema what args)"
  unfolding orb_json_def by (rule silent_bind) simp_all










section \<open>A host to try\<close>

text \<open>
  A disk is a list of files. \<open>orb stamp\<close> copies the program, \<open>orb validate\<close> finds nothing, and the
  parsers take what they are given; bob's workspace is under \<open>/app/workspaces\<close>.
\<close>

definition try_orb :: "string list \<Rightarrow> (string \<times> string) list \<Rightarrow> orb_run \<times> (string \<times> string) list" where
  "try_orb args fs =
     (\<lparr>or_stdout = [], or_stderr = [], or_code = 0\<rparr>,
      if hd args = ''stamp'' then AList.update (args ! 3) (case map_of fs (args ! 1) of Some t \<Rightarrow> t | None \<Rightarrow> []) fs else fs)"

definition try_host :: "(string \<times> string) list orb_env" where
  "try_host =
     \<lparr>oe_processCwd = ''/'', oe_cwd = ''/app'', oe_tmpdir = ''/tmp'', oe_orb = try_orb, oe_write = AList.update,
      oe_rm = (\<lambda>p fs. filter (\<lambda>(q, _). \<not> starts_with p q) fs), oe_read = (\<lambda>p fs. map_of fs p), oe_exists = (\<lambda>p fs. map_of fs p \<noteq> None),
      oe_json = (\<lambda>t. Inr (JStr t)), oe_stringify = (\<lambda>v. case v of JStr t \<Rightarrow> t | _ \<Rightarrow> []), oe_pretty = (\<lambda>v. case v of JStr t \<Rightarrow> t | _ \<Rightarrow> []),
      oe_trim = id, oe_program = Inr, oe_catalog = Inr, oe_traitDescription = Inr, oe_behaviorDescription = Inr,
      oe_report = (\<lambda>v. Inr \<lparr>pc_valid = True, pc_errors = [], pc_warnings = []\<rparr>), oe_stepReport = (\<lambda>v. Inr (Inr [])),
      oe_scope = (\<lambda>v. Inr ([], [])), oe_target = (\<lambda>v. case v of Some (JStr b) \<Rightarrow> Inr (BehaviorTarget b) | _ \<Rightarrow> Inl ''Required''),
      oe_steps = (\<lambda>v. Inr []), oe_literal = target_behavior, oe_name = (\<lambda>v. ''Shop''), oe_orbitals = (\<lambda>v. []), oe_message = (\<lambda>v. []),
      oe_compose = (\<lambda>ps c. Inr []), oe_packages = [], oe_entries = (\<lambda>v. Inr []), oe_imports = (\<lambda>v. []),
      oe_graph = (\<lambda>p t b q. JNull), oe_mergeConfig = id, oe_defaultPage = (\<lambda>v. None),
      oe_workspaces = Some \<lparr>wh_root = ''/app/workspaces'', wh_open = (\<lambda>i p fs. (Inr (''/app/workspaces/'' @ p @ ''/'' @ i), fs)), wh_snapshot = (\<lambda>d r fs. fs)\<rparr>\<rparr>"

definition try_world :: "(string \<times> string) list program_world" where
  "try_world = \<lparr>pw_fs = [], pw_fresh = 0, pw_ran = [], pw_published = []\<rparr>"



section \<open>A program named \<open>prior\<close>\<close>

text \<open>
  The prior version is written to \<open>prior.orb\<close> beside the program's own file: for a program named \<open>prior\<close> that
  is the same file. Whatever the program says, the prior version is what is stamped, validated and published.
\<close>
theorem prior_named_program_lost:
  assumes "\<forall>p a b fs. oe_write oe p a (oe_write oe p b fs) = oe_write oe p a fs"
    and "oe_name oe program = ''prior''" "oe_name oe other = ''prior''"
  shows "stampAndValidate oe program (Some prior) final dir caller = stampAndValidate oe other (Some prior) final dir caller"
  using assms by (simp add: stampAndValidate_def Let_def on_disk_def fun_eq_iff)

theorem prior_named_program_lost_witness:
  "pw_published (snd (programEval (try_host\<lparr>oe_name := \<lambda>v. ''prior''\<rparr>) (JStr ''new'') None (Some (JStr ''old'')) False try_world))
     = [(''/app/orbitals/prior.orb'', ''old'')]"
  by code_simp

end
