(* ===== verification/Spec2Isabelle.thy ===== *)
theory Spec2Isabelle
  imports EventBus Routing CircuitStore Compose Decode OAuthWire Engine Ticks Payload TraitIndex InFlight Secrets KernelAnswers Registration ServerRegistry ServerDispatch
    ChannelTransport UnifiedLoader Residence HostQueue PushChannels ServerBridge UiHelpers PerfRing Preview BrowserStore ProgramHost
begin

text \<open>
  A model of the TypeScript runtime of Almadar.
\<close>

end
